(* ===== verification/Prelude.thy ===== *)
theory Prelude
  imports Main "HOL-Library.Sublist" "HOL-Library.Char_ord" "HOL-Library.List_Lexorder" "HOL-Library.Word"
begin

text \<open>
  What every component shares.  A Rust \<open>String\<close>/\<open>&str\<close> is its sequence of UTF-8 bytes, a
  \<open>string\<close> whose elements are bytes; the functions of the Rust standard library the sources call
  on strings (\<open>trim\<close>, \<open>lines\<close>, \<open>split\<close>, \<open>split_once\<close>, \<open>find\<close>, \<open>parse::<u64>\<close>, \<open>to_string\<close>
  of integers, the ASCII case functions) are defined on the bytes.  White space is the Unicode
  \<open>White_Space\<close> property in its UTF-8 encoding.  The theory also holds the interfaces several
  components provide: a search for an unused name, a bounded log, a machine whose operations
  keep an invariant and a store whose operations are scoped by a vault name.
\<close>

named_theorems str_simps
named_theorems inv_intros

type_synonym bytes = string

section \<open>White space and trimming\<close>

definition ascii_ws :: "char \<Rightarrow> bool" where
  "ascii_ws c \<longleftrightarrow> c \<in> {CHR 0x09, CHR 0x0A, CHR 0x0B, CHR 0x0C, CHR 0x0D, CHR 0x20}"

definition ws2 :: "char \<Rightarrow> char \<Rightarrow> bool" where
  "ws2 a b \<longleftrightarrow> a = CHR 0xC2 \<and> (b = CHR 0x85 \<or> b = CHR 0xA0)"

definition ws3 :: "char \<Rightarrow> char \<Rightarrow> char \<Rightarrow> bool" where
  "ws3 a b c \<longleftrightarrow>
     (a = CHR 0xE1 \<and> b = CHR 0x9A \<and> c = CHR 0x80) \<or>
     (a = CHR 0xE2 \<and> b = CHR 0x80 \<and>
        c \<in> {CHR 0x80, CHR 0x81, CHR 0x82, CHR 0x83, CHR 0x84, CHR 0x85, CHR 0x86, CHR 0x87,
             CHR 0x88, CHR 0x89, CHR 0x8A, CHR 0xA8, CHR 0xA9, CHR 0xAF}) \<or>
     (a = CHR 0xE2 \<and> b = CHR 0x81 \<and> c = CHR 0x9F) \<or>
     (a = CHR 0xE3 \<and> b = CHR 0x80 \<and> c = CHR 0x80)"

definition ws2_rev :: "char \<Rightarrow> char \<Rightarrow> bool" where
  "ws2_rev b a \<longleftrightarrow> ws2 a b"

definition ws3_rev :: "char \<Rightarrow> char \<Rightarrow> char \<Rightarrow> bool" where
  "ws3_rev c b a \<longleftrightarrow> ws3 a b c"

text \<open>The number of bytes of the white-space character a text starts with (0: none).\<close>

definition ws_len :: "(char \<Rightarrow> char \<Rightarrow> bool) \<Rightarrow> (char \<Rightarrow> char \<Rightarrow> char \<Rightarrow> bool) \<Rightarrow> string \<Rightarrow> nat" where
  "ws_len p2 p3 s =
     (case s of [] \<Rightarrow> 0
      | a # t \<Rightarrow> if ascii_ws a then 1
          else (case t of [] \<Rightarrow> 0
                | b # u \<Rightarrow> if p2 a b then 2
                    else (case u of [] \<Rightarrow> 0 | c # v \<Rightarrow> if p3 a b c then 3 else 0)))"

lemma ws_len_le: "ws_len p2 p3 s \<le> length s"
  by (auto simp: ws_len_def split: list.splits)

function strip_ws :: "(char \<Rightarrow> char \<Rightarrow> bool) \<Rightarrow> (char \<Rightarrow> char \<Rightarrow> char \<Rightarrow> bool) \<Rightarrow> string \<Rightarrow> string" where
  "strip_ws p2 p3 s = (if ws_len p2 p3 s = 0 then s else strip_ws p2 p3 (drop (ws_len p2 p3 s) s))"
  by pat_completeness auto
termination
proof (relation "measure (\<lambda>(p2, p3, s). length s)", goal_cases)
  case (2 p2 p3 s)
  with ws_len_le [of p2 p3 s] show ?case by auto
qed simp

declare strip_ws.simps [simp del]

definition trim_start :: "string \<Rightarrow> string" where
  "trim_start s = strip_ws ws2 ws3 s"

definition trim_end :: "string \<Rightarrow> string" where
  "trim_end s = rev (strip_ws ws2_rev ws3_rev (rev s))"

definition trim :: "string \<Rightarrow> string" where
  "trim s = trim_end (trim_start s)"

text \<open>Printable ASCII bytes: never part of an encoded white-space character.\<close>

definition solid :: "char \<Rightarrow> bool" where
  "solid c \<longleftrightarrow> 33 \<le> (of_char c :: nat) \<and> (of_char c :: nat) \<le> 126"

lemma solid_not_ws: "solid a \<Longrightarrow> \<not> ascii_ws a"
  by (auto simp: solid_def ascii_ws_def)

lemma solid_not_ws2: "solid a \<Longrightarrow> \<not> ws2 a b" "solid a \<Longrightarrow> \<not> ws2_rev a b"
  by (auto simp: solid_def ws2_def ws2_rev_def)

lemma solid_not_ws3: "solid a \<Longrightarrow> \<not> ws3 a b c" "solid a \<Longrightarrow> \<not> ws3_rev a b c"
  by (auto simp: solid_def ws3_def ws3_rev_def)

lemma ws_len_solid [simp]:
  "solid a \<Longrightarrow> ws_len ws2 ws3 (a # s) = 0" "solid a \<Longrightarrow> ws_len ws2_rev ws3_rev (a # s) = 0"
  by (simp_all add: ws_len_def solid_not_ws solid_not_ws2 solid_not_ws3 split: list.split)

lemma ws_len_Nil [simp]: "ws_len p2 p3 [] = 0"
  by (simp add: ws_len_def)

lemma ws_len_append: "ws_len p2 p3 s \<noteq> 0 \<Longrightarrow> ws_len p2 p3 (s @ t) \<noteq> 0"
  by (auto simp: ws_len_def split: list.splits if_splits)

lemma strip_ws_Nil [simp]: "strip_ws p2 p3 [] = []"
  by (subst strip_ws.simps) simp

lemma strip_ws_fix: "ws_len p2 p3 s = 0 \<Longrightarrow> strip_ws p2 p3 s = s"
  by (subst strip_ws.simps) simp

lemma strip_ws_len0 [simp]: "ws_len p2 p3 (strip_ws p2 p3 s) = 0"
proof (induction p2 p3 s rule: strip_ws.induct)
  case (1 p2 p3 s)
  then show ?case by (subst strip_ws.simps) auto
qed

lemma strip_ws_idem [simp]: "strip_ws p2 p3 (strip_ws p2 p3 s) = strip_ws p2 p3 s"
  by (simp add: strip_ws_fix)

lemma strip_ws_suffix: "suffix (strip_ws p2 p3 s) s"
proof (induction p2 p3 s rule: strip_ws.induct)
  case (1 p2 p3 s)
  show ?case
  proof (cases "ws_len p2 p3 s = 0")
    case True
    then show ?thesis by (simp add: strip_ws_fix)
  next
    case False
    then have "suffix (strip_ws p2 p3 (drop (ws_len p2 p3 s) s)) (drop (ws_len p2 p3 s) s)"
      by (rule "1.IH")
    then have "suffix (strip_ws p2 p3 (drop (ws_len p2 p3 s) s)) s"
      using suffix_drop suffix_order.trans by blast
    with False show ?thesis by (subst strip_ws.simps) simp
  qed
qed

lemma trim_Nil [simp]: "trim [] = []" "trim_start [] = []" "trim_end [] = []"
  by (simp_all add: trim_def trim_start_def trim_end_def)

lemma trim_start_suffix: "suffix (trim_start s) s"
  by (simp add: trim_start_def strip_ws_suffix)

lemma trim_end_prefix: "prefix (trim_end s) s"
  using strip_ws_suffix [of ws2_rev ws3_rev "rev s"] by (simp add: trim_end_def suffix_to_prefix)

lemma trim_idem [simp]: "trim (trim s) = trim s"
proof -
  obtain r where r: "trim_start s = trim_end (trim_start s) @ r"
    using trim_end_prefix by (auto simp: prefix_def)
  have "ws_len ws2 ws3 (trim_start s) = 0" by (simp add: trim_start_def)
  then have "ws_len ws2 ws3 (trim_end (trim_start s)) = 0"
    using r ws_len_append by metis
  then have "trim_start (trim_end (trim_start s)) = trim_end (trim_start s)"
    by (simp add: trim_start_def strip_ws_fix)
  then show ?thesis by (simp add: trim_def trim_end_def)
qed

lemma trim_start_solid: "s \<noteq> [] \<Longrightarrow> solid (hd s) \<Longrightarrow> trim_start s = s"
  by (cases s) (simp_all add: trim_start_def strip_ws_fix)

lemma trim_end_solid: "s \<noteq> [] \<Longrightarrow> solid (last s) \<Longrightarrow> trim_end s = s"
  by (cases s rule: rev_cases) (simp_all add: trim_end_def strip_ws_fix)

lemma trim_solid: "s \<noteq> [] \<Longrightarrow> solid (hd s) \<Longrightarrow> solid (last s) \<Longrightarrow> trim s = s"
  by (simp add: trim_def trim_start_solid trim_end_solid)

lemma ws_len_snoc:
  assumes "ascii_ws c" and "m \<noteq> []" and "\<And>a. \<not> p2 a c" and "\<And>a b. \<not> p3 a b c"
  shows "ws_len p2 p3 (m @ [c]) = ws_len p2 p3 m"
  using assms by (auto simp: ws_len_def split: list.splits)

lemma strip_ws_snoc:
  assumes "ascii_ws c" and "\<And>a. \<not> p2 a c" and "\<And>a b. \<not> p3 a b c"
  shows "strip_ws p2 p3 (m @ [c]) = (if strip_ws p2 p3 m = [] then [] else strip_ws p2 p3 m @ [c])"
  using assms
proof (induction p2 p3 m rule: strip_ws.induct)
  case (1 p2 p3 m)
  show ?case
  proof (cases "m = []")
    case True
    have "ws_len p2 p3 [c] = 1" using "1.prems" by (simp add: ws_len_def)
    then have "strip_ws p2 p3 [c] = []" by (subst strip_ws.simps) simp
    with True show ?thesis by simp
  next
    case m: False
    have len: "ws_len p2 p3 (m @ [c]) = ws_len p2 p3 m"
      by (rule ws_len_snoc) (use "1.prems" m in auto)
    show ?thesis
    proof (cases "ws_len p2 p3 m = 0")
      case True
      with len m show ?thesis by (simp add: strip_ws_fix)
    next
      case False
      with 1 have IH: "strip_ws p2 p3 (drop (ws_len p2 p3 m) m @ [c]) =
          (if strip_ws p2 p3 (drop (ws_len p2 p3 m) m) = [] then []
           else strip_ws p2 p3 (drop (ws_len p2 p3 m) m) @ [c])" by simp
      have unf: "strip_ws p2 p3 m = strip_ws p2 p3 (drop (ws_len p2 p3 m) m)"
        using False by (subst strip_ws.simps) simp
      have "strip_ws p2 p3 (m @ [c]) = strip_ws p2 p3 (drop (ws_len p2 p3 m) m @ [c])"
        using False len ws_len_le [of p2 p3 m] by (subst strip_ws.simps) simp
      with IH unf show ?thesis by simp
    qed
  qed
qed

lemma trim_snoc_ws:
  assumes "ascii_ws c"
  shows "trim (m @ [c]) = trim m"
proof -
  have c2: "\<not> ws2 a c" for a using assms by (auto simp: ascii_ws_def ws2_def)
  have c3: "\<not> ws3 a b c" for a b using assms by (auto simp: ascii_ws_def ws3_def)
  have "trim_start (m @ [c]) = (if trim_start m = [] then [] else trim_start m @ [c])"
    unfolding trim_start_def by (rule strip_ws_snoc) (use assms c2 c3 in auto)
  moreover have "trim_end (s @ [c]) = trim_end s" for s
  proof -
    have "ws_len ws2_rev ws3_rev (c # rev s) = 1" using assms by (simp add: ws_len_def)
    then have "strip_ws ws2_rev ws3_rev (c # rev s) = strip_ws ws2_rev ws3_rev (rev s)"
      by (subst strip_ws.simps) simp
    then show ?thesis by (simp add: trim_end_def)
  qed
  ultimately show ?thesis by (auto simp: trim_def)
qed

section \<open>Searching and splitting\<close>

fun find_str :: "string \<Rightarrow> string \<Rightarrow> nat option" where
  "find_str p [] = (if p = [] then Some 0 else None)"
| "find_str p (c # s) = (if prefix p (c # s) then Some 0 else map_option Suc (find_str p s))"

definition contains_str :: "string \<Rightarrow> string \<Rightarrow> bool" where
  "contains_str s p \<longleftrightarrow> find_str p s \<noteq> None"

definition split_once :: "string \<Rightarrow> string \<Rightarrow> (string \<times> string) option" where
  "split_once p s = map_option (\<lambda>i. (take i s, drop (i + length p) s)) (find_str p s)"

definition rsplit_once :: "char \<Rightarrow> string \<Rightarrow> (string \<times> string) option" where
  "rsplit_once c s =
     (if c \<in> set s
      then Some (rev (tl (dropWhile (\<lambda>x. x \<noteq> c) (rev s))), rev (takeWhile (\<lambda>x. x \<noteq> c) (rev s)))
      else None)"

fun split_char :: "char \<Rightarrow> string \<Rightarrow> string list" where
  "split_char c [] = [[]]"
| "split_char c (x # s) =
     (if x = c then [] # split_char c s
      else (case split_char c s of [] \<Rightarrow> [[x]] | w # ws \<Rightarrow> (x # w) # ws))"

fun join_str :: "string \<Rightarrow> string list \<Rightarrow> string" where
  "join_str sep [] = []"
| "join_str sep [w] = w"
| "join_str sep (w # v # ws) = w @ sep @ join_str sep (v # ws)"

lemma split_char_ne [simp]: "split_char c s \<noteq> []"
  by (induction s) (auto split: list.splits)

lemma split_char_no_sep: "w \<in> set (split_char c s) \<Longrightarrow> c \<notin> set w"
  by (induction s arbitrary: w) (auto split: if_splits list.splits)

lemma join_split_char [simp]: "join_str [c] (split_char c s) = s"
proof (induction s)
  case (Cons x s)
  then show ?case by (cases "split_char c s" rule: remdups_adj.cases) auto
qed simp

lemma rsplit_once_app: "c \<notin> set b \<Longrightarrow> rsplit_once c (a @ c # b) = Some (a, b)"
proof -
  assume b: "c \<notin> set b"
  then have "x \<noteq> c" if "x \<in> set (rev b)" for x using that by auto
  then have "takeWhile (\<lambda>x. x \<noteq> c) (rev b @ c # rev a) = rev b @ takeWhile (\<lambda>x. x \<noteq> c) (c # rev a)"
    "dropWhile (\<lambda>x. x \<noteq> c) (rev b @ c # rev a) = dropWhile (\<lambda>x. x \<noteq> c) (c # rev a)"
    by (intro takeWhile_append2 dropWhile_append2; blast)+
  then show ?thesis by (simp add: rsplit_once_def)
qed

lemma split_char_none: "c \<notin> set s \<Longrightarrow> split_char c s = [s]"
  by (induction s) auto

lemma split_char_app: "c \<notin> set s \<Longrightarrow> split_char c (s @ c # t) = s # split_char c t"
  by (induction s) auto

lemma split_join_char: "(\<forall>w \<in> set ws. c \<notin> set w) \<Longrightarrow> ws \<noteq> [] \<Longrightarrow> split_char c (join_str [c] ws) = ws"
proof (induction ws)
  case (Cons w ws)
  show ?case
  proof (cases ws)
    case Nil
    with Cons.prems show ?thesis by (simp add: split_char_none)
  next
    case (Cons v vs)
    with Cons.IH Cons.prems have "split_char c (join_str [c] ws) = ws" by simp
    with Cons Cons.prems split_char_app [of c w "join_str [c] ws"] show ?thesis by simp
  qed
qed simp

text \<open>\<open>str::split_inclusive('\<newline>')\<close> and \<open>str::lines\<close>.\<close>

fun split_inclusive :: "string \<Rightarrow> string list" where
  "split_inclusive [] = []"
| "split_inclusive (x # s) =
     (if x = CHR 0x0A then [x] # split_inclusive s
      else (case split_inclusive s of [] \<Rightarrow> [[x]] | w # ws \<Rightarrow> (x # w) # ws))"

definition strip_nl :: "string \<Rightarrow> string" where
  "strip_nl l =
     (if l \<noteq> [] \<and> last l = CHR 0x0A
      then (let m = butlast l in if m \<noteq> [] \<and> last m = CHR 0x0D then butlast m else m)
      else l)"

definition lines_of :: "string \<Rightarrow> string list" where
  "lines_of s = map strip_nl (split_inclusive s)"

lemma concat_split_inclusive [simp]: "concat (split_inclusive s) = s"
  by (induction s) (auto split: list.splits)

lemma split_inclusive_eq_Nil [simp]: "split_inclusive s = [] \<longleftrightarrow> s = []"
  by (cases s) (auto split: list.splits)

lemma split_inclusive_ne: "w \<in> set (split_inclusive s) \<Longrightarrow> w \<noteq> []"
  by (induction s arbitrary: w) (auto split: if_splits list.splits)

text \<open>Splitting distributes over a join at a line boundary.\<close>

definition at_boundary :: "string \<Rightarrow> bool" where
  "at_boundary s \<longleftrightarrow> s = [] \<or> last s = CHR 0x0A"

lemma split_inclusive_append:
  "at_boundary s \<Longrightarrow> split_inclusive (s @ t) = split_inclusive s @ split_inclusive t"
proof (induction s)
  case (Cons x s)
  show ?case
  proof (cases "s = []")
    case True
    with Cons.prems show ?thesis by (simp add: at_boundary_def)
  next
    case False
    with Cons.prems have "at_boundary s" by (simp add: at_boundary_def)
    then have "split_inclusive (s @ t) = split_inclusive s @ split_inclusive t" by (rule Cons.IH)
    with False show ?thesis by (auto split: list.splits)
  qed
qed simp

lemma at_boundary_append [simp]:
  "at_boundary [] " "at_boundary (s @ [CHR 0x0A])" "t \<noteq> [] \<Longrightarrow> at_boundary (s @ t) = at_boundary t"
  by (auto simp: at_boundary_def)

lemma split_inclusive_line:
  "CHR 0x0A \<notin> set w \<Longrightarrow> split_inclusive (w @ CHR 0x0A # s) = (w @ [CHR 0x0A]) # split_inclusive s"
  by (induction w) auto

lemma at_boundary_concat:
  "split_inclusive s = xs @ y # ys \<Longrightarrow> at_boundary (concat xs)"
proof (induction s arbitrary: xs)
  case (Cons x s)
  show ?case
  proof (cases "x = CHR 0x0A")
    case True
    show ?thesis
    proof (cases xs)
      case (Cons z xs')
      with Cons.prems True have z: "z = [x]" "split_inclusive s = xs' @ y # ys" by auto
      then have "at_boundary (concat xs')" using Cons.IH by blast
      with Cons z True show ?thesis by (cases "concat xs' = []") (auto simp: at_boundary_def)
    qed simp
  next
    case False
    then obtain w ws where w: "split_inclusive (x # s) = (x # w) # ws"
        "split_inclusive s = [] \<and> w = [] \<and> ws = [] \<or> split_inclusive s = w # ws"
      by (cases "split_inclusive s") auto
    show ?thesis
    proof (cases xs)
      case Nil
      then show ?thesis by simp
    next
      case (Cons z zs)
      with Cons.prems w have z: "z = x # w" "ws = zs @ y # ys" by auto
      with w have s: "split_inclusive s = (w # zs) @ y # ys" by auto
      then have "at_boundary (concat (w # zs))" by (rule Cons.IH)
      moreover from s have "w \<noteq> []" using split_inclusive_ne [of w s] by auto
      ultimately show ?thesis using z \<open>xs = z # zs\<close> by (auto simp: at_boundary_def)
    qed
  qed
qed simp

lemma trim_strip_nl: "trim (strip_nl l) = trim l"
proof -
  have nl: "ascii_ws CHR 0x0A" "ascii_ws CHR 0x0D" by (simp_all add: ascii_ws_def)
  show ?thesis
  proof (cases "l \<noteq> [] \<and> last l = CHR 0x0A")
    case True
    then obtain m where l: "l = m @ [CHR 0x0A]" by (metis append_butlast_last_id)
    show ?thesis
    proof (cases "m \<noteq> [] \<and> last m = CHR 0x0D")
      case True
      then obtain k where "m = k @ [CHR 0x0D]" by (metis append_butlast_last_id)
      with l nl show ?thesis by (simp add: strip_nl_def trim_snoc_ws flip: append_assoc)
    next
      case False
      with l nl show ?thesis by (auto simp: strip_nl_def Let_def trim_snoc_ws)
    qed
  next
    case False
    then show ?thesis by (auto simp: strip_nl_def)
  qed
qed

lemma split_inclusive_tl: "split_inclusive s = x # rest \<Longrightarrow> split_inclusive (concat rest) = rest"
proof (induction s arbitrary: x rest)
  case (Cons c s)
  then show ?case by (auto split: if_splits list.splits)
qed simp

lemma split_inclusive_drop: "split_inclusive s = xs @ ys \<Longrightarrow> split_inclusive (concat ys) = ys"
proof (induction xs arbitrary: s)
  case Nil
  then have "concat ys = s" using concat_split_inclusive [of s] by simp
  with Nil show ?case by simp
next
  case (Cons x xs)
  then have "split_inclusive (concat (xs @ ys)) = xs @ ys" by (intro split_inclusive_tl) simp
  then show ?case by (rule Cons.IH)
qed

lemma split_inclusive_take: "split_inclusive s = xs @ ys \<Longrightarrow> split_inclusive (concat xs) = xs"
proof (cases ys)
  case Nil
  assume "split_inclusive s = xs @ ys"
  with Nil show ?thesis using concat_split_inclusive [of s] by simp
next
  case (Cons y ys')
  assume s: "split_inclusive s = xs @ ys"
  then have "at_boundary (concat xs)" using Cons at_boundary_concat by metis
  then have "split_inclusive (concat xs @ concat ys) = split_inclusive (concat xs) @ split_inclusive (concat ys)"
    by (rule split_inclusive_append)
  moreover have "concat xs @ concat ys = s" using s concat_split_inclusive [of s] by simp
  ultimately show ?thesis using s split_inclusive_drop [OF s] by simp
qed

lemma split_inclusive_snoc_nl:
  "\<not> at_boundary s \<Longrightarrow> \<exists>ls l. split_inclusive s = ls @ [l] \<and> split_inclusive (s @ [CHR 0x0A]) = ls @ [l @ [CHR 0x0A]]"
proof (induction s)
  case (Cons c s)
  show ?case
  proof (cases "s = []")
    case True
    with Cons.prems show ?thesis by (auto simp: at_boundary_def)
  next
    case False
    with Cons.prems have "\<not> at_boundary s" by (simp add: at_boundary_def)
    then obtain ls l where IH: "split_inclusive s = ls @ [l]" "split_inclusive (s @ [CHR 0x0A]) = ls @ [l @ [CHR 0x0A]]"
      using Cons.IH by blast
    show ?thesis
    proof (cases "c = CHR 0x0A")
      case True
      with IH have "split_inclusive (c # s) = ([c] # ls) @ [l]"
        "split_inclusive ((c # s) @ [CHR 0x0A]) = ([c] # ls) @ [l @ [CHR 0x0A]]" by simp_all
      then show ?thesis by blast
    next
      case c: False
      show ?thesis
      proof (cases ls)
        case Nil
        with IH c have "split_inclusive (c # s) = [] @ [c # l]"
          "split_inclusive ((c # s) @ [CHR 0x0A]) = [] @ [(c # l) @ [CHR 0x0A]]" by simp_all
        then show ?thesis by blast
      next
        case (Cons w ws)
        with IH c have "split_inclusive (c # s) = ((c # w) # ws) @ [l]"
          "split_inclusive ((c # s) @ [CHR 0x0A]) = ((c # w) # ws) @ [l @ [CHR 0x0A]]" by simp_all
        then show ?thesis by blast
      qed
    qed
  qed
qed (simp add: at_boundary_def)

lemma trim_lines_snoc_nl:
  "trim ` set (split_inclusive (s @ [CHR 0x0A])) \<subseteq> trim ` set (split_inclusive s) \<union> {[]}"
proof (cases "at_boundary s")
  case True
  have "trim [CHR 0x0A] = []" using trim_snoc_ws [of "CHR 0x0A" "[]"] by (simp add: ascii_ws_def)
  with True show ?thesis by (simp add: split_inclusive_append)
next
  case False
  then obtain ls l where "split_inclusive s = ls @ [l]" "split_inclusive (s @ [CHR 0x0A]) = ls @ [l @ [CHR 0x0A]]"
    using split_inclusive_snoc_nl by blast
  moreover have "trim (l @ [CHR 0x0A]) = trim l" by (rule trim_snoc_ws) (simp add: ascii_ws_def)
  ultimately show ?thesis by auto
qed

section \<open>ASCII case and slugs\<close>

definition ascii_lower :: "char \<Rightarrow> char" where
  "ascii_lower c = (let n = (of_char c :: nat) in if 65 \<le> n \<and> n \<le> 90 then char_of (n + 32) else c)"

definition ascii_alnum :: "char \<Rightarrow> bool" where
  "ascii_alnum c \<longleftrightarrow> (let n = (of_char c :: nat) in
     48 \<le> n \<and> n \<le> 57 \<or> 65 \<le> n \<and> n \<le> 90 \<or> 97 \<le> n \<and> n \<le> 122)"

definition eq_ignore_ascii_case :: "string \<Rightarrow> string \<Rightarrow> bool" where
  "eq_ignore_ascii_case s t \<longleftrightarrow> map ascii_lower s = map ascii_lower t"

definition trim_matches_char :: "char \<Rightarrow> string \<Rightarrow> string" where
  "trim_matches_char c s = rev (dropWhile (\<lambda>x. x = c) (rev (dropWhile (\<lambda>x. x = c) s)))"

definition trim_end_char :: "char \<Rightarrow> string \<Rightarrow> string" where
  "trim_end_char c s = rev (dropWhile (\<lambda>x. x = c) (rev s))"

lemma ascii_lower_idem [simp]: "ascii_lower (ascii_lower c) = ascii_lower c"
  by (auto simp: ascii_lower_def Let_def)

lemma eq_ignore_ascii_case_refl [simp]: "eq_ignore_ascii_case s s"
  by (simp add: eq_ignore_ascii_case_def)

section \<open>Integers in decimal\<close>

definition digit_char :: "nat \<Rightarrow> char" where
  "digit_char d = char_of (48 + d)"

definition is_digit :: "char \<Rightarrow> bool" where
  "is_digit c \<longleftrightarrow> 48 \<le> (of_char c :: nat) \<and> (of_char c :: nat) \<le> 57"

definition digit_val :: "char \<Rightarrow> nat" where
  "digit_val c = of_char c - 48"

fun show_nat :: "nat \<Rightarrow> string" where
  "show_nat n = (if n < 10 then [digit_char n] else show_nat (n div 10) @ [digit_char (n mod 10)])"

declare show_nat.simps [simp del]

definition read_nat :: "string \<Rightarrow> nat" where
  "read_nat s = foldl (\<lambda>a c. a * 10 + digit_val c) 0 s"

text \<open>\<open>str::parse::<u64>()\<close>: an optional \<open>+\<close>, at least one digit, no overflow.\<close>

definition parse_u64 :: "string \<Rightarrow> nat option" where
  "parse_u64 s =
     (let d = (case s of [] \<Rightarrow> [] | c # t \<Rightarrow> if c = CHR ''+'' then t else s) in
      if d = [] \<or> \<not> list_all is_digit d then None
      else let n = read_nat d in if n < 2 ^ 64 then Some n else None)"

lemma digit_val_char [simp]: "d < 10 \<Longrightarrow> digit_val (digit_char d) = d"
  by (simp add: digit_val_def digit_char_def)

lemma is_digit_char [simp]: "d < 10 \<Longrightarrow> is_digit (digit_char d)"
  by (simp add: is_digit_def digit_char_def)

lemma read_nat_snoc [simp]: "read_nat (s @ [c]) = read_nat s * 10 + digit_val c"
  by (simp add: read_nat_def)

lemma read_show_nat [simp]: "read_nat (show_nat n) = n"
proof (induction n rule: show_nat.induct)
  case (1 n)
  show ?case
  proof (cases "n < 10")
    case True
    then show ?thesis by (subst show_nat.simps) (simp add: read_nat_def)
  next
    case False
    with 1 show ?thesis by (subst show_nat.simps) simp
  qed
qed

lemma show_nat_inj [simp]: "show_nat m = show_nat n \<longleftrightarrow> m = n"
  by (metis read_show_nat)

lemma show_nat_ne [simp]: "show_nat n \<noteq> []"
  by (subst show_nat.simps) simp

lemma show_nat_digits: "list_all is_digit (show_nat n)"
proof (induction n rule: show_nat.induct)
  case (1 n)
  then show ?case by (cases "n < 10") (subst show_nat.simps, simp)+
qed

lemma parse_show_nat: "n < 2 ^ 64 \<Longrightarrow> parse_u64 (show_nat n) = Some n"
proof -
  assume n: "n < 2 ^ 64"
  obtain c t where ct: "show_nat n = c # t" by (cases "show_nat n") auto
  with show_nat_digits [of n] have "is_digit c" by simp
  then have "c \<noteq> CHR ''+''" by (auto simp: is_digit_def)
  then have "parse_u64 (show_nat n) = (let m = read_nat (show_nat n) in if m < 2 ^ 64 then Some m else None)"
    using show_nat_digits [of n] show_nat_ne [of n] ct unfolding parse_u64_def by simp
  with n show ?thesis by simp
qed

section \<open>Lists\<close>

lemma find_in: "find P xs = Some x \<Longrightarrow> x \<in> set xs \<and> P x"
  by (auto simp: find_Some_iff)

section \<open>Interfaces\<close>

text \<open>
  A search for the first candidate that is not taken, from index \<open>n\<close> upwards: the loops of
  \<open>ServersFile::unique_id\<close> and \<open>next_available_destination\<close>.  \<open>None\<close> is a search that does
  not end.
\<close>

partial_function (option) search_free :: "(nat \<Rightarrow> 'a) \<Rightarrow> ('a \<Rightarrow> bool) \<Rightarrow> nat \<Rightarrow> 'a option" where
  "search_free cand taken n =
     (if \<not> taken (cand n) then Some (cand n) else search_free cand taken (Suc n))"

declare search_free.simps [code]

lemma search_free_found: "search_free cand taken n = Some c \<Longrightarrow> (\<exists>m. c = cand m) \<and> \<not> taken c"
proof (rule search_free.raw_induct [where P = "\<lambda>cand taken n c. (\<exists>m. c = cand m) \<and> \<not> taken c" and y = c and cand = cand and n = n], goal_cases)
  case (1 f cand taken n c)
  then show ?case by (cases "taken (cand n)") auto
qed

locale fresh_names =
  fixes cand :: "nat \<Rightarrow> 'a" and taken :: "'a \<Rightarrow> bool"
  assumes taken_finite: "finite {n. taken (cand n)}"
begin

lemma some_free: "\<exists>m \<ge> n. \<not> taken (cand m)"
proof (rule ccontr)
  assume "\<not> (\<exists>m \<ge> n. \<not> taken (cand m))"
  then have "{n..} \<subseteq> {n. taken (cand n)}" by auto
  then show False using taken_finite finite_subset infinite_Ici by blast
qed

lemma search_least:
  assumes "n \<le> m" and "\<not> taken (cand m)" and "\<forall>k. n \<le> k \<and> k < m \<longrightarrow> taken (cand k)"
  shows "search_free cand taken n = Some (cand m)"
  using assms
proof (induction "m - n" arbitrary: n)
  case 0
  then show ?case by (subst search_free.simps) simp
next
  case (Suc d)
  then have "n < m" by simp
  with Suc.prems have "taken (cand n)" by simp
  moreover have "search_free cand taken (Suc n) = Some (cand m)"
    using Suc \<open>n < m\<close> by auto
  ultimately show ?case by (subst search_free.simps) simp
qed

lemma search_total:
  "\<exists>m \<ge> n. search_free cand taken n = Some (cand m) \<and> \<not> taken (cand m) \<and>
     (\<forall>k. n \<le> k \<and> k < m \<longrightarrow> taken (cand k))"
proof -
  define m where "m = (LEAST m. n \<le> m \<and> \<not> taken (cand m))"
  have m: "n \<le> m \<and> \<not> taken (cand m)"
    unfolding m_def by (rule LeastI_ex) (use some_free [of n] in blast)
  have least: "\<forall>k. n \<le> k \<and> k < m \<longrightarrow> taken (cand k)"
    unfolding m_def using not_less_Least by blast
  with m search_least show ?thesis by blast
qed

end

text \<open>A machine whose operations keep an invariant: run any list of operations.\<close>

locale op_machine =
  fixes step :: "'op \<Rightarrow> 's \<Rightarrow> 's" and inv :: "'s \<Rightarrow> bool"
  assumes step_inv: "inv s \<Longrightarrow> inv (step x s)"
begin

lemma run_inv: "inv s \<Longrightarrow> inv (fold step xs s)"
  by (induction xs arbitrary: s) (auto intro: step_inv)

end

text \<open>
  A server that answers each request with an error or a reply, and an abstract state: a request that fails
  leaves the view alone, one that succeeds has the effect the specification gives it.  Then the run of any
  list of requests is the replay of the successful ones on the view.
\<close>

fun run_requests :: "('i \<Rightarrow> 's \<Rightarrow> ('e + 'r) \<times> 's) \<Rightarrow> 'i list \<Rightarrow> 's \<Rightarrow> ('e + 'r) list \<times> 's" where
  "run_requests step [] s = ([], s)"
| "run_requests step (i # is) s =
     (case step i s of (r, s1) \<Rightarrow> (case run_requests step is s1 of (rs, s2) \<Rightarrow> (r # rs, s2)))"

fun replay_effects :: "('i \<Rightarrow> 'a \<Rightarrow> 'a option) \<Rightarrow> ('i \<times> bool) list \<Rightarrow> 'a \<Rightarrow> 'a option" where
  "replay_effects effect [] a = Some a"
| "replay_effects effect ((i, done') # is) a =
     (if done' then Option.bind (effect i a) (replay_effects effect is) else replay_effects effect is a)"

locale refinement =
  fixes step :: "'i \<Rightarrow> 's \<Rightarrow> ('e + 'r) \<times> 's" and ok :: "'i \<Rightarrow> bool" and view :: "'s \<Rightarrow> 'a"
    and effect :: "'i \<Rightarrow> 'a \<Rightarrow> 'a option"
  assumes failed_step: "ok i \<Longrightarrow> step i s = (Inl e, s') \<Longrightarrow> view s' = view s"
    and done_step: "ok i \<Longrightarrow> step i s = (Inr r, s') \<Longrightarrow> effect i (view s) = Some (view s')"
begin

lemma run_refines:
  "list_all ok is \<Longrightarrow> run_requests step is s = (rs, s') \<Longrightarrow>
     replay_effects effect (zip is (map (\<lambda>r. \<not> isl r) rs)) (view s) = Some (view s')"
proof (induction "is" arbitrary: s rs)
  case (Cons i "is")
  obtain r s1 where one: "step i s = (r, s1)" by fastforce
  obtain rs1 s2 where rest: "run_requests step is s1 = (rs1, s2)" by fastforce
  from Cons.prems one rest have eq: "rs = r # rs1" "s2 = s'" and ok: "ok i" "list_all ok is" by auto
  have IH: "replay_effects effect (zip is (map (\<lambda>r. \<not> isl r) rs1)) (view s1) = Some (view s')"
    using Cons.IH [OF ok(2)] rest eq(2) by simp
  show ?case
  proof (cases r)
    case (Inl e)
    with one failed_step [OF ok(1)] have "view s1 = view s" by blast
    with IH Inl eq(1) show ?thesis by simp
  next
    case (Inr a)
    with one done_step [OF ok(1)] have "effect i (view s) = Some (view s1)" by blast
    with IH Inr eq(1) show ?thesis by simp
  qed
qed simp

end

text \<open>
  A store whose operations each act under one vault name.  \<open>view v\<close> is what a caller who passes
  the vault name \<open>v\<close> can observe.  An operation under another vault is invisible, and what an
  operation under \<open>v\<close> does to the view depends on that view alone; then the operations of all
  other vaults can be deleted from a history without a difference for \<open>v\<close>.
\<close>

locale vault_scoped = op_machine step inv
  for step :: "'op \<Rightarrow> 's \<Rightarrow> 's" and inv :: "'s \<Rightarrow> bool" +
  fixes vault_of :: "'op \<Rightarrow> string" and view :: "string \<Rightarrow> 's \<Rightarrow> 'v"
  assumes other_vault: "inv s \<Longrightarrow> vault_of x \<noteq> v \<Longrightarrow> view v (step x s) = view v s"
    and same_vault: "inv s \<Longrightarrow> inv t \<Longrightarrow> vault_of x = v \<Longrightarrow> view v s = view v t \<Longrightarrow>
       view v (step x s) = view v (step x t)"
begin

lemma isolation:
  assumes "inv s" and "inv t" and "view v s = view v t"
  shows "view v (fold step xs s) = view v (fold step (filter (\<lambda>x. vault_of x = v) xs) t)"
  using assms
proof (induction xs arbitrary: s t)
  case (Cons x xs)
  show ?case
  proof (cases "vault_of x = v")
    case True
    with Cons.prems have "view v (step x s) = view v (step x t)" by (rule_tac same_vault)
    with Cons True show ?thesis by (simp add: step_inv)
  next
    case False
    with Cons.prems have "inv (step x s)" "view v (step x s) = view v t"
      by (simp_all add: other_vault step_inv)
    from Cons.IH [OF this(1) Cons.prems(2) this(2)] False show ?thesis by simp
  qed
qed simp

end

text \<open>
  A log that keeps the newest \<open>cap\<close> entries.  After any pushes onto an empty log it holds
  the last \<open>cap\<close> pushed entries, in order.
\<close>

locale bounded_log =
  fixes cap :: nat and push :: "'e \<Rightarrow> 'e list \<Rightarrow> 'e list"
  assumes cap_pos: "0 < cap"
    and push_room: "length xs < cap \<Longrightarrow> push x xs = xs @ [x]"
    and push_full: "length xs = cap \<Longrightarrow> push x xs = tl xs @ [x]"
begin

lemma push_window:
  "length xs \<le> cap \<Longrightarrow> push x xs = drop (Suc (length xs) - cap) (xs @ [x])"
proof (cases "length xs = cap")
  case True
  then show ?thesis using cap_pos push_full by (cases xs) auto
next
  case False
  assume "length xs \<le> cap"
  with False show ?thesis using push_room by simp
qed

lemma pushes_window:
  "fold push ys [] = drop (length ys - cap) ys"
proof (induction ys rule: rev_induct)
  case (snoc y ys)
  let ?w = "drop (length ys - cap) ys"
  have "fold push (ys @ [y]) [] = push y ?w" using snoc by simp
  also have "\<dots> = drop (Suc (length ?w) - cap) (?w @ [y])" by (rule push_window) simp
  also have "\<dots> = drop (length (ys @ [y]) - cap) (ys @ [y])"
    by (cases "length ys < cap") (auto simp: Suc_diff_le cap_pos not_less)
  finally show ?case .
qed simp

lemma pushes_bound: "length (fold push ys []) \<le> cap"
  by (simp add: pushes_window)

end

end
