(* ===== verification/ManagedSection.thy ===== *)
theory ManagedSection
  imports Prelude
begin

text \<open>
  Managed sections (\<open>crates/notesmith-vault/src/managed_section.rs\<close>): the machine-owned region of a
  note between a begin and an end marker line.  The definitions follow the file: the markers, the
  error type, the validation of the id and of the content, the line splitter with byte offsets,
  the location of the marker pair and the update.  The lemmas read a note as its list of lines
  (\<open>split_inclusive\<close>, every line with its terminator) and show where the marker lines of an
  updated note are.
\<close>

section \<open>Markers and errors\<close>

definition BEGIN_MARKER_PREFIX :: string where
  "BEGIN_MARKER_PREFIX = ''<!-- notesmith:section:begin ''"

definition END_MARKER_PREFIX :: string where
  "END_MARKER_PREFIX = ''<!-- notesmith:section:end ''"

definition MARKER_SUFFIX :: string where
  "MARKER_SUFFIX = '' -->''"

definition begin_marker :: "string \<Rightarrow> string" where
  "begin_marker section_id = BEGIN_MARKER_PREFIX @ section_id @ MARKER_SUFFIX"

definition end_marker :: "string \<Rightarrow> string" where
  "end_marker section_id = END_MARKER_PREFIX @ section_id @ MARKER_SUFFIX"

datatype ManagedSectionError =
    InvalidSectionId string string
  | SectionNotFound string
  | DuplicateBeginMarker string nat nat
  | DuplicateEndMarker string nat nat
  | InvertedMarkers string nat nat
  | MissingEndMarker string nat
  | MissingBeginMarker string nat
  | ContentContainsMarker string nat

fun section_error_code :: "ManagedSectionError \<Rightarrow> string" where
  "section_error_code (InvalidSectionId _ _) = ''invalid_section_id''"
| "section_error_code (SectionNotFound _) = ''section_not_found''"
| "section_error_code (DuplicateBeginMarker _ _ _) = ''duplicate_begin_marker''"
| "section_error_code (DuplicateEndMarker _ _ _) = ''duplicate_end_marker''"
| "section_error_code (InvertedMarkers _ _ _) = ''inverted_markers''"
| "section_error_code (MissingEndMarker _ _) = ''missing_end_marker''"
| "section_error_code (MissingBeginMarker _ _) = ''missing_begin_marker''"
| "section_error_code (ContentContainsMarker _ _) = ''content_contains_marker''"

fun section_error_id :: "ManagedSectionError \<Rightarrow> string" where
  "section_error_id (InvalidSectionId i _) = i"
| "section_error_id (SectionNotFound i) = i"
| "section_error_id (DuplicateBeginMarker i _ _) = i"
| "section_error_id (DuplicateEndMarker i _ _) = i"
| "section_error_id (InvertedMarkers i _ _) = i"
| "section_error_id (MissingEndMarker i _) = i"
| "section_error_id (MissingBeginMarker i _) = i"
| "section_error_id (ContentContainsMarker i _) = i"

record ManagedSectionUpdate =
  msu_content :: string
  msu_appended :: bool
  msu_changed :: bool

section \<open>Validation\<close>

definition validate_section_id :: "string \<Rightarrow> ManagedSectionError + unit" where
  "validate_section_id section_id =
     (let invalid =
        (if section_id = [] then Some ''must not be empty''
         else if trim section_id \<noteq> section_id then Some ''must not start or end with whitespace''
         else if CHR 0x0A \<in> set section_id \<or> CHR 0x0D \<in> set section_id
           then Some ''must not contain line breaks''
         else if contains_str section_id ''--''
           then Some ''must not contain `--` (it would terminate the HTML comment)''
         else None)
      in case invalid of
           Some reason \<Rightarrow> Inl (InvalidSectionId section_id reason)
         | None \<Rightarrow> Inr ())"

definition is_marker_line :: "string \<Rightarrow> bool" where
  "is_marker_line line \<longleftrightarrow>
     (let text = trim line in prefix BEGIN_MARKER_PREFIX text \<or> prefix END_MARKER_PREFIX text)"

fun validate_content_from :: "nat \<Rightarrow> string \<Rightarrow> string list \<Rightarrow> ManagedSectionError + unit" where
  "validate_content_from index section_id [] = Inr ()"
| "validate_content_from index section_id (line # rest) =
     (if is_marker_line line then Inl (ContentContainsMarker section_id (index + 1))
      else validate_content_from (index + 1) section_id rest)"

definition validate_content :: "string \<Rightarrow> string \<Rightarrow> ManagedSectionError + unit" where
  "validate_content section_id content = validate_content_from 0 section_id (lines_of content)"

section \<open>Locating the marker pair\<close>

record LineSpan =
  ls_start :: nat
  ls_next_start :: nat
  ls_text :: string

function split_lines_from :: "nat \<Rightarrow> string \<Rightarrow> LineSpan list" where
  "split_lines_from start rest =
     (if rest = [] then []
      else case find_str [CHR 0x0A] rest of
          Some offset \<Rightarrow>
            (let t = take offset rest;
                 text = (if t \<noteq> [] \<and> last t = CHR 0x0D then butlast t else t)
             in \<lparr>ls_start = start, ls_next_start = start + offset + 1, ls_text = text\<rparr>
                # split_lines_from (start + offset + 1) (drop (offset + 1) rest))
        | None \<Rightarrow> [\<lparr>ls_start = start, ls_next_start = start + length rest, ls_text = rest\<rparr>])"
  by pat_completeness auto
termination
  by (relation "measure (\<lambda>(s, r). length r)") auto

declare split_lines_from.simps [simp del]

definition split_lines :: "string \<Rightarrow> LineSpan list" where
  "split_lines content = split_lines_from 0 content"

record SectionSpan =
  interior_start :: nat
  interior_end :: nat

definition positions :: "('a \<Rightarrow> bool) \<Rightarrow> 'a list \<Rightarrow> nat list" where
  "positions P xs = filter (\<lambda>i. P (xs ! i)) [0..<length xs]"

definition locate_section :: "string \<Rightarrow> string \<Rightarrow> ManagedSectionError + SectionSpan option" where
  "locate_section note section_id =
     (let lines = split_lines note;
          begins = positions (\<lambda>l. trim (ls_text l) = begin_marker section_id) lines;
          ends = positions (\<lambda>l. trim (ls_text l) \<noteq> begin_marker section_id \<and>
                                trim (ls_text l) = end_marker section_id) lines
      in if 1 < length begins
         then Inl (DuplicateBeginMarker section_id (begins ! 0 + 1) (begins ! 1 + 1))
         else if 1 < length ends
         then Inl (DuplicateEndMarker section_id (ends ! 0 + 1) (ends ! 1 + 1))
         else case (begins, ends) of
             ([], []) \<Rightarrow> Inr None
           | (b # _, []) \<Rightarrow> Inl (MissingEndMarker section_id (b + 1))
           | ([], e # _) \<Rightarrow> Inl (MissingBeginMarker section_id (e + 1))
           | (b # _, e # _) \<Rightarrow>
               if e < b then Inl (InvertedMarkers section_id (b + 1) (e + 1))
               else Inr (Some \<lparr>interior_start = ls_next_start (lines ! b),
                               interior_end = ls_start (lines ! e)\<rparr>))"

section \<open>The update\<close>

definition interior_block :: "string \<Rightarrow> string" where
  "interior_block content =
     (if content = [] then []
      else if last content = CHR 0x0A then content else content @ [CHR 0x0A])"

definition append_block :: "string \<Rightarrow> string \<Rightarrow> string \<Rightarrow> string" where
  "append_block note section_id content =
     (let trailing_newlines = length (takeWhile (\<lambda>ch. ch = CHR 0x0A) (rev note));
          out = (if note = [] then [] else note @ replicate (2 - trailing_newlines) (CHR 0x0A))
      in out @ begin_marker section_id @ [CHR 0x0A] @ interior_block content @
         end_marker section_id @ [CHR 0x0A])"

definition update_managed_section ::
  "string \<Rightarrow> string \<Rightarrow> string \<Rightarrow> bool \<Rightarrow> ManagedSectionError + ManagedSectionUpdate" where
  "update_managed_section note section_id content append_if_missing =
     (case validate_section_id section_id of Inl e \<Rightarrow> Inl e
      | Inr _ \<Rightarrow>
     (case validate_content section_id content of Inl e \<Rightarrow> Inl e
      | Inr _ \<Rightarrow>
     (case locate_section note section_id of
        Inl e \<Rightarrow> Inl e
      | Inr (Some span) \<Rightarrow>
          (let updated = take (interior_start span) note @ interior_block content
                         @ drop (interior_end span) note
           in Inr \<lparr>msu_content = updated, msu_appended = False, msu_changed = (updated \<noteq> note)\<rparr>)
      | Inr None \<Rightarrow>
          if \<not> append_if_missing then Inl (SectionNotFound section_id)
          else Inr \<lparr>msu_content = append_block note section_id content,
                    msu_appended = True, msu_changed = True\<rparr>)))"

section \<open>A note as a list of lines\<close>

definition line_key :: "string \<Rightarrow> string" where
  "line_key l = trim (strip_nl l)"

definition clean_lines :: "string \<Rightarrow> string list \<Rightarrow> bool" where
  "clean_lines section_id ls \<longleftrightarrow>
     (\<forall>l \<in> set ls. line_key l \<noteq> begin_marker section_id \<and> line_key l \<noteq> end_marker section_id)"

fun span_lines :: "nat \<Rightarrow> string list \<Rightarrow> LineSpan list" where
  "span_lines st [] = []"
| "span_lines st (l # ls) =
     \<lparr>ls_start = st, ls_next_start = st + length l, ls_text = strip_nl l\<rparr> # span_lines (st + length l) ls"

lemma clean_lines_simps [simp]:
  "clean_lines i [] "
  "clean_lines i (l # ls) \<longleftrightarrow>
     line_key l \<noteq> begin_marker i \<and> line_key l \<noteq> end_marker i \<and> clean_lines i ls"
  "clean_lines i (xs @ ys) \<longleftrightarrow> clean_lines i xs \<and> clean_lines i ys"
  by (auto simp: clean_lines_def)

lemma find_str_char:
  "find_str [c] s = (if c \<in> set s then Some (length (takeWhile (\<lambda>x. x \<noteq> c) s)) else None)"
  by (induction s) auto

lemma split_inclusive_no_nl: "CHR 0x0A \<notin> set s \<Longrightarrow> s \<noteq> [] \<Longrightarrow> split_inclusive s = [s]"
proof (induction s)
  case (Cons x s)
  then show ?case by (cases "s = []") auto
qed simp

lemma split_lines_from_eq: "split_lines_from st s = span_lines st (split_inclusive s)"
proof (induction st s rule: split_lines_from.induct)
  case (1 st s)
  show ?case
  proof (cases "CHR 0x0A \<in> set s")
    case True
    then obtain t r where s: "s = t @ CHR 0x0A # r" and nl: "CHR 0x0A \<notin> set t"
      using split_list_first by metis
    have "takeWhile (\<lambda>x. x \<noteq> CHR 0x0A) s = t"
      using nl unfolding s by (induction t) auto
    then have f: "find_str [CHR 0x0A] s = Some (length t)" using True by (simp add: find_str_char)
    have "split_lines_from (st + length t + 1) r = span_lines (st + length t + 1) (split_inclusive r)"
      using "1.IH" [OF _ f] s by simp
    moreover have "split_inclusive s = (t @ [CHR 0x0A]) # split_inclusive r"
      using split_inclusive_line [OF nl] s by simp
    moreover have "take (length t) s = t" "drop (length t + 1) s = r" "s \<noteq> []" using s by auto
    ultimately show ?thesis
      using f by (subst split_lines_from.simps) (simp add: strip_nl_def Let_def)
  next
    case False
    then have "strip_nl s = s" by (auto simp: strip_nl_def dest: last_in_set)
    with False show ?thesis
      by (subst split_lines_from.simps) (auto simp: find_str_char split_inclusive_no_nl)
  qed
qed

lemma split_lines_eq: "split_lines s = span_lines 0 (split_inclusive s)"
  by (simp add: split_lines_def split_lines_from_eq)

lemma length_span_lines [simp]: "length (span_lines st ls) = length ls"
  by (induction ls arbitrary: st) auto

lemma span_lines_nth:
  "i < length ls \<Longrightarrow> span_lines st ls ! i =
     \<lparr>ls_start = st + length (concat (take i ls)),
      ls_next_start = st + length (concat (take (Suc i) ls)), ls_text = strip_nl (ls ! i)\<rparr>"
  by (induction ls arbitrary: st i) (auto simp: nth_Cons split: nat.splits)

lemma positions_span:
  "positions (\<lambda>l. Q (ls_text l)) (span_lines st ls) = positions (\<lambda>l. Q (strip_nl l)) ls"
  by (auto simp: positions_def span_lines_nth intro: filter_cong)

lemma distinct_singleton: "distinct xs \<Longrightarrow> set xs = {b} \<Longrightarrow> xs = [b]"
proof (cases xs)
  case (Cons y ys)
  assume "distinct xs" "set xs = {b}"
  with Cons have "y = b" "set ys \<subseteq> {b}" "b \<notin> set ys" by auto
  then have "ys = []" by (cases ys) auto
  with Cons \<open>y = b\<close> show ?thesis by simp
qed simp

lemma set_positions: "set (positions P xs) = {i. i < length xs \<and> P (xs ! i)}"
  by (auto simp: positions_def)

lemma positions_single:
  "positions P xs = [b] \<longleftrightarrow> b < length xs \<and> P (xs ! b) \<and> (\<forall>i < length xs. P (xs ! i) \<longrightarrow> i = b)"
proof
  assume "positions P xs = [b]"
  then have "{i. i < length xs \<and> P (xs ! i)} = {b}" using set_positions [of P xs] by simp
  then show "b < length xs \<and> P (xs ! b) \<and> (\<forall>i < length xs. P (xs ! i) \<longrightarrow> i = b)" by blast
next
  assume "b < length xs \<and> P (xs ! b) \<and> (\<forall>i < length xs. P (xs ! i) \<longrightarrow> i = b)"
  then have "set (positions P xs) = {b}" by (auto simp: set_positions)
  then show "positions P xs = [b]" by (intro distinct_singleton) (simp add: positions_def)
qed

lemma positions_empty: "positions P xs = [] \<longleftrightarrow> (\<forall>x \<in> set xs. \<not> P x)"
  by (auto simp: positions_def filter_empty_conv all_set_conv_all_nth)

lemma positions_mid:
  assumes "P y" and "\<forall>x \<in> set A \<union> set B. \<not> P x"
  shows "positions P (A @ y # B) = [length A]"
proof -
  have "i = length A" if i: "i < length (A @ y # B)" and P: "P ((A @ y # B) ! i)" for i
  proof (rule ccontr)
    assume "i \<noteq> length A"
    then have "(A @ y # B) ! i \<in> set A \<union> set B"
      using i by (auto simp: nth_append nth_Cons split: nat.splits)
    with P assms(2) show False by blast
  qed
  with assms(1) show ?thesis by (simp add: positions_single)
qed

lemma split_two:
  assumes "b < e" and "e < length xs"
  shows "xs = take b xs @ xs ! b # take (e - b - 1) (drop (b + 1) xs) @ xs ! e # drop (e + 1) xs"
proof -
  let ?ys = "drop (Suc b) xs" and ?k = "e - b - 1"
  have "?ys = take ?k ?ys @ ?ys ! ?k # drop (Suc ?k) ?ys"
    by (rule id_take_nth_drop) (use assms in simp)
  moreover have "?ys ! ?k = xs ! e" "drop (Suc ?k) ?ys = drop (e + 1) xs" using assms by simp_all
  moreover have "xs = take b xs @ xs ! b # ?ys" by (rule id_take_nth_drop) (use assms in simp)
  ultimately show ?thesis by simp
qed

lemma begin_ne_end [simp]: "begin_marker i \<noteq> end_marker j"
  by (simp add: begin_marker_def end_marker_def BEGIN_MARKER_PREFIX_def END_MARKER_PREFIX_def)

abbreviation begins_of :: "string \<Rightarrow> string \<Rightarrow> nat list" where
  "begins_of note i \<equiv> positions (\<lambda>l. line_key l = begin_marker i) (split_inclusive note)"

abbreviation ends_of :: "string \<Rightarrow> string \<Rightarrow> nat list" where
  "ends_of note i \<equiv> positions (\<lambda>l. line_key l = end_marker i) (split_inclusive note)"

lemma locate_begins: "positions (\<lambda>l. trim (ls_text l) = begin_marker i) (split_lines note) = begins_of note i"
  by (simp add: split_lines_eq line_key_def positions_span [where Q = "\<lambda>t. trim t = begin_marker i"])

lemma locate_ends:
  "positions (\<lambda>l. trim (ls_text l) \<noteq> begin_marker i \<and> trim (ls_text l) = end_marker i) (split_lines note)
   = ends_of note i"
proof -
  have "(trim t \<noteq> begin_marker i \<and> trim t = end_marker i) = (trim t = end_marker i)" for t
    using begin_ne_end [of i i] by metis
  then show ?thesis
    by (simp add: split_lines_eq line_key_def positions_span [where Q = "\<lambda>t. trim t = end_marker i"])
qed

text \<open>Two marker lines of one id in a note, with nothing but other lines elsewhere.\<close>

definition layout ::
  "string \<Rightarrow> string list \<Rightarrow> string list \<Rightarrow> string \<Rightarrow> string list \<Rightarrow> string \<Rightarrow> string list \<Rightarrow> bool" where
  "layout i L A bl M el Z \<longleftrightarrow>
     L = A @ bl # M @ el # Z \<and> line_key bl = begin_marker i \<and> line_key el = end_marker i \<and>
     clean_lines i (A @ M @ Z)"

lemma layout_positions:
  assumes "layout i (split_inclusive note) A bl M el Z"
  shows "begins_of note i = [length A]" "ends_of note i = [length A + 1 + length M]"
proof -
  note a = assms [unfolded layout_def]
  have L: "split_inclusive note = A @ bl # (M @ el # Z)" "split_inclusive note = (A @ bl # M) @ el # Z"
    using a by auto
  have "positions (\<lambda>l. line_key l = begin_marker i) (A @ bl # (M @ el # Z)) = [length A]"
    by (rule positions_mid) (use a in \<open>auto simp: clean_lines_def dest: sym [of "end_marker i"]\<close>)
  with L(1) show "begins_of note i = [length A]" by simp
  have "positions (\<lambda>l. line_key l = end_marker i) ((A @ bl # M) @ el # Z) = [length (A @ bl # M)]"
    by (rule positions_mid) (use a in \<open>auto simp: clean_lines_def\<close>)
  with L(2) show "ends_of note i = [length A + 1 + length M]" by simp
qed

lemma locate_layout:
  assumes "layout i (split_inclusive note) A bl M el Z"
  shows "locate_section note i =
    Inr (Some \<lparr>interior_start = length (concat (A @ [bl])), interior_end = length (concat (A @ bl # M))\<rparr>)"
proof -
  have L: "split_inclusive note = A @ bl # M @ el # Z" using assms by (simp add: layout_def)
  show ?thesis
    unfolding locate_section_def Let_def locate_begins locate_ends layout_positions [OF assms]
    by (simp add: split_lines_eq L span_lines_nth)
qed

lemma locate_some:
  assumes "locate_section note i = Inr (Some sp)"
  obtains A bl M el Z where "layout i (split_inclusive note) A bl M el Z"
    and "sp = \<lparr>interior_start = length (concat (A @ [bl])), interior_end = length (concat (A @ bl # M))\<rparr>"
proof -
  let ?L = "split_inclusive note"
  from assms obtain b bs e es where be: "begins_of note i = b # bs" "ends_of note i = e # es"
      "\<not> 1 < length (begins_of note i)" "\<not> 1 < length (ends_of note i)" "\<not> e < b"
    unfolding locate_section_def Let_def locate_begins locate_ends
    by (auto split: if_splits list.splits)
  then have "begins_of note i = [b]" "ends_of note i = [e]" by auto
  then have b: "b < length ?L" "line_key (?L ! b) = begin_marker i"
      "\<And>k. k < length ?L \<Longrightarrow> line_key (?L ! k) = begin_marker i \<Longrightarrow> k = b"
    and e: "e < length ?L" "line_key (?L ! e) = end_marker i"
      "\<And>k. k < length ?L \<Longrightarrow> line_key (?L ! k) = end_marker i \<Longrightarrow> k = e"
    unfolding positions_single by auto
  from b(2) e(2) be(5) have "b < e" using begin_ne_end [of i i] by (cases "b = e") auto
  define A M Z where "A = take b ?L" and "M = take (e - b - 1) (drop (b + 1) ?L)"
    and "Z = drop (e + 1) ?L"
  have L: "?L = A @ ?L ! b # M @ ?L ! e # Z"
    unfolding A_def M_def Z_def by (rule split_two) (use \<open>b < e\<close> e(1) in auto)
  have other: "line_key l \<noteq> begin_marker i \<and> line_key l \<noteq> end_marker i"
    if "l = ?L ! k" "k < length ?L" "k \<noteq> b" "k \<noteq> e" for l k
    using that b(3) [of k] e(3) [of k] by auto
  have "clean_lines i A"
    using other \<open>b < e\<close> e(1) by (fastforce simp: clean_lines_def A_def in_set_conv_nth)
  moreover have "clean_lines i M"
  proof (unfold clean_lines_def, rule ballI)
    fix l assume "l \<in> set M"
    then obtain j where "j < e - b - 1" "l = ?L ! (b + 1 + j)"
      using e(1) by (auto simp: M_def in_set_conv_nth)
    then show "line_key l \<noteq> begin_marker i \<and> line_key l \<noteq> end_marker i"
      using other [of l "b + 1 + j"] e(1) by auto
  qed
  moreover have "clean_lines i Z"
  proof (unfold clean_lines_def, rule ballI)
    fix l assume "l \<in> set Z"
    then obtain j where j: "j < length Z" "l = Z ! j" by (auto simp: in_set_conv_nth)
    then have "e + 1 + j < length ?L" "l = ?L ! (e + 1 + j)" unfolding Z_def by simp_all
    then show "line_key l \<noteq> begin_marker i \<and> line_key l \<noteq> end_marker i"
      using other [of l "e + 1 + j"] \<open>b < e\<close> by auto
  qed
  ultimately have lay: "layout i ?L A (?L ! b) M (?L ! e) Z"
    using L b(2) e(2) by (simp add: layout_def)
  from locate_layout [OF lay] assms that [OF lay] show thesis by simp
qed


lemma locate_none: "locate_section note i = Inr None \<longleftrightarrow> clean_lines i (split_inclusive note)"
proof -
  have "locate_section note i = Inr None \<longleftrightarrow> begins_of note i = [] \<and> ends_of note i = []"
    unfolding locate_section_def Let_def locate_begins locate_ends
    by (cases "begins_of note i"; cases "ends_of note i") auto
  then show ?thesis unfolding positions_empty clean_lines_def by blast
qed

section \<open>Contents without marker lines\<close>

lemma line_key_trim: "line_key l = trim l"
  by (simp add: line_key_def trim_strip_nl)

lemma validate_content_from_ok:
  "validate_content_from n i ls = Inr () \<longleftrightarrow> (\<forall>l \<in> set ls. \<not> is_marker_line l)"
  by (induction ls arbitrary: n) auto

lemma marker_not_empty [simp]: "begin_marker i \<noteq> []" "end_marker i \<noteq> []"
  by (simp_all add: begin_marker_def end_marker_def BEGIN_MARKER_PREFIX_def END_MARKER_PREFIX_def)

lemma clean_lines_image:
  "clean_lines i ls \<longleftrightarrow> begin_marker i \<notin> trim ` set ls \<and> end_marker i \<notin> trim ` set ls"
  unfolding clean_lines_def line_key_trim by (metis imageE imageI)

lemma clean_lines_trims:
  "trim ` set ls \<subseteq> trim ` set ls' \<union> {[]} \<Longrightarrow> clean_lines i ls' \<Longrightarrow> clean_lines i ls"
  using marker_not_empty [of i] unfolding clean_lines_image by blast

lemma interior_block_clean:
  assumes "validate_content j c = Inr ()"
  shows "clean_lines i (split_inclusive (interior_block c))"
proof -
  have c: "trim l \<noteq> begin_marker i \<and> trim l \<noteq> end_marker i" if "l \<in> set (split_inclusive c)" for l
  proof -
    have "\<not> is_marker_line (strip_nl l)"
      using assms that by (simp add: validate_content_def validate_content_from_ok lines_of_def)
    then show ?thesis
      by (auto simp: is_marker_line_def trim_strip_nl begin_marker_def end_marker_def)
  qed
  have "trim ` set (split_inclusive (interior_block c)) \<subseteq> trim ` set (split_inclusive c) \<union> {[]}"
    using trim_lines_snoc_nl [of c] by (auto simp: interior_block_def)
  moreover have "clean_lines i (split_inclusive c)" using c by (simp add: clean_lines_def line_key_trim)
  ultimately show ?thesis by (rule clean_lines_trims)
qed

lemma interior_block_boundary: "at_boundary (interior_block c)"
  by (simp add: interior_block_def at_boundary_def)

lemma marker_trim [simp]: "trim (begin_marker i) = begin_marker i" "trim (end_marker i) = end_marker i"
  by (rule trim_solid; simp add: begin_marker_def end_marker_def BEGIN_MARKER_PREFIX_def
      END_MARKER_PREFIX_def MARKER_SUFFIX_def solid_def)+

lemma replaced_layout:
  assumes "layout i (split_inclusive note) A bl M el Z" and "validate_content j c = Inr ()"
  shows "layout i (split_inclusive (concat A @ bl @ interior_block c @ el @ concat Z))
           A bl (split_inclusive (interior_block c)) el Z"
proof -
  have L: "split_inclusive note = (A @ [bl]) @ (M @ el # Z)"
    "split_inclusive note = (A @ bl # M) @ el # Z" using assms(1) by (simp_all add: layout_def)
  obtain y ys where y: "M @ el # Z = y # ys" by (cases "M @ el # Z") auto
  have ab: "at_boundary (concat (A @ [bl]))" using at_boundary_concat L(1) unfolding y by blast
  have "split_inclusive (concat (A @ [bl]) @ interior_block c @ concat (el # Z)) =
      (A @ [bl]) @ split_inclusive (interior_block c) @ el # Z"
    using split_inclusive_take [OF L(1)] split_inclusive_drop [OF L(2)]
    by (simp add: split_inclusive_append [OF ab] split_inclusive_append [OF interior_block_boundary]
        del: concat_append append_assoc)
  with assms interior_block_clean [OF assms(2), of i] show ?thesis by (simp add: layout_def)
qed


section \<open>Where an update puts its block\<close>

lemma clean_snoc_nl: "clean_lines i (split_inclusive s) \<Longrightarrow> clean_lines i (split_inclusive (s @ [CHR 0x0A]))"
  by (rule clean_lines_trims [OF trim_lines_snoc_nl])

lemma clean_replicate_nl:
  "clean_lines i (split_inclusive s) \<Longrightarrow> clean_lines i (split_inclusive (s @ replicate k (CHR 0x0A)))"
proof (induction k)
  case (Suc k)
  then have "clean_lines i (split_inclusive ((s @ replicate k (CHR 0x0A)) @ [CHR 0x0A]))"
    by (intro clean_snoc_nl) simp
  then show ?case by (simp add: replicate_append_same)
qed simp

definition append_head :: "string \<Rightarrow> string" where
  "append_head note =
     (if note = [] then []
      else note @ replicate (2 - length (takeWhile (\<lambda>ch. ch = CHR 0x0A) (rev note))) (CHR 0x0A))"

lemma append_head_boundary: "at_boundary (append_head note)"
proof (cases "note" rule: rev_cases)
  case (snoc m c)
  show ?thesis
  proof (cases "c = CHR 0x0A")
    case True
    with snoc show ?thesis by (auto simp: append_head_def at_boundary_def last_append)
  next
    case False
    with snoc show ?thesis by (simp add: append_head_def at_boundary_def last_append)
  qed
qed (simp add: append_head_def)

lemma valid_id_no_nl: "validate_section_id i = Inr () \<Longrightarrow> CHR 0x0A \<notin> set i"
  by (auto simp: validate_section_id_def Let_def split: if_splits)

lemma appended_layout:
  assumes "clean_lines i (split_inclusive note)" and id: "validate_section_id i = Inr ()"
    and c: "validate_content i c = Inr ()"
  shows "layout i (split_inclusive (append_block note i c)) (split_inclusive (append_head note))
     (begin_marker i @ [CHR 0x0A]) (split_inclusive (interior_block c)) (end_marker i @ [CHR 0x0A]) []"
proof -
  have nl: "CHR 0x0A \<notin> set (begin_marker i)" "CHR 0x0A \<notin> set (end_marker i)"
    using valid_id_no_nl [OF id] by (auto simp: begin_marker_def end_marker_def
        BEGIN_MARKER_PREFIX_def END_MARKER_PREFIX_def MARKER_SUFFIX_def)
  have "split_inclusive (append_block note i c) = split_inclusive (append_head note) @
      (begin_marker i @ [CHR 0x0A]) # split_inclusive (interior_block c) @ [end_marker i @ [CHR 0x0A]]"
    using split_inclusive_line [OF nl(1)] split_inclusive_line [OF nl(2), of "[]"]
    by (simp add: append_block_def Let_def split_inclusive_append [OF append_head_boundary]
        split_inclusive_append [OF interior_block_boundary] flip: append_head_def)
  moreover have "clean_lines i (split_inclusive (append_head note))"
    using assms(1) clean_replicate_nl unfolding append_head_def by auto
  moreover have "line_key (begin_marker i @ [CHR 0x0A]) = begin_marker i"
    "line_key (end_marker i @ [CHR 0x0A]) = end_marker i"
    by (simp_all add: line_key_trim trim_snoc_ws ascii_ws_def)
  ultimately show ?thesis using interior_block_clean [OF c, of i] by (simp add: layout_def)
qed

text \<open>
  Every successful update leaves the note with one section, whose interior is the new content;
  the lines around it do not depend on the content.
\<close>

definition update_frame :: "string \<Rightarrow> string \<Rightarrow> string list \<Rightarrow> string \<Rightarrow> string \<Rightarrow> string list \<Rightarrow> bool" where
  "update_frame note i A bl el Z \<longleftrightarrow>
     (\<exists>M. layout i (split_inclusive note) A bl M el Z) \<or>
     clean_lines i (split_inclusive note) \<and> A = split_inclusive (append_head note) \<and>
       bl = begin_marker i @ [CHR 0x0A] \<and> el = end_marker i @ [CHR 0x0A] \<and> Z = []"

lemma update_cases:
  assumes "update_managed_section note i c app = Inr u"
  obtains A bl el Z where "update_frame note i A bl el Z"
    and "msu_content u = concat A @ bl @ interior_block c @ el @ concat Z"
    and "layout i (split_inclusive (msu_content u)) A bl (split_inclusive (interior_block c)) el Z"
    and "validate_section_id i = Inr ()" and "validate_content i c = Inr ()"
    and "msu_appended u = clean_lines i (split_inclusive note)"
    and "msu_appended u \<longrightarrow> app" and "msu_changed u = (msu_content u \<noteq> note)"
proof -
  from assms have v: "validate_section_id i = Inr ()" "validate_content i c = Inr ()"
    by (auto simp: update_managed_section_def split: sum.splits)
  with assms consider (rep) sp where "locate_section note i = Inr (Some sp)"
      "u = (let w = take (interior_start sp) note @ interior_block c @ drop (interior_end sp) note
            in \<lparr>msu_content = w, msu_appended = False, msu_changed = (w \<noteq> note)\<rparr>)"
    | (new) "locate_section note i = Inr None" app
      "u = \<lparr>msu_content = append_block note i c, msu_appended = True, msu_changed = True\<rparr>"
    by (auto simp: update_managed_section_def Let_def split: sum.splits option.splits if_splits)
  then show thesis
  proof cases
    case rep
    obtain A bl M el Z where lay: "layout i (split_inclusive note) A bl M el Z"
      and sp: "sp = \<lparr>interior_start = length (concat (A @ [bl])), interior_end = length (concat (A @ bl # M))\<rparr>"
      using locate_some [OF rep(1)] by blast
    have "note = concat (A @ bl # M @ el # Z)"
      using lay concat_split_inclusive [of "note"] by (simp add: layout_def)
    with sp rep(2) have u: "msu_content u = concat A @ bl @ interior_block c @ el @ concat Z"
      "msu_appended u = False" "msu_changed u = (msu_content u \<noteq> note)" by (simp_all add: Let_def)
    have "locate_section note i \<noteq> Inr None" using rep(1) by simp
    with u that [of A bl el Z] lay v replaced_layout [OF lay v(2)] show thesis
      by (auto simp: update_frame_def locate_none)
  next
    case new
    then have cl: "clean_lines i (split_inclusive note)" by (simp add: locate_none)
    have u: "msu_content u = append_block note i c" "msu_appended u = True" "msu_changed u = True"
      using new(3) by simp_all
    have ab: "append_block note i c = append_head note @ (begin_marker i @ [CHR 0x0A]) @ interior_block c @
        (end_marker i @ [CHR 0x0A])"
      by (simp add: append_block_def Let_def flip: append_head_def)
    then have "length note < length (append_block note i c)"
      by (auto simp: append_head_def)
    then have "append_block note i c \<noteq> note" by auto
    with u ab cl new(2) v appended_layout [OF cl v]
      that [of "split_inclusive (append_head note)" "begin_marker i @ [CHR 0x0A]" "end_marker i @ [CHR 0x0A]" "[]"]
    show thesis by (simp add: update_frame_def)
  qed
qed

lemma update_on_layout:
  assumes "layout i (split_inclusive note) A bl M el Z"
    and "validate_section_id i = Inr ()" and "validate_content i c = Inr ()"
  shows "update_managed_section note i c app =
    (let w = concat A @ bl @ interior_block c @ el @ concat Z
     in Inr \<lparr>msu_content = w, msu_appended = False, msu_changed = (w \<noteq> note)\<rparr>)"
proof -
  have "note = concat (A @ bl # M @ el # Z)"
    using assms(1) concat_split_inclusive [of "note"] by (simp add: layout_def)
  then show ?thesis
    using assms by (simp add: update_managed_section_def locate_layout Let_def)
qed

lemma layout_concat:
  "layout i (split_inclusive note) A bl M el Z \<Longrightarrow> note = concat A @ bl @ concat M @ el @ concat Z"
  using concat_split_inclusive [of "note"] by (simp add: layout_def)

lemma layout_unique:
  assumes "layout i (split_inclusive note) A bl M el Z" and "layout i (split_inclusive note) A' bl' M' el' Z'"
  shows "A = A' \<and> bl = bl' \<and> M = M' \<and> el = el' \<and> Z = Z'"
proof -
  have "length A = length A'" "length M = length M'"
    using layout_positions [OF assms(1)] layout_positions [OF assms(2)] by simp_all
  moreover have "A @ bl # M @ el # Z = A' @ bl' # M' @ el' # Z'"
    using assms by (simp add: layout_def)
  ultimately show ?thesis by simp
qed


lemma update_frame_next:
  assumes "update_frame note i A bl el Z" and "validate_section_id i = Inr ()"
    and "validate_content i c = Inr ()" and "update_managed_section note i c app = Inr u"
  shows "msu_content u = concat A @ bl @ interior_block c @ el @ concat Z"
  using assms(1) [unfolded update_frame_def]
proof (elim disjE exE)
  fix M assume "layout i (split_inclusive note) A bl M el Z"
  from update_on_layout [OF this assms(2,3), of app] assms(4) show ?thesis by (simp add: Let_def)
next
  assume n: "clean_lines i (split_inclusive note) \<and> A = split_inclusive (append_head note) \<and>
      bl = begin_marker i @ [CHR 0x0A] \<and> el = end_marker i @ [CHR 0x0A] \<and> Z = []"
  then have "locate_section note i = Inr None" by (simp add: locate_none)
  with assms n show ?thesis
    by (auto simp: update_managed_section_def append_block_def Let_def append_head_def split: if_splits)
qed

section \<open>Properties\<close>

text \<open>The text between the marker lines of a section, when the note has exactly one.\<close>

definition section_text :: "string \<Rightarrow> string \<Rightarrow> string option" where
  "section_text note i =
     (case locate_section note i of
        Inr (Some sp) \<Rightarrow> Some (take (interior_end sp - interior_start sp) (drop (interior_start sp) note))
      | _ \<Rightarrow> None)"

text \<open>C22: a successful update of an existing section replaces the bytes between its two marker
  lines and copies every other line of the note, the marker lines included, byte for byte.\<close>

theorem update_preserves_outside:
  assumes "update_managed_section note i c app = Inr u" and "\<not> msu_appended u"
  shows "\<exists>A bl M el Z. split_inclusive note = A @ bl # M @ el # Z \<and>
     trim bl = begin_marker i \<and> trim el = end_marker i \<and> clean_lines i (A @ M @ Z) \<and>
     msu_content u = concat A @ bl @ interior_block c @ el @ concat Z"
proof -
  obtain A bl el Z where f: "update_frame note i A bl el Z"
    and u: "msu_content u = concat A @ bl @ interior_block c @ el @ concat Z"
    and ap: "msu_appended u = clean_lines i (split_inclusive note)"
    by (rule update_cases [OF assms(1)]) blast
  from f ap assms(2) obtain M where "layout i (split_inclusive note) A bl M el Z"
    by (auto simp: update_frame_def)
  then have "split_inclusive note = A @ bl # M @ el # Z \<and> trim bl = begin_marker i \<and>
      trim el = end_marker i \<and> clean_lines i (A @ M @ Z)"
    by (simp add: layout_def line_key_trim)
  with u show ?thesis by blast
qed

text \<open>An update of a note without the section, when appending is allowed, only appends: the old
  note is a prefix of the new one, followed by newlines, the begin marker line, the content and
  the end marker line.\<close>

lemma update_appends:
  assumes "update_managed_section note i c app = Inr u" and "msu_appended u"
  shows "clean_lines i (split_inclusive note) \<and>
     (\<exists>k. k \<le> 2 \<and> msu_content u = note @ replicate k (CHR 0x0A) @
        begin_marker i @ CHR 0x0A # interior_block c @ end_marker i @ [CHR 0x0A])"
proof -
  obtain A bl el Z where f: "update_frame note i A bl el Z"
    and u: "msu_content u = concat A @ bl @ interior_block c @ el @ concat Z"
    and ap: "msu_appended u = clean_lines i (split_inclusive note)"
    by (rule update_cases [OF assms(1)]) blast
  with assms(2) have cl: "clean_lines i (split_inclusive note)" by simp
  have "\<not> layout i (split_inclusive note) A bl M el Z" for M
    using cl begin_ne_end by (auto simp: layout_def)
  with f have "A = split_inclusive (append_head note)" "bl = begin_marker i @ [CHR 0x0A]"
      "el = end_marker i @ [CHR 0x0A]" "Z = []"
    by (auto simp: update_frame_def)
  moreover obtain k where "k \<le> 2" "append_head note = note @ replicate k (CHR 0x0A)"
    unfolding append_head_def by (metis append_Nil diff_le_self le0 replicate_0)
  ultimately show ?thesis using cl u by auto
qed

text \<open>What was written is what is read back: after a successful update the section is there and
  its text is the given content, with a final newline when the content is not empty.\<close>

lemma update_then_read:
  assumes "update_managed_section note i c app = Inr u"
  shows "section_text (msu_content u) i = Some (interior_block c)"
proof -
  obtain A bl el Z where
      u: "msu_content u = concat A @ bl @ interior_block c @ el @ concat Z"
      and lay: "layout i (split_inclusive (msu_content u)) A bl (split_inclusive (interior_block c)) el Z"
    by (rule update_cases [OF assms]) blast
  show ?thesis unfolding section_text_def locate_layout [OF lay] by (simp add: u)
qed

text \<open>An update is idempotent: the same update of its result succeeds, appends nothing, reports
  no change and returns the same bytes, whatever the append flag is.\<close>

lemma update_idempotent:
  assumes "update_managed_section note i c app = Inr u"
  shows "update_managed_section (msu_content u) i c app' =
    Inr \<lparr>msu_content = msu_content u, msu_appended = False, msu_changed = False\<rparr>"
proof -
  obtain A bl el Z where
      u: "msu_content u = concat A @ bl @ interior_block c @ el @ concat Z"
      and lay: "layout i (split_inclusive (msu_content u)) A bl (split_inclusive (interior_block c)) el Z"
      and v: "validate_section_id i = Inr ()" "validate_content i c = Inr ()"
    by (rule update_cases [OF assms]) blast
  from update_on_layout [OF lay v] u show ?thesis by (simp add: Let_def)
qed

text \<open>The last update wins: two updates of one section leave the bytes the second one alone
  leaves on the original note.\<close>

lemma update_overwrites:
  assumes "update_managed_section note i c app = Inr u"
    and "update_managed_section note i d app' = Inr w"
  shows "\<exists>w'. update_managed_section (msu_content u) i d app'' = Inr w' \<and> msu_content w' = msu_content w"
proof -
  obtain A bl el Z where f: "update_frame note i A bl el Z"
      and lay: "layout i (split_inclusive (msu_content u)) A bl (split_inclusive (interior_block c)) el Z"
      and v: "validate_section_id i = Inr ()"
    by (rule update_cases [OF assms(1)]) blast
  have d: "validate_content i d = Inr ()" by (rule update_cases [OF assms(2)]) blast
  from update_on_layout [OF lay v d] update_frame_next [OF f v d assms(2)] show ?thesis
    by (simp add: Let_def)
qed

text \<open>C39: an update succeeds exactly when the id is a valid one, no line of the content is a marker
  line of any section, and the note has one begin marker line followed by one end marker line of
  the section, or none of either while appending is allowed; otherwise it is refused.\<close>

theorem update_succeeds_iff:
  "(\<exists>u. update_managed_section note i c app = Inr u) \<longleftrightarrow>
     validate_section_id i = Inr () \<and> list_all (\<lambda>l. \<not> is_marker_line l) (lines_of c) \<and>
     ((\<exists>A bl M el Z. layout i (split_inclusive note) A bl M el Z) \<or>
      app \<and> clean_lines i (split_inclusive note))" (is "?l \<longleftrightarrow> ?id \<and> ?c \<and> ?n")
proof
  assume ?l
  then obtain u where u: "update_managed_section note i c app = Inr u" ..
  obtain A bl el Z where f: "update_frame note i A bl el Z"
    and v: "validate_section_id i = Inr ()" "validate_content i c = Inr ()"
    and ap: "msu_appended u = clean_lines i (split_inclusive note)" "msu_appended u \<longrightarrow> app"
    by (rule update_cases [OF u]) blast
  then show "?id \<and> ?c \<and> ?n"
    by (auto simp: validate_content_def validate_content_from_ok list_all_iff update_frame_def)
next
  assume r: "?id \<and> ?c \<and> ?n"
  then have v: "validate_section_id i = Inr ()" "validate_content i c = Inr ()"
    by (auto simp: validate_content_def validate_content_from_ok list_all_iff)
  from r show ?l
  proof (elim conjE disjE exE)
    fix A bl M el Z assume "layout i (split_inclusive note) A bl M el Z"
    from update_on_layout [OF this v] show ?l by (simp add: Let_def)
  next
    assume "app" "clean_lines i (split_inclusive note)"
    then show ?l using v locate_none [of "note" i] by (simp add: update_managed_section_def)
  qed
qed

section \<open>Witnesses\<close>

definition demo_note :: string where
  "demo_note = ''head'' @ [CHR 0x0A] @ begin_marker ''a'' @ [CHR 0x0D, CHR 0x0A] @ ''old'' @ [CHR 0x0A]
     @ end_marker ''a'' @ [CHR 0x0A] @ ''tail  ''"

lemma demo_valid [simp]: "validate_section_id ''a'' = Inr ()" "validate_content ''a'' ''new'' = Inr ()"
    "validate_content ''a'' ''two'' = Inr ()"
  by code_simp+

lemma demo_layout:
  "layout ''a'' (split_inclusive demo_note) [''head'' @ [CHR 0x0A]] (begin_marker ''a'' @ [CHR 0x0D, CHR 0x0A])
     [''old'' @ [CHR 0x0A]] (end_marker ''a'' @ [CHR 0x0A]) [''tail  '']"
  by code_simp

lemmas demo_update = update_on_layout [OF demo_layout demo_valid(1), unfolded Let_def]


definition demo_result :: "string \<Rightarrow> ManagedSectionUpdate" where
  "demo_result c = \<lparr>msu_content = ''head'' @ [CHR 0x0A] @ begin_marker ''a'' @ [CHR 0x0D, CHR 0x0A] @ c
     @ [CHR 0x0A] @ end_marker ''a'' @ [CHR 0x0A] @ ''tail  '', msu_appended = False, msu_changed = True\<rparr>"

lemma demo_new: "update_managed_section demo_note ''a'' ''new'' False = Inr (demo_result ''new'')"
  unfolding demo_update [OF demo_valid(2)]
  by (simp add: demo_result_def interior_block_def demo_note_def)

lemma demo_two: "update_managed_section demo_note ''a'' ''two'' True = Inr (demo_result ''two'')"
  unfolding demo_update [OF demo_valid(3)]
  by (simp add: demo_result_def interior_block_def demo_note_def)

lemma demo_append: "update_managed_section ''x'' ''a'' ''new'' True =
    Inr \<lparr>msu_content = append_block ''x'' ''a'' ''new'', msu_appended = True, msu_changed = True\<rparr>"
  by code_simp

lemma update_preserves_outside_witness:
  "\<exists>A bl M el Z. split_inclusive demo_note = A @ bl # M @ el # Z \<and>
     trim bl = begin_marker ''a'' \<and> trim el = end_marker ''a'' \<and> clean_lines ''a'' (A @ M @ Z) \<and>
     msu_content (demo_result ''new'') = concat A @ bl @ interior_block ''new'' @ el @ concat Z"
  by (rule update_preserves_outside [OF demo_new]) (simp add: demo_result_def)

lemma update_appends_witness:
  "clean_lines ''a'' (split_inclusive ''x'') \<and>
     (\<exists>k. k \<le> 2 \<and> append_block ''x'' ''a'' ''new'' = ''x'' @ replicate k (CHR 0x0A) @
        begin_marker ''a'' @ CHR 0x0A # interior_block ''new'' @ end_marker ''a'' @ [CHR 0x0A])"
  using update_appends [OF demo_append] by simp

lemma update_then_read_witness:
  "section_text (msu_content (demo_result ''new'')) ''a'' = Some (interior_block ''new'')"
  by (rule update_then_read [OF demo_new])

lemma update_idempotent_witness:
  "update_managed_section (msu_content (demo_result ''new'')) ''a'' ''new'' True =
     Inr \<lparr>msu_content = msu_content (demo_result ''new''), msu_appended = False, msu_changed = False\<rparr>"
  by (rule update_idempotent [OF demo_new])

lemma update_overwrites_witness:
  "\<exists>w'. update_managed_section (msu_content (demo_result ''new'')) ''a'' ''two'' False = Inr w' \<and>
     msu_content w' = msu_content (demo_result ''two'')"
  by (rule update_overwrites [OF demo_new demo_two])

end
