(* ===== verification/StdModel.thy ===== *)
theory StdModel
  imports Prelude
begin

text \<open>
  The rest of the standard library the sources use: a result that is a panic, the characters of
  a UTF-8 text, \<open>Path\<close> joining, file names and extensions on Unix paths, the \<open>serde_json\<close> value
  and last-wins maps collected from an iterator.
\<close>

section \<open>Panics\<close>

datatype 'a outcome = Done 'a | Panicked

fun bind_outcome :: "'a outcome \<Rightarrow> ('a \<Rightarrow> 'b outcome) \<Rightarrow> 'b outcome" where
  "bind_outcome (Done x) f = f x"
| "bind_outcome Panicked f = Panicked"

lemma bind_outcome_Done: "bind_outcome m f = Done y \<longleftrightarrow> (\<exists>x. m = Done x \<and> f x = Done y)"
  by (cases m) auto

section \<open>Characters of a UTF-8 text\<close>

definition is_cont :: "char \<Rightarrow> bool" where
  "is_cont c \<longleftrightarrow> 128 \<le> (of_char c :: nat) \<and> (of_char c :: nat) < 192"

text \<open>A text cut into its characters: a byte and the continuation bytes that follow it.\<close>

function utf8_chars :: "string \<Rightarrow> string list" where
  "utf8_chars [] = []"
| "utf8_chars (c # s) = (c # takeWhile is_cont s) # utf8_chars (dropWhile is_cont s)"
  by pat_completeness auto
termination
  by (relation "measure length") (auto simp: length_dropWhile_le le_imp_less_Suc)

lemma concat_utf8_chars [simp]: "concat (utf8_chars s) = s"
  by (induction s rule: utf8_chars.induct) auto

text \<open>A byte offset is a character boundary at both ends and in front of any other byte.\<close>

definition is_char_boundary :: "string \<Rightarrow> nat \<Rightarrow> bool" where
  "is_char_boundary s i \<longleftrightarrow> i \<le> length s \<and> (i = 0 \<or> i = length s \<or> \<not> is_cont (s ! i))"

definition split_at :: "nat \<Rightarrow> string \<Rightarrow> (string \<times> string) outcome" where
  "split_at i s = (if is_char_boundary s i then Done (take i s, drop i s) else Panicked)"

definition strip_prefix :: "string \<Rightarrow> string \<Rightarrow> string option" where
  "strip_prefix p s = (if prefix p s then Some (drop (length p) s) else None)"

section \<open>Options\<close>

definition or_else :: "'a option \<Rightarrow> 'a option \<Rightarrow> 'a option" where
  "or_else a b = (case a of Some x \<Rightarrow> Some x | None \<Rightarrow> b)"

section \<open>Paths\<close>

definition path_join :: "string \<Rightarrow> string \<Rightarrow> string" where
  "path_join base rel =
     (if prefix ''/'' rel then rel
      else if base = [] \<or> last base = CHR ''/'' then base @ rel
      else base @ ''/'' @ rel)"

definition path_parts :: "string \<Rightarrow> string list" where
  "path_parts p = filter (\<lambda>w. w \<noteq> [] \<and> w \<noteq> ''.'') (split_char CHR ''/'' p)"

definition file_name :: "string \<Rightarrow> string option" where
  "file_name p =
     (if path_parts p = [] \<or> last (path_parts p) = ''..'' then None else Some (last (path_parts p)))"

text \<open>Stem and extension of a file name: split at the last dot, a leading dot does not count.\<close>

definition name_split :: "string \<Rightarrow> string \<times> string option" where
  "name_split n =
     (case rsplit_once CHR ''.'' n of
        None \<Rightarrow> (n, None)
      | Some (stem, ext) \<Rightarrow> if stem = [] then (n, None) else (stem, Some ext))"

definition file_ext :: "string \<Rightarrow> string option" where
  "file_ext p = Option.bind (file_name p) (\<lambda>n. snd (name_split n))"

definition file_stem :: "string \<Rightarrow> string option" where
  "file_stem p = map_option (\<lambda>n. fst (name_split n)) (file_name p)"

section \<open>JSON values\<close>

text \<open>A number is an unsigned integer, a negative integer or the bits of a finite double.\<close>

datatype json_num = PosInt nat | NegInt int | JFloat "64 word"

datatype json =
    JNull
  | JBool bool
  | JNumber json_num
  | JString string
  | JArray "json list"
  | JObject "(string \<times> json) list"

section \<open>YAML values\<close>

text \<open>A \<open>serde_yaml\<close> value; a mapping keeps its keys in the order of insertion.\<close>

datatype yaml =
    YNull
  | YBool bool
  | YNumber json_num
  | YString string
  | YSeq "yaml list"
  | YMap "(yaml \<times> yaml) list"
  | YTagged string yaml

type_synonym yaml_map = "(yaml \<times> yaml) list"

text \<open>Inserting replaces the value of a present key in place and appends a new key.\<close>

fun ymap_insert :: "yaml \<Rightarrow> yaml \<Rightarrow> yaml_map \<Rightarrow> yaml_map" where
  "ymap_insert k v [] = [(k, v)]"
| "ymap_insert k v ((k', v') # m) = (if k = k' then (k', v) # m else (k', v') # ymap_insert k v m)"

lemma map_of_ymap_insert [simp]: "map_of (ymap_insert k v m) = (map_of m)(k \<mapsto> v)"
  by (induction m) auto

lemma ymap_insert_keys: "map fst (ymap_insert k v m) = (if k \<in> fst ` set m then map fst m else map fst m @ [k])"
  by (induction m) (auto split: if_splits intro: rev_image_eqI)

section \<open>Double-precision numbers\<close>

text \<open>
  A 64-bit float is its bits.  \<open>f64_nat b\<close> is \<open>x.max(0.0) as u64\<close>: negative numbers and NaN
  give 0, fractions are cut off and a number beyond the range gives the largest \<open>u64\<close>.
\<close>

type_synonym f64 = "64 word"

definition f64_nat :: "f64 \<Rightarrow> nat" where
  "f64_nat b =
     (let e = unat (take_bit 11 (drop_bit 52 b)); m = unat (take_bit 52 b)
      in if bit b 63 then 0
         else if e = 2047 then (if m = 0 then 2 ^ 64 - 1 else 0)
         else if e < 1023 then 0
         else if 1087 \<le> e then 2 ^ 64 - 1
         else (2 ^ 52 + m) * 2 ^ (e - 1023) div 2 ^ 52)"

lemma f64_nat_bound: "f64_nat b < 2 ^ 64"
proof -
  let ?e = "unat (take_bit 11 (drop_bit 52 b))" and ?m = "unat (take_bit 52 b)"
  have "?m = take_bit 52 (unat b)" by (simp add: unsigned_take_bit_eq)
  then have m: "?m < 2 ^ 52" using take_bit_nat_less_exp [of 52 "unat b"] by simp
  have "(2 ^ 52 + ?m) * 2 ^ (?e - 1023) div 2 ^ 52 < 2 ^ 64" if "?e < 1087"
  proof -
    from m have "2 ^ 52 + ?m < 2 ^ 53" by simp
    moreover have "(2::nat) ^ (?e - 1023) \<le> 2 ^ 63" using that by (intro power_increasing) auto
    ultimately have "(2 ^ 52 + ?m) * 2 ^ (?e - 1023) < 2 ^ 53 * (2 ^ 63 :: nat)"
      by (intro mult_less_le_imp_less) auto
    then show ?thesis by (simp add: less_mult_imp_div_less)
  qed
  then show ?thesis by (simp add: f64_nat_def Let_def not_le)
qed

section \<open>Maps collected from an iterator\<close>

text \<open>\<open>iter.collect::<HashMap<_, _>>()\<close>: a later pair replaces an earlier one of the same key.\<close>

definition collect_map :: "('k \<times> 'v) list \<Rightarrow> 'k \<rightharpoonup> 'v" where
  "collect_map kvs = map_of (rev kvs)"

lemma collect_map_Some: "collect_map kvs k = Some v \<Longrightarrow> (k, v) \<in> set kvs"
  unfolding collect_map_def by (metis map_of_SomeD set_rev)

lemma collect_map_dom: "dom (collect_map kvs) = fst ` set kvs"
  by (simp add: collect_map_def dom_map_of_conv_image_fst)

lemma collect_map_distinct: "distinct (map fst kvs) \<Longrightarrow> (k, v) \<in> set kvs \<Longrightarrow> collect_map kvs k = Some v"
  unfolding collect_map_def by (metis distinct_rev map_of_is_SomeI rev_map set_rev)

end
