(* ===== verification/JobSchedule.thy ===== *)
theory JobSchedule
  imports StdModel
begin

text \<open>
  Job configuration and schedules: \<open>notesmith-config/src/jobs.rs\<close>, \<open>parse_duration\<close> of
  \<open>notesmith-git/src/timers.rs\<close> and \<open>notesmith-http/src/jobs/schedule.rs\<close>.  Instants are
  nanoseconds since the epoch (\<open>int\<close>), a calendar date is its day number, a time of day its
  minutes, a \<open>Duration\<close> is nanoseconds (\<open>nat\<close>).  The calendar and time zone crate is the
  record \<open>chrono\<close> of parameters; the zone \<open>None\<close> is the daemon's local zone.
\<close>

section \<open>Configuration\<close>

record JobAgentConfig =
  ja_prompt :: string
  ja_allow_writes :: bool

datatype JobAgentField = AgentValid JobAgentConfig | AgentMalformed json

fun agent_config :: "JobAgentField \<Rightarrow> JobAgentConfig option" where
  "agent_config (AgentValid c) = Some c"
| "agent_config (AgentMalformed v) = None"

record JobConfig =
  jc_name :: string
  jc_enabled :: bool
  jc_every :: "string option"
  jc_at :: "string option"
  jc_weekdays_only :: bool
  jc_timezone :: "string option"
  jc_command :: "string option"
  jc_timeout :: "string option"
  jc_agent :: "JobAgentField option"
  jc_after :: "string list"
  jc_success_when :: "string option"

definition default_enabled :: bool where
  "default_enabled = True"

text \<open>\<open>from_value\<close> is the derived deserialiser: it fails on a wrongly typed entry.\<close>

definition convert_job_entries :: "(json \<Rightarrow> JobConfig option) \<Rightarrow> json list \<Rightarrow> JobConfig list" where
  "convert_job_entries from_value raw = List.map_filter from_value raw"

section \<open>Durations\<close>

definition from_secs :: "nat \<Rightarrow> nat" where
  "from_secs n = n * 1000000000"

text \<open>\<open>u64\<close> multiplication: an overflow panics when the build checks it and wraps when not.\<close>

definition mul_u64 :: "bool \<Rightarrow> nat \<Rightarrow> nat \<Rightarrow> nat outcome" where
  "mul_u64 checked a b =
     (if a * b < 2 ^ 64 then Done (a * b) else if checked then Panicked else Done (a * b mod 2 ^ 64))"

definition parse_duration :: "bool \<Rightarrow> string \<Rightarrow> nat option outcome" where
  "parse_duration checked s =
     (let s = trim s in
      if s = [] then Done None
      else bind_outcome (split_at (length s - 1) s) (\<lambda>(digits, suffix).
        case parse_u64 digits of
          None \<Rightarrow> Done None
        | Some value \<Rightarrow>
            if suffix = ''s'' then Done (Some (from_secs value))
            else if suffix = ''m'' then bind_outcome (mul_u64 checked value 60) (\<lambda>n. Done (Some (from_secs n)))
            else if suffix = ''h'' then bind_outcome (mul_u64 checked value 3600) (\<lambda>n. Done (Some (from_secs n)))
            else Done None))"

section \<open>Calendar\<close>

datatype LocalResult = SingleTime int | AmbiguousTime int int | NoTime

datatype Weekday = Mon | Tue | Wed | Thu | Fri | Sat | Sun

record 'tz chrono =
  parse_time :: "string \<Rightarrow> nat option"
  parse_tz :: "string \<Rightarrow> 'tz option"
  date_of :: "'tz option \<Rightarrow> int \<Rightarrow> int"
  weekday_of :: "int \<Rightarrow> Weekday"
  from_local :: "'tz option \<Rightarrow> int \<Rightarrow> nat \<Rightarrow> LocalResult"
  from_std :: "nat \<Rightarrow> int option"
  overflow_checks :: bool

section \<open>Validated jobs\<close>

definition DEFAULT_JOB_TIMEOUT :: nat where
  "DEFAULT_JOB_TIMEOUT = from_secs 120"

definition DEFAULT_AGENT_JOB_TIMEOUT :: nat where
  "DEFAULT_AGENT_JOB_TIMEOUT = from_secs 600"

datatype 'tz JobSchedule = Every nat | At nat bool "'tz option"

datatype JobAction = Command string | Agent JobAgentConfig

record 'tz ValidatedJob =
  vj_name :: string
  vj_schedule :: "'tz JobSchedule"
  vj_action :: JobAction
  vj_timeout :: nat
  vj_after :: "string list"
  vj_success_when :: "string option"

datatype JobConfigError =
    MissingName | CommandAndAgent | NoAction | EmptyCommand | EmptyPrompt | BadAgent
  | AfterSelf | AfterUnknown string | AfterCycle string
  | EveryAndAt | NoSchedule | BadEvery string | ZeroEvery | BadAt string | UnknownTimezone string
  | BadTimeout string

definition validate_action :: "JobConfig \<Rightarrow> JobConfigError + JobAction" where
  "validate_action job =
     (case (jc_command job, jc_agent job) of
        (Some _, Some _) \<Rightarrow> Inl CommandAndAgent
      | (None, None) \<Rightarrow> Inl NoAction
      | (Some command, None) \<Rightarrow>
          (if trim command = [] then Inl EmptyCommand else Inr (Command (trim command)))
      | (None, Some agent) \<Rightarrow>
          (case agent_config agent of
             Some config \<Rightarrow> if trim (ja_prompt config) \<noteq> [] then Inr (Agent config) else Inl EmptyPrompt
           | None \<Rightarrow> Inl BadAgent))"

text \<open>The stack's head is its top: \<open>pop\<close> takes the last element of the \<open>Vec\<close>.\<close>

function after_walk ::
  "(string \<times> string list) list \<Rightarrow> string \<Rightarrow> string list \<Rightarrow> string set \<Rightarrow> bool" where
  "after_walk g target [] visited = False"
| "after_walk g target (current # stack) visited =
     (if current = target then True
      else if current \<in> visited then after_walk g target stack visited
      else (case collect_map g current of
              Some nexts \<Rightarrow> after_walk g target (rev nexts @ stack) (insert current visited)
            | None \<Rightarrow> after_walk g target stack (insert current visited)))"
  by pat_completeness auto
termination
proof (relation "measures [\<lambda>(g, t, st, v). card (fst ` set g - v), \<lambda>(g, t, st, v). length st]", goal_cases)
  case (3 g target current stack visited)
  then have "current \<notin> fst ` set g" using collect_map_dom [of g] by (auto simp: domIff)
  then have "fst ` set g - insert current visited = fst ` set g - visited" by auto
  then show ?case by simp
next
  case (4 g target current stack visited nexts)
  then have "current \<in> fst ` set g - visited" using collect_map_Some by force
  then have "card (fst ` set g - insert current visited) < card (fst ` set g - visited)"
    by (intro psubset_card_mono) auto
  then show ?case by simp
qed auto

definition after_graph :: "JobConfig list \<Rightarrow> (string \<times> string list) list" where
  "after_graph siblings = map (\<lambda>entry. (jc_name entry, jc_after entry)) siblings"

fun check_after_names :: "string \<Rightarrow> string set \<Rightarrow> string list \<Rightarrow> JobConfigError option" where
  "check_after_names self known [] = None"
| "check_after_names self known (name # names) =
     (if name = self then Some AfterSelf
      else if name \<notin> known then Some (AfterUnknown name)
      else check_after_names self known names)"

definition validate_after :: "JobConfig \<Rightarrow> JobConfig list \<Rightarrow> JobConfigError + string list" where
  "validate_after job siblings =
     (if jc_after job = [] then Inr []
      else case check_after_names (jc_name job) (jc_name ` set siblings) (jc_after job) of
          Some e \<Rightarrow> Inl e
        | None \<Rightarrow>
            if after_walk (after_graph siblings) (jc_name job) (rev (jc_after job)) {}
            then Inl (AfterCycle (jc_name job)) else Inr (jc_after job))"

definition validate_schedule :: "'tz chrono \<Rightarrow> JobConfig \<Rightarrow> (JobConfigError + 'tz JobSchedule) outcome" where
  "validate_schedule ch job =
     (case (jc_every job, jc_at job) of
        (Some _, Some _) \<Rightarrow> Done (Inl EveryAndAt)
      | (None, None) \<Rightarrow> Done (Inl NoSchedule)
      | (Some every, None) \<Rightarrow>
          bind_outcome (parse_duration (overflow_checks ch) every) (\<lambda>r. case r of
             None \<Rightarrow> Done (Inl (BadEvery every))
           | Some interval \<Rightarrow> if interval = 0 then Done (Inl ZeroEvery) else Done (Inr (Every interval)))
      | (None, Some at) \<Rightarrow>
          (case parse_time ch at of
             None \<Rightarrow> Done (Inl (BadAt at))
           | Some time \<Rightarrow>
               (case jc_timezone job of
                  None \<Rightarrow> Done (Inr (At time (jc_weekdays_only job) None))
                | Some name \<Rightarrow>
                    (case parse_tz ch name of
                       None \<Rightarrow> Done (Inl (UnknownTimezone name))
                     | Some tz \<Rightarrow> Done (Inr (At time (jc_weekdays_only job) (Some tz)))))))"

fun default_timeout :: "JobAction \<Rightarrow> nat" where
  "default_timeout (Command _) = DEFAULT_JOB_TIMEOUT"
| "default_timeout (Agent _) = DEFAULT_AGENT_JOB_TIMEOUT"

definition validate_timeout :: "'tz chrono \<Rightarrow> JobConfig \<Rightarrow> JobAction \<Rightarrow> (JobConfigError + nat) outcome" where
  "validate_timeout ch job action =
     (case jc_timeout job of
        None \<Rightarrow> Done (Inr (default_timeout action))
      | Some raw \<Rightarrow>
          bind_outcome (parse_duration (overflow_checks ch) raw) (\<lambda>r. case r of
             None \<Rightarrow> Done (Inl (BadTimeout raw)) | Some t \<Rightarrow> Done (Inr t)))"

definition validate_job ::
  "'tz chrono \<Rightarrow> JobConfig \<Rightarrow> JobConfig list \<Rightarrow> (JobConfigError + 'tz ValidatedJob) outcome" where
  "validate_job ch job siblings =
     (if trim (jc_name job) = [] then Done (Inl MissingName)
      else case validate_action job of Inl e \<Rightarrow> Done (Inl e)
      | Inr action \<Rightarrow>
     (case validate_after job siblings of Inl e \<Rightarrow> Done (Inl e)
      | Inr after \<Rightarrow>
      bind_outcome (validate_schedule ch job) (\<lambda>s. case s of Inl e \<Rightarrow> Done (Inl e)
      | Inr schedule \<Rightarrow>
      bind_outcome (validate_timeout ch job action) (\<lambda>t. case t of Inl e \<Rightarrow> Done (Inl e)
      | Inr timeout \<Rightarrow>
          Done (Inr \<lparr>vj_name = jc_name job, vj_schedule = schedule, vj_action = action,
                     vj_timeout = timeout, vj_after = after, vj_success_when = jc_success_when job\<rparr>)))))"

section \<open>Fire times\<close>

definition resolve_local :: "'tz chrono \<Rightarrow> 'tz option \<Rightarrow> int \<Rightarrow> nat \<Rightarrow> int option" where
  "resolve_local ch tz date time =
     (case from_local ch tz date time of
        SingleTime dt \<Rightarrow> Some dt | AmbiguousTime earliest _ \<Rightarrow> Some earliest | NoTime \<Rightarrow> None)"

definition weekend :: "'tz chrono \<Rightarrow> int \<Rightarrow> bool" where
  "weekend ch date \<longleftrightarrow> weekday_of ch date = Sat \<or> weekday_of ch date = Sun"

fun search_back :: "'tz chrono \<Rightarrow> 'tz option \<Rightarrow> int \<Rightarrow> nat \<Rightarrow> bool \<Rightarrow> nat list \<Rightarrow> int option" where
  "search_back ch tz now time weekdays_only [] = None"
| "search_back ch tz now time weekdays_only (days_back # rest) =
     (let date = date_of ch tz now - int days_back in
      if weekdays_only \<and> weekend ch date then search_back ch tz now time weekdays_only rest
      else case resolve_local ch tz date time of
          None \<Rightarrow> search_back ch tz now time weekdays_only rest
        | Some candidate \<Rightarrow>
            if candidate \<le> now then Some candidate else search_back ch tz now time weekdays_only rest)"

definition most_recent_fire :: "'tz chrono \<Rightarrow> 'tz option \<Rightarrow> int \<Rightarrow> nat \<Rightarrow> bool \<Rightarrow> int option" where
  "most_recent_fire ch tz now time weekdays_only = search_back ch tz now time weekdays_only [0..<8]"

fun search_ahead :: "'tz chrono \<Rightarrow> 'tz option \<Rightarrow> int \<Rightarrow> nat \<Rightarrow> bool \<Rightarrow> nat list \<Rightarrow> int option" where
  "search_ahead ch tz now time weekdays_only [] = None"
| "search_ahead ch tz now time weekdays_only (days_ahead # rest) =
     (let date = date_of ch tz now + int days_ahead in
      if weekdays_only \<and> weekend ch date then search_ahead ch tz now time weekdays_only rest
      else case resolve_local ch tz date time of
          None \<Rightarrow> search_ahead ch tz now time weekdays_only rest
        | Some candidate \<Rightarrow>
            if candidate > now then Some candidate else search_ahead ch tz now time weekdays_only rest)"

definition next_fire :: "'tz chrono \<Rightarrow> 'tz option \<Rightarrow> int \<Rightarrow> nat \<Rightarrow> bool \<Rightarrow> int option" where
  "next_fire ch tz now time weekdays_only = search_ahead ch tz now time weekdays_only [0..<8]"

definition is_due :: "'tz chrono \<Rightarrow> 'tz JobSchedule \<Rightarrow> int \<Rightarrow> int option \<Rightarrow> int \<Rightarrow> bool" where
  "is_due ch schedule now last_run runner_started =
     (case schedule of
        Every interval \<Rightarrow>
          (case last_run of
             None \<Rightarrow> True
           | Some l \<Rightarrow>
               now - l \<ge> (case from_std ch interval of
                  Some d \<Rightarrow> d | None \<Rightarrow> int (from_secs ((2 ^ 63 - 1) div 1000))))
      | At time weekdays_only timezone \<Rightarrow>
          (case most_recent_fire ch timezone now time weekdays_only of
             None \<Rightarrow> False
           | Some fire \<Rightarrow> fire > (case last_run of Some l \<Rightarrow> l | None \<Rightarrow> runner_started)))"

definition resolve_timezone :: "'tz chrono \<Rightarrow> string option \<Rightarrow> 'tz option" where
  "resolve_timezone ch name = Option.bind name (parse_tz ch)"

text \<open>\<open>now\<close> and \<open>now'\<close> are the two readings of the clock.\<close>

definition delay_until_time_of_day :: "'tz chrono \<Rightarrow> int \<Rightarrow> int \<Rightarrow> nat \<Rightarrow> 'tz option \<Rightarrow> nat" where
  "delay_until_time_of_day ch now now' time timezone =
     (case next_fire ch timezone now time False of
        Some nxt \<Rightarrow> (if nxt - now' < 0 then 0 else nat (nxt - now'))
      | None \<Rightarrow> from_secs 3600)"

section \<open>The walk over the after-graph\<close>

definition after_rel :: "(string \<times> string list) list \<Rightarrow> (string \<times> string) set" where
  "after_rel g = {(a, b). \<exists>ns. collect_map g a = Some ns \<and> b \<in> set ns}"

lemma after_walk_sound: "after_walk g t st v \<Longrightarrow> t \<in> (after_rel g)\<^sup>* `` set st"
proof (induction g t st v rule: after_walk.induct)
  case (2 g target current stack visited)
  show ?case
  proof (cases "current = target \<or> current \<in> visited \<or> collect_map g current = None")
    case True
    with 2 show ?thesis by (auto split: if_splits)
  next
    case False
    then obtain ns where ns: "collect_map g current = Some ns" by auto
    with False "2.prems" have "after_walk g target (rev ns @ stack) (insert current visited)" by simp
    with "2.IH"(3) False ns have "target \<in> (after_rel g)\<^sup>* `` set (rev ns @ stack)" by simp
    then obtain s where s: "s \<in> set ns \<or> s \<in> set stack" "(s, target) \<in> (after_rel g)\<^sup>*" by auto
    show ?thesis
    proof (cases "s \<in> set ns")
      case True
      with ns have "(current, s) \<in> after_rel g" by (auto simp: after_rel_def)
      with s(2) show ?thesis by (auto intro: converse_rtrancl_into_rtrancl)
    next
      case False
      with s show ?thesis by auto
    qed
  qed
qed simp

lemma after_walk_complete:
  assumes "target \<in> (after_rel g)\<^sup>* `` (set st \<union> v)" and "target \<notin> v"
    and "after_rel g `` v \<subseteq> v \<union> set st"
  shows "after_walk g target st v"
  using assms
proof (induction g target st v rule: after_walk.induct)
  case (1 g target visited)
  then have "(after_rel g)\<^sup>* `` visited \<subseteq> visited" by (simp add: Image_closed_trancl)
  with 1 show ?case by auto
next
  case (2 g target current stack visited)
  show ?case
  proof (cases "current = target")
    case ne: False
    show ?thesis
    proof (cases "current \<in> visited")
      case True
      moreover have "set (current # stack) \<union> visited = set stack \<union> visited"
        "visited \<union> set (current # stack) = visited \<union> set stack" using True by auto
      ultimately show ?thesis using 2 ne by simp
    next
      case new: False
      show ?thesis
      proof (cases "collect_map g current")
        case None
        then have "after_rel g `` {current} = {}" by (auto simp: after_rel_def)
        then have im: "after_rel g `` insert current visited \<subseteq> insert current visited \<union> set stack"
          using "2.prems"(3) by auto
        have "set stack \<union> insert current visited = set (current # stack) \<union> visited" by auto
        with "2.prems"(1) have "target \<in> (after_rel g)\<^sup>* `` (set stack \<union> insert current visited)" by simp
        with 2 ne new None im show ?thesis by simp
      next
        case (Some ns)
        then have "after_rel g `` {current} = set ns" by (auto simp: after_rel_def)
        then have im: "after_rel g `` insert current visited \<subseteq> insert current visited \<union> set (rev ns @ stack)"
          using "2.prems"(3) by auto
        have "target \<in> (after_rel g)\<^sup>* `` (set (rev ns @ stack) \<union> insert current visited)"
          using "2.prems"(1) by auto
        with 2 ne new Some im show ?thesis by simp
      qed
    qed
  qed simp
qed

lemma after_walk_iff: "after_walk g t st {} \<longleftrightarrow> t \<in> (after_rel g)\<^sup>* `` set st"
  using after_walk_sound after_walk_complete [of t g st "{}"] by auto

lemma check_after_names_None:
  "check_after_names self known names = None \<longleftrightarrow> set names \<subseteq> known - {self}"
  by (induction names) auto

section \<open>Lemmas on fire times\<close>

definition fire_on :: "'tz chrono \<Rightarrow> 'tz option \<Rightarrow> nat \<Rightarrow> bool \<Rightarrow> int \<Rightarrow> int \<Rightarrow> bool" where
  "fire_on ch tz time weekdays_only date f \<longleftrightarrow>
     \<not> (weekdays_only \<and> weekend ch date) \<and> resolve_local ch tz date time = Some f"

lemma search_back_Some:
  "search_back ch tz now time w ks = Some f \<Longrightarrow>
     \<exists>k \<in> set ks. fire_on ch tz time w (date_of ch tz now - int k) f \<and> f \<le> now"
proof (induction ks)
  case (Cons k ks)
  then show ?case by (auto simp: fire_on_def Let_def split: if_splits option.splits)
qed simp

lemma search_back_None:
  "search_back ch tz now time w ks = None \<Longrightarrow> k \<in> set ks \<Longrightarrow>
     fire_on ch tz time w (date_of ch tz now - int k) f \<Longrightarrow> now < f"
proof (induction ks)
  case (Cons k ks)
  then show ?case by (auto simp: fire_on_def Let_def split: if_splits option.splits)
qed simp

text \<open>In a zone where a later date means a later instant, the search finds the latest fire.\<close>

definition zone_mono :: "'tz chrono \<Rightarrow> 'tz option \<Rightarrow> nat \<Rightarrow> bool" where
  "zone_mono ch tz time \<longleftrightarrow>
     (\<forall>d d' c c'. d < d' \<longrightarrow> resolve_local ch tz d time = Some c \<longrightarrow>
        resolve_local ch tz d' time = Some c' \<longrightarrow> c < c')"

lemma search_back_latest:
  assumes "zone_mono ch tz time" and "sorted ks" and "search_back ch tz now time w ks = Some f"
    and "k \<in> set ks" and "fire_on ch tz time w (date_of ch tz now - int k) g" and "g \<le> now"
  shows "g \<le> f"
  using assms(2-)
proof (induction ks)
  case (Cons j ks)
  show ?case
  proof (cases "fire_on ch tz time w (date_of ch tz now - int j) f \<and> f \<le> now")
    case True
    show ?thesis
    proof (cases "k = j")
      case True': True
      with True Cons.prems(4) show ?thesis by (simp add: fire_on_def)
    next
      case False
      with Cons.prems(1,3) have "j < k" by auto
      then have "date_of ch tz now - int k < date_of ch tz now - int j" by simp
      then have "g < f" using assms(1) True Cons.prems(4) unfolding zone_mono_def fire_on_def by blast
      then show ?thesis by simp
    qed
  next
    case False
    with Cons.prems(2) have s: "search_back ch tz now time w ks = Some f"
      by (auto simp: fire_on_def Let_def split: if_splits option.splits)
    have "k \<noteq> j"
    proof
      assume "k = j"
      with Cons.prems(4,5) have "search_back ch tz now time w (j # ks) = Some g"
        by (auto simp: fire_on_def Let_def)
      with Cons.prems False \<open>k = j\<close> show False by auto
    qed
    with Cons s show ?thesis by simp
  qed
qed simp

section \<open>Properties\<close>

lemma validate_after_ok:
  "validate_after job siblings = Inr names \<longleftrightarrow>
     names = jc_after job \<and>
     (jc_after job = [] \<or>
      set (jc_after job) \<subseteq> jc_name ` set siblings - {jc_name job} \<and>
      jc_name job \<notin> (after_rel (after_graph siblings))\<^sup>* `` set (jc_after job))"
proof (cases "jc_after job = []")
  case False
  then show ?thesis
    by (cases "check_after_names (jc_name job) (jc_name ` set siblings) (jc_after job)")
       (auto simp: validate_after_def after_walk_iff check_after_names_None [symmetric])
qed (auto simp: validate_after_def)

text \<open>The \<open>after\<close> list of a job is accepted exactly when it is empty, or all its names are other
  jobs of the vault and the job is not reachable from them in the after-graph.\<close>

lemma validate_after_iff:
  "validate_after job siblings = Inr names \<longleftrightarrow>
     names = jc_after job \<and>
     (jc_after job = [] \<or>
      set (jc_after job) \<subseteq> jc_name ` set siblings - {jc_name job} \<and>
      jc_name job \<notin> (after_rel (after_graph siblings))\<^sup>* `` set (jc_after job))"
  by (rule validate_after_ok)

text \<open>C11: when the names of a vault's jobs are distinct and the \<open>after\<close> list of every job is
  accepted, the after-graph has no cycle.\<close>

theorem validated_jobs_acyclic:
  assumes "distinct (map jc_name jobs)"
    and "list_all (\<lambda>job. \<exists>names. validate_after job jobs = Inr names) jobs"
  shows "acyclic (after_rel (after_graph jobs))"
  unfolding acyclic_def
proof (intro allI notI)
  fix a assume "(a, a) \<in> (after_rel (after_graph jobs))\<^sup>+"
  then obtain b where ab: "(a, b) \<in> after_rel (after_graph jobs)"
      and ba: "(b, a) \<in> (after_rel (after_graph jobs))\<^sup>*" by (meson tranclD)
  then obtain ns where ns: "collect_map (after_graph jobs) a = Some ns" "b \<in> set ns"
    by (auto simp: after_rel_def)
  from collect_map_Some [OF ns(1)] obtain job where job: "job \<in> set jobs" "a = jc_name job" "ns = jc_after job"
    by (auto simp: after_graph_def)
  with assms(2) obtain names where "validate_after job jobs = Inr names" by (auto simp: list_all_iff)
  with ns(2) job have "jc_name job \<notin> (after_rel (after_graph jobs))\<^sup>* `` set (jc_after job)"
    unfolding validate_after_ok by auto
  with ba ns(2) job show False by auto
qed

text \<open>What a validated job satisfies.\<close>

definition wf_job :: "'tz chrono \<Rightarrow> JobConfig \<Rightarrow> JobConfig list \<Rightarrow> 'tz ValidatedJob \<Rightarrow> bool" where
  "wf_job ch job siblings v \<longleftrightarrow>
     vj_name v = jc_name job \<and> trim (vj_name v) \<noteq> [] \<and>
     (case vj_schedule v of
        Every interval \<Rightarrow> 0 < interval \<and> jc_at job = None
      | At time w tz \<Rightarrow> jc_every job = None \<and> w = jc_weekdays_only job \<and>
          Option.bind (jc_at job) (parse_time ch) = Some time \<and>
          tz = Option.bind (jc_timezone job) (parse_tz ch)) \<and>
     (case vj_action v of
        Command c \<Rightarrow> c \<noteq> [] \<and> jc_agent job = None
      | Agent a \<Rightarrow> trim (ja_prompt a) \<noteq> [] \<and> jc_command job = None) \<and>
     vj_after v = jc_after job \<and> vj_name v \<notin> set (vj_after v) \<and>
     set (vj_after v) \<subseteq> jc_name ` set siblings \<and> vj_success_when v = jc_success_when job"

lemma validate_action_wf:
  "validate_action job = Inr a \<Longrightarrow>
     (case a of Command c \<Rightarrow> c \<noteq> [] \<and> jc_agent job = None
      | Agent g \<Rightarrow> trim (ja_prompt g) \<noteq> [] \<and> jc_command job = None)"
  by (auto simp: validate_action_def split: option.splits if_splits)

lemma validate_schedule_wf:
  "validate_schedule ch job = Done (Inr s) \<Longrightarrow>
     (case s of Every interval \<Rightarrow> 0 < interval \<and> jc_at job = None
      | At time w tz \<Rightarrow> jc_every job = None \<and> w = jc_weekdays_only job \<and>
          Option.bind (jc_at job) (parse_time ch) = Some time \<and>
          tz = Option.bind (jc_timezone job) (parse_tz ch))"
  by (auto simp: validate_schedule_def bind_outcome_Done split: option.splits if_splits)

lemma bind_result_Done:
  "bind_outcome m (case_sum (\<lambda>e. Done (Inl e)) f) = Done (Inr y) \<longleftrightarrow>
     (\<exists>x. m = Done (Inr x) \<and> f x = Done (Inr y))"
  by (cases m) (auto split: sum.splits)

lemma validate_job_parts:
  "validate_job ch job siblings = Done (Inr v) \<longleftrightarrow>
     trim (jc_name job) \<noteq> [] \<and> vj_name v = jc_name job \<and> vj_success_when v = jc_success_when job \<and>
     validate_action job = Inr (vj_action v) \<and> validate_after job siblings = Inr (vj_after v) \<and>
     validate_schedule ch job = Done (Inr (vj_schedule v)) \<and>
     validate_timeout ch job (vj_action v) = Done (Inr (vj_timeout v))"
  by (cases v; cases "validate_action job"; cases "validate_after job siblings")
     (auto simp: validate_job_def bind_result_Done)

lemma wf_validated:
  assumes "validate_job ch job siblings = Done (Inr v)"
  shows "wf_job ch job siblings v"
proof -
  note parts = assms [unfolded validate_job_parts]
  have "vj_after v = jc_after job \<and> vj_name v \<notin> set (vj_after v) \<and> set (vj_after v) \<subseteq> jc_name ` set siblings"
    using parts validate_after_ok [of job siblings "vj_after v"] by auto
  then show ?thesis
    using parts validate_action_wf validate_schedule_wf unfolding wf_job_def by metis
qed

text \<open>A job that validates is runnable: it has a name, one schedule (a positive interval, or a
  parsed time of day in a known zone), one non-empty action, and prerequisites that are other
  jobs of the vault.\<close>

lemma validate_job_sound:
  assumes "validate_job ch job siblings = Done (Inr v)"
  shows "wf_job ch job siblings v"
  using assms by (rule wf_validated)

definition unit_secs :: "char \<Rightarrow> nat option" where
  "unit_secs u = (if u = CHR ''s'' then Some 1 else if u = CHR ''m'' then Some 60
     else if u = CHR ''h'' then Some 3600 else None)"

lemma parse_duration_snoc:
  assumes "trim s = d @ [u]"
  shows "parse_duration checked s =
    (if d \<noteq> [] \<and> is_cont u then Panicked
     else case parse_u64 d of None \<Rightarrow> Done None
       | Some n \<Rightarrow> (case unit_secs u of None \<Rightarrow> Done None
           | Some k \<Rightarrow> if k = 1 then Done (Some (from_secs n))
               else bind_outcome (mul_u64 checked n k) (\<lambda>n. Done (Some (from_secs n)))))"
  using assms
  by (auto simp: parse_duration_def split_at_def is_char_boundary_def unit_secs_def nth_append
      Let_def split: option.splits)

lemma parse_unit:
  assumes "unit_secs u = Some k" and "n * k < 2 ^ 64" and "trim s = show_nat n @ [u]"
  shows "parse_duration checked s = Done (Some (from_secs (n * k)))"
proof -
  have u: "\<not> is_cont u" and k: "0 < k"
    using assms(1) by (auto simp: unit_secs_def is_cont_def split: if_splits)
  have "n \<le> n * k" using k by simp
  then have "n < 2 ^ 64" using assms(2) by linarith
  from parse_show_nat [OF this] u assms show ?thesis
    by (auto simp: parse_duration_snoc [OF assms(3)] mul_u64_def)
qed

text \<open>A duration of digits and a unit parses to that many seconds, minutes or hours, with white
  space around it allowed, as long as the number of seconds fits 64 bits.\<close>

lemma parse_duration_unit:
  assumes "unit_secs u = Some k" and "n * k < 2 ^ 64" and "trim s = show_nat n @ [u]"
  shows "parse_duration checked s = Done (Some (from_secs (n * k)))"
  using assms by (rule parse_unit)

text \<open>Parsing a duration panics exactly when the trimmed text has at least two bytes and its last
  byte is not the start of a character, or when the build checks overflow and the number of
  seconds of a minute or hour value does not fit 64 bits.\<close>

lemma parse_duration_panics_iff:
  "parse_duration checked s = Panicked \<longleftrightarrow>
     (\<exists>d u. trim s = d @ [u] \<and>
        (d \<noteq> [] \<and> is_cont u \<or>
         checked \<and> \<not> is_cont u \<and>
           (\<exists>n. parse_u64 d = Some n \<and>
              (u = CHR ''m'' \<and> 2 ^ 64 \<le> n * 60 \<or> u = CHR ''h'' \<and> 2 ^ 64 \<le> n * 3600))))"
proof (cases "trim s" rule: rev_cases)
  case Nil
  then show ?thesis by (simp add: parse_duration_def)
next
  case (snoc d u)
  have b: "bind_outcome (mul_u64 checked n k) (\<lambda>n. Done (Some (from_secs n))) = Panicked \<longleftrightarrow>
      checked \<and> 2 ^ 64 \<le> n * k" for n k
    by (simp add: mul_u64_def)
  have c: "parse_u64 [] = None" by (simp add: parse_u64_def)
  show ?thesis
    unfolding parse_duration_snoc [OF snoc] snoc
    by (auto simp: b c unit_secs_def is_cont_def split: option.splits if_splits)
qed

text \<open>C10: a time-of-day job is due exactly when one of its fire times of the last eight days (today
  included) is not in the future and is after the last recorded run, or after the start of the
  runner when no run is recorded.\<close>

theorem at_job_due_iff:
  assumes "zone_mono ch tz time"
  shows "is_due ch (At time w tz) now last_run runner_started \<longleftrightarrow>
    (\<exists>k fire. k < 8 \<and> fire_on ch tz time w (date_of ch tz now - int k) fire \<and> fire \<le> now \<and>
       fire > (case last_run of Some l \<Rightarrow> l | None \<Rightarrow> runner_started))"
    (is "?due \<longleftrightarrow> (\<exists>k fire. ?p k fire)")
proof
  assume ?due
  then obtain f where f: "most_recent_fire ch tz now time w = Some f"
      "f > (case last_run of Some l \<Rightarrow> l | None \<Rightarrow> runner_started)"
    by (auto simp: is_due_def split: option.splits)
  with search_back_Some [OF f(1) [unfolded most_recent_fire_def]] show "\<exists>k fire. ?p k fire" by auto
next
  assume "\<exists>k fire. ?p k fire"
  then obtain k g where g: "k < 8" "fire_on ch tz time w (date_of ch tz now - int k) g" "g \<le> now"
      "g > (case last_run of Some l \<Rightarrow> l | None \<Rightarrow> runner_started)" by blast
  then have k: "k \<in> set [0..<8]" by simp
  show ?due
  proof (cases "most_recent_fire ch tz now time w")
    case None
    with search_back_None [OF _ k g(2)] g(3) show ?thesis by (simp add: most_recent_fire_def)
  next
    case (Some f)
    from search_back_latest [OF assms _ Some [unfolded most_recent_fire_def] k g(2,3)]
    have "g \<le> f" by simp
    with g(4) Some show ?thesis by (simp add: is_due_def)
  qed
qed

text \<open>No fire time runs twice: whenever a time-of-day job is due after a recorded run, a fire
  time of its own lies after that run and not after now.\<close>

lemma at_job_new_fire:
  assumes "is_due ch (At time w tz) now (Some last_run) runner_started"
  shows "\<exists>date fire. fire_on ch tz time w date fire \<and> last_run < fire \<and> fire \<le> now"
proof -
  from assms obtain f where f: "most_recent_fire ch tz now time w = Some f" "last_run < f"
    by (auto simp: is_due_def split: option.splits)
  with search_back_Some [OF f(1) [unfolded most_recent_fire_def]] show ?thesis by blast
qed

section \<open>Witnesses\<close>

text \<open>A calendar of one zone without offset, for concrete runs.\<close>

definition day_ns :: int where
  "day_ns = 86400000000000"

definition utc_weekday :: "int \<Rightarrow> Weekday" where
  "utc_weekday d = [Thu, Fri, Sat, Sun, Mon, Tue, Wed] ! nat (d mod 7)"

definition utc_parse_time :: "string \<Rightarrow> nat option" where
  "utc_parse_time s = (case split_once '':'' s of
     Some (h, m) \<Rightarrow> if list_all is_digit h \<and> list_all is_digit m \<and> length h \<le> 2 \<and> length m \<le> 2 \<and>
         read_nat h < 24 \<and> read_nat m < 60 then Some (read_nat h * 60 + read_nat m) else None
   | None \<Rightarrow> None)"

definition utc_chrono :: "unit chrono" where
  "utc_chrono = \<lparr>parse_time = utc_parse_time, parse_tz = (\<lambda>s. if s = ''UTC'' then Some () else None),
     date_of = (\<lambda>tz t. t div day_ns), weekday_of = utc_weekday,
     from_local = (\<lambda>tz d m. SingleTime (d * day_ns + int m * 60000000000)),
     from_std = (\<lambda>n. if n div 1000000 < 2 ^ 63 then Some (int n) else None), overflow_checks = False\<rparr>"

lemma utc_mono: "zone_mono utc_chrono tz time"
  by (auto simp: zone_mono_def utc_chrono_def resolve_local_def day_ns_def)

definition sync_job :: JobConfig where
  "sync_job = \<lparr>jc_name = ''sync'', jc_enabled = True, jc_every = Some ''15m'', jc_at = None,
     jc_weekdays_only = False, jc_timezone = None, jc_command = Some '' sync.py'', jc_timeout = None,
     jc_agent = None, jc_after = [], jc_success_when = None\<rparr>"

definition brief_job :: JobConfig where
  "brief_job = \<lparr>jc_name = ''brief'', jc_enabled = True, jc_every = None, jc_at = Some ''07:30'',
     jc_weekdays_only = True, jc_timezone = Some ''UTC'', jc_command = None, jc_timeout = Some ''5m'',
     jc_agent = Some (AgentValid \<lparr>ja_prompt = ''daily'', ja_allow_writes = True\<rparr>),
     jc_after = [''sync''], jc_success_when = None\<rparr>"

definition brief_valid :: "unit ValidatedJob" where
  "brief_valid = \<lparr>vj_name = ''brief'', vj_schedule = At 450 True (Some ()),
     vj_action = Agent \<lparr>ja_prompt = ''daily'', ja_allow_writes = True\<rparr>, vj_timeout = from_secs 300,
     vj_after = [''sync''], vj_success_when = None\<rparr>"

lemma brief_after: "validate_after brief_job [sync_job, brief_job] = Inr [''sync'']"
  by (simp add: validate_after_def sync_job_def brief_job_def after_graph_def collect_map_def)

lemma window_days: "[0..<8] = [0, 1, 2, 3, 4, 5, 6, 7]"
  by (simp add: upt_rec)

lemma five_minutes: "parse_duration False ''5m'' = Done (Some (from_secs 300))"
proof -
  have "show_nat 5 @ ''m'' = ''5m''" by code_simp
  then show ?thesis
    using parse_unit [of "CHR ''m''" 60 5 "''5m''" False]
    by (simp add: unit_secs_def trim_solid solid_def)
qed

lemma brief_validates: "validate_job utc_chrono brief_job [sync_job, brief_job] = Done (Inr brief_valid)"
proof -
  have "validate_action brief_job = Inr (vj_action brief_valid)"
    by (simp add: validate_action_def brief_job_def brief_valid_def trim_solid solid_def)
  moreover have "validate_after brief_job [sync_job, brief_job] = Inr (vj_after brief_valid)"
    by (simp add: brief_after) (simp add: brief_valid_def)
  moreover have "trim (jc_name brief_job) \<noteq> []" by (simp add: brief_job_def trim_solid solid_def)
  moreover have "utc_parse_time ''07:30'' = Some 450"
    by (simp add: utc_parse_time_def split_once_def is_digit_def read_nat_def digit_val_def)
  moreover from this have "validate_schedule utc_chrono brief_job = Done (Inr (vj_schedule brief_valid))"
    by (simp add: validate_schedule_def brief_job_def brief_valid_def utc_chrono_def)
  moreover have "validate_timeout utc_chrono brief_job (vj_action brief_valid) = Done (Inr (vj_timeout brief_valid))"
    using five_minutes by (simp add: validate_timeout_def brief_job_def brief_valid_def utc_chrono_def)
  ultimately show ?thesis unfolding validate_job_parts by (simp add: brief_job_def brief_valid_def)
qed

lemma validated_jobs_acyclic_witness: "acyclic (after_rel (after_graph [sync_job, brief_job]))"
proof (rule validated_jobs_acyclic)
  have "validate_after sync_job [sync_job, brief_job] = Inr []" by (simp add: validate_after_def sync_job_def)
  with brief_after show "list_all (\<lambda>job. \<exists>names. validate_after job [sync_job, brief_job] = Inr names) [sync_job, brief_job]"
    by auto
qed (simp add: sync_job_def brief_job_def)

lemma validate_job_sound_witness: "wf_job utc_chrono brief_job [sync_job, brief_job] brief_valid"
  by (rule validate_job_sound [OF brief_validates])

lemma parse_duration_unit_witness: "parse_duration True '' 15m'' = Done (Some (from_secs (15 * 60)))"
proof (rule parse_duration_unit)
  show "unit_secs CHR ''m'' = Some 60" by code_simp
  show "15 * 60 < (2::nat) ^ 64" by simp
  show "trim '' 15m'' = show_nat 15 @ ''m''" by code_simp
qed

lemma at_job_due_iff_witness:
  "is_due utc_chrono (At 450 False None) (20 * day_ns) None (18 * day_ns) \<longleftrightarrow>
    (\<exists>k fire. k < 8 \<and> fire_on utc_chrono None 450 False (date_of utc_chrono None (20 * day_ns) - int k) fire \<and>
       fire \<le> 20 * day_ns \<and> fire > 18 * day_ns)"
  using at_job_due_iff [OF utc_mono [of None 450], of False "20 * day_ns" None "18 * day_ns"] by simp

lemma at_job_new_fire_witness:
  "\<exists>date fire. fire_on utc_chrono None 450 False date fire \<and> 18 * day_ns < fire \<and> fire \<le> 20 * day_ns"
  by (rule at_job_new_fire [where runner_started = 0])
     (simp add: is_due_def most_recent_fire_def utc_chrono_def resolve_local_def day_ns_def window_days)

end
