(* ===== verification/JobGate.thy ===== *)
theory JobGate
  imports JobSchedule
begin

text \<open>
  The durable run state of a vault's jobs (\<open>notesmith-http/src/jobs/state.rs\<close>) and the same-day
  \<open>after\<close> gate (\<open>jobs/gate.rs\<close>).  The state file is missing, unreadable, corrupt or holds the
  records (its JSON text is not modelled: what is written parses back).  The interface
  \<open>run_log\<close> says what a recorder and a lookup promise each other; the gate's properties over a
  whole run history rest on it.
\<close>

section \<open>Run records\<close>

datatype JobRunStatus = Succeeded | Failed | TimedOut | Missed | NoWrites

fun status_str :: "JobRunStatus \<Rightarrow> string" where
  "status_str Succeeded = ''succeeded''"
| "status_str Failed = ''failed''"
| "status_str TimedOut = ''timed_out''"
| "status_str Missed = ''missed''"
| "status_str NoWrites = ''no_writes''"

record JobRunRecord =
  jr_last_run :: int
  jr_status :: JobRunStatus
  jr_exit_code :: "int option"
  jr_duration_ms :: "nat option"
  jr_writes :: "nat option"
  jr_sections_written :: "string list option"
  jr_last_success :: "int option"

type_synonym run_records = "string \<rightharpoonup> JobRunRecord"

datatype StateFile = MissingFile | UnreadableFile | CorruptFile | Stored run_records

fun state_load :: "StateFile \<Rightarrow> run_records" where
  "state_load MissingFile = Map.empty"
| "state_load UnreadableFile = Map.empty"
| "state_load CorruptFile = Map.empty"
| "state_load (Stored jobs) = jobs"

definition state_get :: "StateFile \<Rightarrow> string \<Rightarrow> JobRunRecord option" where
  "state_get file job = state_load file job"

definition state_all :: "StateFile \<Rightarrow> run_records" where
  "state_all file = state_load file"

definition stamp_success :: "JobRunRecord option \<Rightarrow> JobRunRecord \<Rightarrow> JobRunRecord" where
  "stamp_success prior r =
     r\<lparr>jr_last_success := (if jr_status r = Succeeded then Some (jr_last_run r)
        else Option.bind prior jr_last_success)\<rparr>"

text \<open>The write succeeds, or it fails and leaves the given file behind.\<close>

datatype write_result = WriteOk | WriteFails StateFile

fun state_record :: "write_result \<Rightarrow> StateFile \<Rightarrow> string \<Rightarrow> JobRunRecord \<Rightarrow> StateFile \<times> bool" where
  "state_record w file job r =
     (let state = state_load file;
          state' = state(job \<mapsto> stamp_success (state job) r)
      in case w of WriteOk \<Rightarrow> (Stored state', True) | WriteFails left \<Rightarrow> (left, False))"

section \<open>The gate\<close>

datatype GateDecision = Ready | Blocked "string list" | MissedFire

fun gate_timezone :: "'tz JobSchedule \<Rightarrow> 'tz option" where
  "gate_timezone (At time w tz) = tz"
| "gate_timezone (Every interval) = None"

definition date_in_zone :: "'tz chrono \<Rightarrow> int \<Rightarrow> 'tz option \<Rightarrow> int" where
  "date_in_zone ch instant tz = date_of ch tz instant"

definition unmet_prereqs ::
  "'tz chrono \<Rightarrow> string list \<Rightarrow> run_records \<Rightarrow> 'tz option \<Rightarrow> int \<Rightarrow> string list" where
  "unmet_prereqs ch after records tz now =
     (let today = date_in_zone ch now tz in
      filter (\<lambda>name. \<not> (case Option.bind (records name) jr_last_success of
          Some success \<Rightarrow> date_in_zone ch success tz = today | None \<Rightarrow> False)) after)"

definition waiting_on ::
  "'tz chrono \<Rightarrow> string list \<Rightarrow> 'tz JobSchedule \<Rightarrow> run_records \<Rightarrow> int \<Rightarrow> string list" where
  "waiting_on ch after schedule records now =
     (if after = [] then [] else unmet_prereqs ch after records (gate_timezone schedule) now)"

definition evaluate_gate ::
  "'tz chrono \<Rightarrow> string list \<Rightarrow> 'tz JobSchedule \<Rightarrow> run_records \<Rightarrow> int \<Rightarrow> GateDecision" where
  "evaluate_gate ch after schedule records now =
     (if after = [] then Ready
      else let tz = gate_timezone schedule; waiting = unmet_prereqs ch after records tz now in
        if waiting = [] then Ready
        else case schedule of
            Every _ \<Rightarrow> Blocked waiting
          | At time weekdays_only timezone \<Rightarrow>
              (case most_recent_fire ch timezone now time weekdays_only of
                 Some fire \<Rightarrow>
                   if date_in_zone ch fire tz < date_in_zone ch now tz then MissedFire else Blocked waiting
               | None \<Rightarrow> Blocked waiting))"

section \<open>The interface of a run log\<close>

locale run_log =
  fixes record_run :: "string \<Rightarrow> 'r \<Rightarrow> 's \<Rightarrow> 's"
    and lookup :: "'s \<Rightarrow> string \<Rightarrow> 'r option"
    and stamp :: "'r option \<Rightarrow> 'r \<Rightarrow> 'r"
  assumes lookup_same: "lookup (record_run job r s) job = Some (stamp (lookup s job) r)"
    and lookup_other: "k \<noteq> job \<Longrightarrow> lookup (record_run job r s) k = lookup s k"
begin

lemma lookup_history:
  "lookup (fold (\<lambda>(job, r). record_run job r) hist s) k =
     foldl (\<lambda>p r. Some (stamp p r)) (lookup s k) (map snd (filter (\<lambda>(job, r). job = k) hist))"
proof (induction hist arbitrary: s)
  case (Cons jr hist)
  obtain job r where jr: "jr = (job, r)" by (cases jr)
  then show ?case using Cons lookup_same lookup_other [of k job] by (cases "job = k") auto
qed simp

end

definition record_ok :: "string \<Rightarrow> JobRunRecord \<Rightarrow> StateFile \<Rightarrow> StateFile" where
  "record_ok job r file = fst (state_record WriteOk file job r)"

interpretation job_log: run_log record_ok state_get stamp_success
  by unfold_locales (simp_all add: record_ok_def state_get_def Let_def)

text \<open>The runs of a job that succeeded, in the order they were recorded.\<close>

definition succeeded_runs :: "(string \<times> JobRunRecord) list \<Rightarrow> string \<Rightarrow> int list" where
  "succeeded_runs hist job =
     map (\<lambda>(j, r). jr_last_run r) (filter (\<lambda>(j, r). j = job \<and> jr_status r = Succeeded) hist)"

definition last_opt :: "'a list \<Rightarrow> 'a option" where
  "last_opt xs = (if xs = [] then None else Some (last xs))"

lemma stamps_last_success:
  "Option.bind (foldl (\<lambda>p r. Some (stamp_success p r)) None (map snd (filter (\<lambda>(j, r). j = k) hist)))
     jr_last_success = last_opt (succeeded_runs hist k)"
proof (induction hist rule: rev_induct)
  case (snoc jr hist)
  obtain j r where "jr = (j, r)" by (cases jr)
  with snoc show ?case
    by (auto simp: succeeded_runs_def last_opt_def stamp_success_def)
qed (simp add: succeeded_runs_def last_opt_def)

definition replay :: "(string \<times> JobRunRecord) list \<Rightarrow> StateFile" where
  "replay hist = fold (\<lambda>(job, r). record_ok job r) hist MissingFile"

lemma replay_last_success:
  "Option.bind (state_all (replay hist) k) jr_last_success = last_opt (succeeded_runs hist k)"
proof -
  have "state_all (replay hist) k = state_get (replay hist) k" by (simp add: state_all_def state_get_def)
  then show ?thesis
    unfolding replay_def job_log.lookup_history
    using stamps_last_success [of k hist] by (simp add: state_get_def)
qed

section \<open>Properties\<close>

lemma job_record:
  "state_get (replay hist) job =
     map_option (\<lambda>r. r\<lparr>jr_last_success := last_opt (succeeded_runs hist job)\<rparr>)
       (last_opt (map snd (filter (\<lambda>(j, r). j = job) hist)))"
proof (induction hist rule: rev_induct)
  case (snoc jr hist)
  obtain j r where jr: "jr = (j, r)" by (cases jr)
  have step: "replay (hist @ [jr]) = record_ok j r (replay hist)" by (simp add: replay_def jr)
  show ?case
  proof (cases "j = job")
    case True
    have "Option.bind (state_get (replay hist) job) jr_last_success = last_opt (succeeded_runs hist job)"
      using replay_last_success [of hist job] by (simp add: state_all_def state_get_def)
    with True show ?thesis
      unfolding step True job_log.lookup_same
      by (simp add: jr True stamp_success_def succeeded_runs_def last_opt_def)
  next
    case False
    then have "job \<noteq> j" by simp
    from job_log.lookup_other [OF this] snoc False show ?thesis
      unfolding step by (simp add: jr succeeded_runs_def)
  qed
qed (simp add: replay_def state_get_def last_opt_def)

text \<open>The record of a job is the outcome last recorded for it, with the start of its last
  successful run: a later failure, timeout, missed or no-write run keeps that start, and a run of
  another job changes nothing.\<close>

lemma recorded_runs:
  "state_get (replay hist) job =
     map_option (\<lambda>r. r\<lparr>jr_last_success := last_opt (succeeded_runs hist job)\<rparr>)
       (last_opt (map snd (filter (\<lambda>(j, r). j = job) hist)))"
  by (rule job_record)

lemma gate_ready:
  "evaluate_gate ch after schedule (state_all (replay hist)) now = Ready \<longleftrightarrow>
     list_all (\<lambda>name. succeeded_runs hist name \<noteq> [] \<and>
        date_of ch (gate_timezone schedule) (last (succeeded_runs hist name)) =
        date_of ch (gate_timezone schedule) now) after"
proof -
  have "unmet_prereqs ch after (state_all (replay hist)) tz now = [] \<longleftrightarrow>
     list_all (\<lambda>name. succeeded_runs hist name \<noteq> [] \<and>
        date_of ch tz (last (succeeded_runs hist name)) = date_of ch tz now) after" for tz
    by (auto simp: unmet_prereqs_def Let_def replay_last_success last_opt_def date_in_zone_def
        filter_empty_conv list_all_iff)
  moreover have "evaluate_gate ch after schedule records now = Ready \<longleftrightarrow>
     after = [] \<or> unmet_prereqs ch after records (gate_timezone schedule) now = []" for records
    by (auto simp: evaluate_gate_def Let_def split: JobSchedule.JobSchedule.splits option.splits if_splits)
  ultimately show ?thesis by auto
qed

text \<open>C5: the gate opens exactly when every prerequisite has a successful run in the history and
  the last of those started today, in the time zone of the schedule.\<close>

theorem gate_ready_iff:
  "evaluate_gate ch after schedule (state_all (replay hist)) now = Ready \<longleftrightarrow>
     list_all (\<lambda>name. succeeded_runs hist name \<noteq> [] \<and>
        date_of ch (gate_timezone schedule) (last (succeeded_runs hist name)) =
        date_of ch (gate_timezone schedule) now) after"
  by (rule gate_ready)

text \<open>A due fire is given up as missed exactly when the schedule has a time of day, some
  prerequisite has not succeeded today, and the most recent fire is of an earlier day than now; an
  interval job is never missed.\<close>

lemma gate_missed_iff:
  "evaluate_gate ch after schedule records now = MissedFire \<longleftrightarrow>
     (\<exists>time w tz fire. schedule = At time w tz \<and> waiting_on ch after schedule records now \<noteq> [] \<and>
        most_recent_fire ch tz now time w = Some fire \<and> date_of ch tz fire < date_of ch tz now)"
  by (cases schedule)
     (auto simp: evaluate_gate_def waiting_on_def date_in_zone_def Let_def split: option.splits)

text \<open>What the job list shows as waited for is what the gate waits for: a blocked gate reports
  exactly those names, and no name is reported only when the gate is open.\<close>

lemma waiting_on_gate:
  "(case evaluate_gate ch after schedule records now of
      Ready \<Rightarrow> waiting_on ch after schedule records now = []
    | Blocked names \<Rightarrow> names = waiting_on ch after schedule records now \<and> names \<noteq> []
    | MissedFire \<Rightarrow> waiting_on ch after schedule records now \<noteq> [])"
  by (cases schedule)
     (auto simp: evaluate_gate_def waiting_on_def Let_def split: option.splits)

end
