(* ===== verification/JobRun.thy ===== *)
theory JobRun
  imports JobGate
begin

text \<open>
  Job subprocesses (\<open>notesmith-http/src/jobs/run.rs\<close>): the command built for a connector script
  and for an agent run, the environment contract, and the outcome of a run.  A \<open>Command\<close> is a
  record of what was set on it; its environment is the list of \<open>env\<close> and \<open>env_remove\<close> calls in
  order, applied to the environment the daemon inherited.  The operating system is a parameter:
  whether a path exists, and what a spawned command does.
\<close>

section \<open>Commands\<close>

datatype EnvOp = EnvRemove string | EnvSet string string

record JobCommand =
  cmd_program :: string
  cmd_args :: "string list"
  cmd_dir :: "string option"
  cmd_env :: "EnvOp list"
  cmd_own_group :: bool
  cmd_stdin_null :: bool
  cmd_piped_output :: bool

definition command_new :: "string \<Rightarrow> JobCommand" where
  "command_new program = \<lparr>cmd_program = program, cmd_args = [], cmd_dir = None, cmd_env = [],
     cmd_own_group = False, cmd_stdin_null = False, cmd_piped_output = False\<rparr>"

definition command_arg :: "string \<Rightarrow> JobCommand \<Rightarrow> JobCommand" where
  "command_arg a c = c\<lparr>cmd_args := cmd_args c @ [a]\<rparr>"

fun apply_env :: "EnvOp \<Rightarrow> (string \<rightharpoonup> string) \<Rightarrow> (string \<rightharpoonup> string)" where
  "apply_env (EnvRemove k) e = e(k := None)"
| "apply_env (EnvSet k v) e = e(k \<mapsto> v)"

definition child_env :: "(string \<rightharpoonup> string) \<Rightarrow> JobCommand \<Rightarrow> (string \<rightharpoonup> string)" where
  "child_env inherited c = fold apply_env (cmd_env c) inherited"

record JobEnv =
  je_api_base :: string
  je_vault_name :: string
  je_state_dir :: string
  je_run_id :: "string option"

definition apply_job_contract :: "string \<Rightarrow> JobEnv \<Rightarrow> JobCommand \<Rightarrow> JobCommand" where
  "apply_job_contract vault_root env c =
     c\<lparr>cmd_own_group := True, cmd_dir := Some vault_root,
       cmd_env := cmd_env c @ [EnvRemove ''NOTESMITH_URL'', EnvRemove ''NOTESMITH_RUN_ID'',
          EnvSet ''NOTESMITH_API_BASE'' (je_api_base env), EnvSet ''NOTESMITH_VAULT'' (je_vault_name env),
          EnvSet ''NOTESMITH_STATE_DIR'' (je_state_dir env)] @
          (case je_run_id env of Some run_id \<Rightarrow> [EnvSet ''NOTESMITH_RUN_ID'' run_id] | None \<Rightarrow> []),
       cmd_stdin_null := True, cmd_piped_output := True\<rparr>"

definition build_command :: "string \<Rightarrow> string \<Rightarrow> JobEnv \<Rightarrow> JobCommand" where
  "build_command command_path vault_root env =
     (let ext = (case file_ext command_path of Some e \<Rightarrow> e | None \<Rightarrow> '''');
          command =
            (if ext = ''py'' then command_arg command_path (command_new ''python3'')
             else if ext = ''sh'' then command_arg command_path (command_new ''sh'')
             else if ext = ''js'' then command_arg command_path (command_new ''node'')
             else command_new command_path)
      in apply_job_contract vault_root env command)"

definition agent_command :: "string \<Rightarrow> string \<Rightarrow> JobAgentConfig \<Rightarrow> JobEnv \<Rightarrow> JobCommand" where
  "agent_command notesmith_bin vault_root agent env =
     (let command = fold command_arg [''--vault'', je_vault_name env, ''ai'', ''prompt'', ja_prompt agent]
            (command_new notesmith_bin);
          command = (if ja_allow_writes agent then command_arg ''--allow-writes'' command else command)
      in apply_job_contract vault_root env command)"

section \<open>Runs\<close>

definition MAX_CAPTURED_OUTPUT :: nat where
  "MAX_CAPTURED_OUTPUT = 64 * 1024"

record JobRunOutcome =
  jo_exit_code :: "int option"
  jo_timed_out :: bool
  jo_duration :: nat
  jo_stdout :: string
  jo_stderr :: string

definition outcome_succeeded :: "JobRunOutcome \<Rightarrow> bool" where
  "outcome_succeeded o' \<longleftrightarrow> \<not> jo_timed_out o' \<and> jo_exit_code o' = Some 0"

datatype JobRunError = CommandNotFound string | ExecutionFailed string

text \<open>The chunks a stream delivers until its end or a read error.\<close>

fun read_loop :: "string \<Rightarrow> string list \<Rightarrow> string" where
  "read_loop captured [] = captured"
| "read_loop captured (chunk # chunks) =
     (let room = MAX_CAPTURED_OUTPUT - length captured
      in read_loop (captured @ take (min (length chunk) room) chunk) chunks)"

definition read_bounded :: "(string \<Rightarrow> string) \<Rightarrow> string list option \<Rightarrow> string" where
  "read_bounded lossy stream = (case stream of None \<Rightarrow> '''' | Some chunks \<Rightarrow> lossy (read_loop [] chunks))"

text \<open>
  What a spawned process does: the result of waiting for it (\<open>None\<close> when the timeout came first;
  an error, or the exit code, absent after a signal), its streams (\<open>None\<close> when the reading task
  failed) and the time that passed.
\<close>

record ProcRun =
  pr_wait :: "(string + int option) option"
  pr_stdout :: "string list option option"
  pr_stderr :: "string list option option"
  pr_elapsed :: nat

record Os =
  os_exists :: "string \<Rightarrow> bool"
  os_spawn :: "JobCommand \<Rightarrow> nat \<Rightarrow> string + ProcRun"
  os_lossy :: "string \<Rightarrow> string"

definition stream_text :: "Os \<Rightarrow> string list option option \<Rightarrow> string" where
  "stream_text os s = (case s of None \<Rightarrow> '''' | Some stream \<Rightarrow> read_bounded (os_lossy os) stream)"

definition run_prepared :: "Os \<Rightarrow> JobCommand \<Rightarrow> nat \<Rightarrow> JobRunError + JobRunOutcome" where
  "run_prepared os command timeout =
     (case os_spawn os command timeout of
        Inl source \<Rightarrow> Inl (ExecutionFailed source)
      | Inr p \<Rightarrow>
          (let finish = (\<lambda>code timed_out.
             Inr \<lparr>jo_exit_code = code, jo_timed_out = timed_out, jo_duration = pr_elapsed p,
                  jo_stdout = stream_text os (pr_stdout p), jo_stderr = stream_text os (pr_stderr p)\<rparr>)
           in case pr_wait p of
               Some (Inl source) \<Rightarrow> Inl (ExecutionFailed source)
             | Some (Inr code) \<Rightarrow> finish code False
             | None \<Rightarrow> finish None True))"

definition run_command_job ::
  "Os \<Rightarrow> string \<Rightarrow> string \<Rightarrow> nat \<Rightarrow> JobEnv \<Rightarrow> JobRunError + JobRunOutcome" where
  "run_command_job os vault_root command_rel timeout env =
     (let command_path = path_join vault_root command_rel
      in if \<not> os_exists os command_path then Inl (CommandNotFound command_path)
         else run_prepared os (build_command command_path vault_root env) timeout)"

definition run_agent_job ::
  "Os \<Rightarrow> string \<Rightarrow> string \<Rightarrow> JobAgentConfig \<Rightarrow> nat \<Rightarrow> JobEnv \<Rightarrow> JobRunError + JobRunOutcome" where
  "run_agent_job os notesmith_bin vault_root agent timeout env =
     run_prepared os (agent_command notesmith_bin vault_root agent env) timeout"

section \<open>Properties\<close>

definition job_env_of :: "(string \<rightharpoonup> string) \<Rightarrow> JobEnv \<Rightarrow> (string \<rightharpoonup> string)" where
  "job_env_of inherited env k =
     (if k = ''NOTESMITH_RUN_ID'' then je_run_id env
      else if k = ''NOTESMITH_STATE_DIR'' then Some (je_state_dir env)
      else if k = ''NOTESMITH_VAULT'' then Some (je_vault_name env)
      else if k = ''NOTESMITH_API_BASE'' then Some (je_api_base env)
      else if k = ''NOTESMITH_URL'' then None else inherited k)"

lemma contract_env:
  "cmd_env c = [] \<Longrightarrow> child_env inherited (apply_job_contract vault_root env c) k = job_env_of inherited env k"
  by (auto simp: child_env_def apply_job_contract_def job_env_of_def split: option.splits)

lemma command_env_empty [simp]:
  "cmd_env (command_new p) = []" "cmd_env (command_arg a c) = cmd_env c"
  by (simp_all add: command_new_def command_arg_def)

lemma contract_frame [simp]:
  "cmd_dir (apply_job_contract vault_root env c) = Some vault_root"
  "cmd_own_group (apply_job_contract vault_root env c)"
  "cmd_stdin_null (apply_job_contract vault_root env c)"
  "cmd_program (apply_job_contract vault_root env c) = cmd_program c"
  "cmd_args (apply_job_contract vault_root env c) = cmd_args c"
  by (simp_all add: apply_job_contract_def)

text \<open>The environment of every job process, connector or agent: the daemon's own, without
  \<open>NOTESMITH_URL\<close>, with the API base, vault name and state directory of the job, and with a run id
  exactly when the run is tracked (an inherited one never gets through).\<close>

lemma job_environment:
  "child_env inherited (build_command path vault_root env) k = job_env_of inherited env k \<and>
   child_env inherited (agent_command bin vault_root agent env) k = job_env_of inherited env k"
  unfolding build_command_def agent_command_def Let_def by (simp add: contract_env)

lemma read_loop_eq: "length captured \<le> MAX_CAPTURED_OUTPUT \<Longrightarrow>
    read_loop captured chunks = take MAX_CAPTURED_OUTPUT (captured @ concat chunks)"
proof (induction chunks arbitrary: captured)
  case (Cons c cs)
  let ?room = "MAX_CAPTURED_OUTPUT - length captured"
  have "take (min (length c) ?room) c = take ?room c" by (simp add: min_def)
  then have "read_loop captured (c # cs) = read_loop (captured @ take ?room c) cs" by simp
  also have "\<dots> = take MAX_CAPTURED_OUTPUT ((captured @ take ?room c) @ concat cs)"
    by (rule Cons.IH) (use Cons.prems in auto)
  also have "\<dots> = take MAX_CAPTURED_OUTPUT (captured @ concat (c # cs))"
    using Cons.prems by (cases "length c \<le> ?room") (simp_all add: take_append)
  finally show ?case .
qed simp

text \<open>Captured output is the first 64 KiB of the stream, however it arrives in chunks.\<close>

lemma captured_output:
  "read_loop [] chunks = take (64 * 1024) (concat chunks)"
  using read_loop_eq [of "[]" chunks] by (simp add: MAX_CAPTURED_OUTPUT_def)

end
