(* ===== verification/Events.thy ===== *)
theory Events
  imports StdModel
begin


text \<open>
  The server's event buffer (\<open>notesmith-http/src/events.rs\<close>): events get increasing ids from an
  atomic 64-bit counter and the newest \<open>EVENT_BUFFER_CAPACITY\<close> stay for clients that resume from
  the last id they saw.  The broadcast channel a client listens on is not modelled (it is the
  runtime's).  The last section takes \<open>push\<close> apart into its two atomic steps, the counter and the
  insertion under the lock, as two threads can interleave them.
\<close>

section \<open>Events\<close>

datatype EventType =
    NoteCreated
  | NoteUpdated
  | NoteMoved
  | NoteDeleted
  | TaskUpdated
  | NoteCaptured
  | NoteClipped
  | DailyCreated
  | PeriodicCreated
  | CacheRebuilt
  | SearchReindexed
  | ConfigChanged
  | ConfigRemoved
  | ConfigError
  | VaultsChanged
  | ShuttingDown
  | JobStarted
  | JobSucceeded
  | JobFailed
  | JobNoWrites

fun event_str :: "EventType \<Rightarrow> string" where
  "event_str NoteCreated = ''note.created''"
| "event_str NoteUpdated = ''note.updated''"
| "event_str NoteMoved = ''note.moved''"
| "event_str NoteDeleted = ''note.deleted''"
| "event_str TaskUpdated = ''task.updated''"
| "event_str NoteCaptured = ''note.captured''"
| "event_str NoteClipped = ''note.clipped''"
| "event_str DailyCreated = ''daily.created''"
| "event_str PeriodicCreated = ''periodic.created''"
| "event_str CacheRebuilt = ''cache.rebuilt''"
| "event_str SearchReindexed = ''search.reindexed''"
| "event_str ConfigChanged = ''config.changed''"
| "event_str ConfigRemoved = ''config.removed''"
| "event_str ConfigError = ''config.error''"
| "event_str VaultsChanged = ''vaults.changed''"
| "event_str ShuttingDown = ''shutting_down''"
| "event_str JobStarted = ''job.started''"
| "event_str JobSucceeded = ''job.succeeded''"
| "event_str JobFailed = ''job.failed''"
| "event_str JobNoWrites = ''job.no_writes''"


record ConfigDetail =
  cd_key :: string
  cd_status :: string
  cd_error :: "string option"

record VaultEvent =
  ev_id :: "64 word option"
  ev_vault :: string
  ev_type :: EventType
  ev_path :: string
  ev_timestamp :: string
  ev_config :: "ConfigDetail option"
  ev_hash :: "string option"

text \<open>\<open>timestamp\<close> is the formatted local time.\<close>

definition event_new :: "string \<Rightarrow> string \<Rightarrow> EventType \<Rightarrow> string \<Rightarrow> VaultEvent" where
  "event_new timestamp vault event_type path =
     \<lparr>ev_id = None, ev_vault = vault, ev_type = event_type, ev_path = path, ev_timestamp = timestamp,
      ev_config = None, ev_hash = None\<rparr>"

definition with_hash :: "VaultEvent \<Rightarrow> string \<Rightarrow> VaultEvent" where
  "with_hash e hash = e\<lparr>ev_hash := Some hash\<rparr>"

definition config_event :: "string \<Rightarrow> string \<Rightarrow> EventType \<Rightarrow> string \<Rightarrow> ConfigDetail \<Rightarrow> VaultEvent" where
  "config_event timestamp vault event_type path detail =
     \<lparr>ev_id = None, ev_vault = vault, ev_type = event_type, ev_path = path, ev_timestamp = timestamp,
      ev_config = Some detail, ev_hash = None\<rparr>"

section \<open>The buffer\<close>

definition EVENT_BUFFER_CAPACITY :: nat where
  "EVENT_BUFFER_CAPACITY = 100"

record EventBuffer =
  eb_events :: "VaultEvent list"
  eb_next_id :: "64 word"
  eb_capacity :: nat

definition buffer_new :: "nat \<Rightarrow> EventBuffer" where
  "buffer_new capacity = \<lparr>eb_events = [], eb_next_id = 1, eb_capacity = capacity\<rparr>"

definition push_bounded :: "nat \<Rightarrow> 'e \<Rightarrow> 'e list \<Rightarrow> 'e list" where
  "push_bounded capacity x xs = (if capacity \<le> length xs then tl xs else xs) @ [x]"

definition buffer_push :: "VaultEvent \<Rightarrow> EventBuffer \<Rightarrow> VaultEvent \<times> EventBuffer" where
  "buffer_push event b =
     (let i = eb_next_id b; event = event\<lparr>ev_id := Some i\<rparr>
      in (event, b\<lparr>eb_next_id := i + 1, eb_events := push_bounded (eb_capacity b) event (eb_events b)\<rparr>))"

definition events_since :: "EventBuffer \<Rightarrow> 64 word \<Rightarrow> string \<Rightarrow> VaultEvent list" where
  "events_since b last_id vault =
     filter (\<lambda>event. (case ev_id event of Some i \<Rightarrow> last_id < i | None \<Rightarrow> False) \<and>
        (ev_vault event = vault \<or> ev_vault event = ''_system'')) (eb_events b)"

text \<open>\<open>emit\<close> returns what it sends to the subscribers.\<close>

definition emit :: "VaultEvent \<Rightarrow> EventBuffer \<Rightarrow> VaultEvent \<times> EventBuffer" where
  "emit event b = buffer_push event b"

interpretation event_log: bounded_log EVENT_BUFFER_CAPACITY "push_bounded EVENT_BUFFER_CAPACITY"
  by unfold_locales (simp_all add: EVENT_BUFFER_CAPACITY_def push_bounded_def)

section \<open>A sequence of events\<close>

definition emit_all :: "VaultEvent list \<Rightarrow> EventBuffer \<Rightarrow> EventBuffer" where
  "emit_all es b = fold (\<lambda>e b. snd (emit e b)) es b"

definition number_from :: "nat \<Rightarrow> VaultEvent list \<Rightarrow> VaultEvent list" where
  "number_from n es = map (\<lambda>(i, e). e\<lparr>ev_id := Some (of_nat i)\<rparr>) (enumerate n es)"

lemma number_from_Cons: "number_from n (e # es) = e\<lparr>ev_id := Some (of_nat n)\<rparr> # number_from (Suc n) es"
  by (simp add: number_from_def)

lemma emit_all_log:
  assumes "eb_next_id b = of_nat n"
  shows "eb_events (emit_all es b) = fold (push_bounded (eb_capacity b)) (number_from n es) (eb_events b)"
  using assms
proof (induction es arbitrary: b n)
  case (Cons e es)
  have "eb_next_id (snd (emit e b)) = of_nat (Suc n)"
    using Cons.prems by (simp add: emit_def buffer_push_def Let_def)
  from Cons.IH [OF this] Cons.prems show ?case
    by (simp add: emit_all_def number_from_Cons emit_def buffer_push_def Let_def)
qed (simp add: emit_all_def number_from_def)

lemma emitted_window:
  "eb_events (emit_all es (buffer_new EVENT_BUFFER_CAPACITY)) =
     drop (length es - EVENT_BUFFER_CAPACITY) (number_from 1 es)"
proof -
  have "eb_events (emit_all es (buffer_new EVENT_BUFFER_CAPACITY)) =
      fold (push_bounded EVENT_BUFFER_CAPACITY) (number_from 1 es) []"
    by (subst emit_all_log [where n = 1]) (simp_all add: buffer_new_def)
  then show ?thesis by (simp add: event_log.pushes_window number_from_def)
qed

lemma drop_enumerate: "drop k (enumerate n es) = enumerate (n + k) (drop k es)"
  by (induction es arbitrary: n k) (auto simp: drop_Cons split: nat.splits)

lemma drop_number_from: "drop k (number_from n es) = number_from (n + k) (drop k es)"
  by (simp add: number_from_def drop_map drop_enumerate)

lemma of_nat_less64:
  "i < 2 ^ 64 \<Longrightarrow> k < 2 ^ 64 \<Longrightarrow> (of_nat k :: 64 word) < of_nat i \<longleftrightarrow> k < i"
  by (simp add: word_less_nat_alt unat_of_nat)

lemma filter_number_from:
  assumes "n + length es \<le> 2 ^ 64" and "k < 2 ^ 64"
  shows "filter (\<lambda>e. (case ev_id e of Some i \<Rightarrow> of_nat k < i | None \<Rightarrow> False) \<and> P (ev_vault e)) (number_from n es) =
     filter (\<lambda>e. P (ev_vault e)) (number_from (n + (Suc k - n)) (drop (Suc k - n) es))"
  using assms
proof (induction es arbitrary: n)
  case (Cons e es)
  have IH: "filter (\<lambda>e. (case ev_id e of Some i \<Rightarrow> of_nat k < i | None \<Rightarrow> False) \<and> P (ev_vault e))
       (number_from (Suc n) es) =
     filter (\<lambda>e. P (ev_vault e)) (number_from (Suc n + (Suc k - Suc n)) (drop (Suc k - Suc n) es))"
    by (rule Cons.IH) (use Cons.prems in auto)
  have lt: "(of_nat k :: 64 word) < of_nat n \<longleftrightarrow> k < n"
    by (rule of_nat_less64) (use Cons.prems in auto)
  show ?case
  proof (cases "k < n")
    case True
    with IH lt show ?thesis by (simp add: number_from_Cons)
  next
    case False
    then have "Suc k - n = Suc (Suc k - Suc n)" by simp
    with False IH lt show ?thesis by (simp add: number_from_Cons)
  qed
qed (simp add: number_from_def)

section \<open>Properties\<close>

text \<open>Resuming loses nothing that is still in the window: for fewer than 2^64 events since the
  start, a client that saw event \<open>k\<close> gets, in order and with their ids, exactly the events of its
  vault and of the system after \<open>k\<close> among the newest hundred.\<close>

lemma events_since_resume:
  assumes "length es < 2 ^ 64" and "k < 2 ^ 64"
  shows "events_since (emit_all es (buffer_new EVENT_BUFFER_CAPACITY)) (of_nat k) vault =
    (let m = max k (length es - EVENT_BUFFER_CAPACITY)
     in filter (\<lambda>e. ev_vault e = vault \<or> ev_vault e = ''_system'') (number_from (m + 1) (drop m es)))"
proof -
  let ?d = "length es - EVENT_BUFFER_CAPACITY" and ?P = "\<lambda>v. v = vault \<or> v = ''_system''"
  have "events_since (emit_all es (buffer_new EVENT_BUFFER_CAPACITY)) (of_nat k) vault =
      filter (\<lambda>e. (case ev_id e of Some i \<Rightarrow> of_nat k < i | None \<Rightarrow> False) \<and> ?P (ev_vault e))
        (number_from (1 + ?d) (drop ?d es))"
    unfolding events_since_def emitted_window drop_number_from ..
  also have "\<dots> = filter (\<lambda>e. ?P (ev_vault e))
      (number_from (1 + ?d + (Suc k - (1 + ?d))) (drop (Suc k - (1 + ?d)) (drop ?d es)))"
    by (rule filter_number_from) (use assms in auto)
  also have "1 + ?d + (Suc k - (1 + ?d)) = max k ?d + 1" by simp
  also have "drop (Suc k - (1 + ?d)) (drop ?d es) = drop (max k ?d) es"
    by (simp add: max_def)
  finally show ?thesis by (simp add: Let_def)
qed

section \<open>Interleaved pushes\<close>

text \<open>
  A thread in \<open>push\<close> first takes an id from the counter and then inserts its event under the write
  lock.  The state holds the buffer and the events that have their id and wait for the lock.
\<close>

record PushState =
  ps_buffer :: EventBuffer
  ps_waiting :: "VaultEvent list"

inductive push_step :: "PushState \<Rightarrow> PushState \<Rightarrow> bool" where
  take_id: "push_step s
     (s\<lparr>ps_buffer := (ps_buffer s)\<lparr>eb_next_id := eb_next_id (ps_buffer s) + 1\<rparr>,
        ps_waiting := ps_waiting s @ [e\<lparr>ev_id := Some (eb_next_id (ps_buffer s))\<rparr>]\<rparr>)"
| insert_event: "ps_waiting s = xs @ e # ys \<Longrightarrow> push_step s
     (s\<lparr>ps_buffer := (ps_buffer s)\<lparr>eb_events := push_bounded (eb_capacity (ps_buffer s)) e (eb_events (ps_buffer s))\<rparr>,
        ps_waiting := xs @ ys\<rparr>)"

text \<open>A thread that runs both steps without interruption does what \<open>buffer_push\<close> does.\<close>

lemma push_uninterrupted:
  "push_step\<^sup>*\<^sup>* \<lparr>ps_buffer = b, ps_waiting = []\<rparr> \<lparr>ps_buffer = snd (buffer_push e b), ps_waiting = []\<rparr>"
proof -
  have "push_step \<lparr>ps_buffer = b, ps_waiting = []\<rparr>
      \<lparr>ps_buffer = b\<lparr>eb_next_id := eb_next_id b + 1\<rparr>, ps_waiting = [e\<lparr>ev_id := Some (eb_next_id b)\<rparr>]\<rparr>" (is "push_step _ ?m")
    using take_id [of "\<lparr>ps_buffer = b, ps_waiting = []\<rparr>" e] by simp
  moreover have "push_step ?m \<lparr>ps_buffer = snd (buffer_push e b), ps_waiting = []\<rparr>"
    using insert_event [of ?m "[]" "e\<lparr>ev_id := Some (eb_next_id b)\<rparr>" "[]"]
    by (simp add: buffer_push_def Let_def)
  ultimately show ?thesis by (meson converse_rtranclp_into_rtranclp r_into_rtranclp)
qed

text \<open>Two threads can insert their events in the other order of their ids, and a client that
  resumes from the id it saw then never gets the event inserted later.\<close>

lemma resume_misses_interleaved_event:
  "\<exists>s t e f. push_step\<^sup>*\<^sup>* \<lparr>ps_buffer = buffer_new EVENT_BUFFER_CAPACITY, ps_waiting = []\<rparr> s \<and>
     push_step s t \<and> events_since (ps_buffer s) 0 ''v'' = [f] \<and>
     eb_events (ps_buffer t) = [f, e] \<and> ev_vault e = ''v'' \<and>
     events_since (ps_buffer t) (the (ev_id f)) ''v'' = []"
proof -
  let ?b = "buffer_new EVENT_BUFFER_CAPACITY"
  let ?e = "event_new [] ''v'' NoteCreated ''a''"
  let ?e1 = "?e\<lparr>ev_id := Some 1\<rparr>" and ?e2 = "?e\<lparr>ev_id := Some 2\<rparr>"
  let ?s0 = "\<lparr>ps_buffer = ?b, ps_waiting = []\<rparr>"
  let ?s1 = "\<lparr>ps_buffer = ?b\<lparr>eb_next_id := 2\<rparr>, ps_waiting = [?e1]\<rparr>"
  let ?s2 = "\<lparr>ps_buffer = ?b\<lparr>eb_next_id := 3\<rparr>, ps_waiting = [?e1, ?e2]\<rparr>"
  let ?s3 = "\<lparr>ps_buffer = ?b\<lparr>eb_next_id := 3, eb_events := [?e2]\<rparr>, ps_waiting = [?e1]\<rparr>"
  let ?s4 = "\<lparr>ps_buffer = ?b\<lparr>eb_next_id := 3, eb_events := [?e2, ?e1]\<rparr>, ps_waiting = []\<rparr>"
  have "push_step ?s0 ?s1" using take_id [of ?s0 ?e] by (simp add: buffer_new_def)
  moreover have "push_step ?s1 ?s2" using take_id [of ?s1 ?e] by (simp add: buffer_new_def)
  moreover have "push_step ?s2 ?s3" using insert_event [of ?s2 "[?e1]" ?e2 "[]"]
    by (simp add: buffer_new_def push_bounded_def EVENT_BUFFER_CAPACITY_def)
  moreover have s34: "push_step ?s3 ?s4" using insert_event [of ?s3 "[]" ?e1 "[]"]
    by (simp add: buffer_new_def push_bounded_def EVENT_BUFFER_CAPACITY_def)
  ultimately have "push_step\<^sup>*\<^sup>* ?s0 ?s3"
    by (meson converse_rtranclp_into_rtranclp rtranclp.rtrancl_refl)
  moreover have "events_since (ps_buffer ?s3) 0 ''v'' = [?e2]"
    "events_since (ps_buffer ?s4) (the (ev_id ?e2)) ''v'' = []"
    by (simp_all add: events_since_def event_new_def)
  moreover have "eb_events (ps_buffer ?s4) = [?e2, ?e1]" "ev_vault ?e1 = ''v''" by (simp_all add: event_new_def)
  ultimately show ?thesis using s34 by blast
qed

section \<open>Witnesses\<close>

lemma events_since_resume_witness:
  "events_since (emit_all (replicate 3 (event_new [] ''v'' NoteUpdated ''n'')) (buffer_new EVENT_BUFFER_CAPACITY))
     (of_nat 1) ''v'' =
    filter (\<lambda>e. ev_vault e = ''v'' \<or> ev_vault e = ''_system'')
      (number_from (Suc 1) (drop 1 (replicate 3 (event_new [] ''v'' NoteUpdated ''n''))))"
  using events_since_resume [of "replicate 3 (event_new [] ''v'' NoteUpdated ''n'')" 1 "''v''"]
  by (simp add: EVENT_BUFFER_CAPACITY_def)

end
