(* ===== verification/JobRunner.thy ===== *)
theory JobRunner
  imports JobRun Events "HOL-Library.Multiset"
begin

text \<open>
  The job runner (\<open>notesmith-http/src/jobs/mod.rs\<close>) and its routes (\<open>routes/jobs.rs\<close>): the run
  registry, one scheduling pass over a vault's jobs, the execution of one job, the manual trigger
  and the supervisor.  The world a pass works on is a record: the run-state file, the registry,
  the warnings already given and the events emitted so far.  What comes from outside is the record
  \<open>JobIo\<close> of parameters: the clock, the file system, the processes, the vault index; each is
  indexed by the number of calls made so far, so two calls may answer differently.  A pass or a
  run that panics keeps the effects it had and returns \<open>False\<close>.
\<close>

section \<open>Small helpers\<close>

definition LOG_STDERR_TAIL :: nat where
  "LOG_STDERR_TAIL = 500"

definition duration_from_env :: "string option \<Rightarrow> nat \<Rightarrow> nat" where
  "duration_from_env var default_secs =
     from_secs (case Option.bind var parse_u64 of
        Some v \<Rightarrow> if 0 < v then v else default_secs | None \<Rightarrow> default_secs)"

definition default_api_base :: "string \<Rightarrow> string" where
  "default_api_base bind_addr =
     ''http://'' @ (case rsplit_once CHR '':'' bind_addr of
        Some (host, port) \<Rightarrow>
          if host = ''0.0.0.0'' \<or> host = ''::'' \<or> host = ''[::]'' then ''127.0.0.1:'' @ port else bind_addr
      | None \<Rightarrow> bind_addr)"

definition sanitize_component :: "string \<Rightarrow> string" where
  "sanitize_component name =
     map (\<lambda>ch. if ch = CHR ''/'' \<or> ch = CHR 0x5C \<or> ch = CHR '':'' then CHR ''_'' else ch) name"

definition ellipsis :: string where
  "ellipsis = [CHR 0xE2, CHR 0x80, CHR 0xA6]"

definition tail_text :: "string \<Rightarrow> nat \<Rightarrow> string" where
  "tail_text text max_chars =
     (let trimmed = trim text; char_count = length (utf8_chars trimmed)
      in if char_count \<le> max_chars then trimmed
         else ellipsis @ concat (drop (char_count - max_chars) (utf8_chars trimmed)))"

section \<open>The run registry\<close>

type_synonym registry = "(string \<times> string) set"

definition try_begin_run :: "registry \<Rightarrow> string \<Rightarrow> string \<Rightarrow> bool \<times> registry" where
  "try_begin_run reg vault job = ((vault, job) \<notin> reg, insert (vault, job) reg)"

definition is_running :: "registry \<Rightarrow> string \<Rightarrow> string \<Rightarrow> bool" where
  "is_running reg vault job \<longleftrightarrow> (vault, job) \<in> reg"

definition drop_guard :: "registry \<Rightarrow> string \<Rightarrow> string \<Rightarrow> registry" where
  "drop_guard reg vault job = reg - {(vault, job)}"

section \<open>The world\<close>

record RunnerCtx =
  rc_vault_name :: string
  rc_connector_root :: string
  rc_notesmith_bin :: string

definition state_dir_for :: "RunnerCtx \<Rightarrow> string \<Rightarrow> string" where
  "state_dir_for ctx job = path_join (rc_connector_root ctx) (sanitize_component job)"

record QueryResult =
  qr_columns :: "string list"
  qr_rows :: "json list list"
  qr_row_count :: nat

record RunWrites =
  rwr_count :: nat
  rwr_sections :: "string list"

record JobIo =
  io_now :: "nat \<Rightarrow> int"
  io_write :: "nat \<Rightarrow> write_result"
  io_vault_root :: "nat \<Rightarrow> string option"
  io_uuid :: "nat \<Rightarrow> string"
  io_os :: "nat \<Rightarrow> Os"
  io_take_writes :: "nat \<Rightarrow> string \<Rightarrow> RunWrites option"
  io_query :: "nat \<Rightarrow> string \<Rightarrow> (string + QueryResult) option"
  io_api_base :: string
  io_timestamp :: "nat \<Rightarrow> string"
  io_reason :: "JobConfigError \<Rightarrow> string"

record RunnerWorld =
  rw_file :: StateFile
  rw_registry :: registry
  rw_warned :: "string set"
  rw_events :: "VaultEvent list"
  rw_time :: nat

definition tick :: "RunnerWorld \<Rightarrow> RunnerWorld" where
  "tick w = w\<lparr>rw_time := Suc (rw_time w)\<rparr>"

definition emit_job :: "JobIo \<Rightarrow> RunnerCtx \<Rightarrow> EventType \<Rightarrow> string \<Rightarrow> RunnerWorld \<Rightarrow> RunnerWorld" where
  "emit_job io ctx ty job w =
     w\<lparr>rw_events := rw_events w @ [event_new (io_timestamp io (rw_time w)) (rc_vault_name ctx) ty job],
       rw_time := Suc (rw_time w)\<rparr>"

definition store_record :: "JobIo \<Rightarrow> string \<Rightarrow> JobRunRecord \<Rightarrow> RunnerWorld \<Rightarrow> RunnerWorld" where
  "store_record io job r w =
     w\<lparr>rw_file := fst (state_record (io_write io (rw_time w)) (rw_file w) job r), rw_time := Suc (rw_time w)\<rparr>"

section \<open>Verdicts\<close>

definition refine_agent_outcome ::
  "JobRunStatus \<Rightarrow> JobAction \<Rightarrow> nat option \<Rightarrow> JobRunStatus \<times> nat option" where
  "refine_agent_outcome status action writes =
     (case action of
        Agent agent \<Rightarrow>
          if ja_allow_writes agent
          then (let count = (case writes of Some n \<Rightarrow> n | None \<Rightarrow> 0)
                in (if status = Succeeded \<and> count = 0 then NoWrites else status, Some count))
          else (status, None)
      | Command _ \<Rightarrow> (status, None))"

fun json_is_truthy :: "json \<Rightarrow> bool" where
  "json_is_truthy JNull = False"
| "json_is_truthy (JBool flag) = flag"
| "json_is_truthy (JNumber (PosInt n)) = (n \<noteq> 0)"
| "json_is_truthy (JNumber (NegInt i)) = (i \<noteq> 0)"
| "json_is_truthy (JNumber (JFloat w)) = (take_bit 63 w \<noteq> 0)"
| "json_is_truthy (JString text) = (text \<noteq> [])"
| "json_is_truthy (JArray xs) = True"
| "json_is_truthy (JObject kvs) = True"

datatype JobFailure =
    RunTimedOut nat | Exited "int option" string | RunError JobRunError | WroteNothing
  | QueryFailed string | NotSatisfied | VaultRemoved

text \<open>Indexing the first cell of a result row without cells panics.\<close>

definition evaluate_success_when ::
  "string + QueryResult \<Rightarrow> (JobRunStatus \<times> JobFailure option) outcome" where
  "evaluate_success_when result =
     (case result of
        Inl error \<Rightarrow> Done (Failed, Some (QueryFailed error))
      | Inr result \<Rightarrow>
          bind_outcome
            (if length (qr_rows result) = 1 \<and> length (qr_columns result) = 1
             then (case hd (qr_rows result) of [] \<Rightarrow> Panicked | cell # _ \<Rightarrow> Done (json_is_truthy cell))
             else Done (1 \<le> qr_row_count result))
            (\<lambda>satisfied. Done (if satisfied then (Succeeded, None) else (Failed, Some NotSatisfied))))"

section \<open>One run\<close>

definition base_verdict ::
  "nat \<Rightarrow> JobRunError + JobRunOutcome \<Rightarrow> JobRunStatus \<times> int option \<times> nat \<times> JobFailure option" where
  "base_verdict timeout run_result =
     (case run_result of
        Inr outcome \<Rightarrow>
          (let status = (if jo_timed_out outcome then TimedOut
                         else if outcome_succeeded outcome then Succeeded else Failed);
               failure = (case status of
                   Succeeded \<Rightarrow> None
                 | TimedOut \<Rightarrow> Some (RunTimedOut (timeout div 1000000000))
                 | _ \<Rightarrow> Some (Exited (jo_exit_code outcome) (tail_text (jo_stderr outcome) LOG_STDERR_TAIL)))
           in (status, jo_exit_code outcome, jo_duration outcome, failure))
      | Inl error \<Rightarrow> (Failed, None, 0, Some (RunError error)))"

definition tracked_run_id :: "JobAction \<Rightarrow> string \<Rightarrow> string option" where
  "tracked_run_id action uuid =
     (case action of Agent agent \<Rightarrow> if ja_allow_writes agent then Some uuid else None | Command _ \<Rightarrow> None)"

definition final_event :: "JobRunStatus \<Rightarrow> JobFailure option \<Rightarrow> EventType" where
  "final_event status failure =
     (if status = NoWrites then JobNoWrites else if failure = None then JobSucceeded else JobFailed)"

definition run_action ::
  "JobIo \<Rightarrow> RunnerCtx \<Rightarrow> string \<Rightarrow> JobAction \<Rightarrow> nat \<Rightarrow> JobEnv \<Rightarrow> nat \<Rightarrow> JobRunError + JobRunOutcome" where
  "run_action io ctx root action timeout env t =
     (case action of
        Command command \<Rightarrow> run_command_job (io_os io t) root command timeout env
      | Agent agent \<Rightarrow> run_agent_job (io_os io t) (rc_notesmith_bin ctx) root agent timeout env)"

definition layer_a ::
  "JobIo \<Rightarrow> nat \<Rightarrow> JobAction \<Rightarrow> string option \<Rightarrow> JobRunStatus \<Rightarrow> JobFailure option \<Rightarrow>
     JobRunStatus \<times> nat option \<times> string list option \<times> JobFailure option" where
  "layer_a io t action run_id base_status base_failure =
     (let run_writes = map_option (\<lambda>i. case io_take_writes io t i of
            Some rw \<Rightarrow> rw | None \<Rightarrow> \<lparr>rwr_count = 0, rwr_sections = []\<rparr>) run_id;
          (status, writes) = refine_agent_outcome base_status action (map_option rwr_count run_writes);
          sections = (case map_option rwr_sections run_writes of
              Some s \<Rightarrow> if s = [] then None else Some s | None \<Rightarrow> None);
          failure = (if status = NoWrites then Some WroteNothing else base_failure)
      in (status, writes, sections, failure))"

definition layer_c ::
  "JobIo \<Rightarrow> nat \<Rightarrow> string option \<Rightarrow> JobRunStatus \<Rightarrow> JobFailure option \<Rightarrow>
     (JobRunStatus \<times> JobFailure option) outcome" where
  "layer_c io t success_when status failure =
     (case success_when of
        None \<Rightarrow> Done (status, failure)
      | Some sql \<Rightarrow>
          (case io_query io t sql of
             Some result \<Rightarrow> evaluate_success_when result
           | None \<Rightarrow> Done (Failed, Some VaultRemoved)))"

definition execute_job ::
  "JobIo \<Rightarrow> RunnerCtx \<Rightarrow> string \<Rightarrow> JobAction \<Rightarrow> nat \<Rightarrow> string option \<Rightarrow> RunnerWorld \<Rightarrow> RunnerWorld \<times> bool" where
  "execute_job io ctx job_name action timeout success_when w =
     (case io_vault_root io (rw_time w) of
        None \<Rightarrow> (tick w, True)
      | Some root \<Rightarrow>
          (let w = tick w;
               run_id = tracked_run_id action (io_uuid io (rw_time w));
               started_at = io_now io (rw_time w);
               w = emit_job io ctx JobStarted job_name w;
               env = \<lparr>je_api_base = io_api_base io, je_vault_name = rc_vault_name ctx,
                      je_state_dir = state_dir_for ctx job_name, je_run_id = run_id\<rparr>;
               (base_status, exit_code, duration, base_failure) =
                 base_verdict timeout (run_action io ctx root action timeout env (rw_time w));
               w = tick w;
               (status, writes, sections, failure) =
                 layer_a io (rw_time w) action run_id base_status base_failure;
               w = tick w
           in case layer_c io (rw_time w) success_when status failure of
               Panicked \<Rightarrow> (tick w, False)
             | Done (status, failure) \<Rightarrow>
                 (let w = store_record io job_name
                        \<lparr>jr_last_run = started_at, jr_status = status, jr_exit_code = exit_code,
                         jr_duration_ms = Some (min (duration div 1000000) (2 ^ 64 - 1)),
                         jr_writes = writes, jr_sections_written = sections, jr_last_success = None\<rparr>
                        (tick w)
                  in (emit_job io ctx (final_event status failure) job_name w, True))))"

definition record_missed_run :: "JobIo \<Rightarrow> string \<Rightarrow> RunnerWorld \<Rightarrow> RunnerWorld" where
  "record_missed_run io job_name w =
     store_record io job_name
       \<lparr>jr_last_run = io_now io (rw_time w), jr_status = Missed, jr_exit_code = None, jr_duration_ms = None,
        jr_writes = None, jr_sections_written = None, jr_last_success = None\<rparr> (tick w)"

section \<open>A scheduling pass\<close>

definition warn_once :: "string \<Rightarrow> string \<Rightarrow> RunnerWorld \<Rightarrow> RunnerWorld" where
  "warn_once job reason w = w\<lparr>rw_warned := insert (job @ [CHR 0x00] @ reason) (rw_warned w)\<rparr>"

definition duplicate_reason :: string where
  "duplicate_reason = ''duplicate job name; only the first entry is scheduled''"

text \<open>What the body of the loop decides for one entry, with the clock it read.\<close>

datatype 'tz JobDecision =
    SkipDuplicate | SkipDisabled | SkipInvalid string | NotDue | WaitFor "string list"
  | ForfeitFire string | AlreadyRunningElsewhere | RunNow "'tz ValidatedJob" | DecisionPanic

definition decide_job ::
  "JobIo \<Rightarrow> 'tz chrono \<Rightarrow> RunnerCtx \<Rightarrow> int \<Rightarrow> JobConfig list \<Rightarrow> string set \<Rightarrow> JobConfig \<Rightarrow> RunnerWorld \<Rightarrow> 'tz JobDecision" where
  "decide_job io ch ctx runner_started jobs seen job w =
     (if jc_name job \<in> seen then SkipDuplicate
      else if \<not> jc_enabled job then SkipDisabled
      else case validate_job ch job jobs of
          Panicked \<Rightarrow> DecisionPanic
        | Done (Inl reason) \<Rightarrow> SkipInvalid (io_reason io reason)
        | Done (Inr v) \<Rightarrow>
            (let last_run = map_option jr_last_run (state_get (rw_file w) (vj_name v))
             in if \<not> is_due ch (vj_schedule v) (io_now io (rw_time w)) last_run runner_started then NotDue
                else case (if vj_after v = [] then Ready
                           else evaluate_gate ch (vj_after v) (vj_schedule v) (state_all (rw_file w))
                                  (io_now io (Suc (rw_time w)))) of
                    Blocked waiting \<Rightarrow> WaitFor waiting
                  | MissedFire \<Rightarrow> ForfeitFire (vj_name v)
                  | Ready \<Rightarrow>
                      if fst (try_begin_run (rw_registry w) (rc_vault_name ctx) (vj_name v)) then RunNow v
                      else AlreadyRunningElsewhere))"

text \<open>The reservation is held during the run and dropped after it, also when the run panics.\<close>

definition run_reserved :: "JobIo \<Rightarrow> RunnerCtx \<Rightarrow> 'tz ValidatedJob \<Rightarrow> RunnerWorld \<Rightarrow> RunnerWorld \<times> bool" where
  "run_reserved io ctx v w =
     (let w = w\<lparr>rw_registry := snd (try_begin_run (rw_registry w) (rc_vault_name ctx) (vj_name v))\<rparr>;
          (w, ok) = execute_job io ctx (vj_name v) (vj_action v) (vj_timeout v) (vj_success_when v) w
      in (w\<lparr>rw_registry := drop_guard (rw_registry w) (rc_vault_name ctx) (vj_name v)\<rparr>, ok))"

definition act_on_job ::
  "JobIo \<Rightarrow> 'tz chrono \<Rightarrow> RunnerCtx \<Rightarrow> int \<Rightarrow> JobConfig list \<Rightarrow> string set \<Rightarrow> JobConfig \<Rightarrow> RunnerWorld \<Rightarrow> RunnerWorld \<times> bool" where
  "act_on_job io ch ctx runner_started jobs seen job w =
     (case decide_job io ch ctx runner_started jobs seen job w of
        SkipDuplicate \<Rightarrow> (warn_once (jc_name job) duplicate_reason w, True)
      | SkipDisabled \<Rightarrow> (w, True)
      | SkipInvalid reason \<Rightarrow> (warn_once (jc_name job) reason w, True)
      | DecisionPanic \<Rightarrow> (w, False)
      | NotDue \<Rightarrow> (tick w, True)
      | WaitFor waiting \<Rightarrow> (tick (tick w), True)
      | ForfeitFire name \<Rightarrow> (record_missed_run io name (tick (tick w)), True)
      | AlreadyRunningElsewhere \<Rightarrow> (tick (tick w), True)
      | RunNow v \<Rightarrow> run_reserved io ctx v (tick (tick w)))"

fun runner_loop ::
  "JobIo \<Rightarrow> 'tz chrono \<Rightarrow> RunnerCtx \<Rightarrow> int \<Rightarrow> JobConfig list \<Rightarrow> string set \<Rightarrow> JobConfig list \<Rightarrow> RunnerWorld \<Rightarrow> RunnerWorld \<times> bool" where
  "runner_loop io ch ctx runner_started jobs seen [] w = (w, True)"
| "runner_loop io ch ctx runner_started jobs seen (job # rest) w =
     (case act_on_job io ch ctx runner_started jobs seen job w of
        (w', False) \<Rightarrow> (w', False)
      | (w', True) \<Rightarrow> runner_loop io ch ctx runner_started jobs (insert (jc_name job) seen) rest w')"

definition runner_pass ::
  "JobIo \<Rightarrow> 'tz chrono \<Rightarrow> RunnerCtx \<Rightarrow> JobConfig list option \<Rightarrow> int \<Rightarrow> RunnerWorld \<Rightarrow> RunnerWorld \<times> bool" where
  "runner_pass io ch ctx config runner_started w =
     (case config of None \<Rightarrow> (w, True) | Some jobs \<Rightarrow> runner_loop io ch ctx runner_started jobs {} jobs w)"

section \<open>Effects of a run\<close>

definition started_jobs :: "VaultEvent list \<Rightarrow> string list" where
  "started_jobs evs = map ev_path (filter (\<lambda>e. ev_type e = JobStarted) evs)"

lemma started_jobs_simps [simp]:
  "started_jobs [] = []"
  "started_jobs (e # es) = (if ev_type e = JobStarted then [ev_path e] else []) @ started_jobs es"
  "started_jobs (xs @ ys) = started_jobs xs @ started_jobs ys"
  by (simp_all add: started_jobs_def)

lemma event_new_sel [simp]:
  "ev_type (event_new ts v ty p) = ty" "ev_path (event_new ts v ty p) = p" "ev_vault (event_new ts v ty p) = v"
  by (simp_all add: event_new_def)

lemma final_event_not_started [simp]: "final_event status failure \<noteq> JobStarted"
  by (simp add: final_event_def)

lemma execute_job_frame:
  "rw_registry (fst (execute_job io ctx name action timeout success_when w)) = rw_registry w"
  "rw_warned (fst (execute_job io ctx name action timeout success_when w)) = rw_warned w"
  by (auto simp: execute_job_def Let_def emit_job_def store_record_def tick_def
      split: option.splits outcome.splits prod.splits)

lemma execute_job_started:
  "\<exists>new. rw_events (fst (execute_job io ctx name action timeout success_when w)) = rw_events w @ new \<and>
     (started_jobs new = [] \<or> started_jobs new = [name])"
  by (auto simp: execute_job_def Let_def emit_job_def store_record_def tick_def
      split: option.splits outcome.splits prod.splits)

lemma base_verdict_ok: "base_verdict timeout r = (status, c, d, failure) \<Longrightarrow>
    status \<noteq> NoWrites \<and> (failure = None \<longleftrightarrow> status = Succeeded)"
  by (auto simp: base_verdict_def Let_def split: sum.splits if_splits)

lemma layer_a_ok: "layer_a io t action i base bf = (status, ws, ss, failure) \<Longrightarrow>
    (bf = None \<longleftrightarrow> base = Succeeded) \<Longrightarrow> base \<noteq> NoWrites \<Longrightarrow> (failure = None \<longleftrightarrow> status = Succeeded)"
  by (auto simp: layer_a_def refine_agent_outcome_def Let_def split: JobAction.splits if_splits)

lemma layer_c_ok: "layer_c io t sw s f = Done (status, failure) \<Longrightarrow>
    (f = None \<longleftrightarrow> s = Succeeded) \<Longrightarrow> (failure = None \<longleftrightarrow> status = Succeeded)"
  by (auto simp: layer_c_def evaluate_success_when_def bind_outcome_Done split: option.splits sum.splits if_splits)

text \<open>The event a recorded status is announced with.\<close>

fun status_event :: "JobRunStatus \<Rightarrow> EventType" where
  "status_event Succeeded = JobSucceeded"
| "status_event NoWrites = JobNoWrites"
| "status_event _ = JobFailed"

lemma final_event_status: "(failure = None \<longleftrightarrow> status = Succeeded) \<Longrightarrow> final_event status failure = status_event status"
  by (cases status) (auto simp: final_event_def)

lemma run_reserved_frame:
  "fst (try_begin_run (rw_registry w) (rc_vault_name ctx) (vj_name v)) \<Longrightarrow>
     rw_registry (fst (run_reserved io ctx v w)) = rw_registry w"
  by (simp add: run_reserved_def try_begin_run_def drop_guard_def execute_job_frame Let_def case_prod_beta)

lemma run_reserved_started:
  "\<exists>new. rw_events (fst (run_reserved io ctx v w)) = rw_events w @ new \<and>
     (started_jobs new = [] \<or> started_jobs new = [vj_name v])"
proof -
  let ?w = "w\<lparr>rw_registry := snd (try_begin_run (rw_registry w) (rc_vault_name ctx) (vj_name v))\<rparr>"
  from execute_job_started [of io ctx "vj_name v" "vj_action v" "vj_timeout v" "vj_success_when v" ?w]
  show ?thesis by (simp add: run_reserved_def Let_def case_prod_beta)
qed

lemma decide_run_now:
  assumes "decide_job io ch ctx rs jobs seen job w = RunNow v"
  shows "jc_name job \<notin> seen" "jc_enabled job" "validate_job ch job jobs = Done (Inr v)"
    "vj_name v = jc_name job" "(rc_vault_name ctx, vj_name v) \<notin> rw_registry w"
    "is_due ch (vj_schedule v) (io_now io (rw_time w))
       (map_option jr_last_run (state_get (rw_file w) (vj_name v))) rs"
    "evaluate_gate ch (vj_after v) (vj_schedule v) (state_all (rw_file w)) (io_now io (Suc (rw_time w))) = Ready"
proof -
  from assms have v: "validate_job ch job jobs = Done (Inr v)"
    by (auto simp: decide_job_def Let_def split: if_splits outcome.splits sum.splits GateDecision.splits)
  then show "validate_job ch job jobs = Done (Inr v)" "vj_name v = jc_name job"
    by (simp_all add: validate_job_parts)
  have "evaluate_gate ch [] s r n = Ready" for s r n by (simp add: evaluate_gate_def)
  with assms v show "jc_name job \<notin> seen" "jc_enabled job"
    "(rc_vault_name ctx, vj_name v) \<notin> rw_registry w"
    "is_due ch (vj_schedule v) (io_now io (rw_time w))
       (map_option jr_last_run (state_get (rw_file w) (vj_name v))) rs"
    "evaluate_gate ch (vj_after v) (vj_schedule v) (state_all (rw_file w)) (io_now io (Suc (rw_time w))) = Ready"
    by (auto simp: decide_job_def Let_def try_begin_run_def split: if_splits GateDecision.splits)
qed

lemma simple_frames [simp]:
  "rw_registry (tick w) = rw_registry w" "rw_events (tick w) = rw_events w"
  "rw_registry (warn_once j r w) = rw_registry w" "rw_events (warn_once j r w) = rw_events w"
  "rw_registry (record_missed_run io n w) = rw_registry w" "rw_events (record_missed_run io n w) = rw_events w"
  "rw_file (tick w) = rw_file w" "rw_time (tick w) = Suc (rw_time w)"
  by (simp_all add: tick_def warn_once_def record_missed_run_def store_record_def)

lemma act_on_job_frame:
  "rw_registry (fst (act_on_job io ch ctx rs jobs seen job w)) = rw_registry w"
proof (cases "decide_job io ch ctx rs jobs seen job w")
  case (RunNow v)
  from decide_run_now(5) [OF this] have "fst (try_begin_run (rw_registry (tick (tick w))) (rc_vault_name ctx) (vj_name v))"
    by (simp add: try_begin_run_def)
  from run_reserved_frame [OF this] RunNow show ?thesis by (simp add: act_on_job_def)
qed (simp_all add: act_on_job_def)

definition startable :: "'tz chrono \<Rightarrow> RunnerCtx \<Rightarrow> registry \<Rightarrow> JobConfig list \<Rightarrow> JobConfig list \<Rightarrow> string \<Rightarrow> bool" where
  "startable ch ctx reg jobs rest n \<longleftrightarrow> (rc_vault_name ctx, n) \<notin> reg \<and>
     list_ex (\<lambda>job. jc_name job = n \<and> jc_enabled job \<and> (\<exists>v. validate_job ch job jobs = Done (Inr v))) rest"

lemma act_on_job_started:
  "\<exists>new. rw_events (fst (act_on_job io ch ctx rs jobs seen job w)) = rw_events w @ new \<and>
     (started_jobs new = [] \<or> started_jobs new = [jc_name job] \<and> jc_name job \<notin> seen \<and>
        startable ch ctx (rw_registry w) jobs [job] (jc_name job))"
proof (cases "decide_job io ch ctx rs jobs seen job w")
  case (RunNow v)
  note d = decide_run_now [OF this]
  have "startable ch ctx (rw_registry w) jobs [job] (jc_name job)" using d by (simp add: startable_def)
  with d(1,4) run_reserved_started [of io ctx v "tick (tick w)"] RunNow show ?thesis
    by (auto simp: act_on_job_def)
qed (simp_all add: act_on_job_def)

lemma runner_loop_registry:
  "rw_registry (fst (runner_loop io ch ctx rs jobs seen rest w)) = rw_registry w"
proof (induction rest arbitrary: seen w)
  case (Cons job rest)
  obtain w' ok where a: "act_on_job io ch ctx rs jobs seen job w = (w', ok)" by fastforce
  with act_on_job_frame [of io ch ctx rs jobs seen job w] have "rw_registry w' = rw_registry w" by simp
  with Cons a show ?case by (cases ok) simp_all
qed simp

lemma runner_loop_started:
  "\<exists>new. rw_events (fst (runner_loop io ch ctx rs jobs seen rest w)) = rw_events w @ new \<and>
     distinct (started_jobs new) \<and> set (started_jobs new) \<inter> seen = {} \<and>
     list_all (startable ch ctx (rw_registry w) jobs rest) (started_jobs new)"
proof (induction rest arbitrary: seen w)
  case (Cons job rest)
  obtain w' ok where a: "act_on_job io ch ctx rs jobs seen job w = (w', ok)" by fastforce
  with act_on_job_started [of io ch ctx rs jobs seen job w] obtain n1 where
    n1: "rw_events w' = rw_events w @ n1" "started_jobs n1 = [] \<or> started_jobs n1 = [jc_name job] \<and>
       jc_name job \<notin> seen \<and> startable ch ctx (rw_registry w) jobs [job] (jc_name job)" by auto
  have reg: "rw_registry w' = rw_registry w" using act_on_job_frame [of io ch ctx rs jobs seen job w] a by simp
  show ?case
  proof (cases ok)
    case True
    from Cons.IH [of "insert (jc_name job) seen" w'] obtain n2 where
      n2: "rw_events (fst (runner_loop io ch ctx rs jobs (insert (jc_name job) seen) rest w')) = rw_events w' @ n2"
        "distinct (started_jobs n2)" "set (started_jobs n2) \<inter> insert (jc_name job) seen = {}"
        "list_all (startable ch ctx (rw_registry w') jobs rest) (started_jobs n2)" by blast
    have "rw_events (fst (runner_loop io ch ctx rs jobs seen (job # rest) w)) = rw_events w @ (n1 @ n2)"
      using a True n1(1) n2(1) by simp
    moreover have "distinct (started_jobs (n1 @ n2))" using n1(2) n2(2,3) by auto
    moreover have "set (started_jobs (n1 @ n2)) \<inter> seen = {}" using n1(2) n2(3) by auto
    moreover have "list_all (startable ch ctx (rw_registry w) jobs (job # rest)) (started_jobs (n1 @ n2))"
      using n1(2) n2(4) reg by (auto simp: list_all_iff startable_def)
    ultimately show ?thesis by blast
  next
    case False
    with a have e: "rw_events (fst (runner_loop io ch ctx rs jobs seen (job # rest) w)) = rw_events w @ n1"
      using n1(1) by simp
    have "distinct (started_jobs n1) \<and> set (started_jobs n1) \<inter> seen = {} \<and>
        list_all (startable ch ctx (rw_registry w) jobs (job # rest)) (started_jobs n1)"
      using n1(2) by (auto simp: startable_def)
    with e show ?thesis by blast
  qed
qed simp

section \<open>Properties\<close>

text \<open>C4: a pass starts each job at most once, and only jobs of the vault's list that are enabled,
  validate, and are not already running for this vault.\<close>

theorem pass_starts:
  "\<exists>new. rw_events (fst (runner_pass io ch ctx (Some jobs) rs w)) = rw_events w @ new \<and>
     distinct (started_jobs new) \<and>
     list_all (startable ch ctx (rw_registry w) jobs jobs) (started_jobs new)"
  using runner_loop_started [of io ch ctx rs jobs "{}" jobs w] by (auto simp: runner_pass_def)

text \<open>A pass leaves the run registry as it found it, whatever its runs do and also when it panics:
  every reservation it took is released.\<close>

lemma pass_releases_reservations:
  "rw_registry (fst (runner_pass io ch ctx config rs w)) = rw_registry w"
  by (simp add: runner_pass_def runner_loop_registry split: option.splits)

text \<open>C3: when the loop decides to run a job, it is the first enabled entry of its name, it is valid
  and due, it is not running, and every prerequisite has a successful run in the history whose
  latest started today in the time zone of the schedule.\<close>

theorem run_decision_safe:
  assumes "decide_job io ch ctx rs jobs seen job w = RunNow v" and "rw_file w = replay hist"
  shows "jc_name job \<notin> seen \<and> jc_enabled job \<and> wf_job ch job jobs v \<and>
    (rc_vault_name ctx, vj_name v) \<notin> rw_registry w \<and>
    is_due ch (vj_schedule v) (io_now io (rw_time w))
      (last_opt (map (\<lambda>(j, r). jr_last_run r) (filter (\<lambda>(j, r). j = vj_name v) hist))) rs \<and>
    list_all (\<lambda>name. succeeded_runs hist name \<noteq> [] \<and>
        date_of ch (gate_timezone (vj_schedule v)) (last (succeeded_runs hist name)) =
        date_of ch (gate_timezone (vj_schedule v)) (io_now io (Suc (rw_time w)))) (vj_after v)"
proof -
  note d = decide_run_now [OF assms(1)]
  have "map_option jr_last_run (state_get (replay hist) (vj_name v)) =
      last_opt (map (\<lambda>(j, r). jr_last_run r) (filter (\<lambda>(j, r). j = vj_name v) hist))"
    unfolding job_record by (simp add: last_opt_def last_map case_prod_beta)
  moreover have "wf_job ch job jobs v" using d(3) by (rule wf_validated)
  moreover note d(1,2,5,6) d(7) [unfolded assms(2) gate_ready]
  ultimately show ?thesis by (simp add: assms(2))
qed

text \<open>A run of an existing vault that ends is recorded under its start time and announced by
  exactly two events, the start and the one that belongs to the recorded status: succeeded, no
  writes, or failed.\<close>

lemma execute_job_verdict:
  assumes "io_vault_root io (rw_time w) = Some root" and "io_write io = (\<lambda>t. WriteOk)"
    and "execute_job io ctx name action timeout success_when w = (w', True)"
  shows "\<exists>r ts ts'. state_get (rw_file w') name = Some r \<and> jr_last_run r = io_now io (Suc (rw_time w)) \<and>
    rw_events w' = rw_events w @ [event_new ts (rc_vault_name ctx) JobStarted name,
      event_new ts' (rc_vault_name ctx) (status_event (jr_status r)) name]"
proof -
  let ?t = "rw_time w"
  obtain status failure c d where b: "base_verdict timeout (run_action io ctx root action timeout
      \<lparr>je_api_base = io_api_base io, je_vault_name = rc_vault_name ctx, je_state_dir = state_dir_for ctx name,
       je_run_id = tracked_run_id action (io_uuid io (Suc ?t))\<rparr> (Suc (Suc ?t))) = (status, c, d, failure)"
    by (metis prod_cases4)
  obtain s2 ws ss f2 where a: "layer_a io (Suc (Suc (Suc ?t))) action (tracked_run_id action (io_uuid io (Suc ?t)))
      status failure = (s2, ws, ss, f2)"
    by (metis prod_cases4)
  from assms(1,3) b a obtain s3 f3 where l: "layer_c io (Suc (Suc (Suc (Suc ?t)))) success_when s2 f2 = Done (s3, f3)"
    by (auto simp: execute_job_def Let_def emit_job_def tick_def split: outcome.splits)
  have "final_event s3 f3 = status_event s3"
    using final_event_status layer_c_ok [OF l] layer_a_ok [OF a] base_verdict_ok [OF b] by blast
  then show ?thesis using assms b a l
    by (auto simp: execute_job_def Let_def emit_job_def tick_def store_record_def state_get_def stamp_success_def)
qed

section \<open>Witnesses\<close>

definition demo_os :: Os where
  "demo_os = \<lparr>os_exists = (\<lambda>p. True),
     os_spawn = (\<lambda>c t. Inr \<lparr>pr_wait = Some (Inr (Some 0)), pr_stdout = Some (Some [''done'']),
        pr_stderr = Some None, pr_elapsed = 5000000\<rparr>), os_lossy = (\<lambda>s. s)\<rparr>"

definition demo_io :: JobIo where
  "demo_io = \<lparr>io_now = (\<lambda>t. 4 * day_ns + 28800000000000), io_write = (\<lambda>t. WriteOk),
     io_vault_root = (\<lambda>t. Some ''/vault''), io_uuid = (\<lambda>t. ''run-1''), io_os = (\<lambda>t. demo_os),
     io_take_writes = (\<lambda>t i. None), io_query = (\<lambda>t q. None), io_api_base = ''http://127.0.0.1:27183'',
     io_timestamp = (\<lambda>t. []), io_reason = (\<lambda>e. [])\<rparr>"

definition demo_ctx :: RunnerCtx where
  "demo_ctx = \<lparr>rc_vault_name = ''work'', rc_connector_root = ''/data'', rc_notesmith_bin = ''notesmith''\<rparr>"

definition demo_hist :: "(string \<times> JobRunRecord) list" where
  "demo_hist = [(''sync'', \<lparr>jr_last_run = 4 * day_ns + 25200000000000, jr_status = Succeeded, jr_exit_code = Some 0,
     jr_duration_ms = None, jr_writes = None, jr_sections_written = None, jr_last_success = None\<rparr>)]"

definition demo_world :: RunnerWorld where
  "demo_world = \<lparr>rw_file = replay demo_hist, rw_registry = {}, rw_warned = {}, rw_events = [], rw_time = 0\<rparr>"

lemma demo_succeeded [simp]: "succeeded_runs demo_hist ''sync'' = [4 * day_ns + 25200000000000]"
  by (simp add: succeeded_runs_def demo_hist_def)

lemma demo_decision:
  "decide_job demo_io utc_chrono demo_ctx (4 * day_ns) [sync_job, brief_job] {''sync''} brief_job demo_world
     = RunNow brief_valid"
proof -
  have gate: "evaluate_gate utc_chrono [''sync''] (At 450 True (Some ())) (state_all (replay demo_hist))
      (4 * day_ns + 28800000000000) = Ready"
    unfolding gate_ready by (simp add: utc_chrono_def day_ns_def)
  have "state_get (replay demo_hist) ''brief'' = None"
    unfolding job_record by (simp add: demo_hist_def last_opt_def)
  moreover have "is_due utc_chrono (At 450 True (Some ())) (4 * day_ns + 28800000000000) None (4 * day_ns)"
    by (simp add: is_due_def most_recent_fire_def utc_chrono_def resolve_local_def day_ns_def window_days
        weekend_def utc_weekday_def)
  ultimately show ?thesis using gate
    by (simp add: decide_job_def brief_validates)
       (simp add: brief_valid_def brief_job_def demo_world_def demo_io_def demo_ctx_def try_begin_run_def)
qed

lemma run_decision_safe_witness:
  "wf_job utc_chrono brief_job [sync_job, brief_job] brief_valid \<and>
   list_all (\<lambda>name. succeeded_runs demo_hist name \<noteq> []) (vj_after brief_valid)"
proof -
  have "rw_file demo_world = replay demo_hist" by (simp add: demo_world_def)
  from run_decision_safe [OF demo_decision this] show ?thesis by (auto simp: list_all_iff)
qed

definition demo_final :: RunnerWorld where
  "demo_final = fst (execute_job demo_io demo_ctx ''sync'' (Command ''sync.py'') DEFAULT_JOB_TIMEOUT None demo_world)"

lemma execute_job_verdict_witness:
  "\<exists>r ts ts'. state_get (rw_file demo_final) ''sync'' = Some r \<and> jr_last_run r = 4 * day_ns + 28800000000000 \<and>
    rw_events demo_final = rw_events demo_world @ [event_new ts ''work'' JobStarted ''sync'',
      event_new ts' ''work'' (status_event (jr_status r)) ''sync'']"
proof -
  have "snd (execute_job demo_io demo_ctx ''sync'' (Command ''sync.py'') DEFAULT_JOB_TIMEOUT None demo_world)"
    by (simp add: execute_job_def Let_def demo_io_def layer_c_def split: prod.splits)
  then have "execute_job demo_io demo_ctx ''sync'' (Command ''sync.py'') DEFAULT_JOB_TIMEOUT None demo_world
      = (demo_final, True)" by (simp add: demo_final_def prod_eq_iff)
  moreover have "io_vault_root demo_io (rw_time demo_world) = Some ''/vault''" "io_write demo_io = (\<lambda>t. WriteOk)"
    by (simp_all add: demo_io_def)
  ultimately show ?thesis
    using execute_job_verdict [of demo_io demo_world "''/vault''" demo_ctx] by (fastforce simp: demo_io_def demo_ctx_def)
qed

end
