(* ===== verification/JobApi.thy ===== *)
theory JobApi
  imports JobRunner
begin

text \<open>
  Manual triggers, the supervisor and the routes: \<open>trigger_job\<close> and \<open>supervise_once\<close> of
  \<open>notesmith-http/src/jobs/mod.rs\<close>, and \<open>routes/jobs.rs\<close>.  A trigger does not run the job but
  spawns it: the model returns the reservation and what the spawned task will execute.  The last
  section interleaves the tasks of all vaults and triggers on the registry they share.
\<close>

section \<open>Manual trigger\<close>

datatype TriggerOutcome = Started | AlreadyRunning | UnknownVault | UnknownJob | NotRunnable string

record SpawnedRun =
  sr_vault :: string
  sr_job :: string
  sr_action :: JobAction
  sr_timeout :: nat
  sr_success_when :: "string option"

text \<open>
  \<open>vaults\<close> are the configured jobs of each live vault, \<open>ctx_for\<close> is \<open>RunnerCtx::for_vault\<close>, which
  fails when the data directory cannot be resolved.
\<close>

definition trigger_job ::
  "bool \<Rightarrow> (JobConfigError \<Rightarrow> string) \<Rightarrow> (string \<rightharpoonup> JobConfig list) \<Rightarrow> (string \<Rightarrow> string + RunnerCtx) \<Rightarrow>
     string \<Rightarrow> string \<Rightarrow> registry \<Rightarrow> (TriggerOutcome \<times> registry \<times> SpawnedRun option) outcome" where
  "trigger_job checked reason vaults ctx_for vault_name job_name reg =
     (case vaults vault_name of
        None \<Rightarrow> Done (UnknownVault, reg, None)
      | Some jobs \<Rightarrow>
     (case find (\<lambda>job. jc_name job = job_name) jobs of
        None \<Rightarrow> Done (UnknownJob, reg, None)
      | Some job \<Rightarrow>
     (case validate_action job of
        Inl e \<Rightarrow> Done (NotRunnable (reason e), reg, None)
      | Inr action \<Rightarrow>
     bind_outcome (case jc_timeout job of None \<Rightarrow> Done None | Some raw \<Rightarrow> parse_duration checked raw)
     (\<lambda>parsed. let timeout = (case parsed of Some t \<Rightarrow> t | None \<Rightarrow> default_timeout action) in
     (case ctx_for vault_name of
        Inl e \<Rightarrow> Done (NotRunnable e, reg, None)
      | Inr ctx \<Rightarrow>
          (let (begun, reg') = try_begin_run reg vault_name job_name
           in if \<not> begun then Done (AlreadyRunning, reg, None)
              else Done (Started, reg', Some \<lparr>sr_vault = vault_name, sr_job = job_name, sr_action = action,
                  sr_timeout = timeout, sr_success_when = jc_success_when job\<rparr>)))))))"

datatype StatusCode = HTTP_ACCEPTED | HTTP_CONFLICT | HTTP_NOT_FOUND | HTTP_BAD_REQUEST | HTTP_OK

definition run_job_response :: "string \<Rightarrow> string \<Rightarrow> TriggerOutcome \<Rightarrow> StatusCode \<times> (string \<times> string) list" where
  "run_job_response vault_name job_name out =
     (case out of
        Started \<Rightarrow> (HTTP_ACCEPTED, [(''vault'', vault_name), (''job'', job_name), (''status'', ''started'')])
      | AlreadyRunning \<Rightarrow> (HTTP_CONFLICT, [(''error'', ''job already running: '' @ job_name)])
      | UnknownVault \<Rightarrow> (HTTP_NOT_FOUND, [(''error'', ''vault not found: '' @ vault_name)])
      | UnknownJob \<Rightarrow> (HTTP_NOT_FOUND, [(''error'', ''job not found: '' @ job_name)])
      | NotRunnable reason \<Rightarrow>
          (HTTP_BAD_REQUEST, [(''error'', ''job '' @ job_name @ '' cannot run: '' @ reason)]))"

section \<open>Supervisor\<close>

datatype RunnerHandle = RunnerAlive | RunnerFinished

record Supervised =
  sv_runners :: "string \<rightharpoonup> RunnerHandle"
  sv_aborted :: "string set"
  sv_spawned :: "string set"

definition supervise_once :: "string set \<Rightarrow> (string \<rightharpoonup> RunnerHandle) \<Rightarrow> Supervised" where
  "supervise_once desired runners =
     (let retained = (\<lambda>name. if name \<notin> desired then None
            else case runners name of Some RunnerAlive \<Rightarrow> Some RunnerAlive | _ \<Rightarrow> None);
          fresh = {name \<in> desired. retained name = None}
      in \<lparr>sv_runners = (\<lambda>name. if name \<in> fresh then Some RunnerAlive else retained name),
          sv_aborted = dom runners - desired, sv_spawned = fresh\<rparr>)"

section \<open>The jobs list\<close>

record JobLastRun =
  lr_at :: string
  lr_status :: string
  lr_exit_code :: "int option"
  lr_duration_ms :: "nat option"
  lr_writes :: "nat option"
  lr_sections_written :: "string list option"

record JobListEntry =
  le_name :: string
  le_enabled :: bool
  le_every :: "string option"
  le_at :: "string option"
  le_weekdays_only :: bool
  le_timezone :: "string option"
  le_command :: "string option"
  le_agent :: "json option"
  le_after :: "string list"
  le_waiting_on :: "string list"
  le_timeout :: "string option"
  le_valid :: bool
  le_config_error :: "string option"
  le_running :: bool
  le_last_run :: "JobLastRun option"

text \<open>The derived serialiser of the untagged \<open>agent\<close> field.\<close>

fun agent_json :: "JobAgentField \<Rightarrow> json" where
  "agent_json (AgentValid c) =
     JObject [(''prompt'', JString (ja_prompt c)), (''allow_writes'', JBool (ja_allow_writes c))]"
| "agent_json (AgentMalformed v) = v"

text \<open>\<open>to_rfc3339\<close> of the calendar crate is the parameter \<open>fmt\<close>.\<close>

definition job_list_entry ::
  "'tz chrono \<Rightarrow> (JobConfigError \<Rightarrow> string) \<Rightarrow> (int \<Rightarrow> string) \<Rightarrow> string \<Rightarrow> JobConfig list \<Rightarrow> run_records \<Rightarrow> registry \<Rightarrow>
     int \<Rightarrow> JobConfig \<Rightarrow> JobListEntry outcome" where
  "job_list_entry ch reason fmt vault_name jobs records reg now job =
     bind_outcome (validate_job ch job jobs) (\<lambda>validated.
       let (config_error, waiting) = (case validated of
             Inr v \<Rightarrow> if jc_enabled job then (None, waiting_on ch (vj_after v) (vj_schedule v) records now)
                       else (None, [])
           | Inl e \<Rightarrow> (Some (reason e), []));
           last_run = map_option (\<lambda>r. \<lparr>lr_at = fmt (jr_last_run r), lr_status = status_str (jr_status r),
               lr_exit_code = jr_exit_code r, lr_duration_ms = jr_duration_ms r, lr_writes = jr_writes r,
               lr_sections_written = jr_sections_written r\<rparr>) (records (jc_name job))
       in Done \<lparr>le_name = jc_name job, le_enabled = jc_enabled job, le_every = jc_every job, le_at = jc_at job,
           le_weekdays_only = jc_weekdays_only job, le_timezone = jc_timezone job, le_command = jc_command job,
           le_agent = map_option agent_json (jc_agent job), le_after = jc_after job, le_waiting_on = waiting,
           le_timeout = jc_timeout job, le_valid = (config_error = None), le_config_error = config_error,
           le_running = is_running reg vault_name (jc_name job), le_last_run = last_run\<rparr>)"

fun sequence_outcome :: "'a outcome list \<Rightarrow> 'a list outcome" where
  "sequence_outcome [] = Done []"
| "sequence_outcome (m # ms) =
     bind_outcome m (\<lambda>x. bind_outcome (sequence_outcome ms) (\<lambda>xs. Done (x # xs)))"

text \<open>\<open>None\<close>: the vault is not found.  \<open>store\<close> is \<open>None\<close> when the state store cannot be opened.\<close>

definition list_jobs ::
  "'tz chrono \<Rightarrow> (JobConfigError \<Rightarrow> string) \<Rightarrow> (int \<Rightarrow> string) \<Rightarrow> (string \<rightharpoonup> JobConfig list) \<Rightarrow> StateFile option \<Rightarrow>
     registry \<Rightarrow> int \<Rightarrow> string \<Rightarrow> (StatusCode \<times> JobListEntry list) outcome" where
  "list_jobs ch reason fmt vaults store reg now vault_name =
     (case vaults vault_name of
        None \<Rightarrow> Done (HTTP_NOT_FOUND, [])
      | Some jobs \<Rightarrow>
          (let records = (case store of Some file \<Rightarrow> state_all file | None \<Rightarrow> Map.empty)
           in bind_outcome (sequence_outcome
                (map (job_list_entry ch reason fmt vault_name jobs records reg now) jobs))
                (\<lambda>entries. Done (HTTP_OK, entries))))"

section \<open>The registry shared by all tasks\<close>

text \<open>
  Every runner task and every trigger first tries to reserve its job, executes it when it got the
  reservation, and drops the reservation at the end.  The state is the registry and the multiset
  of executions in flight.
\<close>

inductive registry_step :: "registry \<times> (string \<times> string) multiset \<Rightarrow> registry \<times> (string \<times> string) multiset \<Rightarrow> bool" where
  begin_run: "try_begin_run reg vault job = (True, reg') \<Longrightarrow>
     registry_step (reg, active) (reg', add_mset (vault, job) active)"
| refuse_run: "try_begin_run reg vault job = (False, reg') \<Longrightarrow> registry_step (reg, active) (reg', active)"
| end_run: "(vault, job) \<in># active \<Longrightarrow>
     registry_step (reg, active) (drop_guard reg vault job, active - {#(vault, job)#})"

inductive_cases registry_stepE: "registry_step s t"


section \<open>Properties\<close>


text \<open>A manual trigger starts a run exactly when the vault is live and has a job of that name
  whose first entry has a valid action and whose timeout text can be parsed without a panic, the
  data directory resolves and the job is not running; it then reserves that job and nothing else.\<close>

lemma trigger_starts_iff:
  "(\<exists>run. trigger_job checked reason vaults ctx_for vault_name job_name reg = Done (Started, reg', Some run)) \<longleftrightarrow>
     (\<exists>jobs job action ctx. vaults vault_name = Some jobs \<and> find (\<lambda>j. jc_name j = job_name) jobs = Some job \<and>
        validate_action job = Inr action \<and> ctx_for vault_name = Inr ctx \<and>
        Option.bind (jc_timeout job) (\<lambda>raw. if parse_duration checked raw = Panicked then Some raw else None) = None \<and>
        \<not> is_running reg vault_name job_name \<and> reg' = insert (vault_name, job_name) reg)" (is "?l \<longleftrightarrow> ?r")
proof
  assume ?l
  then show ?r
    by (auto simp: trigger_job_def bind_outcome_Done try_begin_run_def is_running_def Let_def
        split: option.splits sum.splits if_splits)
next
  assume ?r
  then obtain jobs job action ctx where r: "vaults vault_name = Some jobs"
      "find (\<lambda>j. jc_name j = job_name) jobs = Some job" "validate_action job = Inr action"
      "ctx_for vault_name = Inr ctx" "\<not> is_running reg vault_name job_name" "reg' = insert (vault_name, job_name) reg"
      "Option.bind (jc_timeout job) (\<lambda>raw. if parse_duration checked raw = Panicked then Some raw else None) = None"
    by blast
  obtain parsed where
    "(case jc_timeout job of None \<Rightarrow> Done None | Some raw \<Rightarrow> parse_duration checked raw) = Done parsed"
  proof (cases "jc_timeout job")
    case (Some raw)
    with r(7) obtain p where "parse_duration checked raw = Done p"
      by (cases "parse_duration checked raw") auto
    with Some that show ?thesis by simp
  qed (use that in simp)
  with r show ?l by (simp add: trigger_job_def try_begin_run_def is_running_def Let_def)
qed

text \<open>One reconciliation leaves exactly one live runner per live vault: runners of vaults that are
  gone are aborted, finished ones are replaced, live ones are kept.\<close>

lemma supervise_reconciles:
  "sv_runners (supervise_once desired runners) = (\<lambda>name. if name \<in> desired then Some RunnerAlive else None) \<and>
   sv_aborted (supervise_once desired runners) = dom runners - desired \<and>
   sv_spawned (supervise_once desired runners) = {name \<in> desired. runners name \<noteq> Some RunnerAlive}"
proof (intro conjI)
  show "sv_runners (supervise_once desired runners) = (\<lambda>name. if name \<in> desired then Some RunnerAlive else None)"
    by (rule ext) (simp add: supervise_once_def Let_def split: option.split RunnerHandle.split)
  show "sv_spawned (supervise_once desired runners) = {name \<in> desired. runners name \<noteq> Some RunnerAlive}"
    by (rule set_eqI) (simp add: supervise_once_def Let_def split: option.split RunnerHandle.split)
qed (simp add: supervise_once_def)

text \<open>The jobs list says of every job whether the scheduler would run it: an entry is valid
  exactly when the job validates, and its waiting list is what the gate of an enabled valid job
  waits for, empty when its gate is open.\<close>

lemma list_entry_matches_scheduler:
  assumes "job_list_entry ch reason fmt vault_name jobs records reg now job = Done entry"
  shows "(le_valid entry \<longleftrightarrow> (\<exists>v. validate_job ch job jobs = Done (Inr v))) \<and>
    (le_running entry \<longleftrightarrow> is_running reg vault_name (jc_name job)) \<and>
    (le_waiting_on entry \<noteq> [] \<longleftrightarrow> (\<exists>v. validate_job ch job jobs = Done (Inr v) \<and> jc_enabled job \<and>
        evaluate_gate ch (vj_after v) (vj_schedule v) records now \<noteq> Ready))"
proof -
  have gate: "waiting_on ch after schedule records now \<noteq> [] \<longleftrightarrow> evaluate_gate ch after schedule records now \<noteq> Ready"
    for after schedule
    by (cases schedule) (auto simp: evaluate_gate_def waiting_on_def Let_def split: option.splits)
  from assms obtain r where r: "validate_job ch job jobs = Done r"
    by (auto simp: job_list_entry_def bind_outcome_Done)
  with assms gate show ?thesis
    by (cases r) (auto simp: job_list_entry_def Let_def split: if_splits)
qed

section \<open>Witnesses\<close>


definition demo_entry :: JobListEntry where
  "demo_entry = (case job_list_entry utc_chrono (\<lambda>e. []) (\<lambda>t. []) ''work'' [sync_job, brief_job] Map.empty {} 0 brief_job of
     Done e \<Rightarrow> e | Panicked \<Rightarrow> undefined)"

lemma list_entry_matches_scheduler_witness:
  "le_valid demo_entry \<longleftrightarrow> (\<exists>v. validate_job utc_chrono brief_job [sync_job, brief_job] = Done (Inr v))"
proof -
  have "job_list_entry utc_chrono (\<lambda>e. []) (\<lambda>t. []) ''work'' [sync_job, brief_job] Map.empty {} 0 brief_job = Done demo_entry"
    by (simp add: demo_entry_def job_list_entry_def brief_validates Let_def split: prod.splits)
  from list_entry_matches_scheduler [OF this] show ?thesis by blast
qed

end
