(* ===== verification/Permission.thy ===== *)
theory Permission
  imports StdModel
begin

text \<open>
  Agent write permissions: the persisted grants (\<open>notesmith-permission/src/lib.rs\<close>) with their
  routes (\<open>notesmith-http/src/routes/permissions.rs\<close>), and the policy of a chat session
  (\<open>notesmith-agent/src/permission.rs\<close> and the answering code of \<open>notesmith-agent/src/acp.rs\<close>).
  The SQLite table is its list of rows; a tool column that is not text is \<open>None\<close>.  A database
  error of an operation is a parameter (\<open>None\<close>: it succeeds).  The user's decision is a
  parameter.
\<close>

section \<open>The grant store\<close>

record GrantRow =
  g_vault :: string
  g_tool :: "string option"
  g_created_at :: string

datatype PermissionError = SqliteError string | StoreIoError string

definition grant :: "PermissionError option \<Rightarrow> string \<Rightarrow> string \<Rightarrow> string \<Rightarrow> GrantRow list \<Rightarrow>
    (PermissionError + unit) \<times> GrantRow list" where
  "grant err now vault tool rows =
     (case err of
        Some e \<Rightarrow> (Inl e, rows)
      | None \<Rightarrow> (Inr (),
          if list_ex (\<lambda>r. g_vault r = vault \<and> g_tool r = Some tool) rows then rows
          else rows @ [\<lparr>g_vault = vault, g_tool = Some tool, g_created_at = now\<rparr>]))"

definition revoke :: "PermissionError option \<Rightarrow> string \<Rightarrow> string \<Rightarrow> GrantRow list \<Rightarrow>
    (PermissionError + bool) \<times> GrantRow list" where
  "revoke err vault tool rows =
     (case err of
        Some e \<Rightarrow> (Inl e, rows)
      | None \<Rightarrow>
          (let kept = filter (\<lambda>r. \<not> (g_vault r = vault \<and> g_tool r = Some tool)) rows
           in (Inr (0 < length rows - length kept), kept)))"

definition is_granted :: "PermissionError option \<Rightarrow> string \<Rightarrow> string \<Rightarrow> GrantRow list \<Rightarrow> bool" where
  "is_granted err vault tool rows \<longleftrightarrow>
     err = None \<and> list_ex (\<lambda>r. g_vault r = vault \<and> g_tool r = Some tool) rows"

text \<open>\<open>ORDER BY tool\<close> compares the bytes; a corrupt row is skipped.\<close>

definition list_granted :: "PermissionError option \<Rightarrow> string \<Rightarrow> GrantRow list \<Rightarrow> PermissionError + string list" where
  "list_granted err vault rows =
     (case err of
        Some e \<Rightarrow> Inl e
      | None \<Rightarrow> Inr (sort (List.map_filter g_tool (filter (\<lambda>r. g_vault r = vault) rows))))"

datatype GrantStatus = GrantOk "string list" | GrantNoContent | GrantBadRequest | GrantServerError

definition list_grants_route :: "PermissionError option \<Rightarrow> string \<Rightarrow> GrantRow list \<Rightarrow> GrantStatus" where
  "list_grants_route err vault rows =
     (case list_granted err vault rows of Inl e \<Rightarrow> GrantServerError | Inr tools \<Rightarrow> GrantOk tools)"

definition grant_permission :: "PermissionError option \<Rightarrow> string \<Rightarrow> string \<Rightarrow> string \<Rightarrow> GrantRow list \<Rightarrow>
    GrantStatus \<times> GrantRow list" where
  "grant_permission err now vault tool rows =
     (if trim tool = [] then (GrantBadRequest, rows)
      else case grant err now vault tool rows of
          (Inl e, rows') \<Rightarrow> (GrantServerError, rows')
        | (Inr _, rows') \<Rightarrow> (GrantNoContent, rows'))"

definition revoke_permission :: "PermissionError option \<Rightarrow> string \<Rightarrow> string \<Rightarrow> GrantRow list \<Rightarrow>
    GrantStatus \<times> GrantRow list" where
  "revoke_permission err vault tool rows =
     (case revoke err vault tool rows of
        (Inl e, rows') \<Rightarrow> (GrantServerError, rows')
      | (Inr _, rows') \<Rightarrow> (GrantNoContent, rows'))"

section \<open>The session policy\<close>

datatype PermissionDecision = AllowOnce | AllowAlways | Deny

record DiffPreview =
  dp_path :: string
  dp_old_text :: "string option"
  dp_new_text :: string

record PermissionRequest =
  pq_tool :: string
  pq_kind :: "string option"
  pq_diff :: "DiffPreview option"

definition deny_all :: "PermissionRequest \<Rightarrow> PermissionDecision" where
  "deny_all request = Deny"

type_synonym PermissionState = "string set"

definition is_always :: "PermissionState \<Rightarrow> string \<Rightarrow> bool" where
  "is_always always tool \<longleftrightarrow> tool \<in> always"

definition remember :: "string \<Rightarrow> PermissionState \<Rightarrow> PermissionState" where
  "remember tool always = insert tool always"

record PermissionResolution =
  pr_allow :: bool
  pr_remember :: bool

definition resolve_permission :: "bool \<Rightarrow> bool \<Rightarrow> PermissionDecision option \<Rightarrow> PermissionResolution" where
  "resolve_permission read_only already_always decision =
     (if read_only then \<lparr>pr_allow = True, pr_remember = False\<rparr>
      else if already_always then \<lparr>pr_allow = True, pr_remember = False\<rparr>
      else case decision of
          Some AllowOnce \<Rightarrow> \<lparr>pr_allow = True, pr_remember = False\<rparr>
        | Some AllowAlways \<Rightarrow> \<lparr>pr_allow = True, pr_remember = True\<rparr>
        | Some Deny \<Rightarrow> \<lparr>pr_allow = False, pr_remember = False\<rparr>
        | None \<Rightarrow> \<lparr>pr_allow = False, pr_remember = False\<rparr>)"

section \<open>Answering a request\<close>

datatype OptionKind = OptAllowOnce | OptAllowAlways | OptRejectOnce | OptRejectAlways

record PermissionOption =
  po_id :: string
  po_kind :: OptionKind

datatype PermissionOutcome = Selected string | Cancelled

definition option_order :: "bool \<Rightarrow> bool \<Rightarrow> OptionKind list" where
  "option_order allow prefer_always =
     (if allow then (if prefer_always then [OptAllowAlways, OptAllowOnce] else [OptAllowOnce, OptAllowAlways])
      else [OptRejectOnce, OptRejectAlways])"

fun find_map :: "('a \<Rightarrow> 'b option) \<Rightarrow> 'a list \<Rightarrow> 'b option" where
  "find_map f [] = None"
| "find_map f (x # xs) = (case f x of Some y \<Rightarrow> Some y | None \<Rightarrow> find_map f xs)"

definition select_permission_option :: "PermissionOption list \<Rightarrow> bool \<Rightarrow> bool \<Rightarrow> PermissionOutcome" where
  "select_permission_option options allow prefer_always =
     (case find_map (\<lambda>kind. find (\<lambda>opt. po_kind opt = kind) options) (option_order allow prefer_always) of
        Some opt \<Rightarrow> Selected (po_id opt)
      | None \<Rightarrow> Cancelled)"

definition DIFF_PREVIEW_CAP :: nat where
  "DIFF_PREVIEW_CAP = 8 * 1024"

definition truncated_mark :: string where
  "truncated_mark = [CHR 0x0A, CHR 0xE2, CHR 0x80, CHR 0xA6] @ '' (truncated)''"

definition cap_diff_text :: "string \<Rightarrow> string" where
  "cap_diff_text text =
     (if length (utf8_chars text) \<le> DIFF_PREVIEW_CAP then text
      else concat (take DIFF_PREVIEW_CAP (utf8_chars text)) @ truncated_mark)"

datatype ToolContent = DiffContent string "string option" string | OtherContent

text \<open>What the callback receives: the tool call's title, kind and content, and the options.\<close>

record AcpRequest =
  aq_title :: "string option"
  aq_kind :: "string option"
  aq_content :: "ToolContent list option"
  aq_options :: "PermissionOption list"

definition permission_request_diff :: "AcpRequest \<Rightarrow> DiffPreview option" where
  "permission_request_diff req =
     find_map (\<lambda>block. case block of
         DiffContent path old_text new_text \<Rightarrow>
           Some \<lparr>dp_path = path, dp_old_text = map_option cap_diff_text old_text, dp_new_text = cap_diff_text new_text\<rparr>
       | OtherContent \<Rightarrow> None)
       (case aq_content req of Some blocks \<Rightarrow> blocks | None \<Rightarrow> [])"

definition permission_request_info :: "AcpRequest \<Rightarrow> PermissionRequest" where
  "permission_request_info req =
     (let kind = aq_kind req;
          tool = (case aq_title req of
              Some title \<Rightarrow> if title \<noteq> [] then title else (case kind of Some k \<Rightarrow> k | None \<Rightarrow> ''tool'')
            | None \<Rightarrow> (case kind of Some k \<Rightarrow> k | None \<Rightarrow> ''tool''))
      in \<lparr>pq_tool = tool, pq_kind = kind, pq_diff = permission_request_diff req\<rparr>)"

definition answer_permission ::
  "AcpRequest \<Rightarrow> bool \<Rightarrow> (PermissionRequest \<Rightarrow> PermissionDecision) \<Rightarrow> PermissionState \<Rightarrow>
     PermissionOutcome \<times> PermissionState" where
  "answer_permission req read_only decide state =
     (let info = permission_request_info req;
          already_always = (\<not> read_only \<and> is_always state (pq_tool info));
          decision = (if read_only \<or> already_always then None else Some (decide info));
          resolution = resolve_permission read_only already_always decision;
          state = (if pr_remember resolution then remember (pq_tool info) state else state)
      in (select_permission_option (aq_options req) (pr_allow resolution) (pr_remember resolution), state))"

text \<open>Which of the two session bindings to the daemon is advertised.\<close>

definition select_mcp_binding :: "bool \<Rightarrow> 'm option \<Rightarrow> 'm option \<Rightarrow> 'm option" where
  "select_mcp_binding agent_supports_http primary fallback =
     (if agent_supports_http then or_else primary fallback else or_else fallback primary)"

definition prompt_blocks :: "string option \<Rightarrow> string option \<Rightarrow> string \<Rightarrow> string list" where
  "prompt_blocks preamble editor text =
     (case preamble of Some p \<Rightarrow> [p] | None \<Rightarrow> []) @ (case editor of Some e \<Rightarrow> [e] | None \<Rightarrow> []) @ [text]"

section \<open>The store is scoped by vault\<close>

datatype GrantOp = DoGrant "PermissionError option" string string string | DoRevoke "PermissionError option" string string

fun grant_step :: "GrantOp \<Rightarrow> GrantRow list \<Rightarrow> GrantRow list" where
  "grant_step (DoGrant err now vault tool) rows = snd (grant err now vault tool rows)"
| "grant_step (DoRevoke err vault tool) rows = snd (revoke err vault tool rows)"

fun grant_op_vault :: "GrantOp \<Rightarrow> string" where
  "grant_op_vault (DoGrant err now vault tool) = vault"
| "grant_op_vault (DoRevoke err vault tool) = vault"

definition vault_rows :: "string \<Rightarrow> GrantRow list \<Rightarrow> GrantRow list" where
  "vault_rows vault rows = filter (\<lambda>r. g_vault r = vault) rows"

definition key_unique :: "GrantRow list \<Rightarrow> bool" where
  "key_unique rows \<longleftrightarrow> distinct (map (\<lambda>r. (g_vault r, g_tool r)) (filter (\<lambda>r. g_tool r \<noteq> None) rows))"

lemma key_unique_grant: "key_unique rows \<Longrightarrow> key_unique (snd (grant err now vault tool rows))"
  by (cases err) (auto simp: grant_def key_unique_def list_ex_iff)

lemma distinct_filters: "distinct (map f (filter p xs)) \<Longrightarrow> distinct (map f (filter p (filter q xs)))"
  by (induction xs) auto

lemma key_unique_revoke: "key_unique rows \<Longrightarrow> key_unique (snd (revoke err vault tool rows))"
  unfolding key_unique_def by (cases err) (simp_all add: revoke_def Let_def distinct_filters del: filter_filter)

lemma vault_rows_ex:
  "list_ex (\<lambda>r. g_vault r = vault \<and> g_tool r = Some tool) rows \<longleftrightarrow>
     list_ex (\<lambda>r. g_tool r = Some tool) (vault_rows vault rows)"
  by (auto simp: vault_rows_def list_ex_iff)

lemma vault_rows_grant:
  "vault_rows v (snd (grant err now vault tool rows)) =
     (if v = vault then snd (grant err now vault tool (vault_rows v rows)) else vault_rows v rows)"
  by (cases err) (auto simp: grant_def vault_rows_def list_ex_iff)

lemma vault_rows_revoke:
  "vault_rows v (snd (revoke err vault tool rows)) =
     (if v = vault then snd (revoke err vault tool (vault_rows v rows)) else vault_rows v rows)"
  by (cases err) (auto simp: revoke_def vault_rows_def Let_def intro: filter_cong)

interpretation grant_store: vault_scoped grant_step key_unique grant_op_vault vault_rows
proof
  fix rows :: "GrantRow list" and x
  assume "key_unique rows"
  then show "key_unique (grant_step x rows)"
    by (cases x) (simp_all add: key_unique_grant key_unique_revoke)
next
  fix rows :: "GrantRow list" and x v
  assume "grant_op_vault x \<noteq> v"
  then show "vault_rows v (grant_step x rows) = vault_rows v rows"
    by (cases x) (auto simp: vault_rows_grant vault_rows_revoke)
next
  fix rows rows' :: "GrantRow list" and x v
  assume "grant_op_vault x = v" "vault_rows v rows = vault_rows v rows'"
  then show "vault_rows v (grant_step x rows) = vault_rows v (grant_step x rows')"
    by (cases x) (auto simp: vault_rows_grant vault_rows_revoke)
qed

lemma is_granted_view: "is_granted err v tool rows = is_granted err v tool (vault_rows v rows)"
  by (auto simp: is_granted_def vault_rows_def list_ex_iff)

lemma list_granted_view: "list_granted err v rows = list_granted err v (vault_rows v rows)"
  by (cases err) (simp_all add: list_granted_def vault_rows_def)

section \<open>A session of requests\<close>

fun answer_all ::
  "bool \<Rightarrow> (AcpRequest \<times> (PermissionRequest \<Rightarrow> PermissionDecision)) list \<Rightarrow> PermissionState \<Rightarrow>
     PermissionOutcome list \<times> PermissionState" where
  "answer_all read_only [] state = ([], state)"
| "answer_all read_only ((req, decide) # rest) state =
     (let (out, state') = answer_permission req read_only decide state;
          (outs, state'') = answer_all read_only rest state'
      in (out # outs, state''))"

definition request_tool :: "AcpRequest \<Rightarrow> string" where
  "request_tool req = pq_tool (permission_request_info req)"

definition user_says :: "AcpRequest \<times> (PermissionRequest \<Rightarrow> PermissionDecision) \<Rightarrow> PermissionDecision" where
  "user_says rd = snd rd (permission_request_info (fst rd))"

definition user_allows :: "AcpRequest \<times> (PermissionRequest \<Rightarrow> PermissionDecision) \<Rightarrow> bool" where
  "user_allows rd \<longleftrightarrow> user_says rd \<noteq> Deny"

lemma find_map_Some: "find_map f xs = Some y \<Longrightarrow> \<exists>x \<in> set xs. f x = Some y"
  by (induction xs) (auto split: option.splits)

lemma selected_kind:
  assumes "select_permission_option options allow prefer = Selected i"
  shows "\<exists>opt. opt \<in> set options \<and> po_id opt = i \<and> po_kind opt \<in> set (option_order allow prefer)"
proof -
  from assms obtain opt where o: "po_id opt = i"
      "find_map (\<lambda>kind. find (\<lambda>opt. po_kind opt = kind) options) (option_order allow prefer) = Some opt"
    by (auto simp: select_permission_option_def split: option.splits)
  from find_map_Some [OF o(2)] obtain kind where "kind \<in> set (option_order allow prefer)"
      "find (\<lambda>opt. po_kind opt = kind) options = Some opt" by blast
  with find_in [OF this(2)] o(1) show ?thesis by blast
qed

lemma answer_write_session:
  "answer_permission req False decide state =
     (let always = request_tool req \<in> state; d = user_says (req, decide);
          allow = (always \<or> d \<noteq> Deny); rem = (\<not> always \<and> d = AllowAlways)
      in (select_permission_option (aq_options req) allow rem, if rem then insert (request_tool req) state else state))"
  by (cases "decide (permission_request_info req)")
     (auto simp: answer_permission_def resolve_permission_def is_always_def remember_def request_tool_def
       user_says_def Let_def)


section \<open>Properties\<close>

text \<open>C12: in a session that may write, a request is answered with an allowing option only if the user
  allowed this very request, or allowed its tool for always at an earlier request, or the tool was
  granted before the session.\<close>

theorem allow_needs_decision:
  assumes "fst (answer_all False (before @ (req, decide) # after) state) ! length before = Selected i"
    and "list_all (\<lambda>opt. po_id opt = i \<longrightarrow> po_kind opt = OptAllowOnce \<or> po_kind opt = OptAllowAlways) (aq_options req)"
  shows "user_allows (req, decide) \<or> request_tool req \<in> state \<or>
    list_ex (\<lambda>rd. request_tool (fst rd) = request_tool req \<and> user_says rd = AllowAlways) before"
  using assms(1)
proof (induction before arbitrary: state)
  case Nil
  show ?case
  proof (rule ccontr)
    assume "\<not> ?case"
    with Nil have "select_permission_option (aq_options req) False False = Selected i"
      by (simp add: user_allows_def answer_write_session Let_def split: prod.splits)
    from selected_kind [OF this] obtain opt where "opt \<in> set (aq_options req)" "po_id opt = i"
      "po_kind opt = OptRejectOnce \<or> po_kind opt = OptRejectAlways" by (auto simp: option_order_def)
    with assms(2) show False by (auto simp: list_all_iff)
  qed
next
  case (Cons rd before)
  obtain r d where rd: "rd = (r, d)" by (cases rd)
  let ?state = "snd (answer_permission r False d state)"
  from Cons.prems rd have "fst (answer_all False (before @ (req, decide) # after) ?state) ! length before = Selected i"
    by (simp add: Let_def split: prod.splits)
  from Cons.IH [OF this] show ?case
    by (auto simp: rd answer_write_session Let_def split: if_splits)
qed

text \<open>A denial never selects an allowing option and an allowance never a rejecting one; with no
  option of the right polarity the request is cancelled.\<close>

lemma selected_option_polarity:
  "(case select_permission_option options allow prefer_always of
      Selected i \<Rightarrow> list_ex (\<lambda>opt. po_id opt = i \<and>
          (po_kind opt = OptAllowOnce \<or> po_kind opt = OptAllowAlways) = allow) options
    | Cancelled \<Rightarrow> list_all (\<lambda>opt.
          (po_kind opt = OptAllowOnce \<or> po_kind opt = OptAllowAlways) \<noteq> allow) options)"
proof (cases "select_permission_option options allow prefer_always")
  case (Selected i)
  from selected_kind [OF this] Selected show ?thesis
    by (auto simp: list_ex_iff option_order_def split: if_splits)
next
  case Cancelled
  then have "find_map (\<lambda>kind. find (\<lambda>opt. po_kind opt = kind) options) (option_order allow prefer_always) = None"
    by (auto simp: select_permission_option_def split: option.splits)
  then have "\<forall>opt \<in> set options. po_kind opt \<notin> set (option_order allow prefer_always)"
    by (auto simp: option_order_def find_None_iff split: if_splits option.splits)
  moreover have "po_kind opt \<in> set (option_order allow prefer_always) \<longleftrightarrow>
      (po_kind opt = OptAllowOnce \<or> po_kind opt = OptAllowAlways) = allow" for opt
    by (cases "po_kind opt") (auto simp: option_order_def)
  ultimately show ?thesis using Cancelled by (auto simp: list_all_iff)
qed

text \<open>Vaults are isolated: whatever grants and revocations are made, under any vault names, what
  is granted and listed for a vault is what its own operations alone would leave.\<close>

lemma grants_isolated:
  "is_granted err v tool (fold grant_step ops []) =
     is_granted err v tool (fold grant_step (filter (\<lambda>x. grant_op_vault x = v) ops) []) \<and>
   list_granted err v (fold grant_step ops []) =
     list_granted err v (fold grant_step (filter (\<lambda>x. grant_op_vault x = v) ops) [])"
proof -
  have "key_unique []" by (simp add: key_unique_def)
  from grant_store.isolation [OF this this, of v ops] show ?thesis
    by (metis is_granted_view list_granted_view)
qed

fun last_grant_op :: "string \<Rightarrow> string \<Rightarrow> GrantOp list \<Rightarrow> bool" where
  "last_grant_op v t [] = False"
| "last_grant_op v t (DoGrant err now vault tool # ops) =
     (if vault = v \<and> tool = t then True else last_grant_op v t ops)"
| "last_grant_op v t (DoRevoke err vault tool # ops) =
     (if vault = v \<and> tool = t then False else last_grant_op v t ops)"

fun op_error :: "GrantOp \<Rightarrow> PermissionError option" where
  "op_error (DoGrant err now vault tool) = err"
| "op_error (DoRevoke err vault tool) = err"

text \<open>After any operations without database errors, a tool is granted exactly when the last
  operation on it in this vault was a grant.\<close>

lemma granted_iff_last_op:
  assumes "list_all (\<lambda>x. op_error x = None) ops"
  shows "is_granted None v t (fold grant_step ops []) \<longleftrightarrow> last_grant_op v t (rev ops)"
  using assms
proof (induction ops rule: rev_induct)
  case (snoc x ops)
  then show ?case
    by (cases x) (auto simp: is_granted_def grant_def revoke_def Let_def list_ex_iff)
qed (simp add: is_granted_def)

section \<open>Witnesses\<close>

definition demo_request :: AcpRequest where
  "demo_request = \<lparr>aq_title = Some ''create_note'', aq_kind = Some ''edit'', aq_content = None,
     aq_options = [\<lparr>po_id = ''a'', po_kind = OptAllowOnce\<rparr>, \<lparr>po_id = ''r'', po_kind = OptRejectOnce\<rparr>]\<rparr>"

lemma allow_needs_decision_witness:
  "user_allows (demo_request, \<lambda>q. AllowOnce) \<or> request_tool demo_request \<in> {} \<or>
    list_ex (\<lambda>rd. request_tool (fst rd) = request_tool demo_request \<and> user_says rd = AllowAlways) []"
proof (rule allow_needs_decision [where i = "''a''" and after = "[]"])
  show "fst (answer_all False ([] @ [(demo_request, \<lambda>q. AllowOnce)]) {}) ! length [] = Selected ''a''"
    by (simp add: answer_write_session Let_def user_says_def select_permission_option_def option_order_def
        demo_request_def)
  show "list_all (\<lambda>opt. po_id opt = ''a'' \<longrightarrow> po_kind opt = OptAllowOnce \<or> po_kind opt = OptAllowAlways)
      (aq_options demo_request)" by (simp add: demo_request_def)
qed

lemma granted_iff_last_op_witness:
  "is_granted None ''v'' ''t'' (fold grant_step [DoGrant None [] ''v'' ''t'', DoRevoke None ''w'' ''t''] []) \<longleftrightarrow>
     last_grant_op ''v'' ''t'' (rev [DoGrant None [] ''v'' ''t'', DoRevoke None ''w'' ''t''])"
  by (rule granted_iff_last_op) simp

end
