(* ===== verification/Servers.thy ===== *)
theory Servers
  imports StdModel
begin

text \<open>
  The saved servers of the desktop app (\<open>notesmith-tauri/src/servers.rs\<close>): the stored set, its
  operations, the resolution of connections and windows, slugs and unique ids.  Parsing a URL and
  reading JSON are parameters (\<open>parse_url\<close> gives scheme and host).  \<open>unique_id\<close> searches for a
  free id with the interface \<open>fresh_names\<close>; the operations are an \<open>op_machine\<close>.
\<close>

section \<open>Data\<close>

definition SCHEMA_VERSION :: nat where
  "SCHEMA_VERSION = 1"

definition LOCAL_ID :: string where
  "LOCAL_ID = ''local''"

definition LOCAL_LABEL :: string where
  "LOCAL_LABEL = ''This Mac''"

record ServerEntry =
  se_id :: string
  se_name :: string
  se_url :: string
  se_token :: "string option"

record ServerView =
  sw_id :: string
  sw_name :: string
  sw_url :: string
  sw_has_token :: bool

definition server_view :: "ServerEntry \<Rightarrow> ServerView" where
  "server_view e = \<lparr>sw_id = se_id e, sw_name = se_name e, sw_url = se_url e, sw_has_token = (se_token e \<noteq> None)\<rparr>"

record ServersFile =
  sf_version :: nat
  sf_active_id :: "string option"
  sf_servers :: "ServerEntry list"

definition servers_default :: ServersFile where
  "servers_default = \<lparr>sf_version = SCHEMA_VERSION, sf_active_id = None, sf_servers = []\<rparr>"

record ServerInput =
  si_name :: string
  si_url :: string
  si_token :: "string option"

datatype ActiveServer = ActiveLocal | ActiveRemote ServerEntry

record ConnectionTarget =
  ct_url :: string
  ct_remote :: bool
  ct_token :: "string option"

datatype WindowServerResolution = ResolvedTo string | MigratedTo string | UnresolvedId string

record ConnectionList =
  cl_active_id :: string
  cl_servers :: "ServerView list"

record ConnectionIdentity =
  ci_id :: string
  ci_name :: string
  ci_remote :: bool

definition identity_local :: ConnectionIdentity where
  "identity_local = \<lparr>ci_id = LOCAL_ID, ci_name = LOCAL_LABEL, ci_remote = False\<rparr>"

datatype ServerStoreError = EmptyName | InvalidUrl | NotFound | ReservedId

section \<open>Reading\<close>

definition u32_of :: "nat \<Rightarrow> nat option" where
  "u32_of n = (if n < 2 ^ 32 then Some n else None)"

definition json_get :: "(string \<times> json) list \<Rightarrow> string \<Rightarrow> json option" where
  "json_get kvs k = collect_map kvs k"

definition parse_vault_count :: "(string \<Rightarrow> json option) \<Rightarrow> string \<Rightarrow> nat option" where
  "parse_vault_count from_slice body =
     (case from_slice body of
        Some (JArray items) \<Rightarrow> u32_of (length items)
      | Some (JObject kvs) \<Rightarrow>
          (case json_get kvs ''vaults'' of Some (JArray items) \<Rightarrow> u32_of (length items) | _ \<Rightarrow> None)
      | _ \<Rightarrow> None)"

definition vault_entry_name :: "json \<Rightarrow> string option" where
  "vault_entry_name entry =
     (case entry of
        JString name \<Rightarrow> Some name
      | JObject kvs \<Rightarrow> (case json_get kvs ''name'' of Some (JString n) \<Rightarrow> Some n | _ \<Rightarrow> None)
      | _ \<Rightarrow> None)"

definition parse_vault_names :: "(string \<Rightarrow> json option) \<Rightarrow> string \<Rightarrow> string list option" where
  "parse_vault_names from_slice body =
     map_option (List.map_filter vault_entry_name)
       (case from_slice body of
          Some (JArray items) \<Rightarrow> Some items
        | Some (JObject kvs) \<Rightarrow> (case json_get kvs ''vaults'' of Some (JArray items) \<Rightarrow> Some items | _ \<Rightarrow> None)
        | _ \<Rightarrow> None)"

definition server_ids :: "ServersFile \<Rightarrow> string list" where
  "server_ids f = map se_id (sf_servers f)"

definition normalized :: "ServersFile \<Rightarrow> ServersFile" where
  "normalized f =
     (case sf_active_id f of
        Some i \<Rightarrow> if i = LOCAL_ID \<or> \<not> list_ex (\<lambda>s. se_id s = i) (sf_servers f) then f\<lparr>sf_active_id := None\<rparr> else f
      | None \<Rightarrow> f)"

datatype ReadResult = ReadMissing | ReadFailed | ReadBytes string

definition load_servers :: "(string \<Rightarrow> ServersFile option) \<Rightarrow> ReadResult \<Rightarrow> ServersFile" where
  "load_servers from_slice r =
     (case r of
        ReadMissing \<Rightarrow> servers_default
      | ReadFailed \<Rightarrow> servers_default
      | ReadBytes bytes \<Rightarrow>
          if bytes = [] then servers_default
          else (case from_slice bytes of
                  Some f \<Rightarrow> if sf_version f = SCHEMA_VERSION then normalized f else servers_default
                | None \<Rightarrow> servers_default))"

section \<open>Resolution\<close>

definition server_get :: "ServersFile \<Rightarrow> string \<Rightarrow> ServerEntry option" where
  "server_get f i = find (\<lambda>s. se_id s = i) (sf_servers f)"

definition active_server :: "ServersFile \<Rightarrow> ActiveServer" where
  "active_server f =
     (case sf_active_id f of
        None \<Rightarrow> ActiveLocal
      | Some i \<Rightarrow> (case find (\<lambda>s. se_id s = i) (sf_servers f) of Some e \<Rightarrow> ActiveRemote e | None \<Rightarrow> ActiveLocal))"

definition is_local_active :: "ServersFile \<Rightarrow> bool" where
  "is_local_active f \<longleftrightarrow> active_server f = ActiveLocal"

definition active_target :: "ServersFile \<Rightarrow> string \<Rightarrow> string \<times> bool" where
  "active_target f local_url =
     (case active_server f of ActiveLocal \<Rightarrow> (local_url, False) | ActiveRemote e \<Rightarrow> (se_url e, True))"

definition resolve_target :: "ServersFile \<Rightarrow> string \<Rightarrow> string \<Rightarrow> ConnectionTarget" where
  "resolve_target f i local_url =
     (let here = \<lparr>ct_url = local_url, ct_remote = False, ct_token = None\<rparr> in
      case server_get f i of
        Some e \<Rightarrow> if i \<noteq> LOCAL_ID then \<lparr>ct_url = se_url e, ct_remote = True, ct_token = se_token e\<rparr> else here
      | None \<Rightarrow> here)"

definition target_for :: "ServersFile \<Rightarrow> string \<Rightarrow> string \<Rightarrow> string \<times> bool" where
  "target_for f i local_url = (let t = resolve_target f i local_url in (ct_url t, ct_remote t))"

definition resolve_window_server :: "ServersFile \<Rightarrow> string option \<Rightarrow> string \<Rightarrow> WindowServerResolution" where
  "resolve_window_server f server_id default_id =
     (case server_id of
        None \<Rightarrow> MigratedTo default_id
      | Some i \<Rightarrow> if i = LOCAL_ID then ResolvedTo LOCAL_ID
                  else if server_get f i \<noteq> None then ResolvedTo i else UnresolvedId i)"

definition connection_identity :: "ServersFile \<Rightarrow> string \<Rightarrow> ConnectionIdentity" where
  "connection_identity f i =
     (case server_get f i of
        Some e \<Rightarrow> if i \<noteq> LOCAL_ID then \<lparr>ci_id = se_id e, ci_name = se_name e, ci_remote = True\<rparr> else identity_local
      | None \<Rightarrow> identity_local)"

definition connection_list :: "ServersFile \<Rightarrow> ConnectionList" where
  "connection_list f =
     \<lparr>cl_active_id = (case sf_active_id f of Some i \<Rightarrow> i | None \<Rightarrow> LOCAL_ID),
      cl_servers = map server_view (sf_servers f)\<rparr>"

section \<open>Mutation\<close>

text \<open>The characters of a text are walked byte by byte: no byte of a longer character is alphanumeric.\<close>

fun slug_loop :: "bool \<Rightarrow> string \<Rightarrow> string" where
  "slug_loop prev_hyphen [] = []"
| "slug_loop prev_hyphen (ch # s) =
     (if ascii_alnum ch then ascii_lower ch # slug_loop False s
      else if \<not> prev_hyphen then CHR ''-'' # slug_loop True s
      else slug_loop prev_hyphen s)"

definition slugify :: "string \<Rightarrow> string" where
  "slugify name = trim_matches_char CHR ''-'' (slug_loop False name)"

definition id_taken :: "ServersFile \<Rightarrow> string \<Rightarrow> bool" where
  "id_taken f i \<longleftrightarrow> i = LOCAL_ID \<or> list_ex (\<lambda>s. se_id s = i) (sf_servers f)"

definition id_base :: "string \<Rightarrow> string" where
  "id_base name =
     (let s = slugify name in if s = [] \<or> s = LOCAL_ID then ''server-'' @ s else s)"

definition id_candidate :: "string \<Rightarrow> nat \<Rightarrow> string" where
  "id_candidate base n = base @ ''-'' @ show_nat n"

definition unique_id :: "ServersFile \<Rightarrow> string \<Rightarrow> string option" where
  "unique_id f name =
     (let base = id_base name in
      if \<not> id_taken f base then Some base else search_free (id_candidate base) (id_taken f) 2)"

definition clean_token :: "string option \<Rightarrow> string option" where
  "clean_token token = (case map_option trim token of Some t \<Rightarrow> if t \<noteq> [] then Some t else None | None \<Rightarrow> None)"

definition normalize_url :: "(string \<Rightarrow> (string \<times> string option) option) \<Rightarrow> string \<Rightarrow> ServerStoreError + string" where
  "normalize_url parse_url raw =
     (let trimmed = trim raw in
      if trimmed = [] then Inl InvalidUrl
      else case parse_url trimmed of
          None \<Rightarrow> Inl InvalidUrl
        | Some (scheme, host) \<Rightarrow>
            if scheme \<noteq> ''http'' \<and> scheme \<noteq> ''https'' then Inl InvalidUrl
            else if (case host of None \<Rightarrow> True | Some h \<Rightarrow> h = []) then Inl InvalidUrl
            else Inr (trim_end_char CHR ''/'' trimmed))"

definition update_changes_url :: "(string \<Rightarrow> (string \<times> string option) option) \<Rightarrow> string \<Rightarrow> string option \<Rightarrow> bool" where
  "update_changes_url parse_url current_url new_url =
     (case new_url of
        Some raw \<Rightarrow> (case normalize_url parse_url raw of Inr n \<Rightarrow> n \<noteq> current_url | Inl e \<Rightarrow> True)
      | None \<Rightarrow> False)"

text \<open>The outer option is the search for an id that does not return.\<close>

definition server_add :: "(string \<Rightarrow> (string \<times> string option) option) \<Rightarrow> ServerInput \<Rightarrow> ServersFile \<Rightarrow>
    ((ServerStoreError + string) \<times> ServersFile) option" where
  "server_add parse_url input f =
     (let name = trim (si_name input) in
      if name = [] then Some (Inl EmptyName, f)
      else case normalize_url parse_url (si_url input) of
          Inl e \<Rightarrow> Some (Inl e, f)
        | Inr url \<Rightarrow>
            map_option (\<lambda>i. (Inr i, f\<lparr>sf_servers := sf_servers f @
               [\<lparr>se_id = i, se_name = name, se_url = url, se_token = clean_token (si_token input)\<rparr>]\<rparr>))
              (unique_id f name))"

fun update_first :: "('a \<Rightarrow> bool) \<Rightarrow> ('a \<Rightarrow> 'a) \<Rightarrow> 'a list \<Rightarrow> 'a list option" where
  "update_first P g [] = None"
| "update_first P g (x # xs) = (if P x then Some (g x # xs) else map_option ((#) x) (update_first P g xs))"

definition patch_entry :: "string option \<Rightarrow> string option \<Rightarrow> string option \<Rightarrow> ServerEntry \<Rightarrow> ServerEntry" where
  "patch_entry new_name new_url token e =
     e\<lparr>se_name := (case new_name of Some n \<Rightarrow> n | None \<Rightarrow> se_name e),
       se_url := (case new_url of Some u \<Rightarrow> u | None \<Rightarrow> se_url e),
       se_token := (case token of Some t \<Rightarrow> clean_token (Some t) | None \<Rightarrow> se_token e)\<rparr>"

definition server_update :: "(string \<Rightarrow> (string \<times> string option) option) \<Rightarrow> string \<Rightarrow> string option \<Rightarrow> string option \<Rightarrow>
    string option \<Rightarrow> ServersFile \<Rightarrow> (ServerStoreError + unit) \<times> ServersFile" where
  "server_update parse_url i name url token f =
     (case (case name of Some n \<Rightarrow> if trim n = [] then Inl EmptyName else Inr (Some (trim n)) | None \<Rightarrow> Inr None) of
        Inl e \<Rightarrow> (Inl e, f)
      | Inr new_name \<Rightarrow>
     (case (case url of Some u \<Rightarrow> (case normalize_url parse_url u of Inl e \<Rightarrow> Inl e | Inr n \<Rightarrow> Inr (Some n))
              | None \<Rightarrow> Inr None) of
        Inl e \<Rightarrow> (Inl e, f)
      | Inr new_url \<Rightarrow>
     (case update_first (\<lambda>s. se_id s = i) (patch_entry new_name new_url token) (sf_servers f) of
        None \<Rightarrow> (Inl NotFound, f)
      | Some servers \<Rightarrow> (Inr (), f\<lparr>sf_servers := servers\<rparr>))))"

definition server_remove :: "string \<Rightarrow> ServersFile \<Rightarrow> (ServerStoreError + unit) \<times> ServersFile" where
  "server_remove i f =
     (let kept = filter (\<lambda>s. se_id s \<noteq> i) (sf_servers f); f' = f\<lparr>sf_servers := kept\<rparr> in
      if length kept = length (sf_servers f) then (Inl NotFound, f')
      else (Inr (), if sf_active_id f = Some i then f'\<lparr>sf_active_id := None\<rparr> else f'))"

definition server_set_active :: "string option \<Rightarrow> ServersFile \<Rightarrow> (ServerStoreError + unit) \<times> ServersFile" where
  "server_set_active i f =
     (case map_option trim i of
        None \<Rightarrow> (Inr (), f\<lparr>sf_active_id := None\<rparr>)
      | Some i \<Rightarrow>
          if i = [] \<or> i = LOCAL_ID then (Inr (), f\<lparr>sf_active_id := None\<rparr>)
          else if list_ex (\<lambda>s. se_id s = i) (sf_servers f) then (Inr (), f\<lparr>sf_active_id := Some i\<rparr>)
          else (Inl NotFound, f))"

section \<open>Unique ids\<close>

lemma finite_taken: "finite {i. id_taken f i}"
proof -
  have "{i. id_taken f i} = insert LOCAL_ID (se_id ` set (sf_servers f))"
    by (auto simp: id_taken_def list_ex_iff)
  then show ?thesis by simp
qed

interpretation id_search: fresh_names "id_candidate base" "id_taken f" for base f
proof
  have "inj (id_candidate base)" by (auto simp: id_candidate_def inj_def)
  then show "finite {n. id_taken f (id_candidate base n)}"
    using finite_vimageI [OF finite_taken [of f]] by (simp add: vimage_def)
qed

lemma unique_id_free: "\<exists>i. unique_id f name = Some i \<and> \<not> id_taken f i"
  using id_search.search_total [of 2 "id_base name" f] by (auto simp: unique_id_def Let_def)

section \<open>The invariant\<close>

definition servers_ok :: "ServersFile \<Rightarrow> bool" where
  "servers_ok f \<longleftrightarrow> distinct (server_ids f) \<and> LOCAL_ID \<notin> set (server_ids f) \<and>
     (case sf_active_id f of Some i \<Rightarrow> i \<in> set (server_ids f) | None \<Rightarrow> True)"

datatype ServerOp =
    OpAdd ServerInput
  | OpUpdate string "string option" "string option" "string option"
  | OpRemove string
  | OpSetActive "string option"

fun server_step :: "(string \<Rightarrow> (string \<times> string option) option) \<Rightarrow> ServerOp \<Rightarrow> ServersFile \<Rightarrow> ServersFile" where
  "server_step up (OpAdd input) f = (case server_add up input f of Some (_, f') \<Rightarrow> f' | None \<Rightarrow> f)"
| "server_step up (OpUpdate i name url token) f = snd (server_update up i name url token f)"
| "server_step up (OpRemove i) f = snd (server_remove i f)"
| "server_step up (OpSetActive i) f = snd (server_set_active i f)"

lemma id_taken_set: "id_taken f i \<longleftrightarrow> i = LOCAL_ID \<or> i \<in> set (server_ids f)"
  by (auto simp: id_taken_def server_ids_def list_ex_iff)

lemma add_cases:
  obtains e where "server_add up input f = Some (Inl e, f)"
  | i url where "server_add up input f = Some (Inr i, f\<lparr>sf_servers := sf_servers f @
      [\<lparr>se_id = i, se_name = trim (si_name input), se_url = url, se_token = clean_token (si_token input)\<rparr>]\<rparr>)"
      "\<not> id_taken f i" "normalize_url up (si_url input) = Inr url"
  using unique_id_free [of f "trim (si_name input)"]
  by (cases "trim (si_name input) = []"; cases "normalize_url up (si_url input)")
     (auto simp: server_add_def Let_def)

lemma update_first_Some:
  "update_first P g xs = Some ys \<Longrightarrow> \<exists>as x bs. xs = as @ x # bs \<and> P x \<and> ys = as @ g x # bs \<and> (\<forall>a \<in> set as. \<not> P a)"
proof (induction xs arbitrary: ys)
  case (Cons x xs)
  show ?case
  proof (cases "P x")
    case True
    with Cons.prems show ?thesis by fastforce
  next
    case False
    with Cons.prems obtain zs where z: "update_first P g xs = Some zs" "ys = x # zs" by auto
    from Cons.IH [OF z(1)] obtain as y bs where
      "xs = as @ y # bs" "P y" "zs = as @ g y # bs" "\<forall>a \<in> set as. \<not> P a" by blast
    with z(2) False have "x # xs = (x # as) @ y # bs" "ys = (x # as) @ g y # bs" "\<forall>a \<in> set (x # as). \<not> P a" by auto
    with \<open>P y\<close> show ?thesis by blast
  qed
qed simp

lemma update_first_None: "update_first P g xs = None \<longleftrightarrow> (\<forall>x \<in> set xs. \<not> P x)"
  by (induction xs) auto

lemma server_update_cases:
  obtains e where "server_update up i name url token f = (Inl e, f)"
  | as e bs n u where "server_update up i name url token f = (Inr (), f\<lparr>sf_servers := as @ patch_entry n u token e # bs\<rparr>)"
      "sf_servers f = as @ e # bs" "se_id e = i"
proof (cases "server_update up i name url token f")
  case (Pair r f')
  show thesis
  proof (cases r)
    case (Inl e)
    with Pair have "f' = f" by (auto simp: server_update_def split: sum.splits option.splits)
    with that(1) Pair Inl show thesis by simp
  next
    case (Inr x)
    with Pair obtain n u ys where u: "update_first (\<lambda>s. se_id s = i) (patch_entry n u token) (sf_servers f) = Some ys"
        "f' = f\<lparr>sf_servers := ys\<rparr>" by (auto simp: server_update_def split: sum.splits option.splits)
    from update_first_Some [OF u(1)] that(2) Pair Inr u(2) show thesis by auto
  qed
qed

lemma patch_id [simp]: "se_id (patch_entry n u t e) = se_id e"
  by (simp add: patch_entry_def)

lemma remove_ids: "server_ids (snd (server_remove i f)) = filter (\<lambda>j. j \<noteq> i) (server_ids f)"
  by (simp add: server_remove_def server_ids_def Let_def filter_map o_def)

lemma server_step_ok: "servers_ok f \<Longrightarrow> servers_ok (server_step up x f)"
proof (cases x)
  case (OpAdd input)
  assume ok: "servers_ok f"
  show ?thesis
    by (rule add_cases [of up input f])
       (use ok OpAdd in \<open>auto simp: servers_ok_def server_ids_def id_taken_set split: option.splits\<close>)
next
  case (OpUpdate i name url token)
  assume ok: "servers_ok f"
  show ?thesis
    by (rule server_update_cases [of up i name url token f])
       (use ok OpUpdate in \<open>auto simp: servers_ok_def server_ids_def split: option.splits\<close>)
next
  case (OpRemove i)
  assume ok: "servers_ok f"
  have a: "sf_active_id (snd (server_remove i f)) \<noteq> Some i \<or> i \<notin> set (server_ids f)"
    "sf_active_id (snd (server_remove i f)) = sf_active_id f \<or> sf_active_id (snd (server_remove i f)) = None"
    by (auto simp: server_remove_def Let_def server_ids_def filter_id_conv length_filter_less
        dest: length_filter_less [of _ _ "\<lambda>s. se_id s \<noteq> i"])
  with ok OpRemove show ?thesis
    by (auto simp: servers_ok_def remove_ids split: option.splits)
next
  case (OpSetActive i)
  assume "servers_ok f"
  with OpSetActive show ?thesis
    by (auto simp: servers_ok_def server_set_active_def server_ids_def list_ex_iff intro: rev_image_eqI
        split: option.splits)
qed

interpretation servers: op_machine "server_step up" servers_ok for up
  by unfold_locales (rule server_step_ok)


lemma find_filter: "(\<And>x. P x \<Longrightarrow> Q x) \<Longrightarrow> find P (filter Q xs) = find P xs"
  by (induction xs) auto

lemma find_snoc: "find P xs = None \<Longrightarrow> find P (xs @ [x]) = (if P x then Some x else None)"
  by (induction xs) (auto split: if_splits)

section \<open>Slugs\<close>

definition slug_char :: "char \<Rightarrow> bool" where
  "slug_char c \<longleftrightarrow> ascii_alnum c \<and> ascii_lower c = c"

fun slug_shape :: "bool \<Rightarrow> string \<Rightarrow> bool" where
  "slug_shape prev [] = True"
| "slug_shape prev (c # s) =
     (if c = CHR ''-'' then \<not> prev \<and> slug_shape True s else slug_char c \<and> slug_shape False s)"

lemma alnum_lower [simp]: "ascii_alnum c \<Longrightarrow> slug_char (ascii_lower c)"
  by (auto simp: slug_char_def ascii_alnum_def ascii_lower_def Let_def)

lemma hyphen_not_alnum [simp]: "\<not> ascii_alnum CHR ''-''" "\<not> slug_char CHR ''-''"
  by (simp_all add: ascii_alnum_def slug_char_def)

lemma slug_loop_shape: "slug_shape prev (slug_loop prev s)"
proof (induction prev s rule: slug_loop.induct)
  case (2 prev c s)
  show ?case
  proof (cases "ascii_alnum c")
    case True
    then have "ascii_lower c \<noteq> CHR ''-''" using alnum_lower hyphen_not_alnum by metis
    with 2 True show ?thesis by simp
  qed (use 2 in auto)
qed simp

lemma slug_loop_fix: "slug_shape prev s \<Longrightarrow> slug_loop prev s = s"
  by (induction prev s rule: slug_shape.induct) (auto simp: slug_char_def split: if_splits)

lemma slug_shape_suffix: "slug_shape prev (s @ t) \<Longrightarrow> slug_shape prev s"
  by (induction prev s rule: slug_shape.induct) (auto split: if_splits)

lemma slug_shape_weaken: "slug_shape True s \<Longrightarrow> slug_shape False s"
  by (cases s) (auto split: if_splits)

lemma slug_shape_drop: "slug_shape prev s \<Longrightarrow> slug_shape False (dropWhile (\<lambda>x. x = CHR ''-'') s)"
  by (induction prev s rule: slug_shape.induct) (auto split: if_splits)

lemma trim_matches_parts:
  "\<exists>b. s = takeWhile (\<lambda>x. x = c) s @ trim_matches_char c s @ b"
proof -
  let ?d = "dropWhile (\<lambda>x. x = c) s"
  have "rev ?d = takeWhile (\<lambda>x. x = c) (rev ?d) @ dropWhile (\<lambda>x. x = c) (rev ?d)" by simp
  then have "?d = trim_matches_char c s @ rev (takeWhile (\<lambda>x. x = c) (rev ?d))"
    unfolding trim_matches_char_def by (metis rev_append rev_rev_ident)
  then show ?thesis by (metis takeWhile_dropWhile_id)
qed

lemma trim_matches_ends:
  "trim_matches_char c s = [] \<or> hd (trim_matches_char c s) \<noteq> c \<and> last (trim_matches_char c s) \<noteq> c"
proof -
  let ?d = "dropWhile (\<lambda>x. x = c) s" and ?t = "trim_matches_char c s"
  have last: "?t \<noteq> [] \<Longrightarrow> last ?t \<noteq> c"
    unfolding trim_matches_char_def using hd_dropWhile [of "\<lambda>x. x = c" "rev ?d"] by (simp add: last_rev)
  obtain b where "?d = ?t @ b"
    using trim_matches_parts [of s c] by (metis same_append_eq takeWhile_dropWhile_id)
  then have "?t \<noteq> [] \<Longrightarrow> hd ?t = hd ?d \<and> ?d \<noteq> []" by auto
  with hd_dropWhile [of "\<lambda>x. x = c" s] last show ?thesis by auto
qed

lemma trim_matches_fix: "s = [] \<or> hd s \<noteq> c \<and> last s \<noteq> c \<Longrightarrow> trim_matches_char c s = s"
proof (cases "s = []")
  case False
  have drop_none: "xs \<noteq> [] \<Longrightarrow> hd xs \<noteq> c \<Longrightarrow> dropWhile (\<lambda>x. x = c) xs = xs" for xs by (cases xs) auto
  assume "s = [] \<or> hd s \<noteq> c \<and> last s \<noteq> c"
  with False drop_none [of s] drop_none [of "rev s"] show ?thesis by (simp add: trim_matches_char_def hd_rev)
qed (simp add: trim_matches_char_def)

lemma slugify_shape: "slug_shape False (slugify name)"
proof -
  let ?l = "slug_loop False name"
  have "slug_shape False (dropWhile (\<lambda>x. x = CHR ''-'') ?l)" by (rule slug_shape_drop) (rule slug_loop_shape)
  moreover obtain b where "dropWhile (\<lambda>x. x = CHR ''-'') ?l = slugify name @ b"
    using trim_matches_parts [of ?l "CHR ''-''"] unfolding slugify_def
    by (metis same_append_eq takeWhile_dropWhile_id)
  ultimately show ?thesis using slug_shape_suffix by metis
qed

section \<open>Properties\<close>


text \<open>Adding always returns; when the trimmed name is not empty and the URL is an http one with a
  host, it stores exactly one new entry under an id that no stored server has and that is not the
  reserved one, which then resolves to it; otherwise it is refused and nothing changes.\<close>

lemma add_server:
  "\<exists>r f'. server_add up input f = Some (r, f') \<and>
     (case r of
        Inr i \<Rightarrow> i \<noteq> LOCAL_ID \<and> server_get f i = None \<and> trim (si_name input) \<noteq> [] \<and>
          (\<exists>e. se_id e = i \<and> se_name e = trim (si_name input) \<and> normalize_url up (si_url input) = Inr (se_url e) \<and>
             sf_servers f' = sf_servers f @ [e] \<and> sf_active_id f' = sf_active_id f \<and> server_get f' i = Some e)
      | Inl err \<Rightarrow> f' = f \<and> (err = EmptyName \<and> trim (si_name input) = [] \<or>
          err = InvalidUrl \<and> (\<exists>x. normalize_url up (si_url input) = Inl x)))"
proof (rule add_cases [of up input f])
  fix e assume e: "server_add up input f = Some (Inl e, f)"
  then have "e = EmptyName \<and> trim (si_name input) = [] \<or> e = InvalidUrl \<and> (\<exists>x. normalize_url up (si_url input) = Inl x)"
    by (auto simp: server_add_def Let_def normalize_url_def split: if_splits sum.splits option.splits prod.splits)
  with e show ?thesis by auto
next
  fix i url
  let ?e = "\<lparr>se_id = i, se_name = trim (si_name input), se_url = url, se_token = clean_token (si_token input)\<rparr>"
  assume a: "server_add up input f = Some (Inr i, f\<lparr>sf_servers := sf_servers f @ [?e]\<rparr>)"
    "\<not> id_taken f i" "normalize_url up (si_url input) = Inr url"
  then have none: "server_get f i = None" "i \<noteq> LOCAL_ID"
    by (auto simp: server_get_def find_None_iff id_taken_def list_ex_iff)
  then have "server_get (f\<lparr>sf_servers := sf_servers f @ [?e]\<rparr>) i = Some ?e"
    by (simp add: server_get_def find_snoc)
  moreover have "trim (si_name input) \<noteq> []" using a(1) by (auto simp: server_add_def)
  ultimately show ?thesis using a none by (intro exI conjI) auto
qed


text \<open>After a server is removed, a window bound to its id is reported unresolved and never opened
  against another connection; the other windows resolve as before.\<close>

lemma removed_server_unresolved:
  assumes "server_remove i f = (Inr (), f')" and "i \<noteq> LOCAL_ID"
  shows "resolve_window_server f' (Some i) d = UnresolvedId i \<and>
    (j = i \<or> resolve_window_server f' (Some j) d = resolve_window_server f (Some j) d)"
proof -
  have s: "sf_servers f' = filter (\<lambda>s. se_id s \<noteq> i) (sf_servers f)"
    using assms(1) by (auto simp: server_remove_def Let_def split: if_splits)
  have "server_get f' i = None" by (auto simp: server_get_def s find_None_iff)
  moreover have "server_get f' j = server_get f j" if "j \<noteq> i"
    unfolding server_get_def s by (rule find_filter) (use that in auto)
  ultimately show ?thesis using assms(2) by (cases "j = i") (simp_all add: resolve_window_server_def)
qed

text \<open>A slug consists of lower-case ASCII letters, digits and single inner hyphens, and is a fixed
  point of \<open>slugify\<close>.\<close>

lemma slugify_normal_form:
  "slug_shape False (slugify name) \<and>
   (slugify name = [] \<or> hd (slugify name) \<noteq> CHR ''-'' \<and> last (slugify name) \<noteq> CHR ''-'') \<and>
   slugify (slugify name) = slugify name"
proof -
  have ends: "slugify name = [] \<or> hd (slugify name) \<noteq> CHR ''-'' \<and> last (slugify name) \<noteq> CHR ''-''"
    unfolding slugify_def by (rule trim_matches_ends)
  have "slugify (slugify name) = trim_matches_char CHR ''-'' (slugify name)"
    by (subst slugify_def) (simp add: slug_loop_fix slugify_shape)
  with trim_matches_fix [OF ends] ends slugify_shape show ?thesis by simp
qed

section \<open>Witnesses\<close>

definition demo_servers :: ServersFile where
  "demo_servers = \<lparr>sf_version = 1, sf_active_id = Some ''nas'',
     sf_servers = [\<lparr>se_id = ''nas'', se_name = ''NAS'', se_url = ''http://nas'', se_token = Some ''t''\<rparr>]\<rparr>"


lemma removed_server_unresolved_witness:
  "resolve_window_server (snd (server_remove ''nas'' demo_servers)) (Some ''nas'') ''local'' = UnresolvedId ''nas''"
proof -
  have "server_remove ''nas'' demo_servers = (Inr (), snd (server_remove ''nas'' demo_servers))"
    by (simp add: server_remove_def demo_servers_def)
  from removed_server_unresolved [OF this] show ?thesis by (simp add: LOCAL_ID_def)
qed

end
