(* ===== verification/Windows.thy ===== *)
theory Windows
  imports Servers
begin

text \<open>
  The desktop app's windows: the registry of open windows
  (\<open>notesmith-tauri/src/window_registry.rs\<close>), the persisted window set
  (\<open>windows_persist.rs\<close>) and window labels (\<open>vault_window.rs\<close>).  Hash maps are maps, \<open>i32\<close> and
  \<open>u32\<close> coordinates are \<open>int\<close> with saturation, wrap and casts written out, the FNV-1a hash is on
  64-bit words.
\<close>

section \<open>Labels\<close>

definition VAULT_WINDOW_LABEL_PREFIX :: string where
  "VAULT_WINDOW_LABEL_PREFIX = ''main:''"

definition HASH_SUFFIX_LEN :: nat where
  "HASH_SUFFIX_LEN = 8"

record VaultKey =
  vk_server_id :: string
  vk_vault :: string

definition vault_key_local :: "string \<Rightarrow> VaultKey" where
  "vault_key_local vault = \<lparr>vk_server_id = LOCAL_ID, vk_vault = vault\<rparr>"

definition key_is_local :: "VaultKey \<Rightarrow> bool" where
  "key_is_local key \<longleftrightarrow> vk_server_id key = LOCAL_ID"

definition canonical_identity :: "VaultKey \<Rightarrow> string" where
  "canonical_identity key =
     (if key_is_local key then vk_vault key else vk_server_id key @ CHR 0x1F # vk_vault key)"

fun slug_dash_loop :: "bool \<Rightarrow> string \<Rightarrow> string" where
  "slug_dash_loop last_dash [] = []"
| "slug_dash_loop last_dash (ch # s) =
     (let mapped = (if ascii_alnum ch then ascii_lower ch else CHR ''-'') in
      if mapped = CHR ''-'' then (if \<not> last_dash then CHR ''-'' # slug_dash_loop True s else slug_dash_loop last_dash s)
      else mapped # slug_dash_loop False s)"

definition slug_for_vault :: "string \<Rightarrow> string" where
  "slug_for_vault vault = trim_end_char CHR ''-'' (slug_dash_loop True vault)"

definition fnv_step :: "64 word \<Rightarrow> char \<Rightarrow> 64 word" where
  "fnv_step hash byte = xor hash (of_nat (of_char byte)) * 0x100000001b3"

definition hex_digit :: "nat \<Rightarrow> char" where
  "hex_digit n = char_of (if n < 10 then 48 + n else 87 + n)"

definition hex16 :: "64 word \<Rightarrow> string" where
  "hex16 w = map (\<lambda>i. hex_digit (unat (drop_bit (4 * (15 - i)) w) mod 16)) [0..<16]"

definition short_hash :: "string \<Rightarrow> string" where
  "short_hash vault = take HASH_SUFFIX_LEN (hex16 (foldl fnv_step 0xcbf29ce484222325 vault))"

definition vault_window_label_for_key :: "VaultKey \<Rightarrow> string" where
  "vault_window_label_for_key key =
     (let slug = slug_for_vault (vk_vault key); hash = short_hash (canonical_identity key)
      in if slug = [] then VAULT_WINDOW_LABEL_PREFIX @ hash
         else VAULT_WINDOW_LABEL_PREFIX @ slug @ ''-'' @ hash)"

definition vault_window_label :: "string \<Rightarrow> string" where
  "vault_window_label vault = vault_window_label_for_key (vault_key_local vault)"

definition is_vault_window_label :: "string \<Rightarrow> bool" where
  "is_vault_window_label label \<longleftrightarrow> prefix VAULT_WINDOW_LABEL_PREFIX label"

section \<open>The registry\<close>

datatype WindowContext = GlobalWindow | ServerScoped string | VaultScoped string string

fun context_server_id :: "WindowContext \<Rightarrow> string option" where
  "context_server_id GlobalWindow = None"
| "context_server_id (ServerScoped s) = Some s"
| "context_server_id (VaultScoped s v) = Some s"

fun context_vault_key :: "WindowContext \<Rightarrow> VaultKey option" where
  "context_vault_key (VaultScoped s v) = Some \<lparr>vk_server_id = s, vk_vault = v\<rparr>"
| "context_vault_key c = None"

fun vault_binding :: "WindowContext \<Rightarrow> (string \<times> string) option" where
  "vault_binding (VaultScoped s v) = Some (s, v)"
| "vault_binding c = None"

record WindowRegistry =
  by_label :: "string \<rightharpoonup> WindowContext"
  label_by_key :: "VaultKey \<rightharpoonup> string"

definition registry_empty :: WindowRegistry where
  "registry_empty = \<lparr>by_label = Map.empty, label_by_key = Map.empty\<rparr>"

text \<open>Drop the reuse entry of a context if it points to this label.\<close>

definition drop_key :: "string \<Rightarrow> WindowContext option \<Rightarrow> (VaultKey \<rightharpoonup> string) \<Rightarrow> (VaultKey \<rightharpoonup> string)" where
  "drop_key label prev m =
     (case Option.bind prev context_vault_key of
        Some key \<Rightarrow> if m key = Some label then m(key := None) else m
      | None \<Rightarrow> m)"

definition window_insert :: "string \<Rightarrow> WindowContext \<Rightarrow> WindowRegistry \<Rightarrow> WindowRegistry" where
  "window_insert label context r =
     (let keys = drop_key label (by_label r label) (label_by_key r);
          keys = (case context_vault_key context of Some key \<Rightarrow> keys(key \<mapsto> label) | None \<Rightarrow> keys)
      in \<lparr>by_label = (by_label r)(label \<mapsto> context), label_by_key = keys\<rparr>)"

definition window_remove :: "string \<Rightarrow> WindowRegistry \<Rightarrow> WindowContext option \<times> WindowRegistry" where
  "window_remove label r =
     (case by_label r label of
        None \<Rightarrow> (None, r)
      | Some context \<Rightarrow>
          (Some context, \<lparr>by_label = (by_label r)(label := None),
             label_by_key = drop_key label (Some context) (label_by_key r)\<rparr>))"

definition context_for_label :: "WindowRegistry \<Rightarrow> string \<Rightarrow> WindowContext option" where
  "context_for_label r label = by_label r label"

definition label_for_key :: "WindowRegistry \<Rightarrow> VaultKey \<Rightarrow> string option" where
  "label_for_key r key = label_by_key r key"

text \<open>The lists of unspecified order are sets.\<close>

definition vault_windows :: "WindowRegistry \<Rightarrow> (string \<times> string \<times> string) set" where
  "vault_windows r = {(label, s, v). by_label r label = Some (VaultScoped s v)}"

definition windows_for_server :: "WindowRegistry \<Rightarrow> string \<Rightarrow> string set" where
  "windows_for_server r server_id =
     {label. Option.bind (by_label r label) context_server_id = Some server_id}"

section \<open>The persisted windows\<close>

record WindowEntry =
  we_vault :: string
  we_server_id :: "string option"
  we_x :: int
  we_y :: int
  we_w :: nat
  we_h :: nat

definition entry_key :: "WindowEntry \<Rightarrow> string option \<times> string" where
  "entry_key e = (we_server_id e, we_vault e)"

fun dedupe_loop ::
  "(string option \<times> string \<rightharpoonup> nat) \<Rightarrow> WindowEntry list \<Rightarrow> WindowEntry list \<Rightarrow> WindowEntry list" where
  "dedupe_loop seen result [] = result"
| "dedupe_loop seen result (entry # rest) =
     (case seen (entry_key entry) of
        Some index \<Rightarrow> dedupe_loop seen (result[index := entry]) rest
      | None \<Rightarrow> dedupe_loop (seen(entry_key entry \<mapsto> length result)) (result @ [entry]) rest)"

definition dedupe_latest_per_vault :: "WindowEntry list \<Rightarrow> WindowEntry list" where
  "dedupe_latest_per_vault entries = dedupe_loop Map.empty [] entries"

record Rect =
  r_x :: int
  r_y :: int
  r_w :: nat
  r_h :: nat

definition as_i32 :: "nat \<Rightarrow> int" where
  "as_i32 n = (if n < 2 ^ 31 then int n else int n - 2 ^ 32)"

definition saturating_add_i32 :: "int \<Rightarrow> int \<Rightarrow> int" where
  "saturating_add_i32 a b = max (- (2 ^ 31)) (min (2 ^ 31 - 1) (a + b))"

text \<open>The sum of two \<open>i32\<close>: an overflow panics when the build checks it and wraps when not.\<close>

definition add_i32 :: "bool \<Rightarrow> int \<Rightarrow> int \<Rightarrow> int outcome" where
  "add_i32 checked a b =
     (if - (2 ^ 31) \<le> a + b \<and> a + b < 2 ^ 31 then Done (a + b)
      else if checked then Panicked else Done ((a + b + 2 ^ 31) mod 2 ^ 32 - 2 ^ 31))"

definition overlaps :: "Rect \<Rightarrow> Rect \<Rightarrow> bool" where
  "overlaps a b \<longleftrightarrow>
     (let a_right = saturating_add_i32 (r_x a) (as_i32 (r_w a)); a_bottom = saturating_add_i32 (r_y a) (as_i32 (r_h a));
          b_right = saturating_add_i32 (r_x b) (as_i32 (r_w b)); b_bottom = saturating_add_i32 (r_y b) (as_i32 (r_h b))
      in r_x a < b_right \<and> a_right > r_x b \<and> r_y a < b_bottom \<and> a_bottom > r_y b)"

definition clamp_to_monitor :: "bool \<Rightarrow> Rect \<Rightarrow> Rect list \<Rightarrow> Rect outcome" where
  "clamp_to_monitor checked rect monitors =
     (case monitors of
        [] \<Rightarrow> Done rect
      | primary # _ \<Rightarrow>
          if list_ex (overlaps rect) monitors then Done rect
          else (let w = min (r_w rect) (r_w primary); h = min (r_h rect) (r_h primary)
                in bind_outcome (add_i32 checked (r_x primary) (as_i32 ((r_w primary - w) div 2))) (\<lambda>x.
                   bind_outcome (add_i32 checked (r_y primary) (as_i32 ((r_h primary - h) div 2))) (\<lambda>y.
                   Done \<lparr>r_x = x, r_y = y, r_w = w, r_h = h\<rparr>))))"

section \<open>Lemmas on the registry\<close>

definition registry_sound :: "WindowRegistry \<Rightarrow> bool" where
  "registry_sound r \<longleftrightarrow>
     (\<forall>key label. label_by_key r key = Some label \<longrightarrow>
        Option.bind (by_label r label) context_vault_key = Some key)"

datatype WindowOp = InsertWindow string WindowContext | RemoveWindow string

fun window_step :: "WindowOp \<Rightarrow> WindowRegistry \<Rightarrow> WindowRegistry" where
  "window_step (InsertWindow label context) r = window_insert label context r"
| "window_step (RemoveWindow label) r = snd (window_remove label r)"

lemma drop_key_Some: "drop_key label prev m key = Some l \<longleftrightarrow>
    m key = Some l \<and> \<not> (Option.bind prev context_vault_key = Some key \<and> l = label)"
  by (auto simp: drop_key_def split: option.splits)

lemma window_insert_labels [simp]: "by_label (window_insert label ctx r) = (by_label r)(label \<mapsto> ctx)"
  by (simp add: window_insert_def Let_def)

lemma window_step_sound: "registry_sound r \<Longrightarrow> registry_sound (window_step x r)"
proof (cases x)
  case (InsertWindow label ctx)
  assume s: "registry_sound r"
  have "Option.bind (((by_label r)(label \<mapsto> ctx)) l) context_vault_key = Some key"
    if l: "label_by_key (window_insert label ctx r) key = Some l" for key l
  proof (cases "context_vault_key ctx = Some key")
    case True
    with l have "l = label" by (simp add: window_insert_def)
    with True show ?thesis by simp
  next
    case False
    with l have d: "drop_key label (by_label r label) (label_by_key r) key = Some l"
      by (auto simp: window_insert_def Let_def split: option.splits if_splits)
    then have b: "Option.bind (by_label r l) context_vault_key = Some key"
      using s by (auto simp: registry_sound_def drop_key_Some)
    with d have "l \<noteq> label" by (auto simp: drop_key_Some)
    with b show ?thesis by simp
  qed
  then show ?thesis using InsertWindow by (simp add: registry_sound_def)
next
  case (RemoveWindow label)
  assume s: "registry_sound r"
  show ?thesis
  proof (cases "by_label r label")
    case None
    with s RemoveWindow show ?thesis by (simp add: window_remove_def)
  next
    case (Some ctx)
    with s RemoveWindow show ?thesis
      by (fastforce simp: window_remove_def registry_sound_def drop_key_Some)
  qed
qed

interpretation window_registry: op_machine window_step registry_sound
  by unfold_locales (rule window_step_sound)

text \<open>When every vault window is opened under the label of its key, the reuse index is complete.\<close>

definition registry_complete :: "WindowRegistry \<Rightarrow> bool" where
  "registry_complete r \<longleftrightarrow>
     (\<forall>label key. Option.bind (by_label r label) context_vault_key = Some key \<longrightarrow>
        label = vault_window_label_for_key key \<and> label_by_key r key = Some label)"

fun labelled_op :: "WindowOp \<Rightarrow> bool" where
  "labelled_op (InsertWindow label ctx) =
     (case context_vault_key ctx of Some key \<Rightarrow> label = vault_window_label_for_key key | None \<Rightarrow> True)"
| "labelled_op (RemoveWindow label) = True"

lemma window_step_complete: "registry_complete r \<Longrightarrow> labelled_op x \<Longrightarrow> registry_complete (window_step x r)"
proof (cases x)
  case (InsertWindow label ctx)
  assume c: "registry_complete r" and "labelled_op x"
  with InsertWindow have lab: "\<And>key. context_vault_key ctx = Some key \<Longrightarrow> label = vault_window_label_for_key key"
    by simp
  have "l = vault_window_label_for_key key \<and> label_by_key (window_insert label ctx r) key = Some l"
    if l: "Option.bind (((by_label r)(label \<mapsto> ctx)) l) context_vault_key = Some key" for l key
  proof (cases "l = label")
    case True
    with l lab show ?thesis by (simp add: window_insert_def)
  next
    case False
    with l have b: "Option.bind (by_label r l) context_vault_key = Some key" by simp
    with c have k: "l = vault_window_label_for_key key" "label_by_key r key = Some l" by (auto simp: registry_complete_def)
    with False lab have "context_vault_key ctx \<noteq> Some key" by auto
    with k False show ?thesis
      by (auto simp: window_insert_def Let_def drop_key_Some split: option.splits)
  qed
  then show ?thesis using InsertWindow by (simp add: registry_complete_def)
next
  case (RemoveWindow label)
  assume c: "registry_complete r"
  show ?thesis
  proof (cases "by_label r label")
    case None
    with c RemoveWindow show ?thesis by (simp add: window_remove_def)
  next
    case (Some ctx)
    with c RemoveWindow show ?thesis
      by (auto simp: window_remove_def registry_complete_def drop_key_Some)
  qed
qed

lemma window_run_complete:
  "list_all labelled_op ops \<Longrightarrow> registry_complete r \<Longrightarrow> registry_complete (fold window_step ops r)"
  by (induction ops arbitrary: r) (auto intro: window_step_complete)

section \<open>Lemmas on slugs and hashes\<close>

lemma slug_dash_eq: "slug_dash_loop last_dash s = slug_loop last_dash s"
proof (induction last_dash s rule: slug_dash_loop.induct)
  case (2 last_dash ch s)
  show ?case
  proof (cases "ascii_alnum ch")
    case True
    then have "ascii_lower ch \<noteq> CHR ''-''" using alnum_lower hyphen_not_alnum by metis
    with 2 True show ?thesis by (simp add: Let_def)
  qed (use 2 in \<open>auto simp: Let_def\<close>)
qed simp

lemma slug_loop_lead: "dropWhile (\<lambda>x. x = CHR ''-'') (slug_loop False s) = slug_loop True s"
proof (cases s)
  case (Cons ch t)
  show ?thesis
  proof (cases "ascii_alnum ch")
    case True
    then have "ascii_lower ch \<noteq> CHR ''-''" using alnum_lower hyphen_not_alnum by metis
    with Cons True show ?thesis by simp
  next
    case False
    have "slug_shape True (slug_loop True t)" by (rule slug_loop_shape)
    then have "slug_loop True t = [] \<or> hd (slug_loop True t) \<noteq> CHR ''-''"
      by (cases "slug_loop True t") auto
    then have "dropWhile (\<lambda>x. x = CHR ''-'') (slug_loop True t) = slug_loop True t"
      by (cases "slug_loop True t") auto
    with Cons False show ?thesis by simp
  qed
qed simp

lemma short_hash_length: "length (short_hash s) = 8"
  by (simp add: short_hash_def hex16_def HASH_SUFFIX_LEN_def)

lemma short_hash_finite: "finite (range short_hash)"
proof -
  have "range short_hash \<subseteq> {w. set w \<subseteq> UNIV \<and> length w = 8}" using short_hash_length by auto
  moreover have "finite {w :: char list. set w \<subseteq> UNIV \<and> length w = 8}" by (rule finite_lists_length_eq) simp
  ultimately show ?thesis by (rule finite_subset)
qed

section \<open>Lemmas on deduplication\<close>

definition dedupe_spec :: "WindowEntry list \<Rightarrow> WindowEntry list" where
  "dedupe_spec entries =
     map (\<lambda>k. last (filter (\<lambda>e. entry_key e = k) entries)) (rev (remdups (rev (map entry_key entries))))"

lemma dedupe_spec_keys: "map entry_key (dedupe_spec es) = rev (remdups (rev (map entry_key es)))"
proof -
  have "entry_key (last (filter (\<lambda>e. entry_key e = k) es)) = k" if "k \<in> entry_key ` set es" for k
  proof -
    from that have "filter (\<lambda>e. entry_key e = k) es \<noteq> []" by (auto simp: filter_empty_conv)
    from last_in_set [OF this] show ?thesis by auto
  qed
  then show ?thesis by (auto simp: dedupe_spec_def intro: map_idI)
qed

lemma dedupe_spec_new:
  "entry_key e \<notin> entry_key ` set es \<Longrightarrow> dedupe_spec (es @ [e]) = dedupe_spec es @ [e]"
  by (auto simp: dedupe_spec_def filter_empty_conv)

lemma dedupe_spec_old:
  assumes "i < length (dedupe_spec es)" and "entry_key (dedupe_spec es ! i) = entry_key e"
  shows "dedupe_spec (es @ [e]) = (dedupe_spec es)[i := e]"
proof -
  let ?ks = "rev (remdups (rev (map entry_key es)))"
  have len: "length (dedupe_spec es) = length ?ks" by (simp add: dedupe_spec_def)
  have ki: "?ks ! i = entry_key e" "i < length ?ks"
    using assms arg_cong [OF dedupe_spec_keys [of es], of "\<lambda>l. l ! i"] by (auto simp: len)
  then have "entry_key e \<in> set ?ks" by (metis nth_mem)
  then have "dedupe_spec (es @ [e]) = map (\<lambda>k. last (filter (\<lambda>x. entry_key x = k) (es @ [e]))) ?ks"
    by (auto simp: dedupe_spec_def)
  also have "\<dots> = (dedupe_spec es)[i := e]"
  proof (rule nth_equalityI)
    fix j assume j: "j < length (map (\<lambda>k. last (filter (\<lambda>x. entry_key x = k) (es @ [e]))) ?ks)"
    then have "?ks ! j = ?ks ! i \<longleftrightarrow> j = i" using ki(2) by (intro nth_eq_iff_index_eq) simp_all
    then have "?ks ! j = entry_key e \<longleftrightarrow> j = i" unfolding ki(1) .
    with j ki show "map (\<lambda>k. last (filter (\<lambda>x. entry_key x = k) (es @ [e]))) ?ks ! j = (dedupe_spec es)[i := e] ! j"
      by (auto simp: dedupe_spec_def nth_list_update)
  qed (simp add: len)
  finally show ?thesis .
qed

lemma dedupe_loop_spec:
  assumes "\<forall>k i. seen k = Some i \<longleftrightarrow> i < length (dedupe_spec seen_es) \<and> entry_key (dedupe_spec seen_es ! i) = k"
  shows "dedupe_loop seen (dedupe_spec seen_es) rest = dedupe_spec (seen_es @ rest)"
  using assms
proof (induction rest arbitrary: seen seen_es)
  case (Cons e rest)
  let ?r = "dedupe_spec seen_es"
  show ?case
  proof (cases "seen (entry_key e)")
    case None
    have "entry_key e \<notin> entry_key ` set seen_es"
    proof
      assume "entry_key e \<in> entry_key ` set seen_es"
      then have "entry_key e \<in> set (map entry_key ?r)" unfolding dedupe_spec_keys by simp
      then obtain i where "i < length ?r" "entry_key (?r ! i) = entry_key e"
        by (auto simp: in_set_conv_nth)
      with Cons.prems [rule_format, of "entry_key e" i] None show False by simp
    qed
    then have new: "dedupe_spec (seen_es @ [e]) = ?r @ [e]" by (rule dedupe_spec_new)
    have "dedupe_loop (seen(entry_key e \<mapsto> length ?r)) (dedupe_spec (seen_es @ [e])) rest
        = dedupe_spec ((seen_es @ [e]) @ rest)"
    proof (rule Cons.IH, intro allI)
      fix k i
      show "(seen(entry_key e \<mapsto> length ?r)) k = Some i \<longleftrightarrow>
          i < length (dedupe_spec (seen_es @ [e])) \<and> entry_key (dedupe_spec (seen_es @ [e]) ! i) = k"
        using Cons.prems [rule_format, of k i] Cons.prems [rule_format, of "entry_key e" i] None unfolding new
        by (cases "i < length ?r"; cases "i = length ?r") (simp_all add: nth_append, blast?)
    qed
    with None new show ?thesis by simp
  next
    case (Some i)
    with Cons.prems [rule_format, of "entry_key e" i]
    have i: "i < length ?r" "entry_key (?r ! i) = entry_key e" by simp_all
    have old: "dedupe_spec (seen_es @ [e]) = ?r[i := e]" by (rule dedupe_spec_old [OF i])
    have "dedupe_loop seen (dedupe_spec (seen_es @ [e])) rest = dedupe_spec ((seen_es @ [e]) @ rest)"
    proof (rule Cons.IH, intro allI)
      fix k j
      have "entry_key (?r[i := e] ! j) = entry_key (?r ! j)" if "j < length ?r"
        using that i by (cases "i = j") simp_all
      then show "seen k = Some j \<longleftrightarrow>
          j < length (dedupe_spec (seen_es @ [e])) \<and> entry_key (dedupe_spec (seen_es @ [e]) ! j) = k"
        using Cons.prems [rule_format, of k j] unfolding old by (cases "j < length ?r") simp_all
    qed
    with Some old show ?thesis by simp
  qed
qed simp

section \<open>Rectangles\<close>

lemma overlaps_inside:
  assumes "r_x m \<le> r_x r" and "r_x r + int (r_w r) \<le> r_x m + int (r_w m)" and "0 < r_w r"
    and "r_y m \<le> r_y r" and "r_y r + int (r_h r) \<le> r_y m + int (r_h m)" and "0 < r_h r"
    and "- (2 ^ 31) \<le> r_x m" and "r_x m + int (r_w m) < 2 ^ 31" and "r_w m < 2 ^ 31" and "r_w r < 2 ^ 31"
    and "- (2 ^ 31) \<le> r_y m" and "r_y m + int (r_h m) < 2 ^ 31" and "r_h m < 2 ^ 31" and "r_h r < 2 ^ 31"
  shows "overlaps r m"
proof -
  have sat: "saturating_add_i32 b (as_i32 k) = b + int k" if "- (2 ^ 31) \<le> b" "b + int k < 2 ^ 31" "k < 2 ^ 31" for b k
    using that by (simp add: saturating_add_i32_def as_i32_def)
  have "saturating_add_i32 (r_x r) (as_i32 (r_w r)) = r_x r + int (r_w r)"
    "saturating_add_i32 (r_y r) (as_i32 (r_h r)) = r_y r + int (r_h r)"
    "saturating_add_i32 (r_x m) (as_i32 (r_w m)) = r_x m + int (r_w m)"
    "saturating_add_i32 (r_y m) (as_i32 (r_h m)) = r_y m + int (r_h m)"
    using sat [of "r_x r" "r_w r"] sat [of "r_y r" "r_h r"] sat [of "r_x m" "r_w m"] sat [of "r_y m" "r_h m"] assms
    by simp_all
  then show ?thesis using assms by (simp add: overlaps_def)
qed

section \<open>Properties\<close>

text \<open>The two indexes of the window registry agree: when every vault window is opened under the
  label of its key, the reuse index has exactly the open vault windows, under their labels.\<close>

lemma registry_indexes_agree:
  assumes "list_all labelled_op ops"
  shows "label_for_key (fold window_step ops registry_empty) key = Some label \<longleftrightarrow>
    Option.bind (context_for_label (fold window_step ops registry_empty) label) context_vault_key = Some key"
proof -
  have "registry_sound (fold window_step ops registry_empty)"
    by (rule window_registry.run_inv) (simp add: registry_sound_def registry_empty_def)
  moreover have "registry_complete (fold window_step ops registry_empty)"
    by (rule window_run_complete [OF assms]) (simp add: registry_complete_def registry_empty_def)
  ultimately show ?thesis
    unfolding registry_sound_def registry_complete_def label_for_key_def context_for_label_def by blast
qed

text \<open>Removing duplicates keeps, for every server and vault in the order of their first entries,
  the last entry.\<close>

lemma dedupe_keeps_latest:
  "dedupe_latest_per_vault entries =
     map (\<lambda>k. last (filter (\<lambda>e. entry_key e = k) entries)) (rev (remdups (rev (map entry_key entries))))"
  using dedupe_loop_spec [of Map.empty "[]" entries]
  by (simp add: dedupe_latest_per_vault_def dedupe_spec_def)

text \<open>A restored window is visible: with a first monitor whose sides are positive and whose right
  and bottom edges are representable, a window of positive size is placed without overflow so
  that it overlaps a monitor.\<close>

lemma clamped_window_visible:
  assumes "0 < r_w rect" and "0 < r_h rect" and "0 < r_w m" and "0 < r_h m"
    and "- (2 ^ 31) \<le> r_x m" and "r_x m + int (r_w m) < 2 ^ 31"
    and "- (2 ^ 31) \<le> r_y m" and "r_y m + int (r_h m) < 2 ^ 31"
    and "r_w m < 2 ^ 31" and "r_h m < 2 ^ 31"
  shows "\<exists>r. clamp_to_monitor checked rect (m # ms) = Done r \<and> list_ex (overlaps r) (m # ms)"
proof (cases "list_ex (overlaps rect) (m # ms)")
  case True
  then show ?thesis by (simp add: clamp_to_monitor_def)
next
  case False
  have place: "\<exists>p. add_i32 checked b (as_i32 ((k - l) div 2)) = Done p \<and> b \<le> p \<and> p + int l \<le> b + int k"
    if "0 < l" "l \<le> k" "- (2 ^ 31) \<le> b" "b + int k < 2 ^ 31" "k < 2 ^ 31" for b :: int and k l :: nat
  proof -
    have half: "(k - l) div 2 \<le> k - l" by (rule div_le_dividend)
    then have c: "as_i32 ((k - l) div 2) = int ((k - l) div 2)" using that(5) by (simp add: as_i32_def)
    have "int ((k - l) div 2) + int l \<le> int k" using half that(2) by linarith
    with c that show ?thesis by (auto simp: add_i32_def)
  qed
  let ?w = "min (r_w rect) (r_w m)" and ?h = "min (r_h rect) (r_h m)"
  obtain x where x: "add_i32 checked (r_x m) (as_i32 ((r_w m - ?w) div 2)) = Done x" "r_x m \<le> x" "x + int ?w \<le> r_x m + int (r_w m)"
    using place [of ?w "r_w m" "r_x m"] assms by auto
  obtain y where y: "add_i32 checked (r_y m) (as_i32 ((r_h m - ?h) div 2)) = Done y" "r_y m \<le> y" "y + int ?h \<le> r_y m + int (r_h m)"
    using place [of ?h "r_h m" "r_y m"] assms by auto
  have "overlaps \<lparr>r_x = x, r_y = y, r_w = ?w, r_h = ?h\<rparr> m"
    by (rule overlaps_inside) (use x(2,3) y(2,3) assms in simp_all)
  with x(1) y(1) False show ?thesis by (auto simp: clamp_to_monitor_def Let_def)
qed

text \<open>The two slug functions of the app, written independently, compute the same slug.\<close>

lemma slug_functions_agree: "slug_for_vault name = slugify name"
  by (simp add: slug_for_vault_def slugify_def slug_dash_eq trim_end_char_def trim_matches_char_def slug_loop_lead)

text \<open>Window labels are not unique per vault: two different vaults of the local server have the
  same label.\<close>

lemma window_labels_collide:
  "\<exists>a b. a \<noteq> b \<and> vault_window_label a = vault_window_label b"
proof -
  have slug: "slug_for_vault (replicate n CHR ''-'') = []" for n
  proof -
    have "slug_dash_loop True (replicate n CHR ''-'') = []" by (induction n) auto
    then show ?thesis by (simp add: slug_for_vault_def trim_end_char_def)
  qed
  have "\<not> inj (\<lambda>n. short_hash (replicate n CHR ''-''))"
  proof
    assume "inj (\<lambda>n :: nat. short_hash (replicate n CHR ''-''))"
    moreover have "finite (range (\<lambda>n :: nat. short_hash (replicate n CHR ''-'')))"
      by (rule finite_subset [OF _ short_hash_finite]) auto
    ultimately have "finite (UNIV :: nat set)" by (rule finite_imageD [rotated])
    then show False by simp
  qed
  then obtain m n where "m \<noteq> n" "short_hash (replicate m CHR ''-'') = short_hash (replicate n CHR ''-'')"
    by (auto simp: inj_def)
  then have "replicate m CHR ''-'' \<noteq> replicate n CHR ''-'' \<and>
      vault_window_label (replicate m CHR ''-'') = vault_window_label (replicate n CHR ''-'')"
    using slug by (auto simp: vault_window_label_def vault_window_label_for_key_def vault_key_local_def
        canonical_identity_def key_is_local_def dest: arg_cong [where f = length])
  then show ?thesis by blast
qed

section \<open>Witnesses\<close>

definition demo_key :: VaultKey where
  "demo_key = vault_key_local ''Work''"

definition demo_window_ops :: "WindowOp list" where
  "demo_window_ops =
     [InsertWindow (vault_window_label_for_key demo_key) (VaultScoped (vk_server_id demo_key) (vk_vault demo_key)),
      InsertWindow ''x'' GlobalWindow, RemoveWindow ''x'']"

lemma registry_indexes_agree_witness:
  "label_for_key (fold window_step demo_window_ops registry_empty) demo_key = Some (vault_window_label_for_key demo_key) \<longleftrightarrow>
    Option.bind (context_for_label (fold window_step demo_window_ops registry_empty) (vault_window_label_for_key demo_key))
      context_vault_key = Some demo_key"
  by (rule registry_indexes_agree) (simp add: demo_window_ops_def demo_key_def vault_key_local_def)

lemma clamped_window_visible_witness:
  "\<exists>r. clamp_to_monitor True \<lparr>r_x = 9000, r_y = 9000, r_w = 800, r_h = 600\<rparr> [\<lparr>r_x = 0, r_y = 0, r_w = 1440, r_h = 900\<rparr>] = Done r \<and>
     list_ex (overlaps r) [\<lparr>r_x = 0, r_y = 0, r_w = 1440, r_h = 900\<rparr>]"
  by (rule clamped_window_visible) simp_all

end
