(* ===== verification/UrlScheme.thy ===== *)
theory UrlScheme
  imports StdModel
begin

text \<open>
  Deep links (\<open>notesmith-core/src/url_scheme.rs\<close>) and the URLs the desktop app builds
  (\<open>notesmith-tauri/src/app_url.rs\<close>).  Texts are UTF-8 bytes; a byte that the code turns into a
  character with \<open>as char\<close> becomes the encoding of that code point.
\<close>

section \<open>Percent coding\<close>

definition byte_of :: "char \<Rightarrow> nat" where
  "byte_of c = of_char c"

text \<open>\<open>byte as char\<close> pushed onto a \<open>String\<close>.\<close>

definition latin1_char :: "nat \<Rightarrow> string" where
  "latin1_char b = (if b < 128 then [char_of b] else [char_of (192 + b div 64), char_of (128 + b mod 64)])"

definition hex_val :: "char \<Rightarrow> nat option" where
  "hex_val c =
     (let b = byte_of c in
      if 48 \<le> b \<and> b \<le> 57 then Some (b - 48)
      else if 97 \<le> b \<and> b \<le> 102 then Some (b - 97 + 10)
      else if 65 \<le> b \<and> b \<le> 70 then Some (b - 65 + 10)
      else None)"

text \<open>After \<open>%\<close> the next two bytes are consumed, also when they are missing or not hexadecimal.\<close>

fun percent_decode :: "string \<Rightarrow> string" where
  "percent_decode [] = []"
| "percent_decode (c # s) =
     (if c = CHR ''%'' then
        (case s of
           [] \<Rightarrow> ''%''
         | [hi] \<Rightarrow> ''%''
         | hi # lo # t \<Rightarrow>
             (case (hex_val hi, hex_val lo) of
                (Some h, Some l) \<Rightarrow> latin1_char (16 * h + l) @ percent_decode t
              | _ \<Rightarrow> CHR ''%'' # percent_decode t))
      else if c = CHR ''+'' then CHR '' '' # percent_decode s
      else latin1_char (byte_of c) @ percent_decode s)"

definition is_unreserved :: "char \<Rightarrow> bool" where
  "is_unreserved c \<longleftrightarrow> ascii_alnum c \<or> c = CHR ''-'' \<or> c = CHR ''_'' \<or> c = CHR ''.'' \<or> c = CHR ''~''"

definition hex_upper :: "nat \<Rightarrow> char" where
  "hex_upper n = char_of (if n < 10 then 48 + n else 55 + n)"

definition encode_byte :: "char \<Rightarrow> string" where
  "encode_byte c =
     (if is_unreserved c then [c] else [CHR ''%'', hex_upper (byte_of c div 16), hex_upper (byte_of c mod 16)])"

definition encode_query_value :: "string \<Rightarrow> string" where
  "encode_query_value s = concat (map encode_byte s)"

section \<open>Deep links\<close>

type_synonym url_params = "string \<rightharpoonup> string"

datatype NotesmithUrl =
    OpenUrl string string
  | DailyUrl string
  | SearchUrl string string
  | NewUrl string "string option" "string option"
  | CaptureUrl string string
  | TaskUrl string string string string
  | CommandUrl string url_params
  | UserActionUrl string url_params

datatype UrlParseError =
    InvalidScheme | InvalidNamespace | UnknownRoute string | MissingParameter string | Malformed string

definition parse_query_params :: "string \<Rightarrow> url_params" where
  "parse_query_params query =
     (if query = [] then Map.empty
      else collect_map (List.map_filter
        (\<lambda>pair. map_option (\<lambda>(k, v). (percent_decode k, percent_decode v)) (split_once ''='' pair))
        (split_char CHR ''&'' query)))"

definition require_param :: "url_params \<Rightarrow> string \<Rightarrow> UrlParseError + string" where
  "require_param params name = (case params name of Some v \<Rightarrow> Inr v | None \<Rightarrow> Inl (MissingParameter name))"

definition joined_path :: "string list \<Rightarrow> string" where
  "joined_path segments = join_str ''/'' (map percent_decode segments)"

definition parse_app_route :: "string list \<Rightarrow> url_params \<Rightarrow> UrlParseError + NotesmithUrl" where
  "parse_app_route segments params =
     (case segments of
        [] \<Rightarrow> Inl (Malformed ''missing route after app/'')
      | route # args \<Rightarrow>
          if route = ''open'' then
            (case args of
               v # p # ps \<Rightarrow> Inr (OpenUrl (percent_decode v) (joined_path (p # ps)))
             | _ \<Rightarrow> Inl (MissingParameter ''vault and path required for open''))
          else if route = ''daily'' then
            (case args of v # _ \<Rightarrow> Inr (DailyUrl (percent_decode v))
             | [] \<Rightarrow> Inl (MissingParameter ''vault required for daily''))
          else if route = ''search'' then
            (case args of
               v # _ \<Rightarrow> (case require_param params ''q'' of
                   Inr q \<Rightarrow> Inr (SearchUrl (percent_decode v) q) | Inl e \<Rightarrow> Inl e)
             | [] \<Rightarrow> Inl (MissingParameter ''vault required for search''))
          else if route = ''new'' then
            (case args of
               v # _ \<Rightarrow> Inr (NewUrl (percent_decode v) (params ''template'') (params ''folder''))
             | [] \<Rightarrow> Inl (MissingParameter ''vault required for new''))
          else if route = ''capture'' then
            (case args of
               v # _ \<Rightarrow> (case require_param params ''text'' of
                   Inr t \<Rightarrow> Inr (CaptureUrl (percent_decode v) t) | Inl e \<Rightarrow> Inl e)
             | [] \<Rightarrow> Inl (MissingParameter ''vault required for capture''))
          else if route = ''task'' then
            (case args of
               v # p # ps \<Rightarrow>
                 (case require_param params ''line_hash'' of Inl e \<Rightarrow> Inl e
                  | Inr h \<Rightarrow> (case require_param params ''status'' of Inl e \<Rightarrow> Inl e
                      | Inr s \<Rightarrow> Inr (TaskUrl (percent_decode v) (joined_path (p # ps)) h s)))
             | _ \<Rightarrow> Inl (MissingParameter ''vault and path required for task''))
          else if route = ''command'' then
            (case args of c # _ \<Rightarrow> Inr (CommandUrl (percent_decode c) params)
             | [] \<Rightarrow> Inl (MissingParameter ''command name required''))
          else Inl (UnknownRoute route))"

definition parse_user_route :: "string list \<Rightarrow> url_params \<Rightarrow> UrlParseError + NotesmithUrl" where
  "parse_user_route segments params =
     (case segments of
        [] \<Rightarrow> Inl (MissingParameter ''action name required for user/'')
      | a # _ \<Rightarrow> Inr (UserActionUrl (percent_decode a) params))"

definition parse_notesmith_url :: "string \<Rightarrow> UrlParseError + NotesmithUrl" where
  "parse_notesmith_url url =
     (case strip_prefix ''notesmith://'' url of
        None \<Rightarrow> Inl InvalidScheme
      | Some rest \<Rightarrow>
          (let (path_part, query) = (case split_once ''?'' rest of Some (p, q) \<Rightarrow> (p, q) | None \<Rightarrow> (rest, []));
               params = parse_query_params query;
               segments = filter (\<lambda>s. s \<noteq> []) (split_char CHR ''/'' path_part)
           in case segments of
               [] \<Rightarrow> Inl InvalidNamespace
             | ns # segs \<Rightarrow>
                 if ns = ''app'' then parse_app_route segs params
                 else if ns = ''user'' then parse_user_route segs params
                 else Inl InvalidNamespace))"

section \<open>Frontend URLs\<close>

definition APP_PROTOCOL :: string where
  "APP_PROTOCOL = ''notesmith-app''"

datatype FrontendMode = DaemonMode | EmbeddedMode

definition frontend_mode_for_remote :: "bool \<Rightarrow> FrontendMode" where
  "frontend_mode_for_remote remote = (if remote then EmbeddedMode else DaemonMode)"

definition query_pairs :: "string option \<Rightarrow> string option \<Rightarrow> (string \<times> string) list" where
  "query_pairs vault api_base =
     (case api_base of Some a \<Rightarrow> [(''apiBase'', a)] | None \<Rightarrow> []) @ (case vault of Some v \<Rightarrow> [(''vault'', v)] | None \<Rightarrow> [])"

definition query_text :: "(string \<times> string) list \<Rightarrow> string" where
  "query_text ps = join_str ''&'' (map (\<lambda>(key, v). key @ ''='' @ encode_query_value v) ps)"

definition append_query :: "string \<Rightarrow> string option \<Rightarrow> string option \<Rightarrow> string" where
  "append_query base vault api_base =
     (let ps = query_pairs vault api_base in if ps = [] then base else base @ ''?'' @ query_text ps)"

definition app_route_window_url :: "string \<Rightarrow> string \<Rightarrow> string option \<Rightarrow> FrontendMode \<Rightarrow> string" where
  "app_route_window_url daemon_base route vault mode =
     (let daemon_base = trim_end_char CHR ''/'' daemon_base;
          route = dropWhile (\<lambda>c. c = CHR ''/'') route;
          route_path = (if route = [] then [] else trim_end_char CHR ''/'' (route @ ''/''))
      in case mode of
          DaemonMode \<Rightarrow> append_query (daemon_base @ ''/app/'' @ route_path) vault None
        | EmbeddedMode \<Rightarrow>
            append_query (APP_PROTOCOL @ ''://localhost/app/'' @ route_path) vault (Some daemon_base))"

definition app_window_url :: "string \<Rightarrow> string option \<Rightarrow> FrontendMode \<Rightarrow> string" where
  "app_window_url daemon_base vault mode = app_route_window_url daemon_base ''/'' vault mode"

definition connection_window_url :: "string \<Rightarrow> bool \<Rightarrow> string \<Rightarrow> string option \<Rightarrow> FrontendMode \<times> string" where
  "connection_window_url daemon_base remote route vault =
     (let mode = frontend_mode_for_remote remote in (mode, app_route_window_url daemon_base route vault mode))"

definition app_asset_path :: "string \<Rightarrow> string option" where
  "app_asset_path request_path =
     (if request_path \<noteq> ''/app'' \<and> \<not> prefix ''/app/'' request_path then None
      else case strip_prefix ''/app'' request_path of
          None \<Rightarrow> None
        | Some trimmed \<Rightarrow>
            (let asset = (if trimmed = [] \<or> trimmed = ''/'' then ''index.html''
                          else case strip_prefix ''/'' trimmed of Some r \<Rightarrow> r | None \<Rightarrow> trimmed)
             in if asset = [] \<or> contains_str asset ''..'' \<or> prefix ''/'' asset then None else Some asset))"

definition should_fallback_to_index :: "string \<Rightarrow> bool" where
  "should_fallback_to_index request_path =
     (case app_asset_path request_path of
        None \<Rightarrow> False
      | Some asset \<Rightarrow> asset = ''index.html'' \<or> file_ext asset = None)"

section \<open>Lemmas on coding\<close>

lemma byte_of_bound: "byte_of c < 256"
  by (simp add: byte_of_def)

lemma hex_val_upper: "n < 16 \<Longrightarrow> hex_val (hex_upper n) = Some n"
  by (auto simp: hex_val_def hex_upper_def byte_of_def Let_def)

lemma hex_pair: "16 * (byte_of c div 16) + byte_of c mod 16 = byte_of c"
  by simp

lemma unreserved_plain: "is_unreserved c \<Longrightarrow> c \<noteq> CHR ''%'' \<and> c \<noteq> CHR ''+''"
  by (auto simp: is_unreserved_def ascii_alnum_def)

lemma decode_encode_byte:
  "percent_decode (encode_byte c @ t) = latin1_char (byte_of c) @ percent_decode t"
proof (cases "is_unreserved c")
  case True
  with unreserved_plain show ?thesis by (simp add: encode_byte_def)
next
  case False
  have "byte_of c div 16 < 16" using byte_of_bound [of c] by (simp add: less_mult_imp_div_less)
  with False show ?thesis by (simp add: encode_byte_def hex_val_upper hex_pair)
qed

lemma decode_encode: "percent_decode (encode_query_value s) = concat (map (\<lambda>c. latin1_char (byte_of c)) s)"
  by (induction s) (simp_all add: encode_query_value_def decode_encode_byte)

definition is_ascii :: "string \<Rightarrow> bool" where
  "is_ascii s \<longleftrightarrow> list_all (\<lambda>c. byte_of c < 128) s"

lemma latin1_ascii: "byte_of c < 128 \<Longrightarrow> latin1_char (byte_of c) = [c]"
  by (simp add: latin1_char_def byte_of_def)

lemma latin1_long: "\<not> byte_of c < 128 \<Longrightarrow> length (latin1_char (byte_of c)) = 2"
  by (simp add: latin1_char_def)

lemma latin1_same_iff: "concat (map (\<lambda>c. latin1_char (byte_of c)) s) = s \<longleftrightarrow> is_ascii s"
proof
  have ge: "length s \<le> length (concat (map (\<lambda>c. latin1_char (byte_of c)) s))" for s
    by (induction s) (auto simp: latin1_char_def)
  show "concat (map (\<lambda>c. latin1_char (byte_of c)) s) = s \<Longrightarrow> is_ascii s"
  proof (induction s)
    case (Cons c s)
    show ?case
    proof (cases "byte_of c < 128")
      case True
      with Cons show ?thesis by (simp add: latin1_ascii is_ascii_def)
    next
      case False
      have "length (concat (map (\<lambda>c. latin1_char (byte_of c)) (c # s))) > length (c # s)"
        using ge [of s] latin1_long [OF False] by simp
      with Cons.prems show ?thesis by simp
    qed
  qed (simp add: is_ascii_def)
next
  show "is_ascii s \<Longrightarrow> concat (map (\<lambda>c. latin1_char (byte_of c)) s) = s"
    by (induction s) (auto simp: is_ascii_def latin1_ascii)
qed

lemma encoded_chars: "c \<in> set (encode_query_value s) \<Longrightarrow> c \<noteq> CHR ''&'' \<and> c \<noteq> CHR ''=''"
proof -
  have "c \<noteq> CHR ''&'' \<and> c \<noteq> CHR ''=''" if "c \<in> set (encode_byte d)" for d
  proof (cases "is_unreserved d")
    case True
    with that show ?thesis by (auto simp: encode_byte_def is_unreserved_def ascii_alnum_def)
  next
    case False
    have d: "byte_of d div 16 < 16" using byte_of_bound [of d] by (simp add: less_mult_imp_div_less)
    have hu: "hex_upper n \<noteq> CHR ''&'' \<and> hex_upper n \<noteq> CHR ''=''" if "n < 16" for n
    proof -
      have "hex_val (hex_upper n) \<noteq> None" using hex_val_upper [OF that] by simp
      then show ?thesis by (auto simp: hex_val_def byte_of_def)
    qed
    from that False d hu [of "byte_of d div 16"] hu [of "byte_of d mod 16"] show ?thesis
      by (auto simp: encode_byte_def)
  qed
  then show "c \<in> set (encode_query_value s) \<Longrightarrow> ?thesis" by (auto simp: encode_query_value_def)
qed

lemma map_filter_inverse: "(\<forall>p \<in> set ps. F (g p) = Some p) \<Longrightarrow> List.map_filter F (map g ps) = ps"
  by (induction ps) (simp_all add: List.map_filter_simps)

lemma find_str_in: "find_str q (a @ q @ b) \<noteq> None"
proof (induction a)
  case Nil
  then show ?case by (cases "q @ b") (auto simp: prefix_def dest: sym)
qed auto

lemma join_str_in: "\<exists>a b. join_str sep (as @ w # bs) = a @ w @ b"
proof (induction as)
  case Nil
  then show ?case
  proof (cases bs)
    case Nil
    then have "join_str sep ([] @ w # bs) = [] @ w @ []" by simp
    then show ?thesis by blast
  next
    case (Cons v vs)
    then have "join_str sep ([] @ w # bs) = [] @ w @ (sep @ join_str sep bs)" by simp
    then show ?thesis by blast
  qed
next
  case (Cons u us)
  then obtain a b where ab: "join_str sep (us @ w # bs) = a @ w @ b" by blast
  obtain v vs where "us @ w # bs = v # vs" by (cases us) auto
  with ab have "join_str sep ((u # us) @ w # bs) = (u @ sep @ a) @ w @ b" by simp
  then show ?case by blast
qed

lemma find_str_first: "c \<notin> set s \<Longrightarrow> find_str [c] (s @ c # t) = Some (length s)"
  by (induction s) auto

lemma split_once_first: "c \<notin> set s \<Longrightarrow> split_once [c] (s @ c # t) = Some (s, t)"
  by (simp add: split_once_def find_str_first)

section \<open>Properties\<close>

text \<open>Decoding undoes the app's query encoding exactly on ASCII texts; any other text comes back
  as different text, each byte turned into a Latin-1 character.\<close>

lemma percent_roundtrip_iff_ascii:
  "percent_decode (encode_query_value s) = s \<longleftrightarrow> is_ascii s"
  by (simp add: decode_encode latin1_same_iff)

text \<open>The query of a frontend URL is read back by the deep-link query parser: for ASCII values
  every parameter has the value it was built from.\<close>

lemma query_roundtrip:
  assumes "list_all (\<lambda>(k, v). is_ascii v \<and> is_ascii k \<and> list_all is_unreserved k) ps" and "ps \<noteq> []"
  shows "parse_query_params (query_text ps) = collect_map ps"
proof -
  let ?ws = "map (\<lambda>(key, v). key @ ''='' @ encode_query_value v) ps"
  have key: "CHR ''&'' \<notin> set k \<and> CHR ''='' \<notin> set k" if "list_all is_unreserved k" for k
    using that by (auto simp: list_all_iff is_unreserved_def ascii_alnum_def)
  have no: "\<forall>w \<in> set ?ws. CHR ''&'' \<notin> set w"
    using assms(1) key encoded_chars by (fastforce simp: list_all_iff)
  have self: "encode_query_value k = k" if "list_all is_unreserved k" for k
    using that by (induction k) (auto simp: encode_query_value_def encode_byte_def)
  have pair: "map_option (\<lambda>(k, v). (percent_decode k, percent_decode v)) (split_once ''='' (k @ ''='' @ encode_query_value v))
      = Some (k, v)" if kv: "(k, v) \<in> set ps" for k v
  proof -
    from kv assms(1) have a: "is_ascii v" "is_ascii k" "list_all is_unreserved k" by (auto simp: list_all_iff)
    have "percent_decode k = k" using decode_encode [of k] self [OF a(3)] latin1_same_iff [of k] a(2) by simp
    moreover have "percent_decode (encode_query_value v) = v" using decode_encode latin1_same_iff a(1) by simp
    moreover have "split_once ''='' (k @ ''='' @ encode_query_value v) = Some (k, encode_query_value v)"
      using split_once_first [of "CHR ''=''" k] key [OF a(3)] by simp
    ultimately show ?thesis by simp
  qed
  have "List.map_filter (\<lambda>p. map_option (\<lambda>(k, v). (percent_decode k, percent_decode v)) (split_once ''='' p)) ?ws = ps"
    by (rule map_filter_inverse) (use pair in auto)
  moreover have "split_char CHR ''&'' (query_text ps) = ?ws"
    unfolding query_text_def by (rule split_join_char [OF no]) (use assms(2) in simp)
  moreover have "query_text ps \<noteq> []"
    using assms(2) by (cases ps rule: remdups_adj.cases) (auto simp: query_text_def)
  ultimately show ?thesis by (simp add: parse_query_params_def)
qed

text \<open>The path served for a bundled asset stays inside the asset directory: it is not empty, not
  absolute and contains no parent step.\<close>

lemma asset_path_confined:
  assumes "app_asset_path request_path = Some p"
  shows "p \<noteq> [] \<and> \<not> prefix ''/'' p \<and> ''..'' \<notin> set (split_char CHR ''/'' p)"
proof -
  from assms have p: "p \<noteq> []" "\<not> prefix ''/'' p" "\<not> contains_str p ''..''"
    by (auto simp: app_asset_path_def Let_def split: if_splits option.splits)
  have "''..'' \<notin> set (split_char CHR ''/'' p)"
  proof
    assume "''..'' \<in> set (split_char CHR ''/'' p)"
    then obtain as bs where sp: "split_char CHR ''/'' p = as @ ''..'' # bs" by (meson split_list)
    then have "join_str ''/'' (as @ ''..'' # bs) = p" using join_split_char [of "CHR ''/''" p] by simp
    with join_str_in [of "''/''" as "''..''" bs] obtain a b where "p = a @ ''..'' @ b" by auto
    with p(3) find_str_in [of "''..''" a b] show False by (simp add: contains_str_def)
  qed
  with p show ?thesis by simp
qed

section \<open>Witnesses\<close>

lemma query_roundtrip_witness:
  "parse_query_params (query_text [(''apiBase'', ''http://nas:27183''), (''vault'', ''my notes'')]) =
     collect_map [(''apiBase'', ''http://nas:27183''), (''vault'', ''my notes'')]"
  by (rule query_roundtrip) (simp_all add: is_ascii_def is_unreserved_def ascii_alnum_def byte_of_def)

lemma asset_path_confined_witness:
  "''a/b.js'' \<noteq> [] \<and> \<not> prefix ''/'' ''a/b.js'' \<and> ''..'' \<notin> set (split_char CHR ''/'' ''a/b.js'')"
  by (rule asset_path_confined [where request_path = "''/app/a/b.js''"])
     (simp add: app_asset_path_def strip_prefix_def contains_str_def)

end
