(* ===== verification/Vault.thy ===== *)
theory Vault
  imports StdModel "HOL-Library.Char_ord" "HOL-Library.List_Lexorder" "HOL-Library.Sublist"
begin

text \<open>
  The vault crate: splitting a note into frontmatter and body (\<open>notesmith-vault/src/frontmatter.rs\<close>),
  the save pipeline (\<open>save_pipeline.rs\<close>) and the file operations of \<open>NativeVaultEngine\<close>
  (\<open>engine.rs\<close>) with the traits and types of \<open>notesmith-core\<close> they implement.  The YAML library and
  the content hash are parameters; the file system is a tree of files and directories.
\<close>

section \<open>Frontmatter\<close>

definition is_line_end :: "char \<Rightarrow> bool" where
  "is_line_end c \<longleftrightarrow> c = CHR 0x0A \<or> c = CHR 0x0D"

definition trim_end_while :: "(char \<Rightarrow> bool) \<Rightarrow> string \<Rightarrow> string" where
  "trim_end_while p s = rev (dropWhile p (rev s))"

definition trim_line_ending :: "string \<Rightarrow> string" where
  "trim_line_ending line = trim_end_while is_line_end line"

text \<open>The lines in front of the closing delimiter and the lines behind it.\<close>

fun find_close :: "string list \<Rightarrow> (string list \<times> string list) option" where
  "find_close [] = None"
| "find_close (line # rest) =
     (if trim_line_ending line = ''---'' then Some ([], rest)
      else map_option (\<lambda>(inner, after). (line # inner, after)) (find_close rest))"

definition extract_frontmatter :: "string \<Rightarrow> string option \<times> string" where
  "extract_frontmatter content =
     (case split_inclusive content of
        [] \<Rightarrow> (None, content)
      | first_line # rest \<Rightarrow>
          if trim_line_ending first_line \<noteq> ''---'' then (None, content)
          else (case find_close rest of
                  None \<Rightarrow> (None, content)
                | Some (inner, after) \<Rightarrow> (Some (trim_line_ending (concat inner)), concat after)))"

section \<open>The save pipeline\<close>

text \<open>\<open>from_yaml\<close> is \<open>serde_yaml::from_str\<close>, \<open>to_yaml\<close> is \<open>serde_yaml::to_string\<close>.\<close>

type_synonym yaml_reader = "string \<Rightarrow> yaml option"
type_synonym yaml_writer = "yaml \<Rightarrow> string option"

definition parse_frontmatter_mapping :: "yaml_reader \<Rightarrow> string \<Rightarrow> yaml_map option" where
  "parse_frontmatter_mapping from_yaml raw =
     (if trim raw = [] then Some []
      else case from_yaml raw of
          Some (YMap m) \<Rightarrow> Some m
        | Some YNull \<Rightarrow> Some []
        | _ \<Rightarrow> None)"

definition yaml_key_sort_key :: "yaml_writer \<Rightarrow> yaml \<Rightarrow> string" where
  "yaml_key_sort_key to_yaml key =
     (case key of YString s \<Rightarrow> s | _ \<Rightarrow> (case to_yaml key of Some s \<Rightarrow> s | None \<Rightarrow> []))"

definition sort_mapping :: "yaml_writer \<Rightarrow> yaml_map \<Rightarrow> yaml_map" where
  "sort_mapping to_yaml m =
     fold (\<lambda>(k, v). ymap_insert k v) (sort_key (\<lambda>kv. yaml_key_sort_key to_yaml (fst kv)) m) []"

definition serialize_frontmatter :: "yaml_writer \<Rightarrow> yaml_map \<Rightarrow> string" where
  "serialize_frontmatter to_yaml m =
     (let serialized = (case to_yaml (YMap m) of Some s \<Rightarrow> s | None \<Rightarrow> []);
          stripped = (if prefix (''---'' @ [CHR 0x0A]) serialized then drop 4 serialized else serialized)
      in trim_end_while (\<lambda>c. c = CHR 0x0A) stripped)"

definition is_trailing_blank :: "char \<Rightarrow> bool" where
  "is_trailing_blank c \<longleftrightarrow> c = CHR '' '' \<or> c = CHR 0x09 \<or> c = CHR 0x0D"

definition normalize_lines :: "string \<Rightarrow> string" where
  "normalize_lines content =
     trim_end_while (\<lambda>c. c = CHR 0x0A)
       (join_str [CHR 0x0A] (map (trim_end_while is_trailing_blank) (split_char CHR 0x0A content)))"

definition finalize_document :: "string \<Rightarrow> string" where
  "finalize_document content = trim_end_while (\<lambda>c. c = CHR 0x0A) content @ [CHR 0x0A]"

definition ymap_has :: "yaml \<Rightarrow> yaml_map \<Rightarrow> bool" where
  "ymap_has k m \<longleftrightarrow> k \<in> set (map fst m)"

definition stamp :: "string \<Rightarrow> yaml_map \<Rightarrow> yaml_map" where
  "stamp timestamp m =
     (let m1 = (if ymap_has (YString ''created'') m then m
                else ymap_insert (YString ''created'') (YString timestamp) m)
      in ymap_insert (YString ''updated'') (YString timestamp) m1)"

definition document :: "string \<Rightarrow> string \<Rightarrow> string" where
  "document yaml' body =
     (if body = [] then ''---'' @ [CHR 0x0A] @ yaml' @ [CHR 0x0A] @ ''---''
      else ''---'' @ [CHR 0x0A] @ yaml' @ [CHR 0x0A] @ ''---'' @ [CHR 0x0A] @ body)"

definition apply_save_pipeline :: "yaml_reader \<Rightarrow> yaml_writer \<Rightarrow> string \<Rightarrow> string \<Rightarrow> string" where
  "apply_save_pipeline from_yaml to_yaml timestamp content =
     (case extract_frontmatter content of
        (None, _) \<Rightarrow> finalize_document (normalize_lines content)
      | (Some raw, body) \<Rightarrow>
          (case parse_frontmatter_mapping from_yaml raw of
             None \<Rightarrow> finalize_document (normalize_lines content)
           | Some m \<Rightarrow>
               (let yaml' = serialize_frontmatter to_yaml (sort_mapping to_yaml (stamp timestamp m))
                in finalize_document (document yaml' (normalize_lines body)))))"

section \<open>The file tree\<close>

text \<open>
  A path is the list of its components.  \<open>..\<close> is resolved on the components; symbolic links are not
  modelled.
\<close>

type_synonym fpath = "string list"

definition resolve_parts :: "string list \<Rightarrow> fpath" where
  "resolve_parts ps = foldl (\<lambda>acc p. if p = ''..'' then butlast acc else acc @ [p]) [] ps"

definition at :: "string \<Rightarrow> string \<Rightarrow> fpath" where
  "at root path = resolve_parts (path_parts (path_join root path))"

record FileTree =
  ft_files :: "fpath \<rightharpoonup> string"
  ft_dirs :: "fpath set"

datatype IoError = IoNotFound | IoOther string

text \<open>The failures of the operating system: what each call answers when it does not do its work.\<close>

record IoFaults =
  io_read :: "fpath \<Rightarrow> string option"
  io_mkdir :: "fpath \<Rightarrow> string option"
  io_temp :: "fpath \<Rightarrow> (string \<times> string option) option"
  io_rename :: "fpath \<Rightarrow> fpath \<Rightarrow> string option"
  io_remove :: "fpath \<Rightarrow> string option"

definition below_file :: "FileTree \<Rightarrow> fpath \<Rightarrow> bool" where
  "below_file t p \<longleftrightarrow> list_ex (\<lambda>q. ft_files t q \<noteq> None) (prefixes (butlast p))"

definition os_exists :: "FileTree \<Rightarrow> fpath \<Rightarrow> bool" where
  "os_exists t p \<longleftrightarrow> ft_files t p \<noteq> None \<or> p \<in> ft_dirs t"

definition os_read :: "IoFaults \<Rightarrow> fpath \<Rightarrow> FileTree \<Rightarrow> IoError + string" where
  "os_read io p t =
     (case ft_files t p of
        Some c \<Rightarrow> (case io_read io p of Some e \<Rightarrow> Inl (IoOther e) | None \<Rightarrow> Inr c)
      | None \<Rightarrow>
          if p \<in> ft_dirs t then Inl (IoOther ''is a directory'')
          else if below_file t p then Inl (IoOther ''not a directory'') else Inl IoNotFound)"

definition os_mkdir_all :: "IoFaults \<Rightarrow> fpath \<Rightarrow> FileTree \<Rightarrow> (IoError + unit) \<times> FileTree" where
  "os_mkdir_all io p t =
     (case io_mkdir io p of
        Some e \<Rightarrow> (Inl (IoOther e), t)
      | None \<Rightarrow>
          if list_ex (\<lambda>q. ft_files t q \<noteq> None) (prefixes p) then (Inl (IoOther ''not a directory''), t)
          else (Inr (), t\<lparr>ft_dirs := ft_dirs t \<union> set (prefixes p)\<rparr>))"

text \<open>A failed write of a temporary file can leave a part of it.\<close>

definition os_write :: "IoFaults \<Rightarrow> fpath \<Rightarrow> string \<Rightarrow> FileTree \<Rightarrow> (IoError + unit) \<times> FileTree" where
  "os_write io p c t =
     (case io_temp io p of
        Some (e, left) \<Rightarrow> (Inl (IoOther e), t\<lparr>ft_files := (ft_files t)(p := left)\<rparr>)
      | None \<Rightarrow> (Inr (), t\<lparr>ft_files := (ft_files t)(p \<mapsto> c)\<rparr>))"

text \<open>Renaming a file replaces a file at the target; renaming a directory is not modelled.\<close>

definition os_rename :: "IoFaults \<Rightarrow> fpath \<Rightarrow> fpath \<Rightarrow> FileTree \<Rightarrow> (IoError + unit) \<times> FileTree" where
  "os_rename io a b t =
     (case ft_files t a of
        None \<Rightarrow> (Inl IoNotFound, t)
      | Some c \<Rightarrow>
          (case io_rename io a b of
             Some e \<Rightarrow> (Inl (IoOther e), t)
           | None \<Rightarrow>
               if b \<in> ft_dirs t then (Inl (IoOther ''is a directory''), t)
               else (Inr (), t\<lparr>ft_files := ((ft_files t)(a := None))(b \<mapsto> c)\<rparr>)))"

definition os_remove :: "IoFaults \<Rightarrow> fpath \<Rightarrow> FileTree \<Rightarrow> (IoError + unit) \<times> FileTree" where
  "os_remove io p t =
     (case ft_files t p of
        None \<Rightarrow> (Inl (if p \<in> ft_dirs t then IoOther ''is a directory'' else IoNotFound), t)
      | Some _ \<Rightarrow>
          (case io_remove io p of
             Some e \<Rightarrow> (Inl (IoOther e), t)
           | None \<Rightarrow> (Inr (), t\<lparr>ft_files := (ft_files t)(p := None)\<rparr>)))"

section \<open>The native engine\<close>

datatype NotesmithError =
    NoteNotFound string
  | VaultNotFound string
  | ParseError string string
  | WriteConflict string string string
  | IoFailure string
  | OtherError string

datatype WriteResult = Written string | Conflict string string

fun notesmith_error_text :: "NotesmithError \<Rightarrow> string" where
  "notesmith_error_text (NoteNotFound p) = ''Note not found: '' @ p"
| "notesmith_error_text (VaultNotFound n) = ''Vault not found: '' @ n"
| "notesmith_error_text (ParseError p m) = ''Parse error in '' @ p @ '': '' @ m"
| "notesmith_error_text (WriteConflict p e a) = ''Write conflict on '' @ p @ '': expected hash '' @ e @ '', found '' @ a"
| "notesmith_error_text (IoFailure m) = ''IO error: '' @ m"
| "notesmith_error_text (OtherError m) = m"

definition io_text :: "IoError \<Rightarrow> string" where
  "io_text e = (case e of IoNotFound \<Rightarrow> ''not found'' | IoOther m \<Rightarrow> m)"

text \<open>Reading, deleting and moving report a missing note; every other error is passed on.\<close>

definition note_io_error :: "string \<Rightarrow> IoError \<Rightarrow> NotesmithError" where
  "note_io_error path e = (case e of IoNotFound \<Rightarrow> NoteNotFound path | IoOther m \<Rightarrow> IoFailure m)"

definition engine_read :: "IoFaults \<Rightarrow> string \<Rightarrow> string \<Rightarrow> FileTree \<Rightarrow> NotesmithError + string" where
  "engine_read io root path t =
     (case os_read io (at root path) t of
        Inl e \<Rightarrow> Inl (note_io_error path e) | Inr c \<Rightarrow> Inr c)"

definition parent_of :: "string \<Rightarrow> string \<Rightarrow> fpath" where
  "parent_of root path = resolve_parts (butlast (path_parts (path_join root path)))"

text \<open>\<open>tag\<close> is the process id and the time in nanoseconds.\<close>

definition sibling_temp_path :: "string \<Rightarrow> string \<Rightarrow> string \<Rightarrow> fpath" where
  "sibling_temp_path tag root path =
     parent_of root path @
       [''.'' @ (case file_name (path_join root path) of Some n \<Rightarrow> n | None \<Rightarrow> ''note.md'') @
        ''.notesmith-'' @ tag @ ''.tmp'']"

definition check_hash ::
  "IoFaults \<Rightarrow> (string \<Rightarrow> string) \<Rightarrow> fpath \<Rightarrow> string \<Rightarrow> FileTree \<Rightarrow> NotesmithError + WriteResult option" where
  "check_hash io hash dest expected t =
     (case os_read io dest t of
        Inr existing \<Rightarrow>
          if hash existing \<noteq> expected then Inr (Some (Conflict expected (hash existing))) else Inr None
      | Inl IoNotFound \<Rightarrow> Inr (Some (Conflict expected []))
      | Inl (IoOther e) \<Rightarrow> Inl (IoFailure e))"

definition replace_file ::
  "IoFaults \<Rightarrow> (string \<Rightarrow> string) \<Rightarrow> string \<Rightarrow> string \<Rightarrow> string \<Rightarrow> string \<Rightarrow> FileTree \<Rightarrow> (NotesmithError + WriteResult) \<times> FileTree" where
  "replace_file io hash tag root path content t =
     (case os_mkdir_all io (parent_of root path) t of
        (Inl e, t1) \<Rightarrow> (Inl (IoFailure (io_text e)), t1)
      | (Inr _, t1) \<Rightarrow>
          (let temp = sibling_temp_path tag root path
           in case os_write io temp content t1 of
               (Inl e, t2) \<Rightarrow> (Inl (IoFailure (io_text e)), t2)
             | (Inr _, t2) \<Rightarrow>
                 (case os_rename io temp (at root path) t2 of
                    (Inl e, t3) \<Rightarrow> (Inl (IoFailure (io_text e)), snd (os_remove io temp t3))
                  | (Inr _, t3) \<Rightarrow> (Inr (Written (hash content)), t3))))"

definition engine_write ::
  "IoFaults \<Rightarrow> (string \<Rightarrow> string) \<Rightarrow> string \<Rightarrow> string \<Rightarrow> string \<Rightarrow> string option \<Rightarrow> string \<Rightarrow> FileTree \<Rightarrow>
     (NotesmithError + WriteResult) \<times> FileTree" where
  "engine_write io hash tag root path expected_hash content t =
     (case expected_hash of
        None \<Rightarrow> replace_file io hash tag root path content t
      | Some expected \<Rightarrow>
          (case check_hash io hash (at root path) expected t of
             Inl e \<Rightarrow> (Inl e, t)
           | Inr (Some conflict) \<Rightarrow> (Inr conflict, t)
           | Inr None \<Rightarrow> replace_file io hash tag root path content t))"

definition engine_delete :: "IoFaults \<Rightarrow> string \<Rightarrow> string \<Rightarrow> FileTree \<Rightarrow> (NotesmithError + unit) \<times> FileTree" where
  "engine_delete io root path t =
     (case os_remove io (at root path) t of
        (Inl e, t1) \<Rightarrow> (Inl (note_io_error path e), t1)
      | (Inr _, t1) \<Rightarrow> (Inr (), t1))"

definition engine_move :: "IoFaults \<Rightarrow> string \<Rightarrow> string \<Rightarrow> string \<Rightarrow> FileTree \<Rightarrow> (NotesmithError + unit) \<times> FileTree" where
  "engine_move io root from' to t =
     (case os_mkdir_all io (parent_of root to) t of
        (Inl e, t1) \<Rightarrow> (Inl (IoFailure (io_text e)), t1)
      | (Inr _, t1) \<Rightarrow>
          (case os_rename io (at root from') (at root to) t1 of
             (Inl e, t2) \<Rightarrow> (Inl (note_io_error from' e), t2)
           | (Inr _, t2) \<Rightarrow> (Inr (), t2)))"

section \<open>Guarded writes\<close>

text \<open>The guarded writes of a run that succeeded on the note \<open>k\<close>: the hash given and the content written.\<close>

fun accepted ::
  "('p \<Rightarrow> string option \<Rightarrow> string \<Rightarrow> 's \<Rightarrow> ('e + WriteResult) \<times> 's) \<Rightarrow> ('p \<Rightarrow> 'k) \<Rightarrow> 'k \<Rightarrow> ('p \<times> string \<times> string) list \<Rightarrow>
     's \<Rightarrow> (string \<times> string) list" where
  "accepted put key k [] s = []"
| "accepted put key k ((p, e, c) # ops) s =
     (case put p (Some e) c s of
        (Inr (Written h), s') \<Rightarrow>
          (if key p = k then (e, c) # accepted put key k ops s' else accepted put key k ops s')
      | (_, s') \<Rightarrow> accepted put key k ops s')"

fun chained :: "(string \<Rightarrow> string) \<Rightarrow> string \<Rightarrow> (string \<times> string) list \<Rightarrow> bool" where
  "chained hash h [] = True"
| "chained hash h ((e, c) # xs) = (e = h \<and> chained hash (hash c) xs)"

text \<open>
  What a caller of \<open>VaultEngine::write\<close> relies on: a successful write leaves its content, a guarded
  write succeeds only on the content whose hash the caller gave, and nothing else changes in the notes.
\<close>

locale note_engine =
  fixes view :: "'s \<Rightarrow> 'k \<Rightarrow> string option"
    and key :: "'p \<Rightarrow> 'k"
    and plain :: "'k \<Rightarrow> bool"
    and hash :: "string \<Rightarrow> string"
    and put :: "'p \<Rightarrow> string option \<Rightarrow> string \<Rightarrow> 's \<Rightarrow> ('e + WriteResult) \<times> 's"
  assumes write_done: "put p e c s = (Inr (Written h), s') \<Longrightarrow> view s' (key p) = Some c \<and> h = hash c"
    and write_guard: "put p (Some g) c s = (Inr (Written h), s') \<Longrightarrow> \<exists>old. view s (key p) = Some old \<and> hash old = g"
    and write_frame: "put p e c s = (r, s') \<Longrightarrow> plain k \<Longrightarrow> k \<noteq> key p \<or> (\<forall>h. r \<noteq> Inr (Written h)) \<Longrightarrow>
      view s' k = view s k"
begin

lemma accepted_chained:
  "plain k \<Longrightarrow> view s k = Some c \<Longrightarrow> chained hash (hash c) (accepted put key k ops s)"
proof (induction ops arbitrary: s c)
  case (Cons x ops)
  obtain p e d where x: "x = (p, e, d)" by (metis surj_pair)
  obtain r s' where w: "put p (Some e) d s = (r, s')" by fastforce
  show ?case
  proof (cases "\<exists>h. r = Inr (Written h)")
    case True
    then obtain h where r: "r = Inr (Written h)" by blast
    with w have old: "\<exists>old. view s (key p) = Some old \<and> hash old = e" and new: "view s' (key p) = Some d"
      using write_guard write_done by blast+
    show ?thesis
    proof (cases "key p = k")
      case True
      with Cons.IH [OF Cons.prems(1), of s' d] old new Cons.prems show ?thesis by (simp add: x w r)
    next
      case False
      with write_frame [OF w Cons.prems(1)] Cons.prems have "view s' k = Some c" by simp
      with Cons.IH [OF Cons.prems(1)] False show ?thesis by (simp add: x w r)
    qed
  next
    case False
    with write_frame [OF w Cons.prems(1)] Cons.prems have "view s' k = Some c" by simp
    with Cons.IH [OF Cons.prems(1)] False show ?thesis
      by (cases r) (auto simp: x w split: WriteResult.splits)
  qed
qed simp

text \<open>Of two callers who read the same content, the second to write is refused.\<close>

lemma second_writer_refused:
  assumes "view s (key p) = Some c0" and "put p (Some (hash c0)) c1 s = (Inr (Written h1), s1)"
    and "hash c1 \<noteq> hash c0" and "key q = key p" and "plain (key p)"
    and "put q (Some (hash c0)) c2 s1 = (r, s2)"
  shows "(\<forall>h. r \<noteq> Inr (Written h)) \<and> view s2 (key p) = Some c1"
proof -
  from write_done [OF assms(2)] have v: "view s1 (key p) = Some c1" by simp
  have no: "r \<noteq> Inr (Written h)" for h
    using write_guard [of q "hash c0" c2 s1 h s2] assms(3,4,6) v by auto
  with write_frame [OF assms(6,5)] v show ?thesis by simp
qed

end

text \<open>The names of temporary files are not names of notes.\<close>

definition plain_path :: "fpath \<Rightarrow> bool" where
  "plain_path p \<longleftrightarrow> \<not> (p \<noteq> [] \<and> suffix ''.tmp'' (last p))"

lemma temp_not_plain: "\<not> plain_path (sibling_temp_path tag root path)"
  by (simp add: plain_path_def sibling_temp_path_def suffix_def)

lemma os_mkdir_files [simp]: "os_mkdir_all io p t = (r, t') \<Longrightarrow> ft_files t' = ft_files t"
  by (auto simp: os_mkdir_all_def split: option.splits if_splits)

lemma os_write_files: "os_write io p c t = (r, t') \<Longrightarrow> k \<noteq> p \<Longrightarrow> ft_files t' k = ft_files t k"
  by (auto simp: os_write_def split: option.splits)

lemma os_remove_files: "k \<noteq> p \<Longrightarrow> ft_files (snd (os_remove io p t)) k = ft_files t k"
  by (auto simp: os_remove_def split: option.splits)

lemma os_rename_files:
  "os_rename io a b t = (r, t') \<Longrightarrow>
     (case r of Inl e \<Rightarrow> t' = t
      | Inr _ \<Rightarrow> \<exists>c. ft_files t a = Some c \<and> ft_files t' = ((ft_files t)(a := None))(b \<mapsto> c))"
  by (auto simp: os_rename_def split: option.splits if_splits)

lemma replace_file_result:
  assumes "replace_file io hash tag root path c t = (r, t')"
  shows "(\<exists>h. r = Inr (Written h)) \<longrightarrow> r = Inr (Written (hash c)) \<and> ft_files t' (at root path) = Some c"
    and "plain_path k \<Longrightarrow> k \<noteq> at root path \<or> (\<forall>h. r \<noteq> Inr (Written h)) \<Longrightarrow> ft_files t' k = ft_files t k"
proof -
  let ?temp = "sibling_temp_path tag root path"
  obtain r1 t1 where m: "os_mkdir_all io (parent_of root path) t = (r1, t1)" by fastforce
  obtain r2 t2 where w: "os_write io ?temp c t1 = (r2, t2)" by fastforce
  obtain r3 t3 where n: "os_rename io ?temp (at root path) t2 = (r3, t3)" by fastforce
  have f1: "ft_files t1 = ft_files t" using m by simp
  have temp: "k \<noteq> ?temp" if "plain_path k" for k using that temp_not_plain by metis
  have wr: "ft_files t2 ?temp = Some c" if "isl r2 = False"
    using w that by (auto simp: os_write_def split: option.splits)
  note cases = assms [unfolded replace_file_def m w n Let_def]
  show "(\<exists>h. r = Inr (Written h)) \<longrightarrow> r = Inr (Written (hash c)) \<and> ft_files t' (at root path) = Some c"
    using cases os_rename_files [OF n] wr
    by (cases r1; cases r2; cases r3) (simp_all add: w n, auto)
  show "plain_path k \<Longrightarrow> k \<noteq> at root path \<or> (\<forall>h. r \<noteq> Inr (Written h)) \<Longrightarrow> ft_files t' k = ft_files t k"
    using cases os_rename_files [OF n] os_write_files [OF w] os_remove_files [of k ?temp io t3] temp [of k] f1
    by (cases r1; cases r2; cases r3) (simp_all add: w n, auto)
qed

definition write_as :: "string \<Rightarrow> (string \<Rightarrow> string) \<Rightarrow> IoFaults \<times> string \<times> string \<Rightarrow> string option \<Rightarrow> string \<Rightarrow> FileTree \<Rightarrow>
     (NotesmithError + WriteResult) \<times> FileTree" where
  "write_as root hash p = (case p of (io, tag, path) \<Rightarrow> engine_write io hash tag root path)"

definition write_key :: "string \<Rightarrow> IoFaults \<times> string \<times> string \<Rightarrow> fpath" where
  "write_key root p = (case p of (io, tag, path) \<Rightarrow> at root path)"

lemma engine_write_result:
  assumes "engine_write io hash tag root path e c t = (r, t')"
  shows "(\<exists>h. r = Inr (Written h)) \<longrightarrow> r = Inr (Written (hash c)) \<and> ft_files t' (at root path) = Some c \<and>
      (case e of Some x \<Rightarrow> \<exists>old. ft_files t (at root path) = Some old \<and> hash old = x | None \<Rightarrow> True)"
    and "plain_path k \<Longrightarrow> k \<noteq> at root path \<or> (\<forall>h. r \<noteq> Inr (Written h)) \<Longrightarrow> ft_files t' k = ft_files t k"
proof -
  have guard: "\<exists>old. ft_files t (at root path) = Some old \<and> hash old = x"
    if "check_hash io hash (at root path) x t = Inr None" for x
    using that by (auto simp: check_hash_def os_read_def split: option.splits if_splits sum.splits IoError.splits)
  have conflict: "check_hash io hash (at root path) x t \<noteq> Inr (Some (Written h))" for x h
    by (auto simp: check_hash_def split: if_splits sum.splits IoError.splits)
  show "(\<exists>h. r = Inr (Written h)) \<longrightarrow> r = Inr (Written (hash c)) \<and> ft_files t' (at root path) = Some c \<and>
      (case e of Some x \<Rightarrow> \<exists>old. ft_files t (at root path) = Some old \<and> hash old = x | None \<Rightarrow> True)"
    using assms guard conflict replace_file_result(1) [of io hash tag root path c t r t']
    by (auto simp: engine_write_def split: option.splits sum.splits)
  show "plain_path k \<Longrightarrow> k \<noteq> at root path \<or> (\<forall>h. r \<noteq> Inr (Written h)) \<Longrightarrow> ft_files t' k = ft_files t k"
    using assms replace_file_result(2) [of io hash tag root path c t r t' k]
    by (auto simp: engine_write_def split: option.splits sum.splits)
qed

lemma engine_delete_result:
  "engine_delete io root p t = (r, t') \<Longrightarrow>
     (case r of Inl e \<Rightarrow> t' = t | Inr _ \<Rightarrow> ft_files t (at root p) \<noteq> None \<and> t' = t\<lparr>ft_files := (ft_files t)(at root p := None)\<rparr>)"
  by (auto simp: engine_delete_def os_remove_def split: option.splits prod.splits sum.splits)

lemma engine_move_result:
  "engine_move io root a b t = (r, t') \<Longrightarrow>
     (case r of Inl e \<Rightarrow> ft_files t' = ft_files t
      | Inr _ \<Rightarrow> \<exists>c. ft_files t (at root a) = Some c \<and>
          ft_files t' = ((ft_files t)(at root a := None))(at root b \<mapsto> c))"
proof -
  assume "engine_move io root a b t = (r, t')"
  moreover obtain r1 t1 where m: "os_mkdir_all io (parent_of root b) t = (r1, t1)" by fastforce
  moreover obtain r2 t2 where n: "os_rename io (at root a) (at root b) t1 = (r2, t2)" by fastforce
  moreover have "ft_files t1 = ft_files t" using m by simp
  ultimately show ?thesis
    using os_rename_files [OF n] by (cases r1; cases r2) (auto simp: engine_move_def)
qed

interpretation native: note_engine ft_files "write_key root" plain_path hash "write_as root hash" for root hash
proof
  fix p e c s h s'
  assume "write_as root hash p e c s = (Inr (Written h), s')"
  then show "ft_files s' (write_key root p) = Some c \<and> h = hash c"
    using engine_write_result(1) by (fastforce simp: write_as_def write_key_def split: prod.splits)
next
  fix p e c s h s'
  assume "write_as root hash p (Some e) c s = (Inr (Written h), s')"
  then show "\<exists>old. ft_files s (write_key root p) = Some old \<and> hash old = e"
    using engine_write_result(1) by (fastforce simp: write_as_def write_key_def split: prod.splits)
next
  fix p e c s r s' k
  assume "write_as root hash p e c s = (r, s')" "plain_path k" "k \<noteq> write_key root p \<or> (\<forall>h. r \<noteq> Inr (Written h))"
  then show "ft_files s' k = ft_files s k"
    using engine_write_result(2) by (fastforce simp: write_as_def write_key_def split: prod.splits)
qed

section \<open>The last component of a path\<close>

lemma split_char_chars: "w \<in> set (split_char c s) \<Longrightarrow> set w \<subseteq> set s"
  by (induction s arbitrary: w) (fastforce split: if_splits list.splits)+

lemma split_char_snoc_sep:
  "c \<notin> set n \<Longrightarrow> s = [] \<or> last s = c \<Longrightarrow> split_char c (s @ n) = butlast (split_char c s) @ [n]"
proof (induction s)
  case (Cons x s)
  show ?case
  proof (cases s)
    case Nil
    with Cons.prems show ?thesis by (simp add: split_char_none)
  next
    case (Cons y ys)
    with Cons.IH Cons.prems have IH: "split_char c (s @ n) = butlast (split_char c s) @ [n]" by simp
    obtain w ws where ws: "split_char c s = w # ws" by (cases "split_char c s") auto
    show ?thesis
    proof (cases "ws = []")
      case True
      have "join_str [c] (split_char c s) = s" by simp
      with True ws have "w = s" by simp
      moreover have "c \<notin> set w" by (rule split_char_no_sep [of w c s]) (simp add: ws)
      ultimately show ?thesis using Cons.prems Cons by (auto simp: last_in_set split: if_splits)
    next
      case False
      with IH ws show ?thesis by simp
    qed
  qed
qed (simp add: split_char_none)

lemma last_path_part:
  assumes "CHR ''/'' \<notin> set n" and "n \<noteq> []" and "n \<noteq> ''.''" and "s = [] \<or> last s = CHR ''/''"
  shows "\<exists>ps. path_parts (s @ n) = ps @ [n]"
  using assms by (simp add: path_parts_def split_char_snoc_sep)

lemma path_join_cases:
  obtains "prefix ''/'' rel" "path_join base rel = rel"
    | "base = [] \<or> last base = CHR ''/''" "path_join base rel = base @ rel"
    | "path_join base rel = (base @ ''/'') @ rel"
proof (cases "prefix ''/'' rel")
  case True
  then show ?thesis using that(1) by (simp add: path_join_def)
next
  case False
  then show ?thesis using that(2,3) by (cases "base = [] \<or> last base = CHR ''/''") (auto simp: path_join_def)
qed

lemma join_ends_with_name:
  assumes "\<not> prefix ''/'' n"
  shows "\<exists>s. path_join base n = s @ n \<and> (s = [] \<or> last s = CHR ''/'')"
proof (cases rule: path_join_cases [of n base])
  case 3
  then show ?thesis by (intro exI [of _ "base @ ''/''"]) simp
qed (use assms in auto)

lemma join_keeps_name:
  assumes "c = s @ n" and "s = [] \<or> last s = CHR ''/''"
  shows "\<exists>s'. path_join root c = s' @ n \<and> (s' = [] \<or> last s' = CHR ''/'')"
proof (cases rule: path_join_cases [of c root])
  case 1
  then show ?thesis using assms by auto
next
  case 2
  then show ?thesis using assms by (intro exI [of _ "root @ s"]) (auto simp: last_append)
next
  case 3
  then show ?thesis using assms by (intro exI [of _ "(root @ ''/'') @ s"]) (auto simp: last_append)
qed

section \<open>Lines of a document\<close>

lemma trim_end_while_suffix: "trim_end_while p (s @ [c]) = (if p c then trim_end_while p s else s @ [c])"
  by (simp add: trim_end_while_def)

lemma trim_end_while_Nil [simp]: "trim_end_while p [] = []"
  by (simp add: trim_end_while_def)

lemma trim_end_while_idem [simp]: "trim_end_while p (trim_end_while p s) = trim_end_while p s"
proof -
  have "dropWhile p (dropWhile p xs) = dropWhile p xs" for xs :: string by (induction xs) auto
  then show ?thesis by (simp add: trim_end_while_def)
qed

lemma trim_end_while_last: "trim_end_while p s = s \<longleftrightarrow> s = [] \<or> \<not> p (last s)"
proof (cases s rule: rev_cases)
  case (snoc t c)
  have "length (dropWhile p (rev t)) < length (t @ [c])" by (metis length_dropWhile_le length_rev length_append_singleton le_imp_less_Suc)
  then have "rev (dropWhile p (rev t)) \<noteq> t @ [c]" by (metis length_rev less_irrefl)
  with snoc show ?thesis by (simp add: trim_end_while_suffix) (simp add: trim_end_while_def)
qed simp

lemma trim_end_while_result: "trim_end_while p s = [] \<or> \<not> p (last (trim_end_while p s))"
  using trim_end_while_last [of p "trim_end_while p s"] by simp

lemma trim_end_while_append: "trim_end_while p t \<noteq> [] \<Longrightarrow> trim_end_while p (s @ t) = s @ trim_end_while p t"
proof (induction t rule: rev_induct)
  case (snoc c t)
  show ?case
  proof (cases "p c")
    case True
    with snoc have "trim_end_while p t \<noteq> []" by (simp add: trim_end_while_suffix)
    with True snoc.IH show ?thesis using trim_end_while_suffix [of p "s @ t" c] by (simp add: trim_end_while_suffix)
  next
    case False
    then show ?thesis using trim_end_while_suffix [of p "s @ t" c] by (simp add: trim_end_while_suffix)
  qed
qed simp

lemma find_close_split:
  "list_all (\<lambda>l. trim_line_ending l \<noteq> ''---'') xs \<Longrightarrow> trim_line_ending d = ''---'' \<Longrightarrow>
     find_close (xs @ d # ys) = Some (xs, ys)"
  by (induction xs) auto

lemma find_close_Some:
  "find_close ls = Some (inner, after) \<Longrightarrow>
     \<exists>d. ls = inner @ d # after \<and> trim_line_ending d = ''---'' \<and> list_all (\<lambda>l. trim_line_ending l \<noteq> ''---'') inner"
  by (induction ls arbitrary: inner) (auto split: if_splits)

lemma delimiter_line: "split_inclusive (''---'' @ [CHR 0x0A] @ s) = (''---'' @ [CHR 0x0A]) # split_inclusive s"
  using split_inclusive_line [of "''---''" s] by simp

lemma trim_delimiter [simp]:
  "trim_line_ending ''---'' = ''---''" "trim_line_ending (''---'' @ [CHR 0x0A]) = ''---''"
  by (simp_all add: trim_line_ending_def trim_end_while_def is_line_end_def)

text \<open>A block of lines between delimiters is read back, with the text behind it as the body.\<close>

definition no_delimiter :: "string \<Rightarrow> bool" where
  "no_delimiter s \<longleftrightarrow> list_all (\<lambda>l. trim_line_ending l \<noteq> ''---'') (split_inclusive s)"

lemma extract_document:
  assumes "no_delimiter (yaml' @ [CHR 0x0A])"
  shows "extract_frontmatter (''---'' @ [CHR 0x0A] @ yaml' @ [CHR 0x0A] @ ''---'' @ [CHR 0x0A] @ body) =
      (Some (trim_line_ending yaml'), body)"
    and "extract_frontmatter (''---'' @ [CHR 0x0A] @ yaml' @ [CHR 0x0A] @ ''---'') = (Some (trim_line_ending yaml'), [])"
proof -
  have yaml: "split_inclusive (yaml' @ CHR 0x0A # s) = split_inclusive (yaml' @ [CHR 0x0A]) @ split_inclusive s" for s
    using split_inclusive_append [of "yaml' @ [CHR 0x0A]" s] by simp
  have inner: "concat (split_inclusive (yaml' @ [CHR 0x0A])) = yaml' @ [CHR 0x0A]" by (rule concat_split_inclusive)
  have raw: "trim_line_ending (yaml' @ [CHR 0x0A]) = trim_line_ending yaml'"
    by (simp add: trim_line_ending_def trim_end_while_suffix is_line_end_def)
  have "find_close (split_inclusive (yaml' @ [CHR 0x0A]) @ (''---'' @ [CHR 0x0A]) # split_inclusive body) =
      Some (split_inclusive (yaml' @ [CHR 0x0A]), split_inclusive body)"
    by (rule find_close_split) (use assms in \<open>simp_all only: no_delimiter_def trim_delimiter\<close>)
  moreover have "split_inclusive (''---'' @ [CHR 0x0A] @ yaml' @ [CHR 0x0A] @ ''---'' @ [CHR 0x0A] @ body) =
      (''---'' @ [CHR 0x0A]) # split_inclusive (yaml' @ [CHR 0x0A]) @ (''---'' @ [CHR 0x0A]) # split_inclusive body"
    using yaml [of "''---'' @ [CHR 0x0A] @ body"] delimiter_line [of body] delimiter_line [of "yaml' @ CHR 0x0A # ''---'' @ [CHR 0x0A] @ body"]
    by simp
  ultimately show "extract_frontmatter (''---'' @ [CHR 0x0A] @ yaml' @ [CHR 0x0A] @ ''---'' @ [CHR 0x0A] @ body) =
      (Some (trim_line_ending yaml'), body)"
    by (simp only: extract_frontmatter_def list.case trim_delimiter option.case prod.case simp_thms if_False
        inner raw concat_split_inclusive)
  have "find_close (split_inclusive (yaml' @ [CHR 0x0A]) @ ''---'' # []) =
      Some (split_inclusive (yaml' @ [CHR 0x0A]), [])"
    by (rule find_close_split) (use assms in \<open>simp_all only: no_delimiter_def trim_delimiter\<close>)
  moreover have "split_inclusive (''---'' @ [CHR 0x0A] @ yaml' @ [CHR 0x0A] @ ''---'') =
      (''---'' @ [CHR 0x0A]) # split_inclusive (yaml' @ [CHR 0x0A]) @ [''---'']"
    using yaml [of "''---''"] delimiter_line [of "yaml' @ CHR 0x0A # ''---''"] by simp
  ultimately show "extract_frontmatter (''---'' @ [CHR 0x0A] @ yaml' @ [CHR 0x0A] @ ''---'') = (Some (trim_line_ending yaml'), [])"
    by (simp only: extract_frontmatter_def list.case trim_delimiter option.case prod.case simp_thms if_False
        inner raw concat.simps)
qed

section \<open>Normalized text\<close>

definition trimmed_lines :: "string \<Rightarrow> bool" where
  "trimmed_lines s \<longleftrightarrow> list_all (\<lambda>l. trim_end_while is_trailing_blank l = l) (split_char CHR 0x0A s)"

lemma split_char_snoc: "split_char c (s @ [c]) = split_char c s @ [[]]"
  by (induction s) (auto split: list.splits)

lemma trimmed_lines_snoc: "trimmed_lines (s @ [CHR 0x0A]) = trimmed_lines s"
  by (simp add: trimmed_lines_def split_char_snoc)

lemma trimmed_lines_trim: "trimmed_lines s \<Longrightarrow> trimmed_lines (trim_end_while (\<lambda>c. c = CHR 0x0A) s)"
  by (induction s rule: rev_induct) (auto simp: trim_end_while_suffix trimmed_lines_snoc)

lemma normalize_trimmed: "trimmed_lines (normalize_lines s)"
proof -
  have "c \<notin> set (trim_end_while p l)" if "c \<notin> set l" for c p and l :: string
    using that by (metis trim_end_while_def set_dropWhileD set_rev)
  then have "split_char CHR 0x0A (join_str [CHR 0x0A] (map (trim_end_while is_trailing_blank) (split_char CHR 0x0A s))) =
      map (trim_end_while is_trailing_blank) (split_char CHR 0x0A s)"
    by (intro split_join_char) (auto dest: split_char_no_sep)
  then have "trimmed_lines (join_str [CHR 0x0A] (map (trim_end_while is_trailing_blank) (split_char CHR 0x0A s)))"
    by (simp add: trimmed_lines_def list_all_iff)
  then show ?thesis unfolding normalize_lines_def by (rule trimmed_lines_trim)
qed

lemma normalize_Nil [simp]: "normalize_lines [] = []"
  by (simp add: normalize_lines_def)

lemma normalize_fixed:
  "trimmed_lines s \<Longrightarrow> normalize_lines s = trim_end_while (\<lambda>c. c = CHR 0x0A) s"
  by (simp add: normalize_lines_def trimmed_lines_def list_all_iff map_idI)

lemma normalize_again:
  "normalize_lines (normalize_lines s) = normalize_lines s"
  "normalize_lines (normalize_lines s @ [CHR 0x0A]) = normalize_lines s"
proof -
  have "trim_end_while (\<lambda>c. c = CHR 0x0A) (normalize_lines s) = normalize_lines s"
    by (simp add: normalize_lines_def)
  then show "normalize_lines (normalize_lines s) = normalize_lines s"
    "normalize_lines (normalize_lines s @ [CHR 0x0A]) = normalize_lines s"
    using normalize_trimmed [of s]
    by (simp_all add: normalize_fixed trimmed_lines_snoc trim_end_while_suffix)
qed

section \<open>Sorted mappings\<close>

lemma fold_ymap_insert:
  "distinct (map fst kvs) \<Longrightarrow> set (map fst kvs) \<inter> set (map fst m) = {} \<Longrightarrow>
     fold (\<lambda>(k, v). ymap_insert k v) kvs m = m @ kvs"
proof (induction kvs arbitrary: m)
  case (Cons kv kvs)
  obtain k v where kv: "kv = (k, v)" by (cases kv)
  have "ymap_insert k v m = m @ [(k, v)]" if "k \<notin> set (map fst m)" for m
    using that by (induction m) auto
  with Cons kv show ?case by auto
qed simp

lemma sort_mapping_eq:
  "distinct (map fst m) \<Longrightarrow> sort_mapping to_yaml m = sort_key (\<lambda>kv. yaml_key_sort_key to_yaml (fst kv)) m"
  by (simp add: sort_mapping_def fold_ymap_insert distinct_map)

lemma sort_mapping_distinct: "distinct (map fst m) \<Longrightarrow> distinct (map fst (sort_mapping to_yaml m))"
  by (simp add: sort_mapping_eq distinct_map)

lemma sort_mapping_lookup: "distinct (map fst m) \<Longrightarrow> map_of (sort_mapping to_yaml m) = map_of m"
  by (rule map_of_inject_set [THEN iffD2]) (simp_all add: sort_mapping_distinct, simp add: sort_mapping_eq)

lemma sort_mapping_again:
  "distinct (map fst m) \<Longrightarrow> sort_mapping to_yaml (sort_mapping to_yaml m) = sort_mapping to_yaml m"
  using sort_mapping_distinct [of m to_yaml] by (simp add: sort_mapping_eq sort_key_id_if_sorted)

lemma ymap_insert_distinct: "distinct (map fst m) \<Longrightarrow> distinct (map fst (ymap_insert k v m))"
  by (auto simp: ymap_insert_keys)

lemma ymap_insert_same: "map_of m k = Some v \<Longrightarrow> ymap_insert k v m = m"
  by (induction m) (auto split: if_splits)

lemma stamp_distinct: "distinct (map fst m) \<Longrightarrow> distinct (map fst (stamp ts m))"
  by (simp add: stamp_def ymap_insert_distinct)

lemma stamp_lookup:
  "map_of (stamp ts m) = (map_of m)
     (YString ''created'' \<mapsto> (case map_of m (YString ''created'') of Some v \<Rightarrow> v | None \<Rightarrow> YString ts),
      YString ''updated'' \<mapsto> YString ts)"
proof (cases "map_of m (YString ''created'')")
  case None
  then have "\<not> ymap_has (YString ''created'') m" by (simp add: ymap_has_def map_of_eq_None_iff)
  with None show ?thesis by (simp add: stamp_def)
next
  case (Some v)
  then have "ymap_has (YString ''created'') m" by (force simp: ymap_has_def dest: map_of_SomeD)
  with Some show ?thesis by (simp add: stamp_def fun_upd_idem)
qed

section \<open>Saving\<close>

text \<open>
  What the pipeline needs of the YAML library for a mapping it writes: the text it writes has no
  delimiter line and reads back as the mapping.
\<close>

definition yaml_reads_back :: "yaml_reader \<Rightarrow> yaml_writer \<Rightarrow> yaml_map \<Rightarrow> bool" where
  "yaml_reads_back from_yaml to_yaml m \<longleftrightarrow>
     no_delimiter (serialize_frontmatter to_yaml m @ [CHR 0x0A]) \<and>
     parse_frontmatter_mapping from_yaml (trim_line_ending (serialize_frontmatter to_yaml m)) = Some m"

definition saved_mapping :: "yaml_writer \<Rightarrow> string \<Rightarrow> yaml_map \<Rightarrow> yaml_map" where
  "saved_mapping to_yaml timestamp m = sort_mapping to_yaml (stamp timestamp m)"

definition saved_body :: "string \<Rightarrow> string" where
  "saved_body body = (if normalize_lines body = [] then [] else normalize_lines body @ [CHR 0x0A])"

lemma save_extract:
  assumes "extract_frontmatter content = (Some raw, body)"
    and "parse_frontmatter_mapping from_yaml raw = Some m"
    and "yaml_reads_back from_yaml to_yaml (saved_mapping to_yaml ts m)"
  shows "extract_frontmatter (apply_save_pipeline from_yaml to_yaml ts content) =
    (Some (trim_line_ending (serialize_frontmatter to_yaml (saved_mapping to_yaml ts m))), saved_body body)"
proof -
  let ?y = "serialize_frontmatter to_yaml (saved_mapping to_yaml ts m)" and ?nl = "\<lambda>c. c = CHR 0x0A"
  have no: "no_delimiter (?y @ [CHR 0x0A])" using assms(3) by (simp add: yaml_reads_back_def)
  have pipe: "apply_save_pipeline from_yaml to_yaml ts content = finalize_document (document ?y (normalize_lines body))"
    using assms(1,2) by (simp add: apply_save_pipeline_def saved_mapping_def)
  show ?thesis
  proof (cases "normalize_lines body = []")
    case True
    have "trim_end_while ?nl (document ?y []) = document ?y []"
      by (simp add: document_def trim_end_while_last)
    then have "finalize_document (document ?y []) = ''---'' @ [CHR 0x0A] @ ?y @ [CHR 0x0A] @ ''---'' @ [CHR 0x0A] @ []"
      by (simp add: finalize_document_def document_def)
    then show ?thesis using extract_document(1) [OF no, of "[]"] True by (simp only: pipe saved_body_def) simp
  next
    case False
    then have "\<not> ?nl (last (normalize_lines body))"
      using trim_end_while_result [of ?nl] unfolding normalize_lines_def by blast
    then have "trim_end_while ?nl (document ?y (normalize_lines body)) = document ?y (normalize_lines body)"
      using False by (simp add: document_def trim_end_while_last)
    then have "finalize_document (document ?y (normalize_lines body)) =
        ''---'' @ [CHR 0x0A] @ ?y @ [CHR 0x0A] @ ''---'' @ [CHR 0x0A] @ normalize_lines body @ [CHR 0x0A]"
      using False by (simp add: finalize_document_def document_def)
    then show ?thesis using extract_document(1) [OF no, of "normalize_lines body @ [CHR 0x0A]"] False
      by (simp only: pipe saved_body_def if_False)
  qed
qed

lemma saved_body_again: "saved_body (saved_body body) = saved_body body"
  using normalize_again [of body] by (simp add: saved_body_def normalize_Nil)

lemma saved_mapping_again:
  assumes "distinct (map fst m)"
  shows "saved_mapping to_yaml ts (saved_mapping to_yaml ts m) = saved_mapping to_yaml ts m"
proof -
  let ?s = "saved_mapping to_yaml ts m"
  have look: "map_of ?s = map_of (stamp ts m)"
    unfolding saved_mapping_def by (rule sort_mapping_lookup) (rule stamp_distinct [OF assms])
  then have c: "map_of ?s (YString ''created'') \<noteq> None" and u: "map_of ?s (YString ''updated'') = Some (YString ts)"
    by (simp_all add: stamp_lookup)
  from c have "ymap_has (YString ''created'') ?s" by (simp add: ymap_has_def map_of_eq_None_iff)
  with u have "stamp ts ?s = ?s" by (simp add: stamp_def ymap_insert_same)
  then have "saved_mapping to_yaml ts ?s = sort_mapping to_yaml ?s" by (simp add: saved_mapping_def)
  then show ?thesis by (simp add: saved_mapping_def sort_mapping_again stamp_distinct assms)
qed

text \<open>
  A first line of three hyphens and blanks is not a delimiter, but the pipeline removes the blanks:
  the saved text has frontmatter that the note it was given did not have.
\<close>

lemma blanks_make_delimiter:
  "extract_frontmatter (''--- '' @ [CHR 0x0A] @ ''---'' @ [CHR 0x0A] @ ''x'') =
     (None, ''--- '' @ [CHR 0x0A] @ ''---'' @ [CHR 0x0A] @ ''x'')"
  "extract_frontmatter (apply_save_pipeline from_yaml to_yaml ts (''--- '' @ [CHR 0x0A] @ ''---'' @ [CHR 0x0A] @ ''x'')) =
     (Some [], ''x'' @ [CHR 0x0A])"
  by (simp_all add: extract_frontmatter_def apply_save_pipeline_def trim_line_ending_def trim_end_while_def
      is_line_end_def is_trailing_blank_def finalize_document_def normalize_lines_def)

section \<open>Properties\<close>

text \<open>C31: a note with a readable frontmatter is saved so that reading it back gives the same fields with
  \<open>created\<close> set once and \<open>updated\<close> set to the time of the save, and the body without trailing blanks.\<close>

theorem save_stamps:
  assumes "extract_frontmatter content = (Some raw, body)"
    and "parse_frontmatter_mapping from_yaml raw = Some m" and "distinct (map fst m)"
    and "yaml_reads_back from_yaml to_yaml (saved_mapping to_yaml ts m)"
  shows "\<exists>raw' m'. extract_frontmatter (apply_save_pipeline from_yaml to_yaml ts content) = (Some raw', saved_body body) \<and>
    parse_frontmatter_mapping from_yaml raw' = Some m' \<and>
    map_of m' = (map_of m)
      (YString ''created'' \<mapsto> (case map_of m (YString ''created'') of Some v \<Rightarrow> v | None \<Rightarrow> YString ts),
       YString ''updated'' \<mapsto> YString ts)"
proof -
  have "map_of (saved_mapping to_yaml ts m) = map_of (stamp ts m)"
    unfolding saved_mapping_def by (rule sort_mapping_lookup) (rule stamp_distinct [OF assms(3)])
  with save_extract [OF assms(1,2,4)] assms(4) show ?thesis by (simp add: yaml_reads_back_def stamp_lookup)
qed

text \<open>Saving a note with a readable frontmatter twice at the same time is saving it once.\<close>

lemma save_idempotent:
  assumes "extract_frontmatter content = (Some raw, body)"
    and "parse_frontmatter_mapping from_yaml raw = Some m" and "distinct (map fst m)"
    and "yaml_reads_back from_yaml to_yaml (saved_mapping to_yaml ts m)"
  shows "apply_save_pipeline from_yaml to_yaml ts (apply_save_pipeline from_yaml to_yaml ts content) =
    apply_save_pipeline from_yaml to_yaml ts content"
proof -
  let ?s = "saved_mapping to_yaml ts m"
  from assms(4) have read: "parse_frontmatter_mapping from_yaml (trim_line_ending (serialize_frontmatter to_yaml ?s)) = Some ?s"
    by (simp add: yaml_reads_back_def)
  have "normalize_lines (saved_body body) = normalize_lines body"
    using normalize_again [of body] by (simp add: saved_body_def normalize_lines_def)
  with save_extract [OF assms(1,2,4)] read saved_mapping_again [OF assms(3), of to_yaml ts] assms(1,2) show ?thesis
    by (simp add: apply_save_pipeline_def saved_mapping_def)
qed

text \<open>C18: in any sequence of guarded writes, through any callers and failures, every write accepted on a
  note was given the hash of exactly the content the accepted write before it left there.\<close>

theorem guarded_writes_chain:
  assumes "ft_files t k = Some c" and "plain_path k"
  shows "chained hash (hash c) (accepted (write_as root hash) (write_key root) k ops t)"
  by (rule native.accepted_chained [OF assms(2,1)])

section \<open>Interleaved writers\<close>

definition no_faults :: IoFaults where
  "no_faults = \<lparr>io_read = (\<lambda>p. None), io_mkdir = (\<lambda>p. None), io_temp = (\<lambda>p. None),
     io_rename = (\<lambda>a b. None), io_remove = (\<lambda>p. None)\<rparr>"

definition demo_tree :: FileTree where
  "demo_tree = \<lparr>ft_files = [[''v'', ''a.md''] \<mapsto> ''old''], ft_dirs = {[], [''v'']}\<rparr>"

lemma replace_file_works:
  assumes "list_all (\<lambda>q. ft_files t q = None) (prefixes (parent_of root path))"
    and "at root path \<notin> ft_dirs t \<union> set (prefixes (parent_of root path))"
  shows "replace_file no_faults hash tag root path c t =
    (Inr (Written (hash c)),
     t\<lparr>ft_files := ((ft_files t)(sibling_temp_path tag root path := None))(at root path \<mapsto> c),
       ft_dirs := ft_dirs t \<union> set (prefixes (parent_of root path))\<rparr>)"
proof -
  have "\<not> list_ex (\<lambda>q. ft_files t q \<noteq> None) (prefixes (parent_of root path))"
    using assms(1) by (auto simp: list_all_iff list_ex_iff)
  then have m: "os_mkdir_all no_faults (parent_of root path) t =
      (Inr (), t\<lparr>ft_dirs := ft_dirs t \<union> set (prefixes (parent_of root path))\<rparr>)"
    by (simp only: os_mkdir_all_def no_faults_def IoFaults.simps option.case if_False)
  have w: "os_write no_faults p c u = (Inr (), u\<lparr>ft_files := (ft_files u)(p \<mapsto> c)\<rparr>)" for p u
    by (simp add: os_write_def no_faults_def)
  have n: "os_rename no_faults p q (u\<lparr>ft_files := (ft_files u)(p \<mapsto> c)\<rparr>) =
      (Inr (), u\<lparr>ft_files := ((ft_files u)(p := None))(q \<mapsto> c)\<rparr>)" if "q \<notin> ft_dirs u" for p q u
    using that by (simp add: os_rename_def no_faults_def)
  show ?thesis
    unfolding replace_file_def m w prod.case sum.case Let_def
    by (subst n) (use assms(2) in simp_all)
qed

text \<open>The check and the replacement of a guarded write are separate steps: of two writers who both
  check before either replaces the file, both are told their write was done, and the first is lost.\<close>

lemma interleaved_guards_lose:
  "\<exists>t1 t2. check_hash no_faults hash (at ''/v'' ''a.md'') (hash ''old'') demo_tree = Inr None \<and>
     replace_file no_faults hash ''1'' ''/v'' ''a.md'' ''first'' demo_tree = (Inr (Written (hash ''first'')), t1) \<and>
     replace_file no_faults hash ''2'' ''/v'' ''a.md'' ''second'' t1 = (Inr (Written (hash ''second'')), t2) \<and>
     ft_files t2 (at ''/v'' ''a.md'') = Some ''second''"
proof -
  have p: "at ''/v'' ''a.md'' = [''v'', ''a.md'']" "parent_of ''/v'' ''a.md'' = [''v'']"
    by (simp_all add: at_def parent_of_def path_join_def path_parts_def resolve_parts_def)
  let ?t1 = "snd (replace_file no_faults hash ''1'' ''/v'' ''a.md'' ''first'' demo_tree)"
  have temp: "sibling_temp_path tag root path \<noteq> [''v'', ''a.md'']" for tag root path
    using temp_not_plain [of tag root path] by (auto simp: plain_path_def suffix_def)
  have first: "replace_file no_faults hash ''1'' ''/v'' ''a.md'' ''first'' demo_tree = (Inr (Written (hash ''first'')), ?t1)"
    by (simp add: replace_file_works p demo_tree_def)
  have t1: "ft_files ?t1 q = None" if "q = [] \<or> q = [''v'']" for q
    using that by (auto simp: replace_file_works p demo_tree_def)
  have d1: "[''v'', ''a.md''] \<notin> ft_dirs ?t1" by (simp add: replace_file_works p demo_tree_def)
  obtain t2 where second: "replace_file no_faults hash ''2'' ''/v'' ''a.md'' ''second'' ?t1 = (Inr (Written (hash ''second'')), t2)"
    "ft_files t2 (at ''/v'' ''a.md'') = Some ''second''"
    using replace_file_works [of ?t1 "''/v''" "''a.md''" hash "''2''" "''second''"] t1 d1 by (simp add: p)
  moreover have "check_hash no_faults hash (at ''/v'' ''a.md'') (hash ''old'') demo_tree = Inr None"
    by (simp add: p check_hash_def os_read_def no_faults_def demo_tree_def)
  ultimately show ?thesis using first by blast
qed

section \<open>Witnesses\<close>

text \<open>A writer and a reader of one document.\<close>

definition demo_yaml :: string where
  "demo_yaml = ''created: t'' @ [CHR 0x0A] @ ''updated: t''"

definition demo_mapping :: yaml_map where
  "demo_mapping = [(YString ''created'', YString ''t''), (YString ''updated'', YString ''t'')]"

definition demo_reader :: yaml_reader where
  "demo_reader raw = (if raw = demo_yaml then Some (YMap demo_mapping) else Some YNull)"

definition demo_writer :: yaml_writer where
  "demo_writer y = (if y = YMap demo_mapping then Some (demo_yaml @ [CHR 0x0A]) else None)"

lemma demo_saved: "saved_mapping demo_writer ''t'' [] = demo_mapping"
  by (simp add: saved_mapping_def stamp_def ymap_has_def sort_mapping_eq demo_mapping_def yaml_key_sort_key_def)

lemma demo_reads_back: "yaml_reads_back demo_reader demo_writer (saved_mapping demo_writer ''t'' [])"
proof -
  have "serialize_frontmatter demo_writer demo_mapping = demo_yaml"
    by (simp add: serialize_frontmatter_def demo_writer_def demo_yaml_def trim_end_while_def)
  moreover have "no_delimiter (demo_yaml @ [CHR 0x0A])"
    by (simp add: no_delimiter_def demo_yaml_def trim_line_ending_def trim_end_while_def is_line_end_def)
  moreover have "trim_line_ending demo_yaml = demo_yaml"
    by (simp add: demo_yaml_def trim_line_ending_def trim_end_while_def is_line_end_def)
  moreover have "trim demo_yaml \<noteq> []"
  proof -
    have "trim demo_yaml = demo_yaml"
      by (rule trim_solid) (simp_all add: demo_yaml_def solid_def)
    then show ?thesis by (simp add: demo_yaml_def)
  qed
  ultimately show ?thesis
    by (simp add: yaml_reads_back_def demo_saved parse_frontmatter_mapping_def demo_reader_def)
qed

definition demo_note :: string where
  "demo_note = ''---'' @ [CHR 0x0A] @ ''---'' @ [CHR 0x0A] @ ''text  ''"

lemma demo_note_parts: "extract_frontmatter demo_note = (Some [], ''text  '')"
  by (simp add: extract_frontmatter_def demo_note_def trim_line_ending_def trim_end_while_def is_line_end_def)

lemma demo_note_mapping: "parse_frontmatter_mapping demo_reader [] = Some []"
  by (simp add: parse_frontmatter_mapping_def)

lemma save_stamps_witness:
  "\<exists>raw' m'. extract_frontmatter (apply_save_pipeline demo_reader demo_writer ''t'' demo_note) = (Some raw', saved_body ''text  '') \<and>
    parse_frontmatter_mapping demo_reader raw' = Some m' \<and>
    map_of m' = [YString ''created'' \<mapsto> YString ''t'', YString ''updated'' \<mapsto> YString ''t'']"
  using save_stamps [OF demo_note_parts demo_note_mapping _ demo_reads_back] by simp

lemma save_idempotent_witness:
  "apply_save_pipeline demo_reader demo_writer ''t'' (apply_save_pipeline demo_reader demo_writer ''t'' demo_note) =
     apply_save_pipeline demo_reader demo_writer ''t'' demo_note"
  by (rule save_idempotent [OF demo_note_parts demo_note_mapping _ demo_reads_back]) simp

lemma guarded_writes_chain_witness:
  "chained (\<lambda>c. c) ''old'' (accepted (write_as ''/v'' (\<lambda>c. c)) (write_key ''/v'') [''v'', ''a.md'']
     [((no_faults, ''1'', ''a.md''), ''old'', ''new''), ((no_faults, ''2'', ''a.md''), ''old'', ''lost'')] demo_tree)"
  by (rule guarded_writes_chain [where c = "''old''" and hash = "\<lambda>c. c"])
     (simp_all add: demo_tree_def plain_path_def suffix_def)

end
