(* ===== verification/Transcribe.thy ===== *)
theory Transcribe
  imports Servers
begin

text \<open>
  The transcription crate: rendering a transcript as a note (\<open>notesmith-transcribe/src/render.rs\<close>),
  the pending queue (\<open>queue.rs\<close>) as the list of its table rows, and one pass of the worker that
  drains it (\<open>worker.rs\<close>).  The speech engine, the audio download, the file system, the clock and
  the YAML and JSON libraries are fields of the world a pass runs in.
\<close>

section \<open>Transcripts\<close>

record TranscriptSegment =
  ts_start :: f64
  ts_end :: f64
  ts_text :: string
  ts_speaker :: "string option"

definition segment_new :: "f64 \<Rightarrow> f64 \<Rightarrow> string \<Rightarrow> TranscriptSegment" where
  "segment_new start end' text' = \<lparr>ts_start = start, ts_end = end', ts_text = text', ts_speaker = None\<rparr>"

definition segment_spoken :: "f64 \<Rightarrow> f64 \<Rightarrow> string \<Rightarrow> string \<Rightarrow> TranscriptSegment" where
  "segment_spoken start end' speaker text' =
     \<lparr>ts_start = start, ts_end = end', ts_text = text',
      ts_speaker = (if trim speaker = [] then None else Some (trim speaker))\<rparr>"

record Transcript =
  tr_language :: "string option"
  tr_segments :: "TranscriptSegment list"

definition full_text :: "Transcript \<Rightarrow> string" where
  "full_text t = join_str '' '' (filter (\<lambda>s. s \<noteq> []) (map (\<lambda>s. trim (ts_text s)) (tr_segments t)))"

datatype AudioInput = AudioPath string | AudioPcm "32 word list" nat

datatype TranscribeError =
    ModelUnavailable string
  | DecodeError string
  | Unsupported string
  | Backend string
  | QueueError string
  | IoError string

fun transcribe_error_text :: "TranscribeError \<Rightarrow> string" where
  "transcribe_error_text (ModelUnavailable m) = ''transcription model unavailable: '' @ m"
| "transcribe_error_text (DecodeError m) = ''audio decode failed: '' @ m"
| "transcribe_error_text (Unsupported m) = ''unsupported audio: '' @ m"
| "transcribe_error_text (Backend m) = ''transcription backend error: '' @ m"
| "transcribe_error_text (QueueError m) = ''transcription queue error: '' @ m"
| "transcribe_error_text (IoError m) = ''io error: '' @ m"

record AcquiredAudio =
  aa_audio :: AudioInput
  aa_title :: "string option"
  aa_channel :: "string option"
  aa_published :: "string option"
  aa_duration :: "nat option"

section \<open>Rendering\<close>

definition pad2 :: "nat \<Rightarrow> string" where
  "pad2 n = (if n < 10 then CHR ''0'' # show_nat n else show_nat n)"

definition format_timestamp :: "f64 \<Rightarrow> string" where
  "format_timestamp seconds =
     (let total = f64_nat seconds; h = total div 3600; m = total mod 3600 div 60; s = total mod 60
      in if 0 < h then show_nat h @ '':'' @ pad2 m @ '':'' @ pad2 s
         else show_nat m @ '':'' @ pad2 s)"

definition transcript_line :: "TranscriptSegment \<Rightarrow> string" where
  "transcript_line seg =
     (let stamp = format_timestamp (ts_start seg); body = trim (ts_text seg)
      in case map_option trim (ts_speaker seg) of
          Some name \<Rightarrow>
            if name \<noteq> [] then ''['' @ stamp @ ''] '' @ name @ '': '' @ body
            else ''['' @ stamp @ ''] '' @ body
        | None \<Rightarrow> ''['' @ stamp @ ''] '' @ body)"

definition transcript_body :: "TranscriptSegment list \<Rightarrow> string" where
  "transcript_body segments =
     join_str [CHR 0x0A] (map transcript_line (filter (\<lambda>seg. trim (ts_text seg) \<noteq> []) segments))"

record MediaMeta =
  mm_kind :: "string option"
  mm_title :: string
  mm_source :: string
  mm_source_type :: string
  mm_duration :: "nat option"
  mm_channel :: "string option"
  mm_published :: "string option"

definition insert_text :: "string \<Rightarrow> string option \<Rightarrow> yaml_map \<Rightarrow> yaml_map" where
  "insert_text key value m =
     (case value of
        Some v \<Rightarrow> if trim v \<noteq> [] then ymap_insert (YString key) (YString v) m else m
      | None \<Rightarrow> m)"

definition note_tags :: "string list \<Rightarrow> yaml list" where
  "note_tags extra_tags =
     YString ''inbox'' #
       map YString (filter (\<lambda>tag. tag \<noteq> [] \<and> tag \<noteq> ''inbox'') (map trim extra_tags))"

definition media_frontmatter :: "MediaMeta \<Rightarrow> Transcript \<Rightarrow> string \<Rightarrow> string list \<Rightarrow> yaml_map" where
  "media_frontmatter meta transcript ingested_at extra_tags =
     (let fm = insert_text ''kind'' (mm_kind meta) [];
          title = (if trim (mm_title meta) = [] then mm_source meta else mm_title meta);
          fm = ymap_insert (YString ''title'') (YString title) fm;
          fm = ymap_insert (YString ''source_url'') (YString (mm_source meta)) fm;
          fm = ymap_insert (YString ''source_type'') (YString (mm_source_type meta)) fm;
          fm = insert_text ''channel'' (mm_channel meta) fm;
          fm = insert_text ''published'' (mm_published meta) fm;
          fm = (case mm_duration meta of
                  Some d \<Rightarrow> ymap_insert (YString ''duration'') (YNumber (PosInt d)) fm | None \<Rightarrow> fm);
          fm = (case tr_language transcript of
                  Some l \<Rightarrow> ymap_insert (YString ''language'') (YString l) fm | None \<Rightarrow> fm);
          fm = ymap_insert (YString ''ingested_at'') (YString ingested_at) fm
      in ymap_insert (YString ''tags'') (YSeq (note_tags extra_tags)) fm)"

definition note_frontmatter :: "MediaMeta \<Rightarrow> Transcript \<Rightarrow> string list \<Rightarrow> string \<Rightarrow> yaml_map \<Rightarrow> yaml_map" where
  "note_frontmatter meta transcript extra_tags now extra_frontmatter =
     fold (\<lambda>(key, v) fm. ymap_insert key v fm) extra_frontmatter
       (media_frontmatter meta transcript now extra_tags)"

text \<open>\<open>to_yaml\<close> is \<open>serde_yaml::to_string\<close>, \<open>now\<close> the RFC 3339 text of the time.\<close>

definition render_transcript_note_with_frontmatter ::
  "(yaml \<Rightarrow> string option) \<Rightarrow> MediaMeta \<Rightarrow> Transcript \<Rightarrow> string list \<Rightarrow> string \<Rightarrow> yaml_map \<Rightarrow> string" where
  "render_transcript_note_with_frontmatter to_yaml meta transcript extra_tags now extra_frontmatter =
     (let fm = note_frontmatter meta transcript extra_tags now extra_frontmatter;
          body = transcript_body (tr_segments transcript);
          text' = trim_end (case to_yaml (YMap fm) of Some s \<Rightarrow> s | None \<Rightarrow> [])
      in ''---'' @ [CHR 0x0A] @ text' @ [CHR 0x0A] @ ''---'' @ [CHR 0x0A, CHR 0x0A] @ body @ [CHR 0x0A])"

definition render_transcript_note ::
  "(yaml \<Rightarrow> string option) \<Rightarrow> MediaMeta \<Rightarrow> Transcript \<Rightarrow> string list \<Rightarrow> string \<Rightarrow> string" where
  "render_transcript_note to_yaml meta transcript extra_tags now =
     render_transcript_note_with_frontmatter to_yaml meta transcript extra_tags now []"

section \<open>The queue\<close>

definition SOURCE_TYPE_AUDIO :: string where
  "SOURCE_TYPE_AUDIO = ''audio''"

definition SOURCE_TYPE_YOUTUBE :: string where
  "SOURCE_TYPE_YOUTUBE = ''youtube''"

definition QUEUE_SCHEMA_VERSION :: int where
  "QUEUE_SCHEMA_VERSION = 1"

datatype QueueStatus = QPending | QDone | QFailed

fun status_as_str :: "QueueStatus \<Rightarrow> string" where
  "status_as_str QPending = ''pending''"
| "status_as_str QDone = ''done''"
| "status_as_str QFailed = ''failed''"

definition status_from_str :: "string \<Rightarrow> QueueStatus" where
  "status_from_str s = (if s = ''done'' then QDone else if s = ''failed'' then QFailed else QPending)"

record NewQueueEntry =
  nq_source_url :: string
  nq_source_type :: string
  nq_audio_path :: "string option"
  nq_meta_json :: string

definition local_audio :: "string \<Rightarrow> string \<Rightarrow> NewQueueEntry" where
  "local_audio source_url audio_path =
     \<lparr>nq_source_url = source_url, nq_source_type = SOURCE_TYPE_AUDIO, nq_audio_path = Some audio_path,
      nq_meta_json = ''{}''\<rparr>"

text \<open>A row of \<open>pending_transcription\<close>; its status is the stored text.\<close>

record QueueRow =
  qr_id :: int
  qr_source_url :: string
  qr_source_type :: string
  qr_audio_path :: "string option"
  qr_meta_json :: string
  qr_status :: string
  qr_attempts :: int
  qr_last_error :: "string option"
  qr_note_path :: "string option"
  qr_created_at :: string
  qr_updated_at :: string

record QueueItem =
  qi_id :: int
  qi_source_url :: string
  qi_source_type :: string
  qi_audio_path :: "string option"
  qi_meta_json :: string
  qi_status :: QueueStatus
  qi_attempts :: int
  qi_note_path :: "string option"
  qi_last_error :: "string option"

datatype EnqueueOutcome = Inserted | Existed

definition ensure_schema :: "int option \<Rightarrow> QueueRow list \<Rightarrow> QueueRow list" where
  "ensure_schema current rows = (if current \<noteq> Some QUEUE_SCHEMA_VERSION then [] else rows)"

text \<open>The id SQLite gives a new row: one more than the largest in the table.\<close>

definition next_rowid :: "QueueRow list \<Rightarrow> int" where
  "next_rowid rows = foldr max (map qr_id rows) 0 + 1"

text \<open>\<open>err\<close> is the database error of the statement, if it fails.\<close>

definition enqueue ::
  "string option \<Rightarrow> string \<Rightarrow> NewQueueEntry \<Rightarrow> QueueRow list \<Rightarrow> (TranscribeError + EnqueueOutcome) \<times> QueueRow list" where
  "enqueue err now entry rows =
     (case err of
        Some e \<Rightarrow> (Inl (QueueError e), rows)
      | None \<Rightarrow>
          if list_ex (\<lambda>r. qr_source_url r = nq_source_url entry) rows then (Inr Existed, rows)
          else (Inr Inserted, rows @
            [\<lparr>qr_id = next_rowid rows, qr_source_url = nq_source_url entry,
              qr_source_type = nq_source_type entry, qr_audio_path = nq_audio_path entry,
              qr_meta_json = nq_meta_json entry, qr_status = ''pending'', qr_attempts = 0,
              qr_last_error = None, qr_note_path = None, qr_created_at = now, qr_updated_at = now\<rparr>]))"

definition claimable :: "int \<Rightarrow> QueueRow \<Rightarrow> bool" where
  "claimable max_attempts r \<longleftrightarrow>
     qr_status r = ''pending'' \<or> qr_status r = ''failed'' \<and> qr_attempts r < max_attempts"

definition item_of_row :: "QueueRow \<Rightarrow> QueueItem" where
  "item_of_row r =
     \<lparr>qi_id = qr_id r, qi_source_url = qr_source_url r, qi_source_type = qr_source_type r,
      qi_audio_path = qr_audio_path r, qi_meta_json = qr_meta_json r,
      qi_status = status_from_str (qr_status r), qi_attempts = qr_attempts r,
      qi_note_path = qr_note_path r, qi_last_error = qr_last_error r\<rparr>"

text \<open>\<open>LIMIT\<close> with \<open>limit as i64\<close>: a limit that becomes negative is no limit.\<close>

definition sql_limit :: "nat \<Rightarrow> 'a list \<Rightarrow> 'a list" where
  "sql_limit limit xs = (if limit < 2 ^ 63 then take limit xs else xs)"

definition claim_rows :: "nat \<Rightarrow> int \<Rightarrow> QueueRow list \<Rightarrow> QueueRow list" where
  "claim_rows limit max_attempts rows = sql_limit limit (sort_key qr_id (filter (claimable max_attempts) rows))"

definition claim :: "string option \<Rightarrow> nat \<Rightarrow> int \<Rightarrow> QueueRow list \<Rightarrow> TranscribeError + QueueItem list" where
  "claim err limit max_attempts rows =
     (case err of
        Some e \<Rightarrow> Inl (QueueError e)
      | None \<Rightarrow> Inr (map item_of_row (claim_rows limit max_attempts rows)))"

definition set_done :: "string \<Rightarrow> string \<Rightarrow> QueueRow \<Rightarrow> QueueRow" where
  "set_done now note_path r =
     r\<lparr>qr_status := ''done'', qr_note_path := Some note_path, qr_last_error := None, qr_updated_at := now\<rparr>"

definition set_failed :: "string \<Rightarrow> string \<Rightarrow> QueueRow \<Rightarrow> QueueRow" where
  "set_failed now msg r =
     r\<lparr>qr_status := ''failed'', qr_attempts := qr_attempts r + 1, qr_last_error := Some msg, qr_updated_at := now\<rparr>"

definition mark_done ::
  "string option \<Rightarrow> string \<Rightarrow> int \<Rightarrow> string \<Rightarrow> QueueRow list \<Rightarrow> (TranscribeError + unit) \<times> QueueRow list" where
  "mark_done err now i note_path rows =
     (case err of
        Some e \<Rightarrow> (Inl (QueueError e), rows)
      | None \<Rightarrow> (Inr (), map (\<lambda>r. if qr_id r = i then set_done now note_path r else r) rows))"

definition mark_failed ::
  "string option \<Rightarrow> string \<Rightarrow> int \<Rightarrow> string \<Rightarrow> QueueRow list \<Rightarrow> (TranscribeError + unit) \<times> QueueRow list" where
  "mark_failed err now i msg rows =
     (case err of
        Some e \<Rightarrow> (Inl (QueueError e), rows)
      | None \<Rightarrow> (Inr (), map (\<lambda>r. if qr_id r = i then set_failed now msg r else r) rows))"

definition queue_count :: "string option \<Rightarrow> QueueStatus \<Rightarrow> QueueRow list \<Rightarrow> TranscribeError + int" where
  "queue_count err status rows =
     (case err of
        Some e \<Rightarrow> Inl (QueueError e)
      | None \<Rightarrow> Inr (int (length (filter (\<lambda>r. qr_status r = status_as_str status) rows))))"

section \<open>The worker\<close>

definition DEFAULT_MAX_ATTEMPTS :: int where
  "DEFAULT_MAX_ATTEMPTS = 5"

definition DEFAULT_BATCH_SIZE :: nat where
  "DEFAULT_BATCH_SIZE = 16"

record TranscribeReport =
  rep_transcribed :: nat
  rep_failed :: nat
  rep_skipped :: nat
  rep_notes :: "string list"

definition report_default :: TranscribeReport where
  "report_default = \<lparr>rep_transcribed = 0, rep_failed = 0, rep_skipped = 0, rep_notes = []\<rparr>"

record TranscribeWorker =
  tw_transcribe :: "AudioInput \<Rightarrow> TranscribeError + Transcript"
  tw_acquirer :: "(string \<Rightarrow> TranscribeError + AcquiredAudio) option"
  tw_notes_dir :: string
  tw_max_attempts :: int
  tw_batch_size :: nat

definition worker_new :: "(AudioInput \<Rightarrow> TranscribeError + Transcript) \<Rightarrow> string \<Rightarrow> TranscribeWorker" where
  "worker_new transcriber notes_dir =
     \<lparr>tw_transcribe = transcriber, tw_acquirer = None, tw_notes_dir = notes_dir,
      tw_max_attempts = DEFAULT_MAX_ATTEMPTS, tw_batch_size = DEFAULT_BATCH_SIZE\<rparr>"

definition with_acquirer :: "(string \<Rightarrow> TranscribeError + AcquiredAudio) \<Rightarrow> TranscribeWorker \<Rightarrow> TranscribeWorker" where
  "with_acquirer acquirer w = w\<lparr>tw_acquirer := Some acquirer\<rparr>"

text \<open>
  The world of a pass: which paths are files, the failures of creating the notes directory and of
  writing a file (with what the failed write leaves in it), the clock, the errors of the database
  statements, and the serializers.
\<close>

record PassWorld =
  pw_is_file :: "string \<Rightarrow> bool"
  pw_mkdir_error :: "string option"
  pw_write_error :: "string \<Rightarrow> (string \<times> string option) option"
  pw_now :: "int \<Rightarrow> string"
  pw_claim_error :: "string option"
  pw_mark_error :: "int \<Rightarrow> string option"
  pw_to_yaml :: "yaml \<Rightarrow> string option"
  pw_from_json :: "string \<Rightarrow> json option"

record ItemError =
  ie_stage :: string
  ie_message :: string

record QueuedMeta =
  qm_title :: "string option"
  qm_channel :: "string option"
  qm_published :: "string option"
  qm_duration :: "nat option"
  qm_video_id :: "string option"

definition json_field :: "json \<Rightarrow> string \<Rightarrow> json option" where
  "json_field value key = (case value of JObject kvs \<Rightarrow> json_get kvs key | _ \<Rightarrow> None)"

definition json_text :: "json \<Rightarrow> string \<Rightarrow> string option" where
  "json_text value key = (case json_field value key of Some (JString s) \<Rightarrow> Some s | _ \<Rightarrow> None)"

definition parse_meta_json :: "(string \<Rightarrow> json option) \<Rightarrow> string \<Rightarrow> QueuedMeta" where
  "parse_meta_json from_json meta_json =
     (case from_json meta_json of
        None \<Rightarrow> \<lparr>qm_title = None, qm_channel = None, qm_published = None, qm_duration = None, qm_video_id = None\<rparr>
      | Some value \<Rightarrow>
          \<lparr>qm_title = json_text value ''title'', qm_channel = json_text value ''channel'',
           qm_published = json_text value ''published'',
           qm_duration = (case json_field value ''duration'' of Some (JNumber (PosInt n)) \<Rightarrow> Some n | _ \<Rightarrow> None),
           qm_video_id = json_text value ''video_id''\<rparr>)"

definition stem_slug :: "string \<Rightarrow> string" where
  "stem_slug input =
     (let trimmed = trim_matches_char CHR ''-'' (slug_loop False input)
      in if trimmed = [] then ''audio'' else trimmed)"

definition show_int :: "int \<Rightarrow> string" where
  "show_int i = (if i < 0 then CHR ''-'' # show_nat (nat (- i)) else show_nat (nat i))"

definition note_filename :: "string \<Rightarrow> int \<Rightarrow> string" where
  "note_filename stem i = stem_slug stem @ ''-'' @ show_int i @ ''.md''"

type_synonym files = "string \<rightharpoonup> string"

definition write_note ::
  "PassWorld \<Rightarrow> TranscribeWorker \<Rightarrow> string \<Rightarrow> int \<Rightarrow> string \<Rightarrow> files \<Rightarrow> (string + string) \<times> files" where
  "write_note pw w stem i note fs =
     (case pw_mkdir_error pw of
        Some e \<Rightarrow> (Inl (''create notes dir: '' @ e), fs)
      | None \<Rightarrow>
          (let filename = note_filename stem i; full = path_join (tw_notes_dir w) filename
           in case pw_write_error pw full of
               Some (e, left) \<Rightarrow> (Inl (''write note: '' @ e), fs(full := left))
             | None \<Rightarrow>
                 (Inr ((case file_name (tw_notes_dir w) of Some n \<Rightarrow> n | None \<Rightarrow> ''transcribed'') @ ''/'' @ filename),
                  fs(full \<mapsto> note))))"

definition last_end :: "Transcript \<Rightarrow> nat option" where
  "last_end t = (if tr_segments t = [] then None else Some (f64_nat (ts_end (last (tr_segments t)))))"

definition item_error :: "string \<Rightarrow> string \<Rightarrow> ItemError" where
  "item_error stage message = \<lparr>ie_stage = stage, ie_message = message\<rparr>"

text \<open>What an item becomes before its note is written: skipped, failed, or the stem and the text of the note.\<close>

definition audio_note :: "PassWorld \<Rightarrow> TranscribeWorker \<Rightarrow> QueueItem \<Rightarrow> ItemError + (string \<times> string) option" where
  "audio_note pw w item =
     (case qi_audio_path item of
        None \<Rightarrow> Inl (item_error ''decode'' ''audio item has no audio_path'')
      | Some audio_path \<Rightarrow>
          if \<not> pw_is_file pw audio_path then
            Inl (item_error ''acquire'' (''audio file not found: '' @ audio_path))
          else
            (case tw_transcribe w (AudioPath audio_path) of
               Inl e \<Rightarrow> Inl (item_error ''transcribe'' (transcribe_error_text e))
             | Inr transcript \<Rightarrow>
                 (let title = (case file_stem audio_path of Some s \<Rightarrow> s | None \<Rightarrow> []);
                      meta = \<lparr>mm_kind = None, mm_title = title, mm_source = qi_source_url item,
                              mm_source_type = SOURCE_TYPE_AUDIO, mm_duration = last_end transcript,
                              mm_channel = None, mm_published = None\<rparr>;
                      note = render_transcript_note (pw_to_yaml pw) meta transcript [] (pw_now pw (qi_id item));
                      stem = (case file_stem audio_path of Some s \<Rightarrow> s | None \<Rightarrow> ''audio'')
                  in Inr (Some (stem, note)))))"

definition youtube_note :: "PassWorld \<Rightarrow> TranscribeWorker \<Rightarrow> QueueItem \<Rightarrow> ItemError + (string \<times> string) option" where
  "youtube_note pw w item =
     (case tw_acquirer w of
        None \<Rightarrow> Inr None
      | Some acquire \<Rightarrow>
          (case acquire (qi_source_url item) of
             Inl e \<Rightarrow> Inl (item_error ''acquire'' (transcribe_error_text e))
           | Inr acquired \<Rightarrow>
               (case tw_transcribe w (aa_audio acquired) of
                  Inl e \<Rightarrow> Inl (item_error ''transcribe'' (transcribe_error_text e))
                | Inr transcript \<Rightarrow>
                    (let queued = parse_meta_json (pw_from_json pw) (qi_meta_json item);
                         title = (case or_else (aa_title acquired) (qm_title queued) of
                                    Some t \<Rightarrow> t | None \<Rightarrow> qi_source_url item);
                         duration = or_else (or_else (aa_duration acquired) (qm_duration queued)) (last_end transcript);
                         meta = \<lparr>mm_kind = None, mm_title = title, mm_source = qi_source_url item,
                                 mm_source_type = SOURCE_TYPE_YOUTUBE, mm_duration = duration,
                                 mm_channel = or_else (aa_channel acquired) (qm_channel queued),
                                 mm_published = or_else (aa_published acquired) (qm_published queued)\<rparr>;
                         note = render_transcript_note (pw_to_yaml pw) meta transcript [] (pw_now pw (qi_id item));
                         stem = (case qm_video_id queued of
                                   Some s \<Rightarrow> if s \<noteq> [] then s else ''youtube'' | None \<Rightarrow> ''youtube'')
                     in Inr (Some (stem, note))))))"

definition item_note :: "PassWorld \<Rightarrow> TranscribeWorker \<Rightarrow> QueueItem \<Rightarrow> ItemError + (string \<times> string) option" where
  "item_note pw w item =
     (if qi_source_type item = SOURCE_TYPE_AUDIO then audio_note pw w item
      else if qi_source_type item = SOURCE_TYPE_YOUTUBE then youtube_note pw w item
      else Inr None)"

definition process_item ::
  "PassWorld \<Rightarrow> TranscribeWorker \<Rightarrow> QueueItem \<Rightarrow> files \<Rightarrow> (ItemError + string option) \<times> files" where
  "process_item pw w item fs =
     (case item_note pw w item of
        Inl e \<Rightarrow> (Inl e, fs)
      | Inr None \<Rightarrow> (Inr None, fs)
      | Inr (Some (stem, note)) \<Rightarrow>
          (case write_note pw w stem (qi_id item) note fs of
             (Inl e, fs') \<Rightarrow> (Inl (item_error ''normalize'' e), fs')
           | (Inr rel, fs') \<Rightarrow> (Inr (Some rel), fs')))"

type_synonym pass_state = "TranscribeReport \<times> QueueRow list \<times> files"

text \<open>The loop over the claimed items; an error of a queue write ends the pass.\<close>

fun run_items ::
  "PassWorld \<Rightarrow> TranscribeWorker \<Rightarrow> QueueItem list \<Rightarrow> pass_state \<Rightarrow> (TranscribeError + unit) \<times> pass_state" where
  "run_items pw w [] st = (Inr (), st)"
| "run_items pw w (item # items) (report, rows, fs) =
     (let now = pw_now pw (qi_id item); err = pw_mark_error pw (qi_id item)
      in case process_item pw w item fs of
          (Inr (Some note_rel), fs') \<Rightarrow>
            (case mark_done err now (qi_id item) note_rel rows of
               (Inl e, rows') \<Rightarrow> (Inl e, (report, rows', fs'))
             | (Inr _, rows') \<Rightarrow>
                 run_items pw w items
                   (report\<lparr>rep_transcribed := rep_transcribed report + 1, rep_notes := rep_notes report @ [note_rel]\<rparr>,
                    rows', fs'))
        | (Inr None, fs') \<Rightarrow>
            run_items pw w items (report\<lparr>rep_skipped := rep_skipped report + 1\<rparr>, rows, fs')
        | (Inl reason, fs') \<Rightarrow>
            (case mark_failed err now (qi_id item) (ie_message reason) rows of
               (Inl e, rows') \<Rightarrow> (Inl e, (report, rows', fs'))
             | (Inr _, rows') \<Rightarrow>
                 run_items pw w items (report\<lparr>rep_failed := rep_failed report + 1\<rparr>, rows', fs')))"

definition run_pass ::
  "PassWorld \<Rightarrow> TranscribeWorker \<Rightarrow> QueueRow list \<Rightarrow> files \<Rightarrow> (TranscribeError + TranscribeReport) \<times> QueueRow list \<times> files" where
  "run_pass pw w rows fs =
     (case claim (pw_claim_error pw) (tw_batch_size w) (tw_max_attempts w) rows of
        Inl e \<Rightarrow> (Inl e, rows, fs)
      | Inr items \<Rightarrow>
          (case run_items pw w items (report_default, rows, fs) of
             (Inl e, (_, rows', fs')) \<Rightarrow> (Inl e, rows', fs')
           | (Inr _, (report, rows', fs')) \<Rightarrow> (Inr report, rows', fs')))"

section \<open>The queue's invariant\<close>

definition row_ok :: "QueueRow \<Rightarrow> bool" where
  "row_ok r \<longleftrightarrow> 0 < qr_id r \<and> (\<exists>st. qr_status r = status_as_str st) \<and>
     0 \<le> qr_attempts r \<and> qr_attempts r \<le> DEFAULT_MAX_ATTEMPTS \<and>
     (qr_status r = ''pending'' \<longrightarrow> qr_attempts r = 0)"

definition queue_ok :: "QueueRow list \<Rightarrow> bool" where
  "queue_ok rows \<longleftrightarrow> distinct (map qr_id rows) \<and> distinct (map qr_source_url rows) \<and> list_all row_ok rows"

definition finished :: "QueueRow \<Rightarrow> bool" where
  "finished r \<longleftrightarrow> qr_status r = ''done'' \<or> qr_status r = ''failed'' \<and> qr_attempts r = DEFAULT_MAX_ATTEMPTS"

lemma finished_not_claimable: "finished r \<Longrightarrow> \<not> claimable DEFAULT_MAX_ATTEMPTS r"
  by (auto simp: finished_def claimable_def)

lemma next_rowid_fresh: "r \<in> set rows \<Longrightarrow> qr_id r < next_rowid rows"
  by (induction rows) (auto simp: next_rowid_def)

lemma next_rowid_pos: "0 < next_rowid rows"
  by (induction rows) (auto simp: next_rowid_def less_max_iff_disj)

lemma enqueue_ok: "queue_ok rows \<Longrightarrow> queue_ok (snd (enqueue err now entry rows))"
  using next_rowid_fresh [of _ rows] next_rowid_pos [of rows]
  by (cases err)
     (fastforce simp: enqueue_def queue_ok_def list_ex_iff row_ok_def DEFAULT_MAX_ATTEMPTS_def
       intro: exI [of _ QPending])+

lemma set_claim_rows: "set (claim_rows limit max_attempts rows) \<subseteq> {r \<in> set rows. claimable max_attempts r}"
  by (auto simp: claim_rows_def sql_limit_def dest: in_set_takeD)

lemma distinct_claim_ids: "distinct (map qr_id rows) \<Longrightarrow> distinct (map qr_id (claim_rows limit max_attempts rows))"
proof -
  assume "distinct (map qr_id rows)"
  then have "distinct rows" "inj_on qr_id (set rows)" by (auto simp: distinct_map)
  then show ?thesis
    by (auto simp: claim_rows_def sql_limit_def distinct_map inj_on_def dest!: in_set_takeD)
qed

section \<open>The effect of a pass\<close>

definition item_result :: "PassWorld \<Rightarrow> TranscribeWorker \<Rightarrow> QueueItem \<Rightarrow> ItemError + string option" where
  "item_result pw w item = fst (process_item pw w item Map.empty)"

lemma process_item_result: "fst (process_item pw w item fs) = item_result pw w item"
  by (auto simp: item_result_def process_item_def write_note_def Let_def split: sum.splits option.splits)

definition settle :: "PassWorld \<Rightarrow> ItemError + string option \<Rightarrow> QueueRow \<Rightarrow> QueueRow" where
  "settle pw res r =
     (case res of
        Inr (Some rel) \<Rightarrow> set_done (pw_now pw (qr_id r)) rel r
      | Inr None \<Rightarrow> r
      | Inl e \<Rightarrow> set_failed (pw_now pw (qr_id r)) (ie_message e) r)"

definition settle_all :: "PassWorld \<Rightarrow> TranscribeWorker \<Rightarrow> QueueItem list \<Rightarrow> QueueRow list \<Rightarrow> QueueRow list" where
  "settle_all pw w items rows =
     map (\<lambda>r. case find (\<lambda>it. qi_id it = qr_id r) items of
         Some it \<Rightarrow> settle pw (item_result pw w it) r | None \<Rightarrow> r) rows"

definition add_report :: "ItemError + string option \<Rightarrow> TranscribeReport \<Rightarrow> TranscribeReport" where
  "add_report res rep =
     (case res of
        Inr (Some rel) \<Rightarrow> rep\<lparr>rep_transcribed := rep_transcribed rep + 1, rep_notes := rep_notes rep @ [rel]\<rparr>
      | Inr None \<Rightarrow> rep\<lparr>rep_skipped := rep_skipped rep + 1\<rparr>
      | Inl e \<Rightarrow> rep\<lparr>rep_failed := rep_failed rep + 1\<rparr>)"

lemma settle_id [simp]: "qr_id (settle pw res r) = qr_id r"
  by (auto simp: settle_def set_done_def set_failed_def split: sum.splits option.splits)

lemma settle_url [simp]: "qr_source_url (settle pw res r) = qr_source_url r"
  by (auto simp: settle_def set_done_def set_failed_def split: sum.splits option.splits)

definition settle_first :: "PassWorld \<Rightarrow> TranscribeWorker \<Rightarrow> QueueItem \<Rightarrow> QueueRow list \<Rightarrow> QueueRow list" where
  "settle_first pw w item rows =
     map (\<lambda>r. if qr_id r = qi_id item then settle pw (item_result pw w item) r else r) rows"

text \<open>One item: the queue write fails and ends the pass, or the item's row is settled.\<close>

lemma settle_first_skip: "item_result pw w item = Inr None \<Longrightarrow> settle_first pw w item rows = rows"
  by (auto simp: settle_first_def settle_def intro: map_idI)

lemma run_items_step:
  "\<exists>fs'. fs' = snd (process_item pw w item fs) \<and>
     (run_items pw w (item # items) (rep, rows, fs) =
        run_items pw w items (add_report (item_result pw w item) rep, settle_first pw w item rows, fs') \<or>
      (\<exists>e. pw_mark_error pw (qi_id item) = Some e \<and>
        run_items pw w (item # items) (rep, rows, fs) = (Inl (QueueError e), (rep, rows, fs'))))"
proof -
  obtain res fs' where p: "process_item pw w item fs = (res, fs')" by fastforce
  then have res: "item_result pw w item = res" using process_item_result [of pw w item fs] by simp
  consider "res = Inr None" | rel where "res = Inr (Some rel)" | e where "res = Inl e"
    by (metis old.sum.exhaust option.exhaust)
  then show ?thesis
  proof cases
    case 1
    then show ?thesis using settle_first_skip [of pw w item rows] by (simp add: p res add_report_def)
  next
    case 2
    then show ?thesis
      by (cases "pw_mark_error pw (qi_id item)")
         (auto simp: p res mark_done_def settle_first_def settle_def add_report_def Let_def
           intro!: arg_cong [where f = "\<lambda>x. run_items pw w items (_, x, _)"])
  next
    case 3
    then show ?thesis
      by (cases "pw_mark_error pw (qi_id item)")
         (auto simp: p res mark_failed_def settle_first_def settle_def add_report_def Let_def
           intro!: arg_cong [where f = "\<lambda>x. run_items pw w items (_, x, _)"])
  qed
qed

lemma find_cons_rows:
  "qi_id item \<notin> qi_id ` set items \<Longrightarrow>
     settle_all pw w items (settle_first pw w item rows) = settle_all pw w (item # items) rows"
  by (auto simp: settle_all_def settle_first_def find_None_iff split: option.splits dest!: find_in)
     (metis imageI)+

lemma run_items_all:
  assumes "\<forall>i. pw_mark_error pw i = None" and "distinct (map qi_id items)"
  shows "\<exists>fs'. run_items pw w items (rep, rows, fs) =
    (Inr (), (fold (\<lambda>it. add_report (item_result pw w it)) items rep, settle_all pw w items rows, fs'))"
  using assms(2)
proof (induction items arbitrary: rep rows fs)
  case (Cons item items)
  let ?rep = "add_report (item_result pw w item) rep" and ?rows = "settle_first pw w item rows"
  obtain fs1 where "run_items pw w (item # items) (rep, rows, fs) = run_items pw w items (?rep, ?rows, fs1)"
    using assms(1) run_items_step [of pw w item fs items rep rows] by auto
  moreover obtain fs2 where "run_items pw w items (?rep, ?rows, fs1) =
      (Inr (), (fold (\<lambda>it. add_report (item_result pw w it)) items ?rep, settle_all pw w items ?rows, fs2))"
    using Cons.IH Cons.prems by fastforce
  ultimately show ?case using find_cons_rows Cons.prems by simp
qed (simp add: settle_all_def)

text \<open>Also when a queue write ends the loop, the rows of the items before it are settled.\<close>

lemma run_items_prefix:
  "distinct (map qi_id items) \<Longrightarrow>
     \<exists>k. fst (snd (snd (run_items pw w items (rep, rows, fs)))) = settle_all pw w (take k items) rows"
proof (induction items arbitrary: rep rows fs)
  case (Cons item items)
  let ?run = "\<lambda>items st. fst (snd (snd (run_items pw w items st)))"
  from run_items_step [of pw w item fs items rep rows] consider
    (go) rep1 fs1 where "run_items pw w (item # items) (rep, rows, fs) = run_items pw w items (rep1, settle_first pw w item rows, fs1)"
    | (stop) "?run (item # items) (rep, rows, fs) = rows" by fastforce
  then show ?case
  proof cases
    case go
    from Cons obtain k where "?run items (rep1, settle_first pw w item rows, fs1) =
        settle_all pw w (take k items) (settle_first pw w item rows)" by fastforce
    moreover have "qi_id item \<notin> qi_id ` set (take k items)" using Cons.prems by (auto dest: in_set_takeD)
    ultimately have "?run (item # items) (rep, rows, fs) = settle_all pw w (take (Suc k) (item # items)) rows"
      using go find_cons_rows by simp
    then show ?thesis by blast
  next
    case stop
    then have "?run (item # items) (rep, rows, fs) = settle_all pw w (take 0 (item # items)) rows"
      by (simp add: settle_all_def)
    then show ?thesis by blast
  qed
qed (simp add: settle_all_def)

lemma run_items_files:
  assumes "\<And>item fs. item \<in> set items \<Longrightarrow> snd (process_item pw w item fs) p = fs p"
  shows "snd (snd (snd (run_items pw w items (rep, rows, fs)))) p = fs p"
  using assms
proof (induction items arbitrary: rep rows fs)
  case (Cons item items)
  from Cons.prems have "snd (process_item pw w item fs) p = fs p" by simp
  with Cons run_items_step [of pw w item fs items rep rows] show ?case by (auto simp del: run_items.simps)
qed simp

text \<open>On rows with unique ids, settling the items of some rows settles exactly those rows.\<close>

lemma settle_all_rows:
  assumes "distinct (map qr_id rows)" and "set rs \<subseteq> set rows"
  shows "settle_all pw w (map item_of_row rs) rows =
    map (\<lambda>r. if r \<in> set rs then settle pw (item_result pw w (item_of_row r)) r else r) rows"
proof -
  have same: "r = r'" if "r \<in> set rows" "r' \<in> set rows" "qr_id r = qr_id r'" for r r'
    using assms(1) that by (auto simp: distinct_map inj_on_def)
  have "(case find (\<lambda>it. qi_id it = qr_id r) (map item_of_row rs) of
      Some it \<Rightarrow> settle pw (item_result pw w it) r | None \<Rightarrow> r) =
    (if r \<in> set rs then settle pw (item_result pw w (item_of_row r)) r else r)" if r: "r \<in> set rows" for r
  proof (cases "find (\<lambda>it. qi_id it = qr_id r) (map item_of_row rs)")
    case None
    then have "r \<notin> set rs" by (auto simp: find_None_iff item_of_row_def)
    with None show ?thesis by simp
  next
    case (Some it)
    from find_in [OF Some] obtain r' where "r' \<in> set rs" "it = item_of_row r'" "qr_id r' = qr_id r"
      by (auto simp: item_of_row_def)
    moreover from this have "r' = r" using same r assms(2) by blast
    ultimately show ?thesis using Some by simp
  qed
  then show ?thesis by (auto simp: settle_all_def)
qed

lemma claim_items_ids: "distinct (map qr_id rows) \<Longrightarrow> distinct (map qi_id (map item_of_row (claim_rows n k rows)))"
  using distinct_claim_ids [of rows n k] by (simp add: comp_def item_of_row_def)

lemma run_pass_rows:
  assumes "distinct (map qr_id rows)"
  shows "\<exists>rs. set rs \<subseteq> set (claim_rows (tw_batch_size w) (tw_max_attempts w) rows) \<and>
    fst (snd (run_pass pw w rows fs)) =
      map (\<lambda>r. if r \<in> set rs then settle pw (item_result pw w (item_of_row r)) r else r) rows"
proof (cases "pw_claim_error pw")
  case None
  let ?c = "claim_rows (tw_batch_size w) (tw_max_attempts w) rows"
  from run_items_prefix [OF claim_items_ids [OF assms]] obtain k where k:
    "fst (snd (snd (run_items pw w (map item_of_row ?c) (report_default, rows, fs)))) =
      settle_all pw w (map item_of_row (take k ?c)) rows"
    unfolding take_map by blast
  have sub: "set (take k ?c) \<subseteq> set rows" using set_claim_rows by (fastforce dest: in_set_takeD)
  have "fst (snd (run_pass pw w rows fs)) =
      fst (snd (snd (run_items pw w (map item_of_row ?c) (report_default, rows, fs))))"
    by (auto simp: run_pass_def claim_def None split: prod.splits sum.splits)
  with k settle_all_rows [OF assms sub, of pw w] show ?thesis
    by (intro exI [of _ "take k ?c"]) (auto dest: in_set_takeD)
next
  case (Some e)
  then show ?thesis by (intro exI [of _ "[]"]) (simp add: run_pass_def claim_def)
qed

lemma settle_row_ok: "row_ok r \<Longrightarrow> claimable DEFAULT_MAX_ATTEMPTS r \<Longrightarrow> row_ok (settle pw res r)"
proof -
  assume r: "row_ok r" "claimable DEFAULT_MAX_ATTEMPTS r"
  have "\<exists>st. ''done'' = status_as_str st" "\<exists>st. ''failed'' = status_as_str st"
    by (metis status_as_str.simps)+
  moreover have "qr_attempts r < DEFAULT_MAX_ATTEMPTS"
    using r by (auto simp: claimable_def row_ok_def DEFAULT_MAX_ATTEMPTS_def)
  ultimately show "row_ok (settle pw res r)" using r
    by (auto simp: row_ok_def settle_def set_done_def set_failed_def split: sum.splits option.splits)
qed

section \<open>Runs of the queue\<close>

definition worker_of ::
  "(AudioInput \<Rightarrow> TranscribeError + Transcript) \<Rightarrow> (string \<Rightarrow> TranscribeError + AcquiredAudio) option \<Rightarrow> string \<Rightarrow> TranscribeWorker" where
  "worker_of t acq dir =
     (case acq of None \<Rightarrow> worker_new t dir | Some a \<Rightarrow> with_acquirer a (worker_new t dir))"

lemma worker_of_limits [simp]:
  "tw_max_attempts (worker_of t acq dir) = DEFAULT_MAX_ATTEMPTS"
  "tw_batch_size (worker_of t acq dir) = DEFAULT_BATCH_SIZE"
  "tw_acquirer (worker_of t acq dir) = acq"
  "tw_notes_dir (worker_of t acq dir) = dir"
  by (cases acq; simp add: worker_of_def worker_new_def with_acquirer_def)+

datatype QueueOp =
    EnqueueOp "string option" string NewQueueEntry
  | PassOp PassWorld "AudioInput \<Rightarrow> TranscribeError + Transcript" "(string \<Rightarrow> TranscribeError + AcquiredAudio) option" string

fun queue_step :: "QueueOp \<Rightarrow> QueueRow list \<times> files \<Rightarrow> QueueRow list \<times> files" where
  "queue_step (EnqueueOp err now entry) (rows, fs) = (snd (enqueue err now entry rows), fs)"
| "queue_step (PassOp pw t acq dir) (rows, fs) = snd (run_pass pw (worker_of t acq dir) rows fs)"

lemma queue_step_rows:
  assumes "queue_ok rows"
  shows "queue_ok (fst (queue_step x (rows, fs))) \<and>
    {r \<in> set rows. finished r} \<subseteq> set (fst (queue_step x (rows, fs)))"
proof (cases x)
  case (EnqueueOp err now entry)
  then show ?thesis using enqueue_ok [OF assms, of err now entry] by (cases err) (auto simp: enqueue_def)
next
  case (PassOp pw t acq dir)
  let ?w = "worker_of t acq dir"
  from assms have d: "distinct (map qr_id rows)" by (simp add: queue_ok_def)
  obtain rs where rs: "set rs \<subseteq> set (claim_rows DEFAULT_BATCH_SIZE DEFAULT_MAX_ATTEMPTS rows)"
    "fst (snd (run_pass pw ?w rows fs)) =
       map (\<lambda>r. if r \<in> set rs then settle pw (item_result pw ?w (item_of_row r)) r else r) rows"
    using run_pass_rows [OF d, of ?w pw fs] by auto
  have c: "claimable DEFAULT_MAX_ATTEMPTS r" if "r \<in> set rs" for r using rs(1) set_claim_rows that by fastforce
  have keep: "map qr_id (fst (snd (run_pass pw ?w rows fs))) = map qr_id rows"
    "map qr_source_url (fst (snd (run_pass pw ?w rows fs))) = map qr_source_url rows"
    by (auto simp: rs(2))
  have "list_all row_ok (fst (snd (run_pass pw ?w rows fs)))"
    using assms c by (auto simp: rs(2) queue_ok_def list_all_iff settle_row_ok)
  with keep assms have "queue_ok (fst (snd (run_pass pw ?w rows fs)))" by (simp add: queue_ok_def)
  moreover have "{r \<in> set rows. finished r} \<subseteq> set (fst (snd (run_pass pw ?w rows fs)))"
    using c finished_not_claimable by (force simp: rs(2))
  ultimately show ?thesis using PassOp by simp
qed

interpretation transcription: op_machine queue_step "\<lambda>st. queue_ok (fst st)"
  by unfold_locales (metis queue_step_rows surjective_pairing)

lemma finished_kept:
  "queue_ok (fst st) \<Longrightarrow> {r \<in> set (fst st). finished r} \<subseteq> set (fst (fold queue_step ops st))"
proof (induction ops arbitrary: st)
  case (Cons x ops)
  let ?st = "queue_step x st"
  have "{r \<in> set (fst st). finished r} \<subseteq> {r \<in> set (fst ?st). finished r}"
    using queue_step_rows [OF Cons.prems, of x "snd st"] by auto
  also have "\<dots> \<subseteq> set (fst (fold queue_step ops ?st))"
    by (rule Cons.IH) (rule transcription.step_inv [OF Cons.prems])
  finally show ?case by simp
qed auto

section \<open>Names of notes\<close>

lemma show_nat_no_hyphen: "CHR ''-'' \<notin> set (show_nat n)"
  using show_nat_digits [of n] by (auto simp: list_all_iff is_digit_def)

lemma last_hyphen:
  assumes "c \<notin> set u" and "c \<notin> set v"
  shows "a @ c # u = b @ c # v \<longleftrightarrow> a = b \<and> u = v"
proof
  assume eq: "a @ c # u = b @ c # v"
  have tail: "takeWhile (\<lambda>x. x \<noteq> c) (rev (x @ c # w)) = rev w" if "c \<notin> set w" for x w
    using that by (auto simp: takeWhile_append2 takeWhile_tail)
  have "rev u = rev v" using tail [OF assms(1), of a] tail [OF assms(2), of b] by (simp add: eq)
  then show "a = b \<and> u = v" using eq by simp
qed simp

lemma note_filename_eq:
  assumes "0 \<le> i" and "0 \<le> j"
  shows "note_filename s i = note_filename t j \<longleftrightarrow> stem_slug s = stem_slug t \<and> i = j"
proof -
  have name: "note_filename s (int n) = stem_slug s @ CHR ''-'' # (show_nat n @ ''.md'')" for s n
    by (simp add: note_filename_def show_int_def)
  have no: "CHR ''-'' \<notin> set (show_nat n @ ''.md'')" for n using show_nat_no_hyphen by simp
  from assms obtain m n where mn: "i = int m" "j = int n" by (metis nonneg_int_cases)
  show ?thesis unfolding mn name last_hyphen [OF no no] by simp
qed

lemma stem_slug_not_absolute: "\<not> prefix ''/'' (note_filename stem i)"
proof -
  have "\<exists>c t. stem_slug stem = c # t \<and> c \<noteq> CHR ''/''"
  proof (cases "slugify stem")
    case Nil
    then show ?thesis by (simp add: stem_slug_def slugify_def)
  next
    case (Cons c t)
    have "slug_shape False (slugify stem)" by (rule slugify_shape)
    with Cons have "c = CHR ''-'' \<or> slug_char c" by (auto split: if_splits)
    then have "c \<noteq> CHR ''/''" by (auto simp: slug_char_def ascii_alnum_def)
    with Cons show ?thesis by (simp add: stem_slug_def slugify_def)
  qed
  then show ?thesis by (auto simp: note_filename_def)
qed

lemma path_join_relative:
  "\<not> prefix ''/'' a \<Longrightarrow> \<not> prefix ''/'' b \<Longrightarrow> path_join dir a = path_join dir b \<longleftrightarrow> a = b"
  by (simp add: path_join_def)

lemma process_item_files:
  assumes "0 \<le> qi_id item" and "0 \<le> i" and "i \<noteq> qi_id item"
  shows "snd (process_item pw w item fs) (path_join (tw_notes_dir w) (note_filename stem i)) =
    fs (path_join (tw_notes_dir w) (note_filename stem i))"
proof -
  have "path_join (tw_notes_dir w) (note_filename s (qi_id item)) \<noteq> path_join (tw_notes_dir w) (note_filename stem i)" for s
    using path_join_relative [OF stem_slug_not_absolute stem_slug_not_absolute] note_filename_eq [OF assms(1,2)] assms(3) by auto
  note no = this this [symmetric]
  show ?thesis
    by (simp add: process_item_def write_note_def Let_def no split: sum.split option.split prod.split)
qed

section \<open>Reports\<close>

fun note_of :: "ItemError + string option \<Rightarrow> string option" where
  "note_of (Inr res) = res"
| "note_of (Inl e) = None"

lemma fold_report:
  "fold add_report results rep =
     \<lparr>rep_transcribed = rep_transcribed rep + length (List.map_filter note_of results),
      rep_failed = rep_failed rep + length (filter isl results),
      rep_skipped = rep_skipped rep + length (filter (\<lambda>res. res = Inr None) results),
      rep_notes = rep_notes rep @ List.map_filter note_of results\<rparr>"
proof (induction results arbitrary: rep)
  case (Cons res results)
  consider "res = Inr None" | rel where "res = Inr (Some rel)" | e where "res = Inl e"
    by (metis old.sum.exhaust option.exhaust)
  then show ?case using Cons by cases (simp_all add: add_report_def List.map_filter_simps)
qed (simp add: List.map_filter_simps)

section \<open>Properties\<close>

text \<open>C16: from an empty queue, whatever is enqueued and whatever passes run (with any failures of the
  database, the engine, the files), every source has one row with at most five attempts, and a row
  that is transcribed or has failed five times is never changed again.\<close>

theorem queue_rows_final:
  "queue_ok (fst (fold queue_step ops ([], fs))) \<and>
   {r \<in> set (fst (fold queue_step ops ([], fs))). finished r}
     \<subseteq> set (fst (fold queue_step later (fold queue_step ops ([], fs))))"
proof -
  have "queue_ok (fst (fold queue_step ops ([], fs)))"
    by (rule transcription.run_inv) (simp add: queue_ok_def)
  with finished_kept show ?thesis by blast
qed

text \<open>C17: a pass without database errors claims the lowest claimable rows up to the batch size, settles
  exactly those, each by its own outcome, and reports the outcomes.\<close>

theorem pass_settles_claimed:
  assumes "queue_ok rows" and "pw_claim_error pw = None" and "pw_mark_error pw = (\<lambda>i. None)"
    and "rs = claim_rows (tw_batch_size w) (tw_max_attempts w) rows"
    and "results = map (\<lambda>r. item_result pw w (item_of_row r)) rs"
  shows "\<exists>fs'. run_pass pw w rows fs =
    (Inr \<lparr>rep_transcribed = length (List.map_filter note_of results), rep_failed = length (filter isl results),
          rep_skipped = length (filter (\<lambda>res. res = Inr None) results),
          rep_notes = List.map_filter note_of results\<rparr>,
     map (\<lambda>r. if r \<in> set rs then settle pw (item_result pw w (item_of_row r)) r else r) rows, fs')"
proof -
  from assms(1) have d: "distinct (map qr_id rows)" by (simp add: queue_ok_def)
  have sub: "set rs \<subseteq> set rows" using set_claim_rows by (fastforce simp: assms(4))
  have "distinct (map qi_id (map item_of_row rs))" unfolding assms(4) by (rule claim_items_ids [OF d])
  from run_items_all [OF _ this, of pw w report_default rows fs] assms(3) obtain fs' where
    "run_items pw w (map item_of_row rs) (report_default, rows, fs) =
      (Inr (), (fold add_report results report_default, settle_all pw w (map item_of_row rs) rows, fs'))"
    by (auto simp: assms(5) fold_map comp_def)
  then have "run_pass pw w rows fs = (Inr (fold add_report results report_default), settle_all pw w (map item_of_row rs) rows, fs')"
    by (simp add: run_pass_def claim_def assms(2) flip: assms(4))
  then show ?thesis by (simp add: settle_all_rows [OF d sub] fold_report report_default_def)
qed

text \<open>A pass, also one that a database error ends, never touches the note of a row it has not claimed.\<close>

lemma other_notes_untouched:
  assumes "queue_ok rows" and "r \<in> set rows"
    and "r \<notin> set (claim_rows (tw_batch_size w) (tw_max_attempts w) rows)"
  shows "snd (snd (run_pass pw w rows fs)) (path_join (tw_notes_dir w) (note_filename stem (qr_id r))) =
    fs (path_join (tw_notes_dir w) (note_filename stem (qr_id r)))"
proof (cases "pw_claim_error pw")
  case None
  let ?c = "claim_rows (tw_batch_size w) (tw_max_attempts w) rows"
  let ?p = "path_join (tw_notes_dir w) (note_filename stem (qr_id r))"
  have pos: "0 < qr_id x" if "x \<in> set rows" for x
    using assms(1) that by (auto simp: queue_ok_def list_all_iff row_ok_def)
  have "snd (process_item pw w item fs) ?p = fs ?p" if "item \<in> set (map item_of_row ?c)" for item fs
  proof (rule process_item_files)
    from that obtain x where x: "x \<in> set ?c" "qi_id item = qr_id x" by (auto simp: item_of_row_def)
    with set_claim_rows have xr: "x \<in> set rows" by fastforce
    with pos x show "0 \<le> qi_id item" by fastforce
    show "0 \<le> qr_id r" using pos [OF assms(2)] by simp
    show "qr_id r \<noteq> qi_id item"
      using assms(1,2,3) x xr by (auto simp: queue_ok_def distinct_map inj_on_def)
  qed
  then have "snd (snd (snd (run_items pw w (map item_of_row ?c) (report_default, rows, fs)))) ?p = fs ?p"
    by (rule run_items_files)
  moreover obtain res rep rows' fs' where
    "run_items pw w (map item_of_row ?c) (report_default, rows, fs) = (res, (rep, rows', fs'))" by (metis surj_pair)
  ultimately show ?thesis by (cases res) (simp_all add: run_pass_def claim_def None)
qed (simp add: run_pass_def claim_def)

text \<open>Items that are skipped keep their place: when a whole batch of the lowest claimable rows are
  videos and no downloader is configured, no number of passes changes anything, and rows behind
  them are never processed.\<close>

lemma skipped_batch_blocks_queue:
  assumes "list_all (\<lambda>r. qr_source_type r \<noteq> SOURCE_TYPE_AUDIO) (claim_rows DEFAULT_BATCH_SIZE DEFAULT_MAX_ATTEMPTS rows)"
  shows "fold (\<lambda>(pw, t). queue_step (PassOp pw t None dir)) passes (rows, fs) = (rows, fs)"
proof -
  let ?c = "claim_rows DEFAULT_BATCH_SIZE DEFAULT_MAX_ATTEMPTS rows"
  have skip: "run_items pw (worker_of t None dir) (map item_of_row rs) (rep, rows, fs) =
      (Inr (), (rep\<lparr>rep_skipped := rep_skipped rep + length rs\<rparr>, rows, fs))"
    if "list_all (\<lambda>r. qr_source_type r \<noteq> SOURCE_TYPE_AUDIO) rs" for pw t rep rs
    using that
    by (induction rs arbitrary: rep)
       (simp_all add: process_item_def item_note_def youtube_note_def item_of_row_def Let_def)
  have "queue_step (PassOp pw t None dir) (rows, fs) = (rows, fs)" for pw t
    using skip [OF assms, of pw t report_default]
    by (cases "pw_claim_error pw") (simp_all add: run_pass_def claim_def)
  then show ?thesis by (induction passes) auto
qed

section \<open>Witnesses\<close>

definition demo_row :: "string \<Rightarrow> nat \<Rightarrow> QueueRow" where
  "demo_row kind i =
     \<lparr>qr_id = int i, qr_source_url = show_nat i, qr_source_type = kind, qr_audio_path = Some ''/a.wav'',
      qr_meta_json = ''{}'', qr_status = ''pending'', qr_attempts = 0, qr_last_error = None,
      qr_note_path = None, qr_created_at = [], qr_updated_at = []\<rparr>"

definition demo_world :: PassWorld where
  "demo_world =
     \<lparr>pw_is_file = (\<lambda>p. True), pw_mkdir_error = None, pw_write_error = (\<lambda>p. None), pw_now = (\<lambda>i. ''now''),
      pw_claim_error = None, pw_mark_error = (\<lambda>i. None), pw_to_yaml = (\<lambda>y. None), pw_from_json = (\<lambda>s. None)\<rparr>"

definition demo_engine :: "AudioInput \<Rightarrow> TranscribeError + Transcript" where
  "demo_engine a = Inr \<lparr>tr_language = None, tr_segments = []\<rparr>"

definition demo_queue :: "QueueRow list" where
  "demo_queue = map (demo_row SOURCE_TYPE_YOUTUBE) [1..<17] @ [demo_row SOURCE_TYPE_AUDIO 17]"

lemma pending_claimable: "claimable k (demo_row kind i)"
  by (simp add: claimable_def demo_row_def)

lemma demo_queue_claim:
  "claim_rows DEFAULT_BATCH_SIZE DEFAULT_MAX_ATTEMPTS demo_queue = map (demo_row SOURCE_TYPE_YOUTUBE) [1..<17]"
proof -
  have "filter (claimable DEFAULT_MAX_ATTEMPTS) demo_queue = demo_queue"
    by (auto simp: demo_queue_def pending_claimable filter_id_conv)
  moreover have "sorted (map qr_id demo_queue)"
    by (auto simp: demo_queue_def demo_row_def sorted_append comp_def sorted_map)
  ultimately show ?thesis
    by (simp add: claim_rows_def sql_limit_def DEFAULT_BATCH_SIZE_def sorted_sort_id sort_key_id_if_sorted demo_queue_def)
qed

lemma skipped_batch_blocks_queue_witness:
  "fold (\<lambda>(pw, t). queue_step (PassOp pw t None ''n'')) [(demo_world, demo_engine)] (demo_queue, Map.empty) =
     (demo_queue, Map.empty)"
  by (rule skipped_batch_blocks_queue)
     (auto simp: demo_queue_claim list_all_iff demo_row_def SOURCE_TYPE_AUDIO_def SOURCE_TYPE_YOUTUBE_def)

lemma demo_two_ok: "queue_ok [demo_row SOURCE_TYPE_AUDIO 1, demo_row SOURCE_TYPE_AUDIO 2]"
  by (auto simp: queue_ok_def row_ok_def demo_row_def DEFAULT_MAX_ATTEMPTS_def intro: exI [of _ QPending])

lemma pass_settles_claimed_witness:
  "\<exists>results rs fs'. run_pass demo_world (worker_new demo_engine ''/n'') [demo_row SOURCE_TYPE_AUDIO 1, demo_row SOURCE_TYPE_AUDIO 2] Map.empty =
    (Inr \<lparr>rep_transcribed = length (List.map_filter note_of results), rep_failed = length (filter isl results),
          rep_skipped = length (filter (\<lambda>res. res = Inr None) results),
          rep_notes = List.map_filter note_of results\<rparr>,
     map (\<lambda>r. if r \<in> set rs then settle demo_world (item_result demo_world (worker_new demo_engine ''/n'') (item_of_row r)) r else r)
       [demo_row SOURCE_TYPE_AUDIO 1, demo_row SOURCE_TYPE_AUDIO 2], fs')"
  using pass_settles_claimed [OF demo_two_ok _ _ refl refl, of demo_world "worker_new demo_engine ''/n''" Map.empty]
  by (fastforce simp: demo_world_def)

lemma other_notes_untouched_witness:
  "snd (snd (run_pass demo_world ((worker_new demo_engine ''/n'')\<lparr>tw_batch_size := 1\<rparr>)
     [demo_row SOURCE_TYPE_AUDIO 1, demo_row SOURCE_TYPE_AUDIO 2] Map.empty))
     (path_join ''/n'' (note_filename ''a'' 2)) = None"
proof -
  let ?w = "(worker_new demo_engine ''/n'')\<lparr>tw_batch_size := 1\<rparr>"
  have "demo_row SOURCE_TYPE_AUDIO 2 \<notin>
      set (claim_rows (tw_batch_size ?w) (tw_max_attempts ?w) [demo_row SOURCE_TYPE_AUDIO 1, demo_row SOURCE_TYPE_AUDIO 2])"
    by (simp add: claim_rows_def sql_limit_def pending_claimable) (simp add: demo_row_def)
  from other_notes_untouched [OF demo_two_ok _ this, of demo_world Map.empty "''a''"] show ?thesis
    by (simp add: demo_row_def worker_new_def)
qed

end
