(* ===== verification/Routing.thy ===== *)
theory Routing
  imports Vault "HOL-Library.AList"
begin

text \<open>
  Routing (\<open>notesmith-routing/src/lib.rs\<close>): predicates over a note's fields, tags and path, the
  mutations of a rule, the rendering of its destination and the filing of the note through the
  native engine.  The YAML library, the template engine, the glob matcher, the date parser and the
  table of Unicode letters are fields of \<open>RouteLib\<close>.
\<close>

section \<open>Types\<close>

datatype OnExists = SkipExisting | OverwriteExisting | RenameNew

definition default_on_exists :: OnExists where
  "default_on_exists = SkipExisting"

datatype Predicate =
    All_pred "Predicate list"
  | Any_pred "Predicate list"
  | Not_pred Predicate
  | FieldEquals string string
  | FieldExists string
  | TagsInclude "string list"
  | TagsExclude "string list"
  | PathGlob string

record RoutingAction =
  ra_move_to :: "string option"
  ra_set_fields :: "(string \<times> string) list"
  ra_remove_fields :: "string list"
  ra_add_tags :: "string list"
  ra_remove_tags :: "string list"

record RoutingRule =
  rr_id :: string
  rr_auto :: bool
  rr_when :: Predicate
  rr_then :: RoutingAction
  rr_on_exists :: "OnExists option"

record RoutingConfig =
  rc_version :: nat
  rc_defaults_on_exists :: OnExists
  rc_rules :: "RoutingRule list"

record RawRoutingConfig =
  raw_version :: nat
  raw_defaults :: "OnExists option"
  raw_default_on_exists :: "OnExists option"
  raw_rules :: "RoutingRule list"

definition config_of_raw :: "RawRoutingConfig \<Rightarrow> RoutingConfig" where
  "config_of_raw raw =
     \<lparr>rc_version = raw_version raw,
      rc_defaults_on_exists =
        (case raw_defaults raw of
           Some d \<Rightarrow> d
         | None \<Rightarrow> (case raw_default_on_exists raw of Some d \<Rightarrow> d | None \<Rightarrow> default_on_exists)),
      rc_rules = raw_rules raw\<rparr>"

record NoteContext =
  nc_path :: string
  nc_fields :: "(string \<times> string) list"
  nc_tags :: "string list"

record RouteLogEntry =
  rl_note_path :: string
  rl_rule_id :: "string option"
  rl_from_path :: string
  rl_to_path :: string
  rl_mutations :: RoutingAction

record RouteResult =
  res_from :: string
  res_to :: string
  res_rule_id :: string
  res_log :: RouteLogEntry

datatype RoutingError =
    ConfigNotFound string
  | InvalidConfig string
  | NoMatch string
  | DestinationExists string
  | NoFrontmatter string
  | InvalidFrontmatter string string
  | AlreadyArchived string
  | RenderError string
  | RoutingIo string
  | VaultError string

record ParsedNote =
  pn_mapping :: yaml_map
  pn_body :: string
  pn_context :: NoteContext

record RoutePlan =
  rp_rule_id :: string
  rp_destination :: string
  rp_content :: string
  rp_on_exists :: OnExists
  rp_log :: RouteLogEntry

text \<open>A template filter answers an error text or a text.\<close>

type_synonym filter_table = "string \<rightharpoonup> (string \<Rightarrow> string + string)"

record RouteLib =
  lib_from_yaml :: yaml_reader
  lib_to_yaml :: yaml_writer
  lib_float_text :: "64 word \<Rightarrow> string"
  lib_render :: "filter_table \<Rightarrow> string \<Rightarrow> (string \<times> json) list \<Rightarrow> string + string"
  lib_glob :: "string \<Rightarrow> (string \<Rightarrow> bool) option"
  lib_is_date :: "string \<Rightarrow> bool"
  lib_is_letter :: "string \<Rightarrow> bool"
  lib_now :: string
  lib_parse_config :: "string \<Rightarrow> string + RawRoutingConfig"

section \<open>Scalars and fields\<close>

definition yaml_num_text :: "RouteLib \<Rightarrow> json_num \<Rightarrow> string" where
  "yaml_num_text lib n =
     (case n of
        PosInt k \<Rightarrow> show_nat k
      | NegInt i \<Rightarrow> (if i < 0 then CHR ''-'' # show_nat (nat (- i)) else show_nat (nat i))
      | JFloat b \<Rightarrow> lib_float_text lib b)"

definition scalar_to_string :: "RouteLib \<Rightarrow> yaml \<Rightarrow> string option" where
  "scalar_to_string lib value =
     (case value of
        YString t \<Rightarrow> Some t
      | YBool b \<Rightarrow> Some (if b then ''true'' else ''false'')
      | YNumber n \<Rightarrow> Some (yaml_num_text lib n)
      | YNull \<Rightarrow> Some []
      | _ \<Rightarrow> None)"

definition yaml_key :: "yaml \<Rightarrow> string option" where
  "yaml_key value = (case value of YString t \<Rightarrow> Some t | _ \<Rightarrow> None)"

definition parse_tags :: "RouteLib \<Rightarrow> yaml \<Rightarrow> string list" where
  "parse_tags lib value =
     (case value of
        YString tag \<Rightarrow> [tag]
      | YSeq items \<Rightarrow> filter (\<lambda>tag. tag \<noteq> []) (List.map_filter (scalar_to_string lib) items)
      | _ \<Rightarrow> [])"

definition first_scalar_value :: "RouteLib \<Rightarrow> yaml \<Rightarrow> string" where
  "first_scalar_value lib value =
     (case value of
        YSeq items \<Rightarrow> (case List.map_filter (scalar_to_string lib) items of s # _ \<Rightarrow> s | [] \<Rightarrow> [])
      | _ \<Rightarrow> (case scalar_to_string lib value of Some s \<Rightarrow> s | None \<Rightarrow> []))"

fun context_of_entries :: "RouteLib \<Rightarrow> yaml_map \<Rightarrow> NoteContext \<Rightarrow> NoteContext" where
  "context_of_entries lib [] ctx = ctx"
| "context_of_entries lib ((k, v) # m) ctx =
     (case yaml_key k of
        None \<Rightarrow> context_of_entries lib m ctx
      | Some key \<Rightarrow>
          if key = ''tags'' then context_of_entries lib m (ctx\<lparr>nc_tags := parse_tags lib v\<rparr>)
          else context_of_entries lib m
                 (ctx\<lparr>nc_fields := AList.update key (first_scalar_value lib v) (nc_fields ctx)\<rparr>))"

definition note_context_from_mapping :: "RouteLib \<Rightarrow> string \<Rightarrow> yaml_map \<Rightarrow> NoteContext" where
  "note_context_from_mapping lib note_path m =
     context_of_entries lib m \<lparr>nc_path = note_path, nc_fields = [], nc_tags = []\<rparr>"

section \<open>Predicates\<close>

definition required_string :: "RouteLib \<Rightarrow> yaml \<Rightarrow> string \<Rightarrow> string + string" where
  "required_string lib value label =
     (case scalar_to_string lib value of
        Some s \<Rightarrow> Inr s | None \<Rightarrow> Inl (label @ '' must be a scalar string, number, or bool''))"

fun collect_scalars :: "RouteLib \<Rightarrow> string \<Rightarrow> yaml list \<Rightarrow> string + string list" where
  "collect_scalars lib label [] = Inr []"
| "collect_scalars lib label (item # items) =
     (case scalar_to_string lib item of
        None \<Rightarrow> Inl (label @ '' entries must be scalar strings, numbers, or bools'')
      | Some s \<Rightarrow> (case collect_scalars lib label items of Inl e \<Rightarrow> Inl e | Inr ss \<Rightarrow> Inr (s # ss)))"

definition string_list :: "RouteLib \<Rightarrow> yaml \<Rightarrow> string \<Rightarrow> string + string list" where
  "string_list lib value label =
     (case value of
        YSeq items \<Rightarrow> collect_scalars lib label items
      | _ \<Rightarrow> (case required_string lib value label of Inl e \<Rightarrow> Inl e | Inr s \<Rightarrow> Inr [s]))"

definition map_right :: "('a \<Rightarrow> 'b) \<Rightarrow> 'e + 'a \<Rightarrow> 'e + 'b" where
  "map_right f r = (case r of Inl e \<Rightarrow> Inl e | Inr x \<Rightarrow> Inr (f x))"

function trim_start_matches :: "string \<Rightarrow> string \<Rightarrow> string" where
  "trim_start_matches pat s =
     (if pat \<noteq> [] \<and> prefix pat s then trim_start_matches pat (drop (length pat) s) else s)"
  by pat_completeness auto
termination
  by (relation "measure (\<lambda>(pat, s). length s)") (auto simp: prefix_def)

declare trim_start_matches.simps [simp del]

definition trim_end_matches :: "string \<Rightarrow> string \<Rightarrow> string" where
  "trim_end_matches pat s = rev (trim_start_matches (rev pat) (rev s))"

definition field_prefix :: string where
  "field_prefix = ''field.''"

text \<open>An entry that is no combinator is a test of a field.\<close>

definition parse_leaf :: "RouteLib \<Rightarrow> string \<Rightarrow> yaml \<Rightarrow> string + Predicate" where
  "parse_leaf lib key v =
     (if key = ''field_exists'' then map_right FieldExists (required_string lib v ''field_exists'')
      else if key = ''tags_include'' then map_right TagsInclude (string_list lib v ''tags_include'')
      else if key = ''tags_exclude'' then map_right TagsExclude (string_list lib v ''tags_exclude'')
      else if key = ''path'' \<or> key = ''path_glob'' then map_right PathGlob (required_string lib v ''path'')
      else if prefix field_prefix key then
        map_right (FieldEquals (trim_start_matches field_prefix key)) (required_string lib v key)
      else map_right (FieldEquals key) (required_string lib v ''field''))"

definition conjoin :: "Predicate list \<Rightarrow> Predicate" where
  "conjoin ps = (case ps of [p] \<Rightarrow> p | _ \<Rightarrow> All_pred ps)"

fun parse_predicate_value :: "RouteLib \<Rightarrow> yaml \<Rightarrow> string + Predicate"
  and parse_predicate_entries :: "RouteLib \<Rightarrow> yaml_map \<Rightarrow> string + Predicate list"
  and parse_predicate_items :: "RouteLib \<Rightarrow> yaml list \<Rightarrow> string + Predicate list"
  and parse_predicate_list :: "RouteLib \<Rightarrow> yaml \<Rightarrow> string + Predicate list" where
  "parse_predicate_value lib (YMap m) =
     (if m = [] then Inr (All_pred []) else map_right conjoin (parse_predicate_entries lib m))"
| "parse_predicate_value lib v = Inl ''predicates must be mappings''"
| "parse_predicate_entries lib [] = Inr []"
| "parse_predicate_entries lib ((k, v) # m) =
     (case yaml_key k of
        None \<Rightarrow> Inl ''predicate keys must be strings''
      | Some key \<Rightarrow>
          (case (if key = ''all'' then map_right All_pred (parse_predicate_list lib v)
                 else if key = ''any'' then map_right Any_pred (parse_predicate_list lib v)
                 else if key = ''not'' then map_right Not_pred (parse_predicate_value lib v)
                 else parse_leaf lib key v) of
             Inl e \<Rightarrow> Inl e
           | Inr p \<Rightarrow> map_right (\<lambda>ps. p # ps) (parse_predicate_entries lib m)))"
| "parse_predicate_items lib [] = Inr []"
| "parse_predicate_items lib (v # vs) =
     (case parse_predicate_value lib v of
        Inl e \<Rightarrow> Inl e | Inr p \<Rightarrow> map_right (\<lambda>ps. p # ps) (parse_predicate_items lib vs))"
| "parse_predicate_list lib (YSeq items) = parse_predicate_items lib items"
| "parse_predicate_list lib v = Inl ''predicate combinators require a sequence''"

definition path_matches :: "RouteLib \<Rightarrow> string \<Rightarrow> string \<Rightarrow> bool" where
  "path_matches lib pattern path = (case lib_glob lib pattern of Some m \<Rightarrow> m path | None \<Rightarrow> False)"

fun evaluate :: "RouteLib \<Rightarrow> NoteContext \<Rightarrow> Predicate \<Rightarrow> bool" where
  "evaluate lib ctx (All_pred ps) = list_all (evaluate lib ctx) ps"
| "evaluate lib ctx (Any_pred ps) = list_ex (evaluate lib ctx) ps"
| "evaluate lib ctx (Not_pred p) = (\<not> evaluate lib ctx p)"
| "evaluate lib ctx (FieldEquals key value) =
     (case map_of (nc_fields ctx) key of
        None \<Rightarrow> False
      | Some actual \<Rightarrow> if value = ''*'' then trim actual \<noteq> [] else actual = value)"
| "evaluate lib ctx (FieldExists key) = (map_of (nc_fields ctx) key \<noteq> None)"
| "evaluate lib ctx (TagsInclude tags) = list_all (\<lambda>tag. list_ex (\<lambda>item. item = tag) (nc_tags ctx)) tags"
| "evaluate lib ctx (TagsExclude tags) = list_all (\<lambda>tag. list_all (\<lambda>item. item \<noteq> tag) (nc_tags ctx)) tags"
| "evaluate lib ctx (PathGlob pattern) = path_matches lib pattern (nc_path ctx)"

section \<open>Mutations\<close>

text \<open>\<open>Mapping::remove\<close> puts the last entry in the place of the removed one.\<close>

definition ymap_remove :: "yaml \<Rightarrow> yaml_map \<Rightarrow> yaml_map" where
  "ymap_remove k m =
     (case dropWhile (\<lambda>kv. fst kv \<noteq> k) m of
        [] \<Rightarrow> m
      | kv # after \<Rightarrow>
          takeWhile (\<lambda>kv. fst kv \<noteq> k) m @ (if after = [] then [] else last after # butlast after))"

definition mutate_tags :: "string list \<Rightarrow> RoutingAction \<Rightarrow> string list" where
  "mutate_tags tags action =
     fold (\<lambda>tag tags. if list_ex (\<lambda>existing. existing = tag) tags then tags else tags @ [tag])
       (ra_add_tags action) (filter (\<lambda>tag. \<not> list_ex (\<lambda>r. r = tag) (ra_remove_tags action)) tags)"

definition apply_action_mutations :: "RouteLib \<Rightarrow> RoutingAction \<Rightarrow> yaml_map \<Rightarrow> yaml_map" where
  "apply_action_mutations lib action m =
     (let m = fold (\<lambda>key. ymap_remove (YString key)) (ra_remove_fields action) m;
          m = fold (\<lambda>(key, value). ymap_insert (YString key) (YString value)) (ra_set_fields action) m;
          existing = (case map_of m (YString ''tags'') of Some v \<Rightarrow> parse_tags lib v | None \<Rightarrow> []);
          updated = mutate_tags existing action
      in if updated = [] then ymap_remove (YString ''tags'') m
         else ymap_insert (YString ''tags'') (YSeq (map YString updated)) m)"

definition stamp_archived_fields :: "RouteLib \<Rightarrow> yaml_map \<Rightarrow> yaml_map" where
  "stamp_archived_fields lib m =
     ymap_insert (YString ''archived-at'') (YString (lib_now lib)) (ymap_insert (YString ''archived'') (YBool True) m)"

definition is_archived :: "yaml_map \<Rightarrow> bool" where
  "is_archived m \<longleftrightarrow> map_of m (YString ''archived'') = Some (YBool True)"

definition rebuild_content :: "RouteLib \<Rightarrow> yaml_map \<Rightarrow> string \<Rightarrow> string" where
  "rebuild_content lib m body =
     (let yaml' = serialize_frontmatter (lib_to_yaml lib) (sort_mapping (lib_to_yaml lib) m)
      in ''---'' @ [CHR 0x0A] @ yaml' @ [CHR 0x0A] @ ''---'' @ [CHR 0x0A] @ body)"

section \<open>Destinations\<close>

text \<open>The component of an ISO date from byte \<open>from'\<close> to byte \<open>to\<close>.\<close>

definition iso_date_component :: "RouteLib \<Rightarrow> nat \<Rightarrow> nat \<Rightarrow> string \<Rightarrow> string + string" where
  "iso_date_component lib from' to value =
     (if 10 \<le> length value \<and> is_char_boundary value 10 \<and> lib_is_date lib (take 10 value) then
        (let date = take 10 value in
         Inr (if is_char_boundary date from' \<and> is_char_boundary date to then take (to - from') (drop from' date) else []))
      else Inl (''`'' @ value @ ''` is not an ISO date (YYYY-MM-DD)''))"

definition is_letter :: "RouteLib \<Rightarrow> string \<Rightarrow> bool" where
  "is_letter lib ch = (case ch of [c] \<Rightarrow> ascii_alnum c | _ \<Rightarrow> lib_is_letter lib ch)"

definition route_slug :: "RouteLib \<Rightarrow> string \<Rightarrow> string" where
  "route_slug lib value =
     join_str ''-'' (filter (\<lambda>part. part \<noteq> []) (split_char CHR ''-''
       (concat (map (\<lambda>ch. if is_letter lib ch then map ascii_lower ch else ''-'') (utf8_chars value)))))"

definition route_filters :: "RouteLib \<Rightarrow> filter_table" where
  "route_filters lib =
     [''unwikilink'' \<mapsto> (\<lambda>s. Inr (trim_end_matches '']]'' (trim_start_matches ''[['' s))),
      ''year'' \<mapsto> iso_date_component lib 0 4,
      ''month'' \<mapsto> iso_date_component lib 5 7,
      ''slug'' \<mapsto> (\<lambda>s. Inr (route_slug lib s))]"

definition template_context :: "NoteContext \<Rightarrow> string \<Rightarrow> (string \<times> json) list" where
  "template_context ctx filename =
     (let field_object = JObject (map (\<lambda>(k, v). (k, JString v)) (nc_fields ctx));
          base = [(''field'', field_object), (''fields'', field_object),
                  (''tags'', JArray (map JString (nc_tags ctx))),
                  (''filename'', JString filename), (''path'', JString (nc_path ctx))]
      in fold (\<lambda>(k, v). AList.update k (JString v)) (nc_fields ctx) base)"

definition route_filename :: "string \<Rightarrow> string" where
  "route_filename note_path = (case file_name note_path of Some n \<Rightarrow> n | None \<Rightarrow> [])"

definition render_destination :: "RouteLib \<Rightarrow> string \<Rightarrow> NoteContext \<Rightarrow> string \<Rightarrow> RoutingError + string" where
  "render_destination lib template ctx note_path =
     (let filename = route_filename note_path
      in case lib_render lib (route_filters lib) template (template_context ctx filename) of
          Inl e \<Rightarrow> Inl (RenderError e)
        | Inr rendered \<Rightarrow>
            Inr (if rendered \<noteq> [] \<and> last rendered = CHR ''/'' then rendered @ filename else rendered))"

section \<open>Planning\<close>

definition parse_routed_note :: "RouteLib \<Rightarrow> string \<Rightarrow> string \<Rightarrow> RoutingError + ParsedNote" where
  "parse_routed_note lib note_path content =
     (case extract_frontmatter content of
        (None, _) \<Rightarrow> Inl (NoFrontmatter note_path)
      | (Some raw, body) \<Rightarrow>
          (case parse_frontmatter_mapping (lib_from_yaml lib) raw of
             None \<Rightarrow> Inl (InvalidFrontmatter note_path ''frontmatter must be a YAML mapping'')
           | Some m \<Rightarrow>
               Inr \<lparr>pn_mapping = m, pn_body = body, pn_context = note_context_from_mapping lib note_path m\<rparr>))"

definition build_route_log :: "string \<Rightarrow> string \<Rightarrow> string \<Rightarrow> RoutingAction \<Rightarrow> RouteLogEntry" where
  "build_route_log note_path destination rule_id action =
     \<lparr>rl_note_path = destination, rl_rule_id = Some rule_id, rl_from_path = note_path,
      rl_to_path = destination, rl_mutations = action\<rparr>"

definition plan_rule :: "RouteLib \<Rightarrow> RoutingConfig \<Rightarrow> string \<Rightarrow> ParsedNote \<Rightarrow> bool \<Rightarrow> RoutingRule \<Rightarrow> RoutingError + RoutePlan" where
  "plan_rule lib config note_path parsed stamp_archived rule =
     (let draft = apply_action_mutations lib (rr_then rule) (pn_mapping parsed);
          draft = (if stamp_archived then stamp_archived_fields lib draft else draft);
          ctx = note_context_from_mapping lib note_path draft
      in case (case ra_move_to (rr_then rule) of
                 Some template \<Rightarrow> render_destination lib template ctx note_path
               | None \<Rightarrow> Inr note_path) of
          Inl e \<Rightarrow> Inl e
        | Inr destination \<Rightarrow>
            Inr \<lparr>rp_rule_id = rr_id rule, rp_destination = destination,
                 rp_content = rebuild_content lib draft (pn_body parsed),
                 rp_on_exists = (case rr_on_exists rule of Some x \<Rightarrow> x | None \<Rightarrow> rc_defaults_on_exists config),
                 rp_log = build_route_log note_path destination (rr_id rule) (rr_then rule)\<rparr>)"

text \<open>The first rule whose condition holds decides.\<close>

fun plan_rules ::
  "RouteLib \<Rightarrow> RoutingConfig \<Rightarrow> string \<Rightarrow> ParsedNote \<Rightarrow> bool \<Rightarrow> RoutingRule list \<Rightarrow> RoutingError + RoutePlan" where
  "plan_rules lib config note_path parsed stamp_archived [] = Inl (NoMatch note_path)"
| "plan_rules lib config note_path parsed stamp_archived (rule # rules) =
     (if evaluate lib (pn_context parsed) (rr_when rule)
      then plan_rule lib config note_path parsed stamp_archived rule
      else plan_rules lib config note_path parsed stamp_archived rules)"

definition plan_route :: "RouteLib \<Rightarrow> RoutingConfig \<Rightarrow> string \<Rightarrow> string \<Rightarrow> bool \<Rightarrow> RoutingError + RoutePlan" where
  "plan_route lib config note_path content stamp_archived =
     (case parse_routed_note lib note_path content of
        Inl e \<Rightarrow> Inl e
      | Inr parsed \<Rightarrow>
          if is_archived (pn_mapping parsed) then Inl (AlreadyArchived note_path)
          else plan_rules lib config note_path parsed stamp_archived (rc_rules config))"

definition preview :: "RouteLib \<Rightarrow> RoutingConfig \<Rightarrow> string \<Rightarrow> string \<Rightarrow> RoutingError + (string \<times> string)" where
  "preview lib config note_path content =
     map_right (\<lambda>plan. (rp_rule_id plan, rp_destination plan)) (plan_route lib config note_path content False)"

section \<open>Filing\<close>

definition next_candidate :: "string \<Rightarrow> string \<Rightarrow> string \<Rightarrow> nat \<Rightarrow> string" where
  "next_candidate parent stem ext index =
     (let name = stem @ '' ('' @ show_nat index @ '')'' @ ext;
          candidate = (if parent = [] then name else path_join parent name)
      in map (\<lambda>c. if c = CHR 0x5C then CHR ''/'' else c) candidate)"

text \<open>\<open>Path::parent\<close> as text: separators and \<open>.\<close> steps at the end do not count.\<close>

fun drop_separators :: "string \<Rightarrow> string" where
  "drop_separators (c # s) =
     (if c = CHR ''/'' then (if s = [] then [c] else drop_separators s)
      else if c = CHR ''.'' \<and> s \<noteq> [] \<and> hd s = CHR ''/'' then drop_separators s
      else c # s)"
| "drop_separators [] = []"

definition parent_text :: "string \<Rightarrow> string" where
  "parent_text p =
     (if path_parts p = [] then []
      else rev (drop_separators (dropWhile (\<lambda>c. c \<noteq> CHR ''/'') (drop_separators (rev p)))))"

definition next_available_destination :: "string \<Rightarrow> string \<Rightarrow> FileTree \<Rightarrow> (RoutingError + string) option" where
  "next_available_destination root destination t =
     (case file_stem destination of
        None \<Rightarrow> Some (Inl (RenderError ''destination filename is missing''))
      | Some stem \<Rightarrow>
          (let ext = (case file_ext destination of Some e \<Rightarrow> ''.'' @ e | None \<Rightarrow> [])
           in map_option Inr
                (search_free (next_candidate (parent_text destination) stem ext) (\<lambda>c. os_exists t (at root c)) 1)))"

definition resolve_destination ::
  "string \<Rightarrow> string \<Rightarrow> string \<Rightarrow> OnExists \<Rightarrow> FileTree \<Rightarrow> (RoutingError + string) option" where
  "resolve_destination root source_path destination on_exists t =
     (if destination = source_path \<or> \<not> os_exists t (at root destination) then Some (Inr destination)
      else case on_exists of
          SkipExisting \<Rightarrow> Some (Inl (DestinationExists destination))
        | OverwriteExisting \<Rightarrow> Some (Inr destination)
        | RenameNew \<Rightarrow> next_available_destination root destination t)"

text \<open>The file operations once the destination is settled: write the note in place, clear an
  overwritten destination, move the note.\<close>

definition file_note ::
  "IoFaults \<Rightarrow> (string \<Rightarrow> string) \<Rightarrow> string \<Rightarrow> string \<Rightarrow> string \<Rightarrow> RoutePlan \<Rightarrow> string \<Rightarrow> FileTree \<Rightarrow>
     (RoutingError + unit) \<times> FileTree" where
  "file_note io hash tag root note_path plan destination t =
     (case engine_write io hash tag root note_path None (rp_content plan) t of
        (Inl e, t1) \<Rightarrow> (Inl (VaultError (notesmith_error_text e)), t1)
      | (Inr _, t1) \<Rightarrow>
          if destination = note_path then (Inr (), t1)
          else (case (if rp_on_exists plan = OverwriteExisting \<and> os_exists t1 (at root destination)
                      then engine_delete io root destination t1 else (Inr (), t1)) of
                  (Inl e, t2) \<Rightarrow> (Inl (VaultError (notesmith_error_text e)), t2)
                | (Inr _, t2) \<Rightarrow>
                    (case engine_move io root note_path destination t2 of
                       (Inl e, t3) \<Rightarrow> (Inl (VaultError (notesmith_error_text e)), t3)
                     | (Inr _, t3) \<Rightarrow> (Inr (), t3))))"

text \<open>\<open>None\<close> is a search for a free name that does not end.\<close>

definition apply_inner ::
  "RouteLib \<Rightarrow> RoutingConfig \<Rightarrow> IoFaults \<Rightarrow> (string \<Rightarrow> string) \<Rightarrow> string \<Rightarrow> string \<Rightarrow> string \<Rightarrow> bool \<Rightarrow> FileTree \<Rightarrow>
     ((RoutingError + RouteResult) \<times> FileTree) option" where
  "apply_inner lib config io hash tag root note_path stamp_archived t =
     (case engine_read io root note_path t of
        Inl e \<Rightarrow> Some (Inl (VaultError (notesmith_error_text e)), t)
      | Inr content \<Rightarrow>
          (case plan_route lib config note_path content stamp_archived of
             Inl e \<Rightarrow> Some (Inl e, t)
           | Inr plan \<Rightarrow>
               (case resolve_destination root note_path (rp_destination plan) (rp_on_exists plan) t of
                  None \<Rightarrow> None
                | Some (Inl e) \<Rightarrow> Some (Inl e, t)
                | Some (Inr destination) \<Rightarrow>
                    (case file_note io hash tag root note_path plan destination t of
                       (Inl e, t1) \<Rightarrow> Some (Inl e, t1)
                     | (Inr _, t1) \<Rightarrow>
                         Some (Inr \<lparr>res_from = note_path, res_to = destination, res_rule_id = rp_rule_id plan,
                                   res_log = (rp_log plan)\<lparr>rl_to_path := destination, rl_note_path := destination\<rparr>\<rparr>, t1)))))"

definition apply_route ::
  "RouteLib \<Rightarrow> RoutingConfig \<Rightarrow> IoFaults \<Rightarrow> (string \<Rightarrow> string) \<Rightarrow> string \<Rightarrow> string \<Rightarrow> string \<Rightarrow> FileTree \<Rightarrow>
     ((RoutingError + RouteResult) \<times> FileTree) option" where
  "apply_route lib config io hash tag root note_path t = apply_inner lib config io hash tag root note_path False t"

definition apply_archive ::
  "RouteLib \<Rightarrow> RoutingConfig \<Rightarrow> IoFaults \<Rightarrow> (string \<Rightarrow> string) \<Rightarrow> string \<Rightarrow> string \<Rightarrow> string \<Rightarrow> FileTree \<Rightarrow>
     ((RoutingError + RouteResult) \<times> FileTree) option" where
  "apply_archive lib config io hash tag root note_path t = apply_inner lib config io hash tag root note_path True t"

definition load_routing :: "RouteLib \<Rightarrow> IoFaults \<Rightarrow> string \<Rightarrow> FileTree \<Rightarrow> RoutingError + RoutingConfig" where
  "load_routing lib io root t =
     (let config_path = path_join (path_join root ''.notesmith'') ''routing.yaml''
      in if \<not> os_exists t (at root ''.notesmith/routing.yaml'') then Inl (ConfigNotFound config_path)
         else (case os_read io (at root ''.notesmith/routing.yaml'') t of
                 Inl e \<Rightarrow> Inl (RoutingIo (io_text e))
               | Inr content \<Rightarrow>
                   (case lib_parse_config lib content of
                      Inl e \<Rightarrow> Inl (InvalidConfig e) | Inr raw \<Rightarrow> Inr (config_of_raw raw))))"

section \<open>The search for a free name\<close>

definition tree_finite :: "FileTree \<Rightarrow> bool" where
  "tree_finite t \<longleftrightarrow> finite (dom (ft_files t)) \<and> finite (ft_dirs t)"

lemma finite_exists: "tree_finite t \<Longrightarrow> finite {p. os_exists t p}"
proof -
  assume "tree_finite t"
  moreover have "{p. os_exists t p} = dom (ft_files t) \<union> ft_dirs t" by (auto simp: os_exists_def)
  ultimately show ?thesis by (simp add: tree_finite_def)
qed

definition candidate_name :: "string \<Rightarrow> string \<Rightarrow> nat \<Rightarrow> string" where
  "candidate_name stem ext index = stem @ '' ('' @ show_nat index @ '')'' @ ext"

lemma candidate_name_inj: "candidate_name stem ext m = candidate_name stem ext n \<longleftrightarrow> m = n"
  by (simp add: candidate_name_def)

lemma candidate_at:
  assumes "CHR ''/'' \<notin> set stem" and "CHR ''/'' \<notin> set ext"
    and "CHR 0x5C \<notin> set parent" and "CHR 0x5C \<notin> set stem" and "CHR 0x5C \<notin> set ext"
  shows "\<exists>ps. at root (next_candidate parent stem ext n) = ps @ [candidate_name stem ext n]"
proof -
  let ?n = "candidate_name stem ext n"
  have digits: "c \<in> set (show_nat n) \<Longrightarrow> is_digit c" for c using show_nat_digits [of n] by (auto simp: list_all_iff)
  have slash: "CHR ''/'' \<notin> set ?n" and bslash: "CHR 0x5C \<notin> set ?n"
    using assms digits by (auto simp: candidate_name_def is_digit_def dest!: digits)
  have ne: "?n \<noteq> []" "\<not> prefix ''/'' ?n" and "CHR ''('' \<in> set ?n"
    using slash by (auto simp: candidate_name_def prefix_def append_eq_Cons_conv)
  then have dots: "?n \<noteq> ''.''" "?n \<noteq> ''..''" by auto
  let ?c = "if parent = [] then ?n else path_join parent ?n"
  obtain s where s: "?c = s @ ?n" "s = [] \<or> last s = CHR ''/''"
    using join_ends_with_name [OF ne(2), of parent] by (cases "parent = []") auto
  have "CHR 0x5C \<notin> set ?c" using bslash assms(3) by (auto simp: path_join_def)
  then have "next_candidate parent stem ext n = ?c"
    by (auto simp: next_candidate_def candidate_name_def Let_def intro: map_idI)
  moreover obtain s' where "path_join root ?c = s' @ ?n" and s': "s' = [] \<or> last s' = CHR ''/''"
    using join_keeps_name [OF s] by blast
  moreover obtain ps where "path_parts (s' @ ?n) = ps @ [?n]"
    using last_path_part [OF slash ne(1) dots(1) s'] by blast
  ultimately show ?thesis using dots(2) by (simp add: at_def resolve_parts_def)
qed

definition names_ok :: "string \<Rightarrow> string \<Rightarrow> string \<Rightarrow> bool" where
  "names_ok parent stem ext \<longleftrightarrow> CHR ''/'' \<notin> set stem \<and> CHR ''/'' \<notin> set ext \<and>
     CHR 0x5C \<notin> set parent \<and> CHR 0x5C \<notin> set stem \<and> CHR 0x5C \<notin> set ext"

definition name_taken :: "string \<Rightarrow> string \<Rightarrow> string \<Rightarrow> string \<Rightarrow> FileTree \<Rightarrow> string \<Rightarrow> bool" where
  "name_taken root parent stem ext t c \<longleftrightarrow> tree_finite t \<and> names_ok parent stem ext \<and> os_exists t (at root c)"

interpretation free_destination:
  fresh_names "next_candidate parent stem ext" "name_taken root parent stem ext t" for root parent stem ext t
proof
  show "finite {n. name_taken root parent stem ext t (next_candidate parent stem ext n)}"
  proof (cases "tree_finite t \<and> names_ok parent stem ext")
    case True
    let ?at = "\<lambda>n. at root (next_candidate parent stem ext n)"
    have ok: "CHR ''/'' \<notin> set stem" "CHR ''/'' \<notin> set ext" "CHR 0x5C \<notin> set parent" "CHR 0x5C \<notin> set stem" "CHR 0x5C \<notin> set ext"
      using True by (simp_all add: names_ok_def)
    have "inj ?at"
    proof (rule injI)
      fix m n assume eq: "?at m = ?at n"
      obtain ps qs where "?at m = ps @ [candidate_name stem ext m]" "?at n = qs @ [candidate_name stem ext n]"
        using candidate_at [OF ok] by blast
      with eq show "m = n" by (simp add: candidate_name_inj)
    qed
    from finite_vimageI [OF finite_exists [of t] this] True show ?thesis
      by (simp add: name_taken_def vimage_def)
  next
    case False
    then have "{n. name_taken root parent stem ext t (next_candidate parent stem ext n)} = {}" by (auto simp: name_taken_def)
    then show ?thesis by simp
  qed
qed

lemma file_name_chars: "file_name p = Some n \<Longrightarrow> set n \<subseteq> set p \<and> CHR ''/'' \<notin> set n"
proof -
  assume "file_name p = Some n"
  then have "n = last (path_parts p)" "path_parts p \<noteq> []" by (auto simp: file_name_def split: if_splits)
  then have "n \<in> set (path_parts p)" using last_in_set by blast
  then have "n \<in> set (split_char CHR ''/'' p)" by (simp add: path_parts_def)
  then show ?thesis using split_char_chars split_char_no_sep by blast
qed

lemma name_split_chars: "set (fst (name_split n)) \<subseteq> set n \<and> (snd (name_split n) = Some e \<longrightarrow> set e \<subseteq> set n)"
proof -
  have t: "x \<in> set (takeWhile p (rev n)) \<Longrightarrow> x \<in> set n" for x p
    using set_takeWhileD [of x p "rev n"] by simp
  have d: "x \<in> set (tl (dropWhile p (rev n))) \<Longrightarrow> x \<in> set n" for x p
    using set_dropWhileD [of x p "rev n"] by (metis list.set_sel(2) list.sel(2) set_rev)
  show ?thesis by (auto simp: name_split_def rsplit_once_def dest: t d split: option.splits if_splits)
qed

lemma drop_separators_chars: "set (drop_separators s) \<subseteq> set s"
  by (induction s rule: drop_separators.induct) auto

lemma parent_text_chars: "set (parent_text p) \<subseteq> set p"
proof -
  have "set (drop_separators (dropWhile q (drop_separators (rev p)))) \<subseteq> set p" for q
  proof -
    have "set (drop_separators (dropWhile q (drop_separators (rev p)))) \<subseteq> set (dropWhile q (drop_separators (rev p)))"
      by (rule drop_separators_chars)
    also have "\<dots> \<subseteq> set (drop_separators (rev p))" by (auto dest: set_dropWhileD)
    also have "\<dots> \<subseteq> set p" using drop_separators_chars [of "rev p"] by simp
    finally show ?thesis .
  qed
  then show ?thesis by (simp add: parent_text_def)
qed

lemma destination_names_ok:
  assumes "CHR 0x5C \<notin> set d" and "file_stem d = Some stem"
  shows "names_ok (parent_text d) stem (case file_ext d of Some e \<Rightarrow> ''.'' @ e | None \<Rightarrow> [])"
proof -
  from assms(2) obtain n where n: "file_name d = Some n" "stem = fst (name_split n)" by (auto simp: file_stem_def)
  then have ext: "file_ext d = snd (name_split n)" by (simp add: file_ext_def)
  from file_name_chars [OF n(1)] have nd: "set n \<subseteq> set d" "CHR ''/'' \<notin> set n" by auto
  have "set stem \<subseteq> set n" "snd (name_split n) = Some e \<Longrightarrow> set e \<subseteq> set n" for e
    using name_split_chars n(2) by auto
  with nd parent_text_chars [of d] assms(1) show ?thesis
    by (cases "snd (name_split n)") (auto simp: names_ok_def ext)
qed

lemma next_available_search:
  assumes "tree_finite t" and "CHR 0x5C \<notin> set d" and "file_stem d = Some stem"
    and "ext = (case file_ext d of Some e \<Rightarrow> ''.'' @ e | None \<Rightarrow> [])"
  shows "\<exists>n \<ge> 1. next_available_destination root d t = Some (Inr (next_candidate (parent_text d) stem ext n)) \<and>
    \<not> os_exists t (at root (next_candidate (parent_text d) stem ext n)) \<and>
    (\<forall>k. 1 \<le> k \<and> k < n \<longrightarrow> os_exists t (at root (next_candidate (parent_text d) stem ext k)))"
proof -
  have ok: "names_ok (parent_text d) stem ext" unfolding assms(4) by (rule destination_names_ok [OF assms(2,3)])
  have "name_taken root (parent_text d) stem ext t = (\<lambda>c. os_exists t (at root c))"
    using ok assms(1) by (auto simp: name_taken_def)
  with free_destination.search_total [of 1 "parent_text d" stem ext root t] show ?thesis
    by (auto simp: next_available_destination_def assms(3,4) Let_def)
qed

section \<open>The effect of filing\<close>

lemma engine_write_plain:
  assumes "engine_write io hash tag root p None c t = (r, t')"
  shows "case r of
      Inr (Written h) \<Rightarrow> ft_files t' (at root p) = Some c \<and> (\<forall>k. plain_path k \<longrightarrow> k \<noteq> at root p \<longrightarrow> ft_files t' k = ft_files t k)
    | Inr (Conflict e a) \<Rightarrow> False
    | Inl e \<Rightarrow> \<forall>k. plain_path k \<longrightarrow> ft_files t' k = ft_files t k"
proof -
  have "r \<noteq> Inr (Conflict e a)" for e a
    using assms by (auto simp: engine_write_def replace_file_def Let_def split: sum.splits prod.splits)
  with engine_write_result [OF assms] show ?thesis by (auto split: sum.splits WriteResult.splits)
qed

definition moved :: "FileTree \<Rightarrow> fpath \<Rightarrow> fpath \<Rightarrow> string \<Rightarrow> FileTree \<Rightarrow> bool" where
  "moved t s d c t' \<longleftrightarrow> ft_files t' d = Some c \<and> (d \<noteq> s \<longrightarrow> ft_files t' s = None) \<and>
     (\<forall>k. plain_path k \<longrightarrow> k \<noteq> s \<longrightarrow> k \<noteq> d \<longrightarrow> ft_files t' k = ft_files t k)"

text \<open>Filing either moves the note, or fails with the note in place and no note lost but, when it
  was to be overwritten, the one at the destination.\<close>

lemma file_note_result:
  assumes "file_note io hash tag root note_path plan destination t = (r, t')"
    and "plain_path (at root note_path)"
    and distinct_files: "destination = note_path \<or> at root destination \<noteq> at root note_path"
  shows "case r of
      Inr _ \<Rightarrow> moved t (at root note_path) (at root destination) (rp_content plan) t'
    | Inl e \<Rightarrow> ft_files t' (at root note_path) \<in> {ft_files t (at root note_path), Some (rp_content plan)} \<and>
        (\<forall>k. plain_path k \<longrightarrow> k \<noteq> at root note_path \<longrightarrow>
           k = at root destination \<and> rp_on_exists plan = OverwriteExisting \<or> ft_files t' k = ft_files t k)"
proof -
  let ?s = "at root note_path" and ?d = "at root destination"
  obtain r1 t1 where w: "engine_write io hash tag root note_path None (rp_content plan) t = (r1, t1)" by fastforce
  note weff = engine_write_plain [OF w]
  show ?thesis
  proof (cases r1)
    case (Inl e)
    with assms(1,2) weff w show ?thesis by (auto simp: file_note_def)
  next
    case (Inr res)
    then obtain h where res: "res = Written h" using weff by (cases res) auto
    with weff Inr have t1: "ft_files t1 ?s = Some (rp_content plan)"
      "\<And>k. plain_path k \<Longrightarrow> k \<noteq> ?s \<Longrightarrow> ft_files t1 k = ft_files t k" by auto
    show ?thesis
    proof (cases "destination = note_path")
      case True
      with assms(1) w Inr t1 show ?thesis by (auto simp: file_note_def moved_def)
    next
      case False
      with distinct_files have ne: "?d \<noteq> ?s" by simp
      obtain r2 t2 where d: "(if rp_on_exists plan = OverwriteExisting \<and> os_exists t1 ?d
          then engine_delete io root destination t1 else (Inr (), t1)) = (r2, t2)" by fastforce
      have t2: "ft_files t2 ?s = ft_files t1 ?s"
        "\<And>k. k \<noteq> ?d \<or> rp_on_exists plan \<noteq> OverwriteExisting \<or> isl r2 \<Longrightarrow> ft_files t2 k = ft_files t1 k"
        using d ne engine_delete_result [of io root destination t1 r2 t2]
        by (cases r2; auto split: if_splits)+
      obtain r3 t3 where m: "engine_move io root note_path destination t2 = (r3, t3)" by fastforce
      note meff = engine_move_result [OF m]
      have "(r, t') = (case r2 of Inl e \<Rightarrow> (Inl (VaultError (notesmith_error_text e)), t2)
          | Inr _ \<Rightarrow> (case r3 of Inl e \<Rightarrow> (Inl (VaultError (notesmith_error_text e)), t3) | Inr _ \<Rightarrow> (Inr (), t3)))"
        using assms(1) w Inr False d m by (cases r2; cases r3) (simp_all add: file_note_def)
      then have r: "(r, t') = (case r2 of Inl e \<Rightarrow> (Inl (VaultError (notesmith_error_text e)), t2)
          | Inr _ \<Rightarrow> (case r3 of Inl e \<Rightarrow> (Inl (VaultError (notesmith_error_text e)), t3) | Inr _ \<Rightarrow> (Inr (), t3)))" .
      have keep: "ft_files t2 k = ft_files t k"
        if "plain_path k" "k \<noteq> ?s" "\<not> (k = ?d \<and> rp_on_exists plan = OverwriteExisting)" for k
        using t1(2) [OF that(1,2)] t2(2) [of k] that(3) by auto
      have keep2: "ft_files t2 k = ft_files t k" if "plain_path k" "k \<noteq> ?s" "isl r2" for k
        using t1(2) [OF that(1,2)] t2(2) [of k] that(3) by auto
      show ?thesis using r t1(1) t2(1) meff ne keep keep2 by (cases r2; cases r3) (auto simp: moved_def)
    qed
  qed
qed

lemma next_available_free: "next_available_destination root d t = Some (Inr c) \<Longrightarrow> \<not> os_exists t (at root c)"
  by (auto simp: next_available_destination_def Let_def dest: search_free_found split: option.splits)

lemma resolved_cases:
  "resolve_destination root p d on_exists t = Some (Inr c) \<Longrightarrow>
     c = p \<or> \<not> os_exists t (at root c) \<or> on_exists = OverwriteExisting \<and> c = d"
  by (auto simp: resolve_destination_def dest: next_available_free split: if_splits OnExists.splits)

lemma apply_inner_steps:
  assumes "apply_inner lib config io hash tag root p arch t = Some (r, t')"
  shows "(\<exists>e. r = Inl e \<and> t' = t) \<or>
    (\<exists>content plan d r1. engine_read io root p t = Inr content \<and> plan_route lib config p content arch = Inr plan \<and>
       resolve_destination root p (rp_destination plan) (rp_on_exists plan) t = Some (Inr d) \<and>
       file_note io hash tag root p plan d t = (r1, t') \<and> isl r1 = isl r \<and> (\<forall>res. r = Inr res \<longrightarrow> res_to res = d))"
  using assms
  by (auto simp: apply_inner_def split: sum.splits option.splits prod.splits)

lemma read_exists: "engine_read io root p t = Inr c \<Longrightarrow> ft_files t (at root p) = Some c"
  by (auto simp: engine_read_def os_read_def split: sum.splits option.splits if_splits)

section \<open>Tags\<close>

lemma mutate_tags_set:
  "set (mutate_tags tags action) = (set tags - set (ra_remove_tags action)) \<union> set (ra_add_tags action)"
proof -
  have "set (fold (\<lambda>tag tags. if list_ex (\<lambda>x. x = tag) tags then tags else tags @ [tag]) new ts) = set ts \<union> set new"
    for new ts :: "string list"
    by (induction new arbitrary: ts) (auto simp: list_ex_iff)
  then show ?thesis by (auto simp: mutate_tags_def list_ex_iff)
qed

section \<open>Archiving\<close>

lemma ymap_remove_keys: "distinct (map fst m) \<Longrightarrow> distinct (map fst (ymap_remove k m))"
proof -
  assume d: "distinct (map fst m)"
  define xs where "xs = takeWhile (\<lambda>kv. fst kv \<noteq> k) m"
  define ys where "ys = dropWhile (\<lambda>kv. fst kv \<noteq> k) m"
  have m: "m = xs @ ys" by (simp add: xs_def ys_def)
  have rem: "ymap_remove k m = (case ys of [] \<Rightarrow> m | kv # after \<Rightarrow> xs @ (if after = [] then [] else last after # butlast after))"
    unfolding ymap_remove_def xs_def ys_def ..
  show ?thesis
  proof (cases ys)
    case Nil
    with rem d show ?thesis by simp
  next
    case (Cons kv after)
    have "distinct (map fst (xs @ (if after = [] then [] else last after # butlast after)))"
      using d m Cons by (cases after rule: rev_cases) auto
    with Cons show ?thesis by (simp add: rem)
  qed
qed

lemma mutations_keys: "distinct (map fst m) \<Longrightarrow> distinct (map fst (apply_action_mutations lib action m))"
proof -
  assume "distinct (map fst m)"
  moreover have "distinct (map fst (fold (\<lambda>key. ymap_remove (YString key)) ks m))" if "distinct (map fst m)" for ks m
    using that by (induction ks arbitrary: m) (simp_all add: ymap_remove_keys)
  moreover have "distinct (map fst (fold (\<lambda>(key, value). ymap_insert (YString key) (YString value)) kvs m))"
    if "distinct (map fst m)" for kvs m
    using that by (induction kvs arbitrary: m) (auto simp: ymap_insert_distinct)
  ultimately show ?thesis
    by (simp add: apply_action_mutations_def Let_def ymap_remove_keys ymap_insert_distinct)
qed

section \<open>Properties\<close>

text \<open>C24: a routed note lies at the destination with the content its rule made of it and no longer at
  its old place; no other note has changed, and the destination was free unless the rule overwrites.\<close>

theorem route_files_note:
  assumes "apply_inner lib config io hash tag root p arch t = Some (Inr res, t')" and "plain_path (at root p)"
    and "res_to res = p \<or> at root (res_to res) \<noteq> at root p"
  shows "\<exists>content plan. engine_read io root p t = Inr content \<and> plan_route lib config p content arch = Inr plan \<and>
    moved t (at root p) (at root (res_to res)) (rp_content plan) t' \<and>
    (ft_files t (at root (res_to res)) = None \<or> res_to res = p \<or> rp_on_exists plan = OverwriteExisting)"
proof -
  from apply_inner_steps [OF assms(1)] obtain content plan r1 where
    s: "engine_read io root p t = Inr content" "plan_route lib config p content arch = Inr plan"
      "resolve_destination root p (rp_destination plan) (rp_on_exists plan) t = Some (Inr (res_to res))"
      "file_note io hash tag root p plan (res_to res) t = (r1, t')" "\<not> isl r1" by auto
  from file_note_result [OF s(4) assms(2,3)] s(5) have "moved t (at root p) (at root (res_to res)) (rp_content plan) t'"
    by (cases r1) auto
  moreover from resolved_cases [OF s(3)]
  have "ft_files t (at root (res_to res)) = None \<or> res_to res = p \<or> rp_on_exists plan = OverwriteExisting"
    by (auto simp: os_exists_def)
  ultimately show ?thesis using s(1,2) by blast
qed

text \<open>C19: with a rule that does not overwrite no note is ever lost: whatever fails on the way, every
  other note stays as it was, and the routed note is at its old place (as it was or as the rule made
  it) or at the destination.\<close>

theorem route_keeps_notes:
  assumes "apply_inner lib config io hash tag root p arch t = Some (r, t')"
    and "engine_read io root p t = Inr content" and "plan_route lib config p content arch = Inr plan"
    and "rp_on_exists plan \<noteq> OverwriteExisting" and "plain_path (at root p)"
    and "plain_path k" and "ft_files t k = Some c"
  shows "if k \<noteq> at root p then ft_files t' k = Some c
    else case r of
        Inl e \<Rightarrow> ft_files t' k \<in> {Some c, Some (rp_content plan)}
      | Inr res \<Rightarrow> ft_files t' (at root (res_to res)) = Some (rp_content plan)"
proof -
  from apply_inner_steps [OF assms(1)] assms(2,3) consider (same) e where "r = Inl e" "t' = t"
    | (filed) d r1 where "resolve_destination root p (rp_destination plan) (rp_on_exists plan) t = Some (Inr d)"
        "file_note io hash tag root p plan d t = (r1, t')" "isl r1 = isl r" "\<forall>res. r = Inr res \<longrightarrow> res_to res = d"
    by auto
  then show ?thesis
  proof cases
    case same
    with assms(7) show ?thesis by auto
  next
    case filed
    have src: "ft_files t (at root p) = Some content" by (rule read_exists [OF assms(2)])
    from resolved_cases [OF filed(1)] assms(4) have d: "d = p \<or> \<not> os_exists t (at root d)" by auto
    with src have ne: "d = p \<or> at root d \<noteq> at root p" by (auto simp: os_exists_def)
    have kd: "k \<noteq> at root d \<or> d = p" using d assms(7) by (auto simp: os_exists_def)
    from file_note_result [OF filed(2) assms(5) ne] show ?thesis
      using filed(3,4) assms(4,6,7) src kd by (cases r1; cases r) (auto simp: moved_def)
  qed
qed

text \<open>C27: a rule that renames always finds a free name: the first index that names no existing file.\<close>

theorem rename_finds_free:
  assumes "tree_finite t" and "CHR 0x5C \<notin> set d" and "file_stem d = Some stem"
    and "ext = (case file_ext d of Some e \<Rightarrow> ''.'' @ e | None \<Rightarrow> [])"
  shows "\<exists>n \<ge> 1. next_available_destination root d t = Some (Inr (next_candidate (parent_text d) stem ext n)) \<and>
    \<not> os_exists t (at root (next_candidate (parent_text d) stem ext n)) \<and>
    (\<forall>k. 1 \<le> k \<and> k < n \<longrightarrow> os_exists t (at root (next_candidate (parent_text d) stem ext k)))"
  by (rule next_available_search [OF assms])

text \<open>An archived note is not routed again, under any rules and any path.\<close>

lemma archived_note_stays:
  assumes "plan_rule lib config p parsed True rule = Inr plan" and "distinct (map fst (pn_mapping parsed))"
    and "yaml_reads_back (lib_from_yaml lib) (lib_to_yaml lib)
      (sort_mapping (lib_to_yaml lib) (stamp_archived_fields lib (apply_action_mutations lib (rr_then rule) (pn_mapping parsed))))"
  shows "plan_route lib config' q (rp_content plan) arch = Inl (AlreadyArchived q)"
proof -
  let ?m = "stamp_archived_fields lib (apply_action_mutations lib (rr_then rule) (pn_mapping parsed))"
  let ?s = "sort_mapping (lib_to_yaml lib) ?m" and ?y = "serialize_frontmatter (lib_to_yaml lib) (sort_mapping (lib_to_yaml lib) ?m)"
  have "distinct (map fst ?m)"
    using mutations_keys [OF assms(2), of lib "rr_then rule"] by (simp add: stamp_archived_fields_def ymap_insert_distinct)
  then have "map_of ?s = map_of ?m" by (rule sort_mapping_lookup)
  then have archd: "is_archived ?s" by (simp add: is_archived_def stamp_archived_fields_def)
  have "rp_content plan = rebuild_content lib ?m (pn_body parsed)"
    using assms(1) by (auto simp: plan_rule_def Let_def split: sum.splits)
  then have content: "rp_content plan =
      ''---'' @ [CHR 0x0A] @ ?y @ [CHR 0x0A] @ ''---'' @ [CHR 0x0A] @ pn_body parsed"
    by (simp add: rebuild_content_def)
  from assms(3) have "no_delimiter (?y @ [CHR 0x0A])"
    and read: "parse_frontmatter_mapping (lib_from_yaml lib) (trim_line_ending ?y) = Some ?s"
    by (simp_all add: yaml_reads_back_def)
  from extract_document(1) [OF this(1), of "pn_body parsed"]
  have "extract_frontmatter (rp_content plan) = (Some (trim_line_ending ?y), pn_body parsed)" by (simp only: content)
  with read archd show ?thesis by (simp add: plan_route_def parse_routed_note_def)
qed

text \<open>A rule that overwrites deletes the note it routes when the destination is another spelling of
  the note's own path: the note is removed as the file to overwrite, and the move finds nothing.\<close>

lemma overwrite_alias_loses:
  assumes "engine_read no_faults root p t = Inr content" and "plan_route lib config p content arch = Inr plan"
    and "rp_on_exists plan = OverwriteExisting" and "rp_destination plan \<noteq> p"
    and "at root (rp_destination plan) = at root p" and "plain_path (at root p)"
    and "list_all (\<lambda>q. ft_files t q = None) (prefixes (parent_of root p))"
    and "at root p \<notin> ft_dirs t \<union> set (prefixes (parent_of root p))"
  shows "\<exists>e t'. apply_inner lib config no_faults hash tag root p arch t = Some (Inl (VaultError e), t') \<and>
    ft_files t' (at root p) = None"
proof -
  let ?d = "rp_destination plan"
  have src: "ft_files t (at root p) = Some content" by (rule read_exists [OF assms(1)])
  obtain t1 where w: "engine_write no_faults hash tag root p None (rp_content plan) t = (Inr (Written (hash (rp_content plan))), t1)"
    and t1: "ft_files t1 (at root p) = Some (rp_content plan)"
    using replace_file_works [OF assms(7,8), of hash tag "rp_content plan"] by (simp add: engine_write_def)
  have res: "resolve_destination root p ?d OverwriteExisting t = Some (Inr ?d)"
    by (simp add: resolve_destination_def)
  obtain t2 where del: "engine_delete no_faults root ?d t1 = (Inr (), t2)" and t2: "ft_files t2 (at root p) = None"
    using t1 by (simp add: engine_delete_def os_remove_def no_faults_def assms(5))
  obtain e t3 where move: "engine_move no_faults root p ?d t2 = (Inl e, t3)"
    using engine_move_result [of no_faults root p ?d t2] t2 by (cases "engine_move no_faults root p ?d t2"; cases "fst (engine_move no_faults root p ?d t2)") auto
  with engine_move_result [OF this] t2 have t3: "ft_files t3 (at root p) = None" by simp
  have "os_exists t1 (at root ?d)" using t1 by (simp add: os_exists_def assms(5))
  then have "file_note no_faults hash tag root p plan ?d t = (Inl (VaultError (notesmith_error_text e)), t3)"
    using w assms(3,4) del move by (simp add: file_note_def)
  then have "apply_inner lib config no_faults hash tag root p arch t = Some (Inl (VaultError (notesmith_error_text e)), t3)"
    by (simp add: apply_inner_def assms(1,2,3) res)
  with t3 show ?thesis by blast
qed

section \<open>Witnesses\<close>

lemma engine_move_works:
  assumes "list_all (\<lambda>q. ft_files t q = None) (prefixes (parent_of root b))"
    and "ft_files t (at root a) = Some c" and "at root b \<notin> ft_dirs t \<union> set (prefixes (parent_of root b))"
  shows "\<exists>t'. engine_move no_faults root a b t = (Inr (), t')"
proof -
  have "\<not> list_ex (\<lambda>q. ft_files t q \<noteq> None) (prefixes (parent_of root b))"
    using assms(1) by (auto simp: list_all_iff list_ex_iff)
  then have "os_mkdir_all no_faults (parent_of root b) t =
      (Inr (), t\<lparr>ft_dirs := ft_dirs t \<union> set (prefixes (parent_of root b))\<rparr>)"
    by (simp only: os_mkdir_all_def no_faults_def IoFaults.simps option.case if_False)
  with assms(2,3) show ?thesis by (simp add: engine_move_def os_rename_def no_faults_def)
qed

definition demo_lib :: "string \<Rightarrow> RouteLib" where
  "demo_lib destination =
     \<lparr>lib_from_yaml = (\<lambda>s. None), lib_to_yaml = (\<lambda>y. Some ''x''), lib_float_text = (\<lambda>b. []),
      lib_render = (\<lambda>f template c. Inr destination), lib_glob = (\<lambda>g. None), lib_is_date = (\<lambda>s. False),
      lib_is_letter = (\<lambda>c. False), lib_now = ''now'', lib_parse_config = (\<lambda>s. Inl [])\<rparr>"

definition demo_rule :: RoutingRule where
  "demo_rule =
     \<lparr>rr_id = ''file'', rr_auto = False, rr_when = All_pred [],
      rr_then = \<lparr>ra_move_to = Some ''t'', ra_set_fields = [], ra_remove_fields = [], ra_add_tags = [], ra_remove_tags = []\<rparr>,
      rr_on_exists = None\<rparr>"

definition demo_config :: "OnExists \<Rightarrow> RoutingConfig" where
  "demo_config on_exists = \<lparr>rc_version = 1, rc_defaults_on_exists = on_exists, rc_rules = [demo_rule]\<rparr>"

definition demo_vault :: FileTree where
  "demo_vault = \<lparr>ft_files = [[''v'', ''a.md''] \<mapsto> demo_note], ft_dirs = {[], [''v'']}\<rparr>"

lemma demo_paths:
  "at ''/v'' ''a.md'' = [''v'', ''a.md'']" "at ''/v'' ''b.md'' = [''v'', ''b.md'']" "at ''/v'' ''./a.md'' = [''v'', ''a.md'']"
  "parent_of ''/v'' ''a.md'' = [''v'']" "parent_of ''/v'' ''b.md'' = [''v'']"
  by (simp_all add: at_def parent_of_def path_join_def path_parts_def resolve_parts_def)

lemma demo_plain: "plain_path [''v'', ''a.md'']"
  by (simp add: plain_path_def suffix_def)

lemma demo_read: "engine_read no_faults ''/v'' ''a.md'' demo_vault = Inr demo_note"
  by (simp add: engine_read_def os_read_def demo_paths demo_vault_def no_faults_def)

lemma demo_plan:
  "\<exists>plan. plan_route (demo_lib d) (demo_config on_exists) ''a.md'' demo_note False = Inr plan \<and>
     rp_on_exists plan = on_exists \<and> (d = ''b.md'' \<or> d = ''./a.md'' \<longrightarrow> rp_destination plan = d)"
  by (simp add: plan_route_def parse_routed_note_def demo_note_parts parse_frontmatter_mapping_def is_archived_def
      demo_config_def demo_rule_def plan_rule_def render_destination_def demo_lib_def Let_def)

lemma demo_clear: "list_all (\<lambda>q. ft_files demo_vault q = None) (prefixes (parent_of ''/v'' ''a.md''))"
  "at ''/v'' ''a.md'' \<notin> ft_dirs demo_vault \<union> set (prefixes (parent_of ''/v'' ''a.md''))"
  by (simp_all add: demo_paths demo_vault_def)

lemma demo_route:
  "\<exists>res t'. apply_inner (demo_lib ''b.md'') (demo_config SkipExisting) no_faults hash tag ''/v'' ''a.md'' False demo_vault =
     Some (Inr res, t') \<and> res_to res = ''b.md''"
proof -
  obtain plan where plan: "plan_route (demo_lib ''b.md'') (demo_config SkipExisting) ''a.md'' demo_note False = Inr plan"
    "rp_on_exists plan = SkipExisting" "rp_destination plan = ''b.md''"
    using demo_plan [of "''b.md''" SkipExisting] by auto
  have res: "resolve_destination ''/v'' ''a.md'' ''b.md'' SkipExisting demo_vault = Some (Inr ''b.md'')"
    by (simp add: resolve_destination_def os_exists_def demo_paths demo_vault_def)
  let ?t1 = "demo_vault\<lparr>ft_files := ((ft_files demo_vault)(sibling_temp_path tag ''/v'' ''a.md'' := None))([''v'', ''a.md''] \<mapsto> rp_content plan),
       ft_dirs := ft_dirs demo_vault \<union> set (prefixes [''v''])\<rparr>"
  have w: "engine_write no_faults hash tag ''/v'' ''a.md'' None (rp_content plan) demo_vault = (Inr (Written (hash (rp_content plan))), ?t1)"
    using replace_file_works [OF demo_clear, of hash tag "rp_content plan"] by (simp add: engine_write_def demo_paths)
  have "list_all (\<lambda>q. ft_files ?t1 q = None) (prefixes (parent_of ''/v'' ''b.md''))"
    "ft_files ?t1 (at ''/v'' ''a.md'') = Some (rp_content plan)"
    "at ''/v'' ''b.md'' \<notin> ft_dirs ?t1 \<union> set (prefixes (parent_of ''/v'' ''b.md''))"
    by (simp_all add: demo_paths demo_vault_def)
  from engine_move_works [OF this] obtain t' where "engine_move no_faults ''/v'' ''a.md'' ''b.md'' ?t1 = (Inr (), t')" by blast
  with w plan(2) have "file_note no_faults hash tag ''/v'' ''a.md'' plan ''b.md'' demo_vault = (Inr (), t')"
    by (simp add: file_note_def)
  with plan res show ?thesis by (simp add: apply_inner_def demo_read)
qed

lemma route_files_note_witness:
  "\<exists>content plan t'. engine_read no_faults ''/v'' ''a.md'' demo_vault = Inr content \<and>
    plan_route (demo_lib ''b.md'') (demo_config SkipExisting) ''a.md'' content False = Inr plan \<and>
    moved demo_vault [''v'', ''a.md''] [''v'', ''b.md''] (rp_content plan) t'"
proof -
  obtain res t' where r: "apply_inner (demo_lib ''b.md'') (demo_config SkipExisting) no_faults (\<lambda>c. c) [] ''/v'' ''a.md'' False demo_vault =
     Some (Inr res, t')" "res_to res = ''b.md''" using demo_route by blast
  from route_files_note [OF r(1)] r(2) show ?thesis by (auto simp: demo_paths demo_plain)
qed

lemma route_keeps_notes_witness:
  "\<exists>(res :: RouteResult) plan (t' :: FileTree). ft_files t' (at ''/v'' (res_to res)) = Some (rp_content plan) \<and>
    plan_route (demo_lib ''b.md'') (demo_config SkipExisting) ''a.md'' demo_note False = Inr plan"
proof -
  obtain res t' where r: "apply_inner (demo_lib ''b.md'') (demo_config SkipExisting) no_faults (\<lambda>c. c) [] ''/v'' ''a.md'' False demo_vault =
     Some (Inr res, t')" using demo_route by blast
  obtain plan where plan: "plan_route (demo_lib ''b.md'') (demo_config SkipExisting) ''a.md'' demo_note False = Inr plan"
    "rp_on_exists plan = SkipExisting" using demo_plan [of "''b.md''" SkipExisting] by auto
  have "ft_files demo_vault (at ''/v'' ''a.md'') = Some demo_note" by (simp add: demo_paths demo_vault_def)
  from route_keeps_notes [OF r demo_read plan(1) _ _ _ this] plan(2)
  have "ft_files t' (at ''/v'' (res_to res)) = Some (rp_content plan)" by (simp add: demo_paths demo_plain)
  with plan(1) show ?thesis by blast
qed

lemma rename_finds_free_witness:
  "\<exists>n \<ge> 1. next_available_destination ''/v'' ''a.md'' demo_vault = Some (Inr (next_candidate (parent_text ''a.md'') ''a'' ''.md'' n)) \<and>
    \<not> os_exists demo_vault (at ''/v'' (next_candidate (parent_text ''a.md'') ''a'' ''.md'' n)) \<and>
    (\<forall>k. 1 \<le> k \<and> k < n \<longrightarrow> os_exists demo_vault (at ''/v'' (next_candidate (parent_text ''a.md'') ''a'' ''.md'' k)))"
  by (rule rename_finds_free)
     (simp_all add: tree_finite_def demo_vault_def file_stem_def file_ext_def file_name_def path_parts_def name_split_def
       rsplit_once_def)

lemma overwrite_alias_loses_witness:
  "\<exists>e t'. apply_inner (demo_lib ''./a.md'') (demo_config OverwriteExisting) no_faults (\<lambda>c. c) [] ''/v'' ''a.md'' False demo_vault =
      Some (Inl (VaultError e), t') \<and> ft_files t' [''v'', ''a.md''] = None"
proof -
  obtain plan where plan: "plan_route (demo_lib ''./a.md'') (demo_config OverwriteExisting) ''a.md'' demo_note False = Inr plan"
    "rp_on_exists plan = OverwriteExisting" "rp_destination plan = ''./a.md''"
    using demo_plan [of "''./a.md''" OverwriteExisting] by auto
  from overwrite_alias_loses [OF demo_read plan(1,2) _ _ _ demo_clear, of "\<lambda>c. c" "[]"] plan(3) show ?thesis
    by (simp add: demo_paths demo_plain)
qed

definition archive_yaml :: string where
  "archive_yaml = ''archived: true'' @ [CHR 0x0A] @ ''archived-at: now''"

definition archive_map :: yaml_map where
  "archive_map = [(YString ''archived'', YBool True), (YString ''archived-at'', YString ''now'')]"

definition archive_lib :: RouteLib where
  "archive_lib = (demo_lib ''b.md'')\<lparr>lib_from_yaml := (\<lambda>s. if s = archive_yaml then Some (YMap archive_map) else None),
     lib_to_yaml := (\<lambda>y. Some archive_yaml)\<rparr>"

lemma archived_note_stays_witness:
  "\<exists>plan. plan_rule archive_lib (demo_config SkipExisting) ''a.md''
      \<lparr>pn_mapping = [], pn_body = ''b'', pn_context = note_context_from_mapping archive_lib ''a.md'' []\<rparr> True demo_rule = Inr plan \<and>
    plan_route archive_lib (demo_config SkipExisting) ''c.md'' (rp_content plan) False = Inl (AlreadyArchived ''c.md'')"
proof -
  let ?p = "\<lparr>pn_mapping = [], pn_body = ''b'', pn_context = note_context_from_mapping archive_lib ''a.md'' []\<rparr>"
  obtain plan where plan: "plan_rule archive_lib (demo_config SkipExisting) ''a.md'' ?p True demo_rule = Inr plan"
    by (simp add: plan_rule_def render_destination_def archive_lib_def demo_lib_def demo_rule_def Let_def)
  have m: "sort_mapping (lib_to_yaml archive_lib) (stamp_archived_fields archive_lib
      (apply_action_mutations archive_lib (rr_then demo_rule) [])) = archive_map"
    by (simp add: stamp_archived_fields_def apply_action_mutations_def demo_rule_def mutate_tags_def ymap_remove_def
        sort_mapping_eq yaml_key_sort_key_def archive_map_def archive_lib_def demo_lib_def Let_def)
  have "trim archive_yaml = archive_yaml" by (rule trim_solid) (simp_all add: archive_yaml_def solid_def)
  then have "trim archive_yaml \<noteq> []" by (simp add: archive_yaml_def)
  moreover have "serialize_frontmatter (lib_to_yaml archive_lib) archive_map = archive_yaml"
    by (simp add: serialize_frontmatter_def archive_lib_def archive_yaml_def trim_end_while_def)
  moreover have "no_delimiter (archive_yaml @ [CHR 0x0A])" "trim_line_ending archive_yaml = archive_yaml"
    by (simp_all add: no_delimiter_def archive_yaml_def trim_line_ending_def trim_end_while_def is_line_end_def)
  ultimately have "yaml_reads_back (lib_from_yaml archive_lib) (lib_to_yaml archive_lib) archive_map"
    by (simp add: yaml_reads_back_def parse_frontmatter_mapping_def archive_lib_def)
  then show ?thesis
    using archived_note_stays [OF plan, of "demo_config SkipExisting" "''c.md''" False] plan m by simp
qed

end
