(* ===== verification/Fetch.thy ===== *)
theory Fetch
  imports StdModel
begin

text \<open>
  Fetching pages for clips (\<open>notesmith-clip/src/ssrf.rs\<close>, \<open>fetch.rs\<close>, \<open>error.rs\<close>): which addresses
  are refused, the resolution of a host to public addresses, the loop over redirects and the capped
  read of the body.  The URL library, the resolver, the HTTP client and the servers behind it are
  parameters; the last three may answer differently at every hop.  A fetch returns, beside its
  result, the requests it has sent, in order.
\<close>

unbundle bit_operations_syntax

section \<open>Addresses\<close>

text \<open>An IPv4 address is its four octets, an IPv6 address its eight segments.\<close>

datatype Ipv4Addr = Ipv4 "8 word" "8 word" "8 word" "8 word"

datatype Ipv6Addr = Ipv6 "16 word" "16 word" "16 word" "16 word" "16 word" "16 word" "16 word" "16 word"

datatype IpAddr = V4 Ipv4Addr | V6 Ipv6Addr

text \<open>The classes of addresses of the standard library.\<close>

fun v4_loopback :: "Ipv4Addr \<Rightarrow> bool" where "v4_loopback (Ipv4 a b c d) \<longleftrightarrow> a = 127"

fun v4_private :: "Ipv4Addr \<Rightarrow> bool" where
  "v4_private (Ipv4 a b c d) \<longleftrightarrow> a = 10 \<or> (a = 172 \<and> 16 \<le> b \<and> b \<le> 31) \<or> (a = 192 \<and> b = 168)"

fun v4_link_local :: "Ipv4Addr \<Rightarrow> bool" where "v4_link_local (Ipv4 a b c d) \<longleftrightarrow> a = 169 \<and> b = 254"

fun v4_broadcast :: "Ipv4Addr \<Rightarrow> bool" where
  "v4_broadcast (Ipv4 a b c d) \<longleftrightarrow> a = 255 \<and> b = 255 \<and> c = 255 \<and> d = 255"

fun v4_documentation :: "Ipv4Addr \<Rightarrow> bool" where
  "v4_documentation (Ipv4 a b c d) \<longleftrightarrow>
     (a = 192 \<and> b = 0 \<and> c = 2) \<or> (a = 198 \<and> b = 51 \<and> c = 100) \<or> (a = 203 \<and> b = 0 \<and> c = 113)"

fun v4_unspecified :: "Ipv4Addr \<Rightarrow> bool" where
  "v4_unspecified (Ipv4 a b c d) \<longleftrightarrow> a = 0 \<and> b = 0 \<and> c = 0 \<and> d = 0"

fun is_blocked_v4 :: "Ipv4Addr \<Rightarrow> bool" where
  "is_blocked_v4 (Ipv4 a b c d) \<longleftrightarrow>
     v4_loopback (Ipv4 a b c d) \<or> v4_private (Ipv4 a b c d) \<or> v4_link_local (Ipv4 a b c d) \<or>
     v4_broadcast (Ipv4 a b c d) \<or> v4_documentation (Ipv4 a b c d) \<or> v4_unspecified (Ipv4 a b c d) \<or>
     (a = 100 \<and> b AND 0xC0 = 64) \<or> (a = 192 \<and> b = 0 \<and> c = 0) \<or>
     (a = 198 \<and> (b = 18 \<or> b = 19)) \<or> a \<ge> 240"

definition high_octet :: "16 word \<Rightarrow> 8 word" where "high_octet s = ucast (drop_bit 8 s)"

definition low_octet :: "16 word \<Rightarrow> 8 word" where "low_octet s = ucast s"

fun to_ipv4_mapped :: "Ipv6Addr \<Rightarrow> Ipv4Addr option" where
  "to_ipv4_mapped (Ipv6 a b c d e f g h) =
     (if a = 0 \<and> b = 0 \<and> c = 0 \<and> d = 0 \<and> e = 0 \<and> f = 0xFFFF
      then Some (Ipv4 (high_octet g) (low_octet g) (high_octet h) (low_octet h)) else None)"

fun is_blocked_v6 :: "Ipv6Addr \<Rightarrow> bool" where
  "is_blocked_v6 (Ipv6 a b c d e f g h) \<longleftrightarrow>
     (if (a = 0 \<and> b = 0 \<and> c = 0 \<and> d = 0 \<and> e = 0 \<and> f = 0 \<and> g = 0 \<and> (h = 1 \<or> h = 0)) \<or> a AND 0xFF00 = 0xFF00 then True
      else if a AND 0xFE00 = 0xFC00 then True
      else if a AND 0xFFC0 = 0xFE80 then True
      else (case to_ipv4_mapped (Ipv6 a b c d e f g h) of Some v4 \<Rightarrow> is_blocked_v4 v4 | None \<Rightarrow> False))"

fun is_blocked_ip :: "IpAddr \<Rightarrow> bool" where
  "is_blocked_ip (V4 v4) = is_blocked_v4 v4"
| "is_blocked_ip (V6 v6) = is_blocked_v6 v6"

section \<open>Address literals\<close>

text \<open>
  The parser of the standard library.  Every reader answers the value it read and the rest of the
  text, or fails without consuming anything.
\<close>

definition hex_val :: "char \<Rightarrow> nat option" where
  "hex_val c = (let n = of_char c in
     if 48 \<le> n \<and> n \<le> 57 then Some (n - 48)
     else if 97 \<le> n \<and> n \<le> 102 then Some (n - 87)
     else if 65 \<le> n \<and> n \<le> 70 then Some (n - 55) else None)"

fun read_digits :: "nat \<Rightarrow> nat \<Rightarrow> string \<Rightarrow> nat \<times> nat \<times> string" where
  "read_digits radix acc [] = (0, acc, [])"
| "read_digits radix acc (c # s) =
     (case hex_val c of
        Some v \<Rightarrow> if v < radix then (let (k, n, r) = read_digits radix (acc * radix + v) s in (Suc k, n, r))
                  else (0, acc, c # s)
      | None \<Rightarrow> (0, acc, c # s))"

definition read_number :: "nat \<Rightarrow> nat \<Rightarrow> nat \<Rightarrow> bool \<Rightarrow> string \<Rightarrow> (nat \<times> string) option" where
  "read_number radix max_digits limit zero_prefix s =
     (let (k, n, r) = read_digits radix 0 s
      in if k = 0 \<or> max_digits < k \<or> limit \<le> n \<or> (\<not> zero_prefix \<and> prefix ''0'' s \<and> 1 < k) then None else Some (n, r))"

definition read_given_char :: "char \<Rightarrow> string \<Rightarrow> string option" where
  "read_given_char c s = (case s of a # r \<Rightarrow> if a = c then Some r else None | [] \<Rightarrow> None)"

definition read_separator :: "char \<Rightarrow> nat \<Rightarrow> (string \<Rightarrow> ('a \<times> string) option) \<Rightarrow> string \<Rightarrow> ('a \<times> string) option" where
  "read_separator sep index inner s = (if 0 < index then Option.bind (read_given_char sep s) inner else inner s)"

definition read_ipv4_addr :: "string \<Rightarrow> (Ipv4Addr \<times> string) option" where
  "read_ipv4_addr s =
     (let octet = (\<lambda>i. read_separator CHR ''.'' i (read_number 10 3 256 False))
      in Option.bind (octet 0 s) (\<lambda>(a, r). Option.bind (octet 1 r) (\<lambda>(b, r).
         Option.bind (octet 2 r) (\<lambda>(c, r). Option.bind (octet 3 r) (\<lambda>(d, r).
           Some (Ipv4 (of_nat a) (of_nat b) (of_nat c) (of_nat d), r))))))"

text \<open>Up to \<open>limit\<close> groups, the last two of which may be written as an IPv4 address; the groups
  read so far are \<open>acc\<close>.\<close>

definition join_octets :: "8 word \<Rightarrow> 8 word \<Rightarrow> 16 word" where
  "join_octets a b = ucast a * 256 + ucast b"

fun read_groups :: "nat \<Rightarrow> nat \<Rightarrow> 16 word list \<Rightarrow> string \<Rightarrow> 16 word list \<times> bool \<times> string" where
  "read_groups 0 i acc s = (acc, False, s)"
| "read_groups (Suc left) i acc s =
     (case (if 0 < left then read_separator CHR '':'' i read_ipv4_addr s else None) of
        Some (Ipv4 a b c d, r) \<Rightarrow> (acc @ [join_octets a b, join_octets c d], True, r)
      | None \<Rightarrow>
          (case read_separator CHR '':'' i (read_number 16 4 65536 True) s of
             None \<Rightarrow> (acc, False, s)
           | Some (g, r) \<Rightarrow> read_groups left (Suc i) (acc @ [of_nat g]) r))"

definition ipv6_of :: "16 word list \<Rightarrow> Ipv6Addr" where
  "ipv6_of g = Ipv6 (g ! 0) (g ! 1) (g ! 2) (g ! 3) (g ! 4) (g ! 5) (g ! 6) (g ! 7)"

definition read_ipv6_addr :: "string \<Rightarrow> (Ipv6Addr \<times> string) option" where
  "read_ipv6_addr s =
     (let (head, head_ipv4, r) = read_groups 8 0 [] s
      in if length head = 8 then Some (ipv6_of head, r)
         else if head_ipv4 then None
         else Option.bind (read_given_char CHR '':'' r) (\<lambda>r. Option.bind (read_given_char CHR '':'' r) (\<lambda>r.
           (let (tail, _, r) = read_groups (8 - (length head + 1)) 0 [] r
            in Some (ipv6_of (head @ replicate (8 - length head - length tail) 0 @ tail), r)))))"

definition parse_ip :: "string \<Rightarrow> IpAddr option" where
  "parse_ip s =
     (case (case read_ipv4_addr s of
              Some (a, r) \<Rightarrow> Some (V4 a, r)
            | None \<Rightarrow> map_option (\<lambda>(a, r). (V6 a, r)) (read_ipv6_addr s)) of
        Some (ip, []) \<Rightarrow> Some ip | _ \<Rightarrow> None)"

section \<open>Resolving a host\<close>

datatype ClipError =
    InvalidUrl string
  | Blocked string
  | FetchFailed string
  | TooLarge nat nat
  | Extract string

type_synonym SocketAddr = "IpAddr \<times> nat"

text \<open>\<open>resolve\<close> is the answer of the system resolver, \<open>show_ip\<close> the text of an address in a message.\<close>

definition resolve_public_addrs ::
  "(IpAddr \<Rightarrow> string) \<Rightarrow> (string \<Rightarrow> nat \<Rightarrow> string + SocketAddr list) \<Rightarrow> string \<Rightarrow> nat \<Rightarrow> ClipError + SocketAddr list" where
  "resolve_public_addrs show_ip resolve host port =
     (case parse_ip host of
        Some ip \<Rightarrow>
          if is_blocked_ip ip then Inl (Blocked (''ip '' @ show_ip ip @ '' is not public'')) else Inr [(ip, port)]
      | None \<Rightarrow>
          (case resolve host port of
             Inl e \<Rightarrow> Inl (FetchFailed (''dns resolution failed for '' @ host @ '': '' @ e))
           | Inr [] \<Rightarrow> Inl (FetchFailed (''no addresses for '' @ host))
           | Inr resolved \<Rightarrow>
               (let public = filter (\<lambda>addr. \<not> is_blocked_ip (fst addr)) resolved
                in if public = [] then Inl (Blocked (''host '' @ host @ '' resolves only to non-public addresses''))
                   else Inr public)))"

section \<open>Fetching\<close>

record FetchLimits =
  fl_timeout_secs :: nat
  fl_max_bytes :: nat
  fl_max_redirects :: nat
  fl_user_agent :: string

definition fetch_limits_default :: "string \<Rightarrow> FetchLimits" where
  "fetch_limits_default version =
     \<lparr>fl_timeout_secs = 15, fl_max_bytes = 5 * 1024 * 1024, fl_max_redirects = 5,
      fl_user_agent = ''Notesmith-Clip/'' @ version\<rparr>"

record FetchedPage =
  fp_final_url :: string
  fp_html :: string

record FetchedBytes =
  fb_final_url :: string
  fb_bytes :: bytes
  fb_content_type :: "string option"

record RequestSpec =
  rs_post_body :: "(bytes \<times> string) option"
  rs_extra_headers :: "(string \<times> string) list"
  rs_user_agent :: "string option"

definition request_spec_default :: RequestSpec where
  "request_spec_default = \<lparr>rs_post_body = None, rs_extra_headers = [], rs_user_agent = None\<rparr>"

text \<open>The \<open>url\<close> crate, with \<open>'u\<close> its parsed URLs.\<close>

record 'u UrlLib =
  ul_parse :: "string \<Rightarrow> string + 'u"
  ul_scheme :: "'u \<Rightarrow> string"
  ul_host :: "'u \<Rightarrow> string option"
  ul_port :: "'u \<Rightarrow> nat option"
  ul_join :: "'u \<Rightarrow> string \<Rightarrow> string + 'u"
  ul_text :: "'u \<Rightarrow> string"

text \<open>A request as it is handed to the client: the addresses it may connect to, the time limit and
  the agent are those of the client, which follows no redirect itself.\<close>

record 'u Sent =
  sent_url :: 'u
  sent_host :: string
  sent_addrs :: "SocketAddr list"
  sent_timeout :: nat
  sent_user_agent :: string
  sent_body :: "bytes option"
  sent_headers :: "(string \<times> string) list"

text \<open>A response; reading a chunk of its body may fail.\<close>

record Response =
  rsp_status :: nat
  rsp_location :: "string option"
  rsp_content_type :: "string option"
  rsp_chunks :: "(string + bytes) list"

record 'u Net =
  net_resolve :: "nat \<Rightarrow> string \<Rightarrow> nat \<Rightarrow> string + SocketAddr list"
  net_client_error :: "nat \<Rightarrow> string option"
  net_send :: "nat \<Rightarrow> 'u Sent \<Rightarrow> string + Response"
  net_show_ip :: "IpAddr \<Rightarrow> string"
  net_show_status :: "nat \<Rightarrow> string"

definition require_http :: "'u UrlLib \<Rightarrow> 'u \<Rightarrow> ClipError + unit" where
  "require_http lib url =
     (if ul_scheme lib url = ''http'' \<or> ul_scheme lib url = ''https'' then Inr ()
      else Inl (InvalidUrl (''unsupported scheme: '' @ ul_scheme lib url)))"

fun read_chunks :: "nat \<Rightarrow> bytes \<Rightarrow> (string + bytes) list \<Rightarrow> ClipError + bytes" where
  "read_chunks max_bytes buf [] = Inr buf"
| "read_chunks max_bytes buf (Inl e # chunks) = Inl (FetchFailed e)"
| "read_chunks max_bytes buf (Inr chunk # chunks) =
     (if max_bytes < length buf + length chunk then Inl (TooLarge (length buf + length chunk) max_bytes)
      else read_chunks max_bytes (buf @ chunk) chunks)"

definition read_body_capped :: "Response \<Rightarrow> nat \<Rightarrow> ClipError + bytes" where
  "read_body_capped resp max_bytes = read_chunks max_bytes [] (rsp_chunks resp)"

text \<open>The request of one hop, or the reason there is none.\<close>

definition hop_request ::
  "'u UrlLib \<Rightarrow> 'u Net \<Rightarrow> RequestSpec \<Rightarrow> FetchLimits \<Rightarrow> nat \<Rightarrow> 'u \<Rightarrow> ClipError + 'u Sent" where
  "hop_request lib net spec limits hop current =
     (case require_http lib current of
        Inl e \<Rightarrow> Inl e
      | Inr _ \<Rightarrow>
          (case ul_host lib current of
             None \<Rightarrow> Inl (InvalidUrl ''missing host'')
           | Some host \<Rightarrow>
               (case ul_port lib current of
                  None \<Rightarrow> Inl (InvalidUrl ''missing port'')
                | Some port \<Rightarrow>
                    (case resolve_public_addrs (net_show_ip net) (net_resolve net hop) host port of
                       Inl e \<Rightarrow> Inl e
                     | Inr addrs \<Rightarrow>
                         (case net_client_error net hop of
                            Some e \<Rightarrow> Inl (FetchFailed e)
                          | None \<Rightarrow>
                              Inr \<lparr>sent_url = current, sent_host = host, sent_addrs = addrs,
                                   sent_timeout = fl_timeout_secs limits,
                                   sent_user_agent = (case rs_user_agent spec of Some a \<Rightarrow> a | None \<Rightarrow> fl_user_agent limits),
                                   sent_body = map_option fst (rs_post_body spec),
                                   sent_headers =
                                     (case rs_post_body spec of Some (_, ct) \<Rightarrow> [(''content-type'', ct)] | None \<Rightarrow> []) @
                                     rs_extra_headers spec\<rparr>)))))"

text \<open>The loop over the hops: \<open>left\<close> of them are left.\<close>

definition is_redirection :: "nat \<Rightarrow> bool" where "is_redirection status \<longleftrightarrow> 300 \<le> status \<and> status < 400"

definition is_success :: "nat \<Rightarrow> bool" where "is_success status \<longleftrightarrow> 200 \<le> status \<and> status < 300"

fun fetch_hops ::
  "'u UrlLib \<Rightarrow> 'u Net \<Rightarrow> RequestSpec \<Rightarrow> FetchLimits \<Rightarrow> nat \<Rightarrow> nat \<Rightarrow> 'u \<Rightarrow> (ClipError + FetchedBytes) \<times> 'u Sent list" where
  "fetch_hops lib net spec limits 0 hop current =
     (Inl (FetchFailed (''too many redirects (limit '' @ show_nat (fl_max_redirects limits) @ '')'')), [])"
| "fetch_hops lib net spec limits (Suc left) hop current =
     (case hop_request lib net spec limits hop current of
        Inl e \<Rightarrow> (Inl e, [])
      | Inr req \<Rightarrow>
          (case net_send net hop req of
             Inl e \<Rightarrow> (Inl (FetchFailed e), [req])
           | Inr resp \<Rightarrow>
               if is_redirection (rsp_status resp) then
                 (case rsp_location resp of
                    None \<Rightarrow> (Inl (FetchFailed (''redirect '' @ net_show_status net (rsp_status resp) @ '' without location'')), [req])
                  | Some location \<Rightarrow>
                      (case ul_join lib current location of
                         Inl e \<Rightarrow> (Inl (InvalidUrl (''bad redirect target: '' @ e)), [req])
                       | Inr target \<Rightarrow>
                           (let (r, sent) = fetch_hops lib net spec limits left (Suc hop) target in (r, req # sent))))
               else if \<not> is_success (rsp_status resp) then
                 (Inl (FetchFailed (''http status '' @ net_show_status net (rsp_status resp))), [req])
               else
                 (case read_body_capped resp (fl_max_bytes limits) of
                    Inl e \<Rightarrow> (Inl e, [req])
                  | Inr bytes \<Rightarrow>
                      (Inr \<lparr>fb_final_url = ul_text lib current, fb_bytes = bytes,
                            fb_content_type = rsp_content_type resp\<rparr>, [req]))))"

definition fetch_request ::
  "'u UrlLib \<Rightarrow> 'u Net \<Rightarrow> string \<Rightarrow> RequestSpec \<Rightarrow> FetchLimits \<Rightarrow> (ClipError + FetchedBytes) \<times> 'u Sent list" where
  "fetch_request lib net url spec limits =
     (case ul_parse lib url of
        Inl e \<Rightarrow> (Inl (InvalidUrl e), [])
      | Inr current \<Rightarrow> fetch_hops lib net spec limits (Suc (fl_max_redirects limits)) 0 current)"

definition fetch_bytes :: "'u UrlLib \<Rightarrow> 'u Net \<Rightarrow> string \<Rightarrow> FetchLimits \<Rightarrow> (ClipError + FetchedBytes) \<times> 'u Sent list" where
  "fetch_bytes lib net url limits = fetch_request lib net url request_spec_default limits"

text \<open>\<open>lossy\<close> is \<open>String::from_utf8_lossy\<close>.\<close>

definition fetch_html ::
  "(bytes \<Rightarrow> string) \<Rightarrow> 'u UrlLib \<Rightarrow> 'u Net \<Rightarrow> string \<Rightarrow> FetchLimits \<Rightarrow> (ClipError + FetchedPage) \<times> 'u Sent list" where
  "fetch_html lossy lib net url limits =
     (case fetch_bytes lib net url limits of
        (Inl e, sent) \<Rightarrow> (Inl e, sent)
      | (Inr raw, sent) \<Rightarrow> (Inr \<lparr>fp_final_url = fb_final_url raw, fp_html = lossy (fb_bytes raw)\<rparr>, sent))"

definition fetch_json_post ::
  "'u UrlLib \<Rightarrow> 'u Net \<Rightarrow> string \<Rightarrow> bytes \<Rightarrow> string \<Rightarrow> (string \<times> string) list \<Rightarrow> string option \<Rightarrow> FetchLimits \<Rightarrow>
     (ClipError + FetchedBytes) \<times> 'u Sent list" where
  "fetch_json_post lib net url body content_type extra_headers user_agent limits =
     fetch_request lib net url
       \<lparr>rs_post_body = Some (body, content_type), rs_extra_headers = extra_headers, rs_user_agent = user_agent\<rparr> limits"

section \<open>The refused addresses are a list of networks\<close>

text \<open>An address as a number, and a network as its first address and the number of its host bits.\<close>

fun v4_num :: "Ipv4Addr \<Rightarrow> nat" where
  "v4_num (Ipv4 a b c d) = ((unat a * 256 + unat b) * 256 + unat c) * 256 + unat d"

fun v6_num :: "Ipv6Addr \<Rightarrow> nat" where
  "v6_num (Ipv6 a b c d e f g h) =
     ((((((unat a * 65536 + unat b) * 65536 + unat c) * 65536 + unat d) * 65536 + unat e) * 65536 +
       unat f) * 65536 + unat g) * 65536 + unat h"

definition in_net :: "nat \<Rightarrow> nat \<times> nat \<Rightarrow> bool" where
  "in_net n net \<longleftrightarrow> n div 2 ^ snd net = fst net div 2 ^ snd net"

definition cidr4 :: "nat \<Rightarrow> nat \<Rightarrow> nat \<Rightarrow> nat \<Rightarrow> nat \<Rightarrow> nat \<times> nat" where
  "cidr4 a b c d len = (a * 2 ^ 24 + b * 2 ^ 16 + c * 2 ^ 8 + d, 32 - len)"

definition blocked_v4_nets :: "(nat \<times> nat) list" where
  "blocked_v4_nets =
     [cidr4 127 0 0 0 8, cidr4 10 0 0 0 8, cidr4 172 16 0 0 12, cidr4 192 168 0 0 16, cidr4 169 254 0 0 16,
      cidr4 192 0 2 0 24, cidr4 198 51 100 0 24, cidr4 203 0 113 0 24, cidr4 0 0 0 0 32, cidr4 100 64 0 0 10,
      cidr4 192 0 0 0 24, cidr4 198 18 0 0 15, cidr4 240 0 0 0 4]"

definition mapped_base :: nat where "mapped_base = 0xFFFF * 2 ^ 32"

definition blocked_v6_nets :: "(nat \<times> nat) list" where
  "blocked_v6_nets =
     [(0, 0), (1, 0), (0xFF00 * 2 ^ 112, 120), (0xFC00 * 2 ^ 112, 121), (0xFE80 * 2 ^ 112, 118)] @
     map (\<lambda>(net, bits). (mapped_base + net, bits)) blocked_v4_nets"

definition blocked_net :: "IpAddr \<Rightarrow> bool" where
  "blocked_net ip =
     (case ip of V4 v4 \<Rightarrow> list_ex (in_net (v4_num v4)) blocked_v4_nets
      | V6 v6 \<Rightarrow> list_ex (in_net (v6_num v6)) blocked_v6_nets)"

lemma in_net_interval:
  assumes "2 ^ k dvd net"
  shows "in_net n (net, k) \<longleftrightarrow> net \<le> n \<and> n < net + 2 ^ k"
proof -
  let ?m = "2 ^ k :: nat"
  obtain q where q: "net = ?m * q" using assms by (rule dvdE)
  have "n div ?m = q \<longleftrightarrow> ?m * q \<le> n \<and> n < ?m * q + ?m"
  proof
    assume "n div ?m = q"
    then show "?m * q \<le> n \<and> n < ?m * q + ?m"
      using mult_div_mod_eq [of ?m n] mod_less_divisor [of ?m n] by (metis add_left_mono less_imp_le_nat
          le_add1 nat_add_left_cancel_less zero_less_numeral zero_less_power)
  next
    assume "?m * q \<le> n \<and> n < ?m * q + ?m"
    then show "n div ?m = q" by (intro div_nat_eqI) (simp_all add: mult.commute)
  qed
  then show ?thesis by (simp add: in_net_def q)
qed

text \<open>A masked comparison is a comparison of the leading bits.\<close>

lemma masked_eq:
  fixes w v :: "'a::len word"
  assumes "v AND NOT (mask k) = v"
  shows "w AND NOT (mask k) = v \<longleftrightarrow> unat w div 2 ^ k = unat v div 2 ^ k"
proof -
  have "w AND NOT (mask k) = v \<longleftrightarrow> drop_bit k w = drop_bit k v"
  proof
    assume "w AND NOT (mask k) = v"
    then show "drop_bit k w = drop_bit k v" by (auto simp: bit_simps intro!: bit_word_eqI dest: bit_imp_le_length)
  next
    assume eq: "drop_bit k w = drop_bit k v"
    have "bit w i \<longleftrightarrow> bit v i" if "k \<le> i" for i
      using arg_cong [OF eq, of "\<lambda>x. bit x (i - k)"] that by (simp add: bit_simps)
    then have "w AND NOT (mask k) = v AND NOT (mask k)" by (intro bit_word_eqI) (auto simp: bit_simps)
    with assms show "w AND NOT (mask k) = v" by simp
  qed
  also have "\<dots> \<longleftrightarrow> unat (drop_bit k w) = unat (drop_bit k v)" by (simp add: word_unat_eq_iff)
  also have "\<dots> \<longleftrightarrow> drop_bit k (unat w) = drop_bit k (unat v)" by (simp only: unat_drop_bit_eq)
  finally show ?thesis by (simp only: drop_bit_eq_div)
qed

lemma masked_c0: "(b :: 8 word) AND 0xC0 = 64 \<longleftrightarrow> 64 \<le> unat b \<and> unat b < 128"
proof -
  have "(0xC0 :: 8 word) = NOT (mask 6)" "(64 :: 8 word) AND 0xC0 = 64" by (simp_all add: mask_eq_exp_minus_1)
  with masked_eq [of "64 :: 8 word" 6 b] have "b AND 0xC0 = 64 \<longleftrightarrow> unat b div 64 = 1" by simp
  then show ?thesis by auto
qed

lemma masked_segment:
  "(a :: 16 word) AND 0xFF00 = 0xFF00 \<longleftrightarrow> 0xFF00 \<le> unat a"
  "a AND 0xFE00 = 0xFC00 \<longleftrightarrow> 0xFC00 \<le> unat a \<and> unat a < 0xFE00"
  "a AND 0xFFC0 = 0xFE80 \<longleftrightarrow> 0xFE80 \<le> unat a \<and> unat a < 0xFEC0"
proof -
  have a: "unat a < 65536" using unsigned_less [of a] by simp
  have "(0xFF00 :: 16 word) = NOT (mask 8)" "(0xFF00 :: 16 word) AND 0xFF00 = 0xFF00" by (simp_all add: mask_eq_exp_minus_1)
  with masked_eq [of "0xFF00 :: 16 word" 8 a] have "a AND 0xFF00 = 0xFF00 \<longleftrightarrow> unat a div 256 = 255" by simp
  with a show "a AND 0xFF00 = 0xFF00 \<longleftrightarrow> 0xFF00 \<le> unat a" by auto
  have "(0xFE00 :: 16 word) = NOT (mask 9)" "(0xFC00 :: 16 word) AND 0xFE00 = 0xFC00" by (simp_all add: mask_eq_exp_minus_1)
  with masked_eq [of "0xFC00 :: 16 word" 9 a] have "a AND 0xFE00 = 0xFC00 \<longleftrightarrow> unat a div 512 = 126" by simp
  then show "a AND 0xFE00 = 0xFC00 \<longleftrightarrow> 0xFC00 \<le> unat a \<and> unat a < 0xFE00" by auto
  have "(0xFFC0 :: 16 word) = NOT (mask 6)" "(0xFE80 :: 16 word) AND 0xFFC0 = 0xFE80" by (simp_all add: mask_eq_exp_minus_1)
  with masked_eq [of "0xFE80 :: 16 word" 6 a] have "a AND 0xFFC0 = 0xFE80 \<longleftrightarrow> unat a div 64 = 1018" by simp
  then show "a AND 0xFFC0 = 0xFE80 \<longleftrightarrow> 0xFE80 \<le> unat a \<and> unat a < 0xFEC0" by auto
qed

lemma octet_eq: "w = v \<longleftrightarrow> unat w = unat v" for w v :: "'a::len word"
  by (rule word_unat_eq_iff)

text \<open>Membership in a network in terms of the octets.\<close>

lemma octet_bound: "unat (a :: 8 word) < 256"
  using unsigned_less [of a] by simp

lemma v4_div:
  defines "n a b c d \<equiv> v4_num (Ipv4 a b c d)"
  shows "n a b c d div 256 = (unat a * 256 + unat b) * 256 + unat c"
    "n a b c d div 65536 = unat a * 256 + unat b"
    "n a b c d div 16777216 = unat a"
proof -
  show 1: "n a b c d div 256 = (unat a * 256 + unat b) * 256 + unat c"
    using octet_bound [of d] by (simp add: n_def)
  have "n a b c d div 65536 = n a b c d div 256 div 256" by (simp flip: div_mult2_eq)
  then show 2: "n a b c d div 65536 = unat a * 256 + unat b" using octet_bound [of c] by (simp add: 1)
  have "n a b c d div 16777216 = n a b c d div 65536 div 256" by (simp flip: div_mult2_eq)
  then show "n a b c d div 16777216 = unat a" using octet_bound [of b] by (simp add: 2)
qed

lemma v4_div_more:
  "v4_num (Ipv4 a b c d) div 1048576 = (unat a * 256 + unat b) div 16"
  "v4_num (Ipv4 a b c d) div 4194304 = (unat a * 256 + unat b) div 64"
  "v4_num (Ipv4 a b c d) div 131072 = (unat a * 256 + unat b) div 2"
  "v4_num (Ipv4 a b c d) div 268435456 = unat a div 16"
  using div_mult2_eq [of "v4_num (Ipv4 a b c d)" 65536 16] div_mult2_eq [of "v4_num (Ipv4 a b c d)" 65536 64]
    div_mult2_eq [of "v4_num (Ipv4 a b c d)" 65536 2] div_mult2_eq [of "v4_num (Ipv4 a b c d)" 16777216 16]
  by (simp_all add: v4_div del: v4_num.simps)

text \<open>Pairs of octets are ordered lexicographically.\<close>

lemma pack_range:
  assumes "b < 256" "z \<le> (256 :: nat)" "y < z"
  shows "x * 256 + y \<le> a * 256 + b \<and> a * 256 + b < x * 256 + z \<longleftrightarrow> a = x \<and> y \<le> b \<and> b < z"
proof
  assume eq: "x * 256 + y \<le> a * 256 + b \<and> a * 256 + b < x * 256 + z"
  with assms have "a = x" by linarith
  with eq show "a = x \<and> y \<le> b \<and> b < z" by simp
qed simp

lemma div_iff: "0 < m \<Longrightarrow> n div m = q \<longleftrightarrow> q * m \<le> n \<and> n < q * m + (m :: nat)"
  by (metis add.commute div_nat_eqI dividend_less_div_times div_times_less_eq_dividend mult.commute mult_Suc_right)

lemma pack_eq: "b < 256 \<Longrightarrow> y < 256 \<Longrightarrow> a * 256 + b = x * 256 + y \<longleftrightarrow> a = x \<and> b = (y :: nat)"
  using pack_range [of b "Suc y" y x a] by auto

lemma v4_nets:
  defines "net a b c d \<equiv> in_net (v4_num (Ipv4 a b c d))"
  shows "net a b c d (cidr4 127 0 0 0 8) \<longleftrightarrow> unat a = 127"
    "net a b c d (cidr4 10 0 0 0 8) \<longleftrightarrow> unat a = 10"
    "net a b c d (cidr4 240 0 0 0 4) \<longleftrightarrow> 240 \<le> unat a"
    "net a b c d (cidr4 172 16 0 0 12) \<longleftrightarrow> unat a = 172 \<and> 16 \<le> unat b \<and> unat b < 32"
    "net a b c d (cidr4 100 64 0 0 10) \<longleftrightarrow> unat a = 100 \<and> 64 \<le> unat b \<and> unat b < 128"
    "net a b c d (cidr4 198 18 0 0 15) \<longleftrightarrow> unat a = 198 \<and> 18 \<le> unat b \<and> unat b < 20"
    "net a b c d (cidr4 192 168 0 0 16) \<longleftrightarrow> unat a = 192 \<and> unat b = 168"
    "net a b c d (cidr4 169 254 0 0 16) \<longleftrightarrow> unat a = 169 \<and> unat b = 254"
proof -
  note defs = net_def in_net_def cidr4_def
  show "net a b c d (cidr4 127 0 0 0 8) \<longleftrightarrow> unat a = 127" "net a b c d (cidr4 10 0 0 0 8) \<longleftrightarrow> unat a = 10"
    unfolding defs by (simp_all add: v4_div del: v4_num.simps)
  show "net a b c d (cidr4 240 0 0 0 4) \<longleftrightarrow> 240 \<le> unat a"
    using octet_bound [of a] unfolding defs by (auto simp add: v4_div_more div_iff simp del: v4_num.simps)
  show "net a b c d (cidr4 172 16 0 0 12) \<longleftrightarrow> unat a = 172 \<and> 16 \<le> unat b \<and> unat b < 32"
    using pack_range [OF octet_bound, of 32 16 172 "unat a" b]
    unfolding defs by (simp add: v4_div_more div_iff del: v4_num.simps)
  show "net a b c d (cidr4 100 64 0 0 10) \<longleftrightarrow> unat a = 100 \<and> 64 \<le> unat b \<and> unat b < 128"
    using pack_range [OF octet_bound, of 128 64 100 "unat a" b]
    unfolding defs by (simp add: v4_div_more div_iff del: v4_num.simps)
  show "net a b c d (cidr4 198 18 0 0 15) \<longleftrightarrow> unat a = 198 \<and> 18 \<le> unat b \<and> unat b < 20"
    using pack_range [OF octet_bound, of 20 18 198 "unat a" b]
    unfolding defs by (simp add: v4_div_more div_iff del: v4_num.simps)
  show "net a b c d (cidr4 192 168 0 0 16) \<longleftrightarrow> unat a = 192 \<and> unat b = 168"
    "net a b c d (cidr4 169 254 0 0 16) \<longleftrightarrow> unat a = 169 \<and> unat b = 254"
    using pack_eq [OF octet_bound, of 168 "unat a" b 192] pack_eq [OF octet_bound, of 254 "unat a" b 169]
    unfolding defs by (simp_all add: v4_div del: v4_num.simps)
qed

lemma v4_nets24:
  assumes "y < 256" "z < 256"
  shows "in_net (v4_num (Ipv4 a b c d)) (cidr4 x y z 0 24) \<longleftrightarrow> unat a = x \<and> unat b = y \<and> unat c = z"
proof -
  have "(x * 2 ^ 24 + y * 2 ^ 16 + z * 2 ^ 8 + 0) div 2 ^ 8 = (x * 256 + y) * 256 + z" by simp
  then show "in_net (v4_num (Ipv4 a b c d)) (cidr4 x y z 0 24) \<longleftrightarrow> unat a = x \<and> unat b = y \<and> unat c = z"
    using pack_eq [OF octet_bound assms(2), of "unat a * 256 + unat b" c "x * 256 + y"]
      pack_eq [OF octet_bound assms(1), of "unat a" b x]
    by (simp add: in_net_def cidr4_def v4_div mult.commute del: v4_num.simps)
qed

lemma v4_net32:
  "in_net (v4_num (Ipv4 a b c d)) (cidr4 0 0 0 0 32) \<longleftrightarrow> unat a = 0 \<and> unat b = 0 \<and> unat c = 0 \<and> unat d = 0"
  by (simp add: in_net_def cidr4_def)

lemma blocked_v4_in_net: "is_blocked_v4 ip = list_ex (in_net (v4_num ip)) blocked_v4_nets"
proof (cases ip)
  case (Ipv4 a b c d)
  have "n < 32 \<longleftrightarrow> n \<le> 31" "18 \<le> n \<and> n < 20 \<longleftrightarrow> n = 18 \<or> n = 19" for n :: nat by auto
  then show ?thesis
    unfolding Ipv4 is_blocked_v4.simps masked_c0 blocked_v4_nets_def
    by (cases "unat a = 255") (simp_all add: octet_eq word_le_nat_alt v4_nets v4_nets24 v4_net32 del: v4_num.simps)
qed

lemma segment_bound: "unat (a :: 16 word) < 65536"
  using unsigned_less [of a] by simp

definition v6_head :: "Ipv6Addr \<Rightarrow> nat" where
  "v6_head ip = v6_num ip div 2 ^ 32"

lemma v6_div:
  "v6_head (Ipv6 a b c d e f g h) =
     ((((unat a * 65536 + unat b) * 65536 + unat c) * 65536 + unat d) * 65536 + unat e) * 65536 + unat f"
  "v6_num (Ipv6 a b c d e f g h) div 2 ^ 112 = unat a"
proof -
  have step: "(q * 65536 + unat s) div 65536 = q" for q :: nat and s :: "16 word"
    using segment_bound [of s] by simp
  have deeper: "n div 2 ^ (16 * Suc k) = n div 2 ^ (16 * k) div 65536" for n k :: nat
    by (simp flip: div_mult2_eq power_add add: power_add mult.commute)
  let ?n = "v6_num (Ipv6 a b c d e f g h)"
  have 1: "?n div 2 ^ (16 * 1) = (((((unat a * 65536 + unat b) * 65536 + unat c) * 65536 + unat d) * 65536 + unat e) * 65536 + unat f) * 65536 + unat g"
    using step [of _ h] by simp
  have 2: "?n div 2 ^ (16 * Suc 1) = ((((unat a * 65536 + unat b) * 65536 + unat c) * 65536 + unat d) * 65536 + unat e) * 65536 + unat f"
    unfolding deeper 1 by (rule step)
  then show "v6_head (Ipv6 a b c d e f g h) =
     ((((unat a * 65536 + unat b) * 65536 + unat c) * 65536 + unat d) * 65536 + unat e) * 65536 + unat f"
    by (simp add: v6_head_def del: v6_num.simps)
  have "?n div 2 ^ (16 * Suc (Suc (Suc (Suc (Suc (Suc 1)))))) = unat a"
    unfolding deeper [of _ "Suc (Suc (Suc (Suc (Suc 1))))"] deeper [of _ "Suc (Suc (Suc (Suc 1)))"]
      deeper [of _ "Suc (Suc (Suc 1))"] deeper [of _ "Suc (Suc 1)"] deeper [of _ "Suc 1"] 2 step by (rule refl)
  then show "?n div 2 ^ 112 = unat a" by simp
qed

lemma v6_small: "v6_num (Ipv6 a b c d e f g h) = v6_head (Ipv6 a b c d e f g h) * 2 ^ 32 + (unat g * 65536 + unat h)"
  by (simp add: v6_div)

lemma pack_iff:
  assumes "r < m" "r' < m"
  shows "q * m + r = q' * m + r' \<longleftrightarrow> q = q' \<and> r = (r' :: nat)"
proof
  assume eq: "q * m + r = q' * m + r'"
  have "(q * m + r) div m = q" "(q' * m + r') div m = q'" using assms by simp_all
  with eq show "q = q' \<and> r = r'" by auto
qed simp

lemma octets_of_segment: "unat (high_octet s) = unat s div 256" "unat (low_octet s) = unat s mod 256"
proof -
  have "unat s div 256 < 256" using segment_bound [of s] by auto
  then show "unat (high_octet s) = unat s div 256"
    by (simp add: high_octet_def unsigned_ucast_eq take_bit_eq_mod unat_drop_bit_eq drop_bit_eq_div unat_div_distrib)
  show "unat (low_octet s) = unat s mod 256"
    by (simp add: low_octet_def unsigned_ucast_eq take_bit_eq_mod)
qed

lemma mapped_octets:
  "v4_num (Ipv4 (high_octet g) (low_octet g) (high_octet h) (low_octet h)) = unat g * 65536 + unat h"
proof -
  have "unat g div 256 * 256 + unat g mod 256 = unat g" "unat h div 256 * 256 + unat h mod 256 = unat h" by simp_all
  then show ?thesis by (simp add: octets_of_segment algebra_simps)
qed

lemma mapped_head: "v6_head (Ipv6 a b c d e f g h) = 0xFFFF \<longleftrightarrow> a = 0 \<and> b = 0 \<and> c = 0 \<and> d = 0 \<and> e = 0 \<and> f = 0xFFFF"
proof -
  let ?q = "(((unat a * 65536 + unat b) * 65536 + unat c) * 65536 + unat d) * 65536 + unat e"
  have "v6_head (Ipv6 a b c d e f g h) = 0xFFFF \<longleftrightarrow> ?q * 65536 + unat f = 0 * 65536 + 0xFFFF"
    by (simp only: v6_div mult_zero_left add_0)
  also have "\<dots> \<longleftrightarrow> ?q = 0 \<and> unat f = 0xFFFF" using segment_bound [of f] by (intro pack_iff) simp_all
  also have "?q = 0 \<longleftrightarrow> a = 0 \<and> b = 0 \<and> c = 0 \<and> d = 0 \<and> e = 0"
    by (simp only: add_is_0 mult_is_0 unsigned_eq_0_iff) simp
  also have "unat f = 0xFFFF \<longleftrightarrow> f = 0xFFFF" by (simp add: octet_eq)
  finally show ?thesis by simp
qed

lemma div_split: "k \<le> 32 \<Longrightarrow> (q * 2 ^ 32 + r) div 2 ^ k = q * 2 ^ (32 - k) + r div (2 ^ k :: nat)"
proof -
  assume "k \<le> 32"
  then have "2 ^ 32 = 2 ^ (32 - k) * (2 ^ k :: nat)" by (simp only: flip: power_add) simp
  then have "q * 2 ^ 32 + r = (q * 2 ^ (32 - k)) * 2 ^ k + r" by (simp only: mult.assoc)
  then show "(q * 2 ^ 32 + r) div 2 ^ k = q * 2 ^ (32 - k) + r div 2 ^ k" by (simp only:) simp
qed

lemma v6_mapped:
  assumes net: "net < 2 ^ 32" and k: "k \<le> 32"
  shows "in_net (v6_num ip) (mapped_base + net, k) \<longleftrightarrow>
     (case to_ipv4_mapped ip of Some v4 \<Rightarrow> in_net (v4_num v4) (net, k) | None \<Rightarrow> False)"
proof (cases ip)
  case (Ipv6 a b c d e f g h)
  let ?low = "unat g * 65536 + unat h"
  have low: "?low < 2 ^ 32" using segment_bound [of g] segment_bound [of h] by simp
  have small: "r div 2 ^ k < 2 ^ (32 - k)" if "r < 2 ^ 32" for r :: nat
    using that k by (simp add: less_mult_imp_div_less flip: power_add)
  have "in_net (v6_num ip) (mapped_base + net, k) \<longleftrightarrow> v6_head ip = 0xFFFF \<and> ?low div 2 ^ k = net div 2 ^ k"
    unfolding in_net_def mapped_base_def Ipv6 v6_small fst_conv snd_conv div_split [OF k]
    by (rule pack_iff) (auto intro: small low net)
  then show ?thesis
    by (simp add: Ipv6 mapped_head mapped_octets in_net_def del: v4_num.simps v6_num.simps) blast
qed

lemma v6_nets:
  "in_net (v6_num (Ipv6 a b c d e f g h)) (0xFF00 * 2 ^ 112, 120) \<longleftrightarrow> 0xFF00 \<le> unat a"
  "in_net (v6_num (Ipv6 a b c d e f g h)) (0xFC00 * 2 ^ 112, 121) \<longleftrightarrow> 0xFC00 \<le> unat a \<and> unat a < 0xFE00"
  "in_net (v6_num (Ipv6 a b c d e f g h)) (0xFE80 * 2 ^ 112, 118) \<longleftrightarrow> 0xFE80 \<le> unat a \<and> unat a < 0xFEC0"
proof -
  have deeper: "n div 2 ^ (112 + k) = n div 2 ^ 112 div 2 ^ k" for n k :: nat
    by (simp add: power_add div_mult2_eq)
  let ?n = "v6_num (Ipv6 a b c d e f g h)"
  have "?n div 2 ^ 120 = unat a div 256" "?n div 2 ^ 121 = unat a div 512" "?n div 2 ^ 118 = unat a div 64"
    using deeper [of ?n 8] deeper [of ?n 9] deeper [of ?n 6] v6_div(2) [of a b c d e f g h]
    by (simp_all del: v6_num.simps)
  moreover have "0xFF00 * 2 ^ 112 div 2 ^ 120 = (255 :: nat)" "0xFC00 * 2 ^ 112 div 2 ^ 121 = (126 :: nat)"
    "0xFE80 * 2 ^ 112 div 2 ^ 118 = (1018 :: nat)" by simp_all
  ultimately have "in_net ?n (0xFF00 * 2 ^ 112, 120) \<longleftrightarrow> unat a div 256 = 255"
    "in_net ?n (0xFC00 * 2 ^ 112, 121) \<longleftrightarrow> unat a div 512 = 126"
    "in_net ?n (0xFE80 * 2 ^ 112, 118) \<longleftrightarrow> unat a div 64 = 1018"
    by (simp_all only: in_net_def fst_conv snd_conv)
  then show "in_net ?n (0xFF00 * 2 ^ 112, 120) \<longleftrightarrow> 0xFF00 \<le> unat a"
    "in_net ?n (0xFC00 * 2 ^ 112, 121) \<longleftrightarrow> 0xFC00 \<le> unat a \<and> unat a < 0xFE00"
    "in_net ?n (0xFE80 * 2 ^ 112, 118) \<longleftrightarrow> 0xFE80 \<le> unat a \<and> unat a < 0xFEC0"
    using segment_bound [of a] by (simp_all only: div_iff zero_less_numeral) auto
qed

lemma v6_zero: "v6_num (Ipv6 a b c d e f g h) = n \<and> n \<le> 1 \<longleftrightarrow>
    a = 0 \<and> b = 0 \<and> c = 0 \<and> d = 0 \<and> e = 0 \<and> f = 0 \<and> g = 0 \<and> unat h = n \<and> n \<le> 1"
  by (auto simp: octet_eq)

lemma v4_net_bounds: "list_all (\<lambda>(net, k). net < 2 ^ 32 \<and> k \<le> 32) blocked_v4_nets"
  by (simp add: blocked_v4_nets_def cidr4_def)

lemma blocked_v6_in_net: "is_blocked_v6 ip = list_ex (in_net (v6_num ip)) blocked_v6_nets"
proof (cases ip)
  case (Ipv6 a b c d e f g h)
  have mapped: "list_ex (in_net (v6_num ip)) (map (\<lambda>(net, k). (mapped_base + net, k)) blocked_v4_nets) \<longleftrightarrow>
     (case to_ipv4_mapped ip of Some v4 \<Rightarrow> is_blocked_v4 v4 | None \<Rightarrow> False)"
  proof -
    have "in_net (v6_num ip) (case x of (net, k) \<Rightarrow> (mapped_base + net, k)) \<longleftrightarrow>
       (case to_ipv4_mapped ip of Some v4 \<Rightarrow> in_net (v4_num v4) x | None \<Rightarrow> False)" if "x \<in> set blocked_v4_nets" for x
    proof -
      obtain net k where x: "x = (net, k)" by (rule prod.exhaust)
      with that v4_net_bounds have "net < 2 ^ 32" "k \<le> 32" by (auto simp: list_all_iff)
      with v6_mapped [of net k ip] show ?thesis unfolding x by simp
    qed
    then show ?thesis by (auto simp: list_ex_iff blocked_v4_in_net split: option.splits)
  qed
  have low: "in_net (v6_num ip) (0, 0) \<or> in_net (v6_num ip) (1, 0) \<longleftrightarrow>
     a = 0 \<and> b = 0 \<and> c = 0 \<and> d = 0 \<and> e = 0 \<and> f = 0 \<and> g = 0 \<and> (h = 1 \<or> h = 0)"
    using v6_zero [of a b c d e f g h 0] v6_zero [of a b c d e f g h 1]
    by (auto simp add: in_net_def Ipv6 octet_eq simp del: v6_num.simps)
  have "list_ex (in_net (v6_num ip)) blocked_v6_nets \<longleftrightarrow>
     (in_net (v6_num ip) (0, 0) \<or> in_net (v6_num ip) (1, 0)) \<or> in_net (v6_num ip) (0xFF00 * 2 ^ 112, 120) \<or>
     in_net (v6_num ip) (0xFC00 * 2 ^ 112, 121) \<or> in_net (v6_num ip) (0xFE80 * 2 ^ 112, 118) \<or>
     (case to_ipv4_mapped ip of Some v4 \<Rightarrow> is_blocked_v4 v4 | None \<Rightarrow> False)"
    unfolding mapped [symmetric] blocked_v6_nets_def
    by (simp only: list_ex_append list_ex_Cons_iff list_ex_Nil_iff) blast
  then show ?thesis
    unfolding low unfolding Ipv6 v6_nets is_blocked_v6.simps masked_segment
    by (simp only: if_bool_eq_disj) blast
qed

lemma blocked_net_of_blocked: "blocked_net ip = is_blocked_ip ip"
  by (cases ip) (simp_all add: blocked_net_def blocked_v4_in_net blocked_v6_in_net)

text \<open>An address is refused exactly when it lies in one of the listed networks: for IPv4 the
  loopback, private, link-local, documentation, shared, protocol-assignment, benchmarking and
  reserved ranges and 0.0.0.0, for IPv6 the two special addresses, multicast, unique-local and
  link-local, and the IPv4 networks in their mapped form.\<close>

lemma blocked_iff_listed_net: "is_blocked_ip ip = blocked_net ip"
  by (simp add: blocked_net_of_blocked)

section \<open>What a fetch may send and keep\<close>








text \<open>The body of a response is read completely or refused.\<close>

lemma read_chunks_iff:
  "read_chunks m buf chunks = Inr b \<longleftrightarrow>
     (\<exists>cs. chunks = map Inr cs \<and> b = buf @ concat cs \<and> (length b \<le> m \<or> cs = []))"
proof (induction m buf chunks rule: read_chunks.induct)
  case (3 m buf chunk chunks)
  have "(\<exists>cs. Inr chunk # chunks = map Inr cs \<and> b = buf @ concat cs \<and> (length b \<le> m \<or> cs = [])) \<longleftrightarrow>
     (\<exists>cs. chunks = map Inr cs \<and> b = (buf @ chunk) @ concat cs \<and> length b \<le> m)"
    by (fastforce simp: Cons_eq_map_conv)
  with 3 show ?case by (auto simp: not_less)
qed (auto simp: Cons_eq_map_conv)

text \<open>A body is kept exactly when all its chunks are read and together stay within the limit, and
  then it is kept whole.\<close>

lemma body_capped_iff:
  "read_body_capped resp max_bytes = Inr b \<longleftrightarrow>
     (\<exists>cs. rsp_chunks resp = map Inr cs \<and> b = concat cs \<and> length b \<le> max_bytes)"
  by (auto simp: read_body_capped_def read_chunks_iff)

end
