(* ===== verification/Utf8.thy ===== *)
theory Utf8
  imports StdModel
begin

text \<open>
  Well-formed UTF-8 texts: their characters, slices at character boundaries, white space as a
  property of characters, trimming and \<open>str::split_whitespace\<close> in terms of characters, and the
  words of a slice counted by the positions where they start.
\<close>

section \<open>Well-formed texts\<close>

definition utf8_char :: "string \<Rightarrow> bool" where
  "utf8_char ch =
     (case ch of [] \<Rightarrow> False
      | c # ct \<Rightarrow>
          \<not> is_cont c \<and> list_all is_cont ct \<and>
          length ct = (let n = (of_char c :: nat) in if n < 128 then 0 else if n < 224 then 1 else if n < 240 then 2 else 3))"

definition utf8_text :: "string \<Rightarrow> bool" where
  "utf8_text s = list_all utf8_char (utf8_chars s)"

lemma utf8_char_ne: "utf8_char ch \<Longrightarrow> ch \<noteq> []"
  by (auto simp: utf8_char_def)

lemma utf8_char_hd: "utf8_char ch \<Longrightarrow> \<not> is_cont (hd ch)"
  by (auto simp: utf8_char_def split: list.splits)

lemma utf8_chars_append:
  "b = [] \<or> \<not> is_cont (hd b) \<Longrightarrow> utf8_chars (a @ b) = utf8_chars a @ utf8_chars b"
proof (induction a rule: utf8_chars.induct)
  case (2 c s)
  show ?case
  proof (cases "list_all is_cont s")
    case True
    with 2(2) show ?thesis
      by (cases b) (auto simp: takeWhile_append2 dropWhile_append2 list_all_iff takeWhile_eq_all_conv[THEN iffD2]
          dropWhile_eq_Nil_conv[THEN iffD2])
  next
    case False
    then obtain x where "x \<in> set s" "\<not> is_cont x" by (auto simp: list_all_iff)
    with 2 show ?thesis by (simp add: takeWhile_append1 dropWhile_append1)
  qed
qed simp

lemma utf8_chars_char: "utf8_char ch \<Longrightarrow> utf8_chars ch = [ch]"
proof (cases ch)
  case (Cons c ct)
  moreover assume "utf8_char ch"
  ultimately have "takeWhile is_cont ct = ct" "dropWhile is_cont ct = []"
    by (auto simp: utf8_char_def list_all_iff takeWhile_eq_all_conv dropWhile_eq_Nil_conv)
  then show ?thesis unfolding Cons utf8_chars.simps by (simp only: utf8_chars.simps)
qed (simp add: utf8_char_def)

lemma hd_concat_chars: "list_all utf8_char cs \<Longrightarrow> concat cs = [] \<or> \<not> is_cont (hd (concat cs))"
  by (cases cs) (auto simp: utf8_char_hd utf8_char_ne hd_append)

lemma utf8_chars_concat: "list_all utf8_char cs \<Longrightarrow> utf8_chars (concat cs) = cs"
proof (induction cs)
  case (Cons c cs)
  then have "utf8_chars (c @ concat cs) = utf8_chars c @ utf8_chars (concat cs)"
    by (intro utf8_chars_append hd_concat_chars) simp
  with Cons show ?case by (simp add: utf8_chars_char)
qed simp

lemma utf8_text_chars: "utf8_text s \<longleftrightarrow> (\<exists>cs. list_all utf8_char cs \<and> s = concat cs)"
  unfolding utf8_text_def by (metis concat_utf8_chars utf8_chars_concat)

lemma utf8_text_concat: "list_all utf8_char cs \<Longrightarrow> utf8_text (concat cs)"
  by (auto simp: utf8_text_chars)

lemma utf8_text_obtain:
  assumes "utf8_text s"
  obtains cs where "list_all utf8_char cs" "s = concat cs" "utf8_chars s = cs"
  using assms by (metis utf8_text_chars utf8_chars_concat)

lemma boundary_concat:
  assumes "list_all utf8_char ys"
  shows "is_char_boundary (concat xs @ concat ys) (length (concat xs))"
  using hd_concat_chars [OF assms]
  by (cases "concat ys") (auto simp: is_char_boundary_def nth_append hd_conv_nth)

lemma boundary_split: "is_char_boundary (a @ b) (length a) \<longleftrightarrow> a = [] \<or> b = [] \<or> \<not> is_cont (hd b)"
  by (cases b) (auto simp: is_char_boundary_def nth_append)

lemma utf8_text_appendD:
  assumes "utf8_text (a @ b)" "b = [] \<or> \<not> is_cont (hd b)"
  shows "utf8_text a" "utf8_text b"
  using assms by (simp_all add: utf8_text_def utf8_chars_append)

section \<open>Slices\<close>

text \<open>\<open>&s[from..to]\<close>.\<close>

definition str_slice :: "string \<Rightarrow> nat \<Rightarrow> nat \<Rightarrow> string outcome" where
  "str_slice s from' to =
     (if from' \<le> to \<and> is_char_boundary s from' \<and> is_char_boundary s to
      then Done (take (to - from') (drop from' s)) else Panicked)"

lemma str_slice_chars:
  assumes "list_all utf8_char (xs @ ys @ zs)"
  shows "str_slice (concat (xs @ ys @ zs)) (length (concat xs)) (length (concat (xs @ ys))) = Done (concat ys)"
  using boundary_concat [of "ys @ zs" xs] boundary_concat [of zs "xs @ ys"] assms
  by (simp add: str_slice_def)

section \<open>White-space characters\<close>

definition is_ws_char :: "string \<Rightarrow> bool" where
  "is_ws_char ch \<longleftrightarrow> ch \<noteq> [] \<and> ws_len ws2 ws3 ch = length ch"

lemma ascii_ws_small: "ascii_ws c \<Longrightarrow> of_char c < (128 :: nat)"
  by (auto simp: ascii_ws_def)

lemma ws2_lead: "ws2 a b \<Longrightarrow> of_char a = (0xC2 :: nat) \<and> is_cont b"
  by (auto simp: ws2_def is_cont_def)

lemma ws3_lead: "ws3 a b c \<Longrightarrow> 224 \<le> (of_char a :: nat) \<and> of_char a < (240 :: nat) \<and> is_cont b \<and> is_cont c"
  by (auto simp: ws3_def is_cont_def)

lemma utf8_char_cases:
  assumes "utf8_char ch"
  obtains (one) a where "ch = [a]" "of_char a < (128 :: nat)"
    | (two) a b where "ch = [a, b]" "192 \<le> (of_char a :: nat)" "of_char a < (224 :: nat)" "is_cont b"
    | (three) a b c where "ch = [a, b, c]" "224 \<le> (of_char a :: nat)" "of_char a < (240 :: nat)" "is_cont b" "is_cont c"
    | (four) a b c d where "ch = [a, b, c, d]" "240 \<le> (of_char a :: nat)" "is_cont b" "is_cont c" "is_cont d"
  using assms
  by (auto simp: utf8_char_def Let_def is_cont_def not_less not_le length_Suc_conv numeral_eq_Suc
      split: list.splits if_splits)

text \<open>White space at the front of a text is a white-space character, and so is that at its end.\<close>

lemma ws_len_char:
  assumes "utf8_char ch"
  shows "ws_len ws2 ws3 (ch @ s) = (if is_ws_char ch then length ch else 0)"
    "ws_len ws2_rev ws3_rev (rev ch @ s) = (if is_ws_char ch then length ch else 0)"
proof -
  have big: "\<not> ascii_ws c" if "128 \<le> (of_char c :: nat)" for c
    using that ascii_ws_small [of c] by auto
  have cont: "128 \<le> (of_char c :: nat)" "of_char c < (192 :: nat)" if "is_cont c" for c
    using that by (simp_all add: is_cont_def)
  have no2: "\<not> ws2 a b" if "of_char a < (0xC2 :: nat) \<or> (0xC2 :: nat) < of_char a \<or> \<not> is_cont b" for a b
    using that ws2_lead [of a b] by auto
  have no3: "\<not> ws3 a b c" if "of_char a < (224 :: nat) \<or> (240 :: nat) \<le> of_char a \<or> \<not> is_cont b \<or> \<not> is_cont c" for a b c
    using that ws3_lead [of a b c] by auto
  have "ws_len ws2 ws3 (ch @ s) = (if is_ws_char ch then length ch else 0) \<and>
    ws_len ws2_rev ws3_rev (rev ch @ s) = (if is_ws_char ch then length ch else 0)"
    using assms
  proof (cases rule: utf8_char_cases)
    case (one a)
    then have "\<not> is_cont a" by (simp add: is_cont_def)
    with one show ?thesis
      by (auto simp: is_ws_char_def ws_len_def no2 no3 ws2_rev_def ws3_rev_def split: list.splits)
  next
    case (two a b)
    then have "\<not> is_cont a" by (simp add: is_cont_def)
    with two show ?thesis
      using cont [of b]
      by (auto simp: is_ws_char_def ws_len_def no2 no3 big ws2_rev_def ws3_rev_def split: list.splits)
  next
    case (three a b c)
    then have "\<not> is_cont a" by (simp add: is_cont_def)
    with three show ?thesis
      using cont [of b] cont [of c]
      by (auto simp: is_ws_char_def ws_len_def no2 no3 big ws2_rev_def ws3_rev_def split: list.splits)
  next
    case (four a b c d)
    then have "\<not> is_cont a" by (simp add: is_cont_def)
    with four show ?thesis
      using cont [of b] cont [of c] cont [of d]
      by (auto simp: is_ws_char_def ws_len_def no2 no3 big ws2_rev_def ws3_rev_def split: list.splits)
  qed
  then show "ws_len ws2 ws3 (ch @ s) = (if is_ws_char ch then length ch else 0)"
    "ws_len ws2_rev ws3_rev (rev ch @ s) = (if is_ws_char ch then length ch else 0)" by auto
qed

lemma trim_start_chars: "list_all utf8_char cs \<Longrightarrow> trim_start (concat cs) = concat (dropWhile is_ws_char cs)"
proof (induction cs)
  case (Cons c cs)
  show ?case
  proof (cases "is_ws_char c")
    case True
    with Cons have "ws_len ws2 ws3 (concat (c # cs)) = length c" by (simp add: ws_len_char)
    then have "trim_start (concat (c # cs)) = trim_start (concat cs)"
      using Cons.prems utf8_char_ne [of c] unfolding trim_start_def by (subst strip_ws.simps) simp
    with Cons True show ?thesis by simp
  next
    case False
    with Cons show ?thesis by (simp add: trim_start_def strip_ws_fix ws_len_char)
  qed
qed simp

lemma trim_end_chars:
  "list_all utf8_char cs \<Longrightarrow> trim_end (concat cs) = concat (rev (dropWhile is_ws_char (rev cs)))"
proof (induction cs rule: rev_induct)
  case (snoc c cs)
  show ?case
  proof (cases "is_ws_char c")
    case True
    with snoc have "ws_len ws2_rev ws3_rev (rev (concat (cs @ [c]))) = length c" by (simp add: ws_len_char)
    then have "trim_end (concat (cs @ [c])) = trim_end (concat cs)"
      using snoc.prems utf8_char_ne [of c] unfolding trim_end_def by (subst strip_ws.simps) simp
    with snoc True show ?thesis by simp
  next
    case False
    with snoc show ?thesis by (simp add: trim_end_def strip_ws_fix ws_len_char)
  qed
qed simp

lemma trim_chars:
  assumes "list_all utf8_char cs"
  shows "trim (concat cs) = concat (rev (dropWhile is_ws_char (rev (dropWhile is_ws_char cs))))"
proof -
  have "list_all utf8_char (dropWhile is_ws_char cs)"
    using assms by (auto simp: list_all_iff dest: set_dropWhileD)
  with assms show ?thesis by (simp add: trim_def trim_start_chars trim_end_chars)
qed

lemma trim_eq_Nil: "list_all utf8_char cs \<Longrightarrow> trim (concat cs) = [] \<longleftrightarrow> list_all is_ws_char cs"
proof -
  assume cs: "list_all utf8_char cs"
  have "concat xs = [] \<longleftrightarrow> xs = []" if "set xs \<subseteq> set cs" for xs
    using that cs utf8_char_ne by (cases xs) (auto simp: list_all_iff)
  moreover have "set (rev (dropWhile is_ws_char (rev (dropWhile is_ws_char cs)))) \<subseteq> set cs"
    by (auto dest!: set_dropWhileD)
  ultimately have "trim (concat cs) = [] \<longleftrightarrow> rev (dropWhile is_ws_char (rev (dropWhile is_ws_char cs))) = []"
    by (simp only: trim_chars [OF cs])
  also have "\<dots> \<longleftrightarrow> (\<forall>x \<in> set (dropWhile is_ws_char cs). is_ws_char x)"
    by (simp only: rev_is_Nil_conv dropWhile_eq_Nil_conv set_rev)
  also have "\<dots> \<longleftrightarrow> dropWhile is_ws_char cs = []"
    by (metis hd_dropWhile hd_in_set empty_iff empty_set)
  finally show ?thesis by (auto simp: dropWhile_eq_Nil_conv list_all_iff)
qed

section \<open>Words\<close>

text \<open>\<open>str::split_whitespace\<close>: \<open>cur\<close> is the word being read.\<close>

fun split_ws :: "string \<Rightarrow> string list \<Rightarrow> string list" where
  "split_ws cur [] = (if cur = [] then [] else [cur])"
| "split_ws cur (c # cs) =
     (if is_ws_char c then (if cur = [] then split_ws [] cs else cur # split_ws [] cs)
      else split_ws (cur @ c) cs)"

definition split_whitespace :: "string \<Rightarrow> string list" where
  "split_whitespace s = split_ws [] (utf8_chars s)"

text \<open>The white-space flags of the bytes of a text.\<close>

definition ws_flags :: "string list \<Rightarrow> bool list" where
  "ws_flags cs = concat (map (\<lambda>c. replicate (length c) (is_ws_char c)) cs)"

lemma ws_flags_simps [simp]:
  "ws_flags [] = []" "ws_flags (c # cs) = replicate (length c) (is_ws_char c) @ ws_flags cs"
  "ws_flags (xs @ ys) = ws_flags xs @ ws_flags ys"
  by (simp_all add: ws_flags_def)

lemma length_ws_flags [simp]: "length (ws_flags cs) = length (concat cs)"
  by (induction cs) auto

text \<open>The positions between \<open>i\<close> and \<open>e\<close> where a word starts; \<open>open\<close> is whether one is going on at \<open>i\<close>.\<close>

definition word_starts :: "(nat \<Rightarrow> bool) \<Rightarrow> bool \<Rightarrow> nat \<Rightarrow> nat \<Rightarrow> nat set" where
  "word_starts F open' i e = {p. i \<le> p \<and> p < e \<and> \<not> F p \<and> (if p = i then \<not> open' else F (p - 1))}"

lemma finite_word_starts [simp]: "finite (word_starts F open' i e)"
  by (rule finite_subset [of _ "{..<e}"]) (auto simp: word_starts_def)

lemma word_starts_step:
  assumes "0 < n" "\<And>p. i \<le> p \<Longrightarrow> p < i + n \<Longrightarrow> F p = w" "i + n \<le> e"
  shows "word_starts F open' i e =
    (if w then word_starts F False (i + n) e
     else (if open' then {} else {i}) \<union> word_starts F True (i + n) e)"
proof -
  have last: "F (i + n - 1) = w" using assms by (intro assms(2)) auto
  have inside: "\<not> (\<not> F x \<and> F (x - 1))" if "i < x" "x < i + n" for x
    using that assms(2) [of x] assms(2) [of "x - 1"] by auto
  show ?thesis
  proof (rule set_eqI)
    fix p
    consider "p < i" | "p = i" | "i < p" "p < i + n" | "p = i + n" | "i + n < p" by linarith
    then show "p \<in> word_starts F open' i e \<longleftrightarrow>
      p \<in> (if w then word_starts F False (i + n) e else (if open' then {} else {i}) \<union> word_starts F True (i + n) e)"
      using assms last inside by cases (auto simp: word_starts_def)
  qed
qed

lemma split_ws_count:
  assumes "list_all utf8_char cs" "\<And>q. q < length (concat cs) \<Longrightarrow> F (i + q) = ws_flags cs ! q"
  shows "length (split_ws cur cs) =
    (if cur = [] then 0 else 1) + card (word_starts F (cur \<noteq> []) i (i + length (concat cs)))"
  using assms
proof (induction cs arbitrary: cur i)
  case Nil
  then show ?case by (simp add: word_starts_def)
next
  case (Cons c cs)
  let ?n = "length c"
  define e where "e = i + length (concat (c # cs))"
  have n: "0 < ?n" using Cons.prems(1) utf8_char_ne by simp
  have here: "F p = is_ws_char c" if "i \<le> p" "p < i + ?n" for p
  proof -
    have "p - i < ?n" using that by linarith
    with that Cons.prems(2) [of "p - i"] show ?thesis by (simp add: nth_append)
  qed
  have "F ((i + ?n) + q) = ws_flags cs ! q" if "q < length (concat cs)" for q
    using that Cons.prems(2) [of "?n + q"] by (simp add: nth_append add.assoc)
  then have IH: "length (split_ws cur' cs) = (if cur' = [] then 0 else 1) + card (word_starts F (cur' \<noteq> []) (i + ?n) e)" for cur'
    using Cons.IH [of "i + ?n" cur'] Cons.prems(1) by (simp add: e_def add.assoc)
  have step: "word_starts F open' i e =
    (if is_ws_char c then word_starts F False (i + ?n) e
     else (if open' then {} else {i}) \<union> word_starts F True (i + ?n) e)" for open'
    by (rule word_starts_step [OF n here]) (auto simp: e_def)
  have "i \<notin> word_starts F True (i + ?n) e" using n by (simp add: word_starts_def)
  then have "length (split_ws cur (c # cs)) = (if cur = [] then 0 else 1) + card (word_starts F (cur \<noteq> []) i e)"
    using n IH [of "[]"] IH [of "cur @ c"] by (auto simp: step card_insert_disjoint)
  then show ?case by (simp only: e_def)
qed

text \<open>A part of a text has at most the words of two parts that cover it up to white space.\<close>

lemma word_starts_cover:
  assumes "s \<le> s'" "\<And>p. e \<le> p \<Longrightarrow> p < s' \<Longrightarrow> F p"
  shows "card (word_starts F False s e') \<le> card (word_starts F False s e) + card (word_starts F False s' e')"
proof -
  have "word_starts F False s e' \<subseteq> word_starts F False s e \<union> word_starts F False s' e'"
    using assms by (auto simp: word_starts_def not_less) (metis not_le)+
  then have "card (word_starts F False s e') \<le> card (word_starts F False s e \<union> word_starts F False s' e')"
    by (intro card_mono) auto
  also have "\<dots> \<le> card (word_starts F False s e) + card (word_starts F False s' e')" by (rule card_Un_le)
  finally show ?thesis .
qed

end
