(* ===== verification/Chunker.thy ===== *)
theory Chunker
  imports Utf8
begin

text \<open>
  The note chunker (\<open>notesmith-embed/src/chunker.rs\<close>): the paragraphs and headings of a body as
  units, the word windows of oversized units, and the chunks packed from them with their overlap.
  Slicing off a character boundary panics, as in the source.
\<close>

section \<open>Definitions\<close>

record ChunkSpan =
  cs_start :: nat
  cs_end :: nat
  cs_text :: string

record ChunkerOptions =
  co_target_tokens :: nat
  co_max_tokens :: nat
  co_overlap_tokens :: nat

definition chunker_options_default :: ChunkerOptions where
  "chunker_options_default = \<lparr>co_target_tokens = 350, co_max_tokens = 512, co_overlap_tokens = 52\<rparr>"

text \<open>A paragraph or heading: \<open>un\<close> for unit.\<close>

record ChunkUnit =
  un_start :: nat
  un_end :: nat
  un_words :: nat
  un_heading :: bool

definition push_unit :: "string \<Rightarrow> nat \<times> nat \<Rightarrow> ChunkUnit list outcome" where
  "push_unit body span =
     (let (start, stop) = span in
      if stop \<le> start then Done []
      else bind_outcome (str_slice body start stop) (\<lambda>text.
        let words = length (split_whitespace text) in
        if words = 0 then Done []
        else Done [\<lparr>un_start = start, un_end = stop, un_words = words,
                    un_heading = prefix ''#'' (trim_start text)\<rparr>]))"

fun concat_outcome :: "'a list outcome list \<Rightarrow> 'a list outcome" where
  "concat_outcome [] = Done []"
| "concat_outcome (m # ms) = bind_outcome m (\<lambda>xs. bind_outcome (concat_outcome ms) (\<lambda>ys. Done (xs @ ys)))"

definition close_range :: "(nat \<times> nat) option \<Rightarrow> (nat \<times> nat) list" where
  "close_range open' = (case open' of Some r \<Rightarrow> [r] | None \<Rightarrow> [])"

text \<open>The ranges pushed while the lines are read; \<open>open'\<close> is the range being extended.\<close>

fun unit_ranges :: "nat \<Rightarrow> (nat \<times> nat) option \<Rightarrow> string list \<Rightarrow> (nat \<times> nat) list" where
  "unit_ranges line_start open' [] = close_range open'"
| "unit_ranges line_start open' (line # lines) =
     (let trimmed = trim line;
          content_end = line_start + length (trim_end line);
          next_start = line_start + length line
      in if trimmed = [] then close_range open' @ unit_ranges next_start None lines
         else if prefix ''#'' trimmed then
           close_range open' @ unit_ranges next_start (Some (line_start, content_end)) lines
         else (case open' of
                 Some (s, _) \<Rightarrow> unit_ranges next_start (Some (s, content_end)) lines
               | None \<Rightarrow> unit_ranges next_start (Some (line_start, content_end)) lines))"

definition split_units :: "string \<Rightarrow> ChunkUnit list outcome" where
  "split_units body = concat_outcome (map (push_unit body) (unit_ranges 0 None (split_inclusive body)))"

text \<open>The byte ranges of the words of a text given as its characters.\<close>

fun word_bounds :: "nat \<Rightarrow> nat option \<Rightarrow> string list \<Rightarrow> (nat \<times> nat) list" where
  "word_bounds idx word_start [] = (case word_start of Some s \<Rightarrow> [(s, idx)] | None \<Rightarrow> [])"
| "word_bounds idx word_start (ch # chs) =
     (if is_ws_char ch then
        (case word_start of
           Some s \<Rightarrow> (s, idx) # word_bounds (idx + length ch) None chs
         | None \<Rightarrow> word_bounds (idx + length ch) None chs)
      else word_bounds (idx + length ch) (case word_start of None \<Rightarrow> Some idx | Some s \<Rightarrow> Some s) chs)"

text \<open>The windows of \<open>target\<close> words from word \<open>w\<close> on; the stride is never 0.\<close>

function word_windows :: "nat \<Rightarrow> (nat \<times> nat) list \<Rightarrow> nat \<Rightarrow> nat \<Rightarrow> nat \<Rightarrow> ChunkUnit list" where
  "word_windows base bounds target stride w =
     (if w < length bounds then
        (let end_word = min (w + target) (length bounds)
         in \<lparr>un_start = base + fst (bounds ! w), un_end = base + snd (bounds ! (end_word - 1)),
             un_words = end_word - w, un_heading = False\<rparr> #
            (if length bounds \<le> end_word \<or> stride = 0 then []
             else word_windows base bounds target stride (w + stride)))
      else [])"
  by pat_completeness auto
termination
  by (relation "measure (\<lambda>(base, bounds, target, stride, w). length bounds - w)") auto

declare word_windows.simps [simp del]

definition split_unit :: "string \<Rightarrow> nat \<Rightarrow> nat \<Rightarrow> nat \<Rightarrow> ChunkUnit \<Rightarrow> ChunkUnit list outcome" where
  "split_unit body max_tokens target stride unit =
     (if un_words unit \<le> max_tokens then Done [unit]
      else bind_outcome (str_slice body (un_start unit) (un_end unit)) (\<lambda>text.
        Done (word_windows (un_start unit) (word_bounds 0 None (utf8_chars text)) target stride 0)))"

definition split_oversized :: "string \<Rightarrow> ChunkUnit list \<Rightarrow> nat \<Rightarrow> nat \<Rightarrow> nat \<Rightarrow> ChunkUnit list outcome" where
  "split_oversized body units max_tokens target overlap =
     (let stride = max (target - overlap) 1
      in concat_outcome (map (split_unit body max_tokens target stride) units))"

text \<open>The end of the chunk that has \<open>words\<close> words in front of unit \<open>j\<close>, and the unit the next
  chunk backs up to.\<close>

function fill_chunk :: "ChunkUnit list \<Rightarrow> nat \<Rightarrow> nat \<Rightarrow> nat \<Rightarrow> nat \<Rightarrow> nat" where
  "fill_chunk units target_tokens max_tokens j words =
     (if j < length units then
        (let w = un_words (units ! j) in
         if 0 < words \<and> max_tokens < words + w then j
         else if 0 < words \<and> un_heading (units ! j) then j
         else if target_tokens \<le> words + w then j + 1
         else fill_chunk units target_tokens max_tokens (j + 1) (words + w))
      else j)"
  by pat_completeness auto
termination
  by (relation "measure (\<lambda>(units, target, mx, j, words). length units - j)") auto

declare fill_chunk.simps [simp del]

fun back_up :: "ChunkUnit list \<Rightarrow> nat \<Rightarrow> nat \<Rightarrow> nat \<Rightarrow> nat \<Rightarrow> nat" where
  "back_up units overlap_tokens i 0 ow = 0"
| "back_up units overlap_tokens i (Suc k) ow =
     (if i < Suc k then
        (let w = un_words (units ! k) in
         if overlap_tokens < ow + w then Suc k else back_up units overlap_tokens i k (ow + w))
      else Suc k)"

lemma fill_chunk_le: "j \<le> fill_chunk units t m j w"
  by (induction units t m j w rule: fill_chunk.induct) (subst fill_chunk.simps, auto simp: Let_def)

lemma fill_chunk_progress: "i < length units \<Longrightarrow> i < fill_chunk units t m i 0"
  using fill_chunk_le [of "Suc i"] by (subst fill_chunk.simps) (auto simp: Let_def Suc_le_eq)

text \<open>The chunks from unit \<open>i\<close> on.\<close>

function pack_chunks :: "string \<Rightarrow> ChunkUnit list \<Rightarrow> nat \<Rightarrow> nat \<Rightarrow> nat \<Rightarrow> nat \<Rightarrow> ChunkSpan list outcome" where
  "pack_chunks body units target_tokens max_tokens overlap_tokens i =
     (if i < length units then
        (let j = fill_chunk units target_tokens max_tokens i 0;
             start = un_start (units ! i); stop = un_end (units ! (j - 1))
         in bind_outcome (str_slice body start stop) (\<lambda>text.
              let span = \<lparr>cs_start = start, cs_end = stop, cs_text = text\<rparr> in
              if length units \<le> j then Done [span]
              else (let k = back_up units overlap_tokens i j 0
                    in bind_outcome
                         (pack_chunks body units target_tokens max_tokens overlap_tokens (if i < k then k else i + 1))
                         (\<lambda>rest. Done (span # rest)))))
      else Done [])"
  by pat_completeness auto
termination
  by (relation "measure (\<lambda>(body, units, t, m, ov, i). length units - i)") auto

declare pack_chunks.simps [simp del]

definition chunk_note :: "string \<Rightarrow> ChunkerOptions \<Rightarrow> ChunkSpan list outcome" where
  "chunk_note body opts =
     (let max_tokens = max (co_max_tokens opts) 1;
          target_tokens = min (max (co_target_tokens opts) 1) max_tokens;
          overlap_tokens = min (co_overlap_tokens opts) (target_tokens - 1)
      in bind_outcome (split_units body) (\<lambda>units0.
           bind_outcome (split_oversized body units0 max_tokens target_tokens overlap_tokens) (\<lambda>units.
             pack_chunks body units target_tokens max_tokens overlap_tokens 0)))"

section \<open>White space and words by position\<close>

definition byte_ws :: "string \<Rightarrow> nat \<Rightarrow> bool" where
  "byte_ws body p = ws_flags (utf8_chars body) ! p"

text \<open>The number of words between two positions.\<close>

definition word_count :: "string \<Rightarrow> nat \<Rightarrow> nat \<Rightarrow> nat" where
  "word_count body s e = card (word_starts (byte_ws body) False s e)"

lemma cut_chars:
  assumes "utf8_text body" "is_char_boundary body s" "is_char_boundary body e" "s \<le> e"
  obtains xs ys zs where "utf8_chars body = xs @ ys @ zs" "list_all utf8_char (xs @ ys @ zs)"
    "length (concat xs) = s" "length (concat (xs @ ys)) = e" "str_slice body s e = Done (concat ys)"
proof -
  let ?a = "take s body" and ?b = "take (e - s) (drop s body)" and ?c = "drop e body"
  have abc: "body = ?a @ ?b @ ?c" using assms(4) by (metis append_take_drop_id drop_drop le_add_diff_inverse2)
  have e: "e \<le> length body" using assms(3) by (simp add: is_char_boundary_def)
  have la: "length ?a = s" "length (?a @ ?b) = e" using e assms(4) by auto
  have "?b @ ?c = [] \<or> \<not> is_cont (hd (?b @ ?c)) \<or> ?a = []"
    using assms(2) boundary_split [of ?a "?b @ ?c"] abc la(1) by metis
  then have 1: "utf8_chars body = utf8_chars ?a @ utf8_chars (?b @ ?c)"
    using abc utf8_chars_append [of "?b @ ?c" ?a] by (metis append_Nil utf8_chars.simps(1))
  have "?c = [] \<or> \<not> is_cont (hd ?c) \<or> ?a @ ?b = []"
    using assms(3) boundary_split [of "?a @ ?b" ?c] abc la(2) by (metis append.assoc)
  then have 2: "utf8_chars (?b @ ?c) = utf8_chars ?b @ utf8_chars ?c"
    using utf8_chars_append [of ?c ?b] by (metis append_Nil append_is_Nil_conv utf8_chars.simps(1))
  show thesis
  proof (rule that [of "utf8_chars ?a" "utf8_chars ?b" "utf8_chars ?c"])
    show "list_all utf8_char (utf8_chars ?a @ utf8_chars ?b @ utf8_chars ?c)"
      using assms(1) 1 2 by (simp add: utf8_text_def)
    show "str_slice body s e = Done (concat (utf8_chars ?b))"
      using assms by (simp add: str_slice_def)
  qed (use 1 2 la in auto)
qed

lemma slice_words:
  assumes "utf8_text body" "is_char_boundary body s" "is_char_boundary body e" "s \<le> e"
  shows "\<exists>t. str_slice body s e = Done t \<and> length (split_whitespace t) = word_count body s e"
proof -
  from assms obtain xs ys zs where cut: "utf8_chars body = xs @ ys @ zs" "list_all utf8_char (xs @ ys @ zs)"
    "length (concat xs) = s" "length (concat (xs @ ys)) = e" "str_slice body s e = Done (concat ys)"
    by (rule cut_chars)
  have "byte_ws body (s + q) = ws_flags ys ! q" if "q < length (concat ys)" for q
    using that cut(3) by (simp add: byte_ws_def cut(1) nth_append)
  then have "length (split_ws [] ys) = card (word_starts (byte_ws body) False s (s + length (concat ys)))"
    using split_ws_count [of ys "byte_ws body" s "[]"] cut(2) by simp
  moreover have "split_whitespace (concat ys) = split_ws [] ys"
    using cut(2) by (simp add: split_whitespace_def utf8_chars_concat)
  ultimately have "length (split_whitespace (concat ys)) = word_count body s e"
    using cut(3,4) by (simp add: word_count_def)
  with cut(5) show ?thesis by blast
qed

lemma word_count_pos:
  assumes "s \<le> p" "p < e" "\<not> byte_ws body p"
  shows "0 < word_count body s e"
proof -
  have "\<exists>p. p \<in> word_starts (byte_ws body) False s e"
    using assms
  proof (induction p rule: less_induct)
    case (less p)
    show ?case
    proof (cases "p = s \<or> byte_ws body (p - 1)")
      case True
      with less.prems show ?thesis by (auto simp: word_starts_def)
    next
      case False
      with less.prems show ?thesis by (intro less.IH [of "p - 1"]) auto
    qed
  qed
  then show ?thesis by (auto simp: word_count_def card_gt_0_iff)
qed

section \<open>The ranges of the units\<close>

text \<open>Ranges between two positions that leave out nothing but white space and end in a word.\<close>

fun tiles :: "string \<Rightarrow> nat \<Rightarrow> nat \<Rightarrow> (nat \<times> nat) list \<Rightarrow> bool" where
  "tiles body lo hi [] \<longleftrightarrow> (\<forall>p. lo \<le> p \<and> p < hi \<longrightarrow> byte_ws body p)"
| "tiles body lo hi ((s, e) # rs) \<longleftrightarrow>
     lo \<le> s \<and> s < e \<and> e \<le> hi \<and> (\<forall>p. lo \<le> p \<and> p < s \<longrightarrow> byte_ws body p) \<and> \<not> byte_ws body (e - 1) \<and>
     is_char_boundary body s \<and> is_char_boundary body e \<and> tiles body e hi rs"

lemma tiles_gap: "tiles body e hi rs \<Longrightarrow> \<forall>p. lo \<le> p \<and> p < e \<longrightarrow> byte_ws body p \<Longrightarrow> lo \<le> e \<Longrightarrow> tiles body lo hi rs"
  by (cases rs) (auto, (meson not_le)+)

text \<open>A line at position \<open>i\<close>: blank, or with content up to a position.\<close>

lemma line_content:
  assumes body: "utf8_chars body = xs @ cl @ zs" "list_all utf8_char (xs @ cl @ zs)" and i: "i = length (concat xs)"
  shows "trim (concat cl) = [] \<Longrightarrow> \<forall>p. i \<le> p \<and> p < i + length (concat cl) \<longrightarrow> byte_ws body p"
    and "trim (concat cl) \<noteq> [] \<Longrightarrow>
      (let ce = i + length (trim_end (concat cl)) in
       i < ce \<and> ce \<le> i + length (concat cl) \<and> \<not> byte_ws body (ce - 1) \<and>
       is_char_boundary body i \<and> is_char_boundary body ce \<and>
       (\<forall>p. ce \<le> p \<and> p < i + length (concat cl) \<longrightarrow> byte_ws body p))"
proof -
  have flag: "byte_ws body p = ws_flags cl ! (p - i)" if "i \<le> p" "p < i + length (concat cl)" for p
  proof -
    have "p - i < length (concat cl)" using that by linarith
    with that i show ?thesis by (simp add: byte_ws_def body(1) nth_append)
  qed
  have body_eq: "body = concat (xs @ cl @ zs)" by (metis body(1) concat_utf8_chars)
  have all_ws: "ws_flags ws ! q" if "list_all is_ws_char ws" "q < length (concat ws)" for ws q
    using that by (induction ws arbitrary: q) (auto simp: nth_append)
  show "\<forall>p. i \<le> p \<and> p < i + length (concat cl) \<longrightarrow> byte_ws body p" if "trim (concat cl) = []"
    using that body(2) by (auto simp: trim_eq_Nil flag intro!: all_ws)
  assume ne: "trim (concat cl) \<noteq> []"
  define ks where "ks = rev (dropWhile is_ws_char (rev cl))"
  define ws where "ws = rev (takeWhile is_ws_char (rev cl))"
  have cl: "cl = ks @ ws" unfolding ks_def ws_def by (metis rev_append rev_rev_ident takeWhile_dropWhile_id)
  have ws: "list_all is_ws_char ws" by (auto simp: ws_def list_all_iff dest: set_takeWhileD)
  have te: "trim_end (concat cl) = concat ks" using body(2) by (simp add: trim_end_chars ks_def)
  have ks: "ks \<noteq> []"
  proof
    assume "ks = []"
    with ne body(2) ws cl show False by (simp add: trim_eq_Nil)
  qed
  then have last: "\<not> is_ws_char (last ks)"
    unfolding ks_def using hd_dropWhile by (metis last_rev rev_is_Nil_conv)
  obtain ks' c where k: "ks = ks' @ [c]" "\<not> is_ws_char c" using ks last by (metis append_butlast_last_id)
  have c: "c \<noteq> []" using body(2) k(1) cl utf8_char_ne by auto
  let ?ce = "i + length (concat ks)"
  have pos: "?ce - 1 - i = length (concat ks') + (length c - 1)" using c by (simp add: k(1) Suc_leI)
  have "ws_flags cl ! (length (concat ks') + (length c - 1)) = is_ws_char c"
    using c by (simp add: cl k(1) nth_append del: replicate_Suc)
  then have "ws_flags cl ! (?ce - 1 - i) = is_ws_char c" by (simp only: pos)
  then have nws: "\<not> byte_ws body (?ce - 1)"
  proof -
    have "0 < length c" using c by simp
    moreover have "length (concat ks) = length (concat ks') + length c"
      "length (concat cl) = length (concat ks) + length (concat ws)" by (simp_all add: cl k(1))
    ultimately have "i \<le> ?ce - 1" "?ce - 1 < i + length (concat cl)" by linarith+
    from flag [OF this] k(2) \<open>ws_flags cl ! (?ce - 1 - i) = is_ws_char c\<close> show ?thesis by blast
  qed
  have bounds: "is_char_boundary body i" "is_char_boundary body ?ce"
    using boundary_concat [of "cl @ zs" xs] boundary_concat [of "ws @ zs" "xs @ ks"] body(2) cl
    by (simp_all add: body_eq i)
  have "byte_ws body p" if "?ce \<le> p" "p < i + length (concat cl)" for p
  proof -
    have "\<not> p - i < length (concat ks)" "p - i - length (concat ks) < length (concat ws)"
      using that by (auto simp: cl)
    with that flag [of p] all_ws [OF ws] show ?thesis by (simp add: cl nth_append)
  qed
  then show "(let ce = i + length (trim_end (concat cl)) in
       i < ce \<and> ce \<le> i + length (concat cl) \<and> \<not> byte_ws body (ce - 1) \<and>
       is_char_boundary body i \<and> is_char_boundary body ce \<and>
       (\<forall>p. ce \<le> p \<and> p < i + length (concat cl) \<longrightarrow> byte_ws body p))"
    using nws bounds c unfolding te Let_def by (auto simp: cl k(1))
qed

text \<open>What is open in front of position \<open>i\<close>: nothing, or a range that ends in a word.\<close>

definition open_range :: "string \<Rightarrow> nat \<Rightarrow> nat \<Rightarrow> (nat \<times> nat) option \<Rightarrow> bool" where
  "open_range body lo i open' \<longleftrightarrow>
     (case open' of None \<Rightarrow> lo \<le> i \<and> (\<forall>p. lo \<le> p \<and> p < i \<longrightarrow> byte_ws body p)
      | Some (s, e) \<Rightarrow> lo \<le> s \<and> s < e \<and> e \<le> i \<and> (\<forall>p. lo \<le> p \<and> p < s \<longrightarrow> byte_ws body p) \<and> \<not> byte_ws body (e - 1) \<and>
          is_char_boundary body s \<and> is_char_boundary body e \<and> (\<forall>p. e \<le> p \<and> p < i \<longrightarrow> byte_ws body p))"

lemma unit_ranges_tiles:
  assumes "utf8_chars body = xs @ concat cls" "list_all utf8_char (xs @ concat cls)" "i = length (concat xs)"
    and "open_range body lo i open'"
  shows "tiles body lo (length body) (unit_ranges i open' (map concat cls))"
  using assms
proof (induction cls arbitrary: xs i open' lo)
  case Nil
  have "body = concat xs" by (metis Nil.prems(1) append_Nil2 concat.simps(1) concat_utf8_chars)
  with Nil show ?case by (auto simp: open_range_def close_range_def split: option.splits)
next
  case (Cons cl cls)
  let ?line = "concat cl" and ?next = "i + length (concat cl)"
  let ?ce = "i + length (trim_end ?line)"
  have IH: "tiles body lo' (length body) (unit_ranges ?next o' (map concat cls))"
    if "open_range body lo' ?next o'" for o' lo'
    using Cons.IH [where xs = "xs @ cl" and i = ?next and open' = o' and lo = lo'] Cons.prems(1-3) that by simp
  have line: "utf8_chars body = xs @ cl @ concat cls" "list_all utf8_char (xs @ cl @ concat cls)"
    using Cons.prems(1,2) by simp_all
  show ?case
  proof (cases "trim ?line = []")
    case True
    with line_content(1) [OF line Cons.prems(3)]
    have ws: "byte_ws body p" if "i \<le> p" "p < ?next" for p using that by blast
    show ?thesis
    proof (cases open')
      case None
      have "tiles body lo (length body) (unit_ranges ?next None (map concat cls))"
      proof (intro IH)
        have "byte_ws body p" if "lo \<le> p" "p < ?next" for p
          using that ws [of p] Cons.prems(4) None unfolding open_range_def by (cases "p < i") auto
        then show "open_range body lo ?next None"
          using Cons.prems(4) None by (auto simp: open_range_def)
      qed
      with True None show ?thesis by (simp add: close_range_def)
    next
      case (Some r)
      obtain s e where r: "r = (s, e)" by (rule prod.exhaust)
      have "tiles body e (length body) (unit_ranges ?next None (map concat cls))"
      proof (intro IH)
        have "byte_ws body p" if "e \<le> p" "p < ?next" for p
          using that ws [of p] Cons.prems(4) Some r unfolding open_range_def by (cases "p < i") auto
        then show "open_range body e ?next None"
          using Cons.prems(4) Some r by (auto simp: open_range_def)
      qed
      with True Some r Cons.prems(4) show ?thesis
        by (auto simp: open_range_def close_range_def is_char_boundary_def)
    qed
  next
    case False
    with line_content(2) [OF line Cons.prems(3)]
    have ce: "i < ?ce" "?ce \<le> ?next" "\<not> byte_ws body (?ce - 1)" "is_char_boundary body i" "is_char_boundary body ?ce"
      "\<forall>p. ?ce \<le> p \<and> p < ?next \<longrightarrow> byte_ws body p"
      by (simp_all add: Let_def)
    have fresh: "tiles body lo' (length body) (unit_ranges ?next (Some (i, ?ce)) (map concat cls))"
      if "lo' \<le> i" "\<forall>p. lo' \<le> p \<and> p < i \<longrightarrow> byte_ws body p" for lo'
      using that ce by (intro IH) (auto simp: open_range_def)
    show ?thesis
    proof (cases open')
      case None
      with Cons.prems(4) fresh [of lo] False show ?thesis by (simp add: open_range_def close_range_def Let_def)
    next
      case (Some r)
      obtain s e where r: "r = (s, e)" by (rule prod.exhaust)
      from Cons.prems(4) have se: "lo \<le> s" "s < e" "e \<le> i" "\<forall>p. lo \<le> p \<and> p < s \<longrightarrow> byte_ws body p" "\<not> byte_ws body (e - 1)"
        "is_char_boundary body s" "is_char_boundary body e" "\<forall>p. e \<le> p \<and> p < i \<longrightarrow> byte_ws body p"
        by (simp_all add: Some r open_range_def)
      have "tiles body lo (length body) (unit_ranges ?next (Some (s, ?ce)) (map concat cls))"
        using se ce by (intro IH) (auto simp: open_range_def)
      moreover have "tiles body lo (length body) ((s, e) # unit_ranges ?next (Some (i, ?ce)) (map concat cls))"
        using se fresh [of e] by (auto simp: is_char_boundary_def)
      ultimately show ?thesis using False by (simp add: Some r close_range_def Let_def)
    qed
  qed
qed

text \<open>The lines of a text as lists of its characters.\<close>

lemma line_chars:
  "list_all utf8_char cs \<Longrightarrow> \<exists>cls. split_inclusive (concat cs) = map concat cls \<and> concat cls = cs"
proof (induction cs)
  case (Cons c cs)
  then obtain cls where cls: "split_inclusive (concat cs) = map concat cls" "concat cls = cs" by auto
  show ?case
  proof (cases "c = [CHR 0x0A]")
    case True
    with cls show ?thesis by (intro exI [of _ "[c] # cls"]) simp
  next
    case False
    have no_nl: "CHR 0x0A \<notin> set c"
      using Cons.prems False by (auto simp: elim!: utf8_char_cases) (auto simp: is_cont_def)
    have "split_inclusive (c @ s) = (case split_inclusive s of [] \<Rightarrow> [c] | w # ws \<Rightarrow> (c @ w) # ws)" if "c \<noteq> []" for s
      using no_nl that
    proof (induction c)
      case (Cons a c)
      then show ?case by (cases "c = []") (auto split: list.splits)
    qed simp
    then have "split_inclusive (concat (c # cs)) =
      (case cls of [] \<Rightarrow> [c] | cl # cls' \<Rightarrow> (c @ concat cl) # map concat cls')"
      using Cons.prems utf8_char_ne cls(1) by (auto split: list.splits)
    with cls(2) show ?thesis
      by (intro exI [of _ "case cls of [] \<Rightarrow> [[c]] | cl # cls' \<Rightarrow> (c # cl) # cls'"]) (auto split: list.splits)
  qed
qed simp

lemma unit_ranges_cover:
  "utf8_text body \<Longrightarrow> tiles body 0 (length body) (unit_ranges 0 None (split_inclusive body))"
proof -
  assume "utf8_text body"
  then obtain cs where cs: "list_all utf8_char cs" "body = concat cs" "utf8_chars body = cs" by (rule utf8_text_obtain)
  obtain cls where "split_inclusive body = map concat cls" "concat cls = cs" using line_chars [OF cs(1)] cs(2) by auto
  then show ?thesis using unit_ranges_tiles [where body = body and xs = "[]" and cls = cls and i = 0 and open' = None and lo = 0] cs
    by (simp add: open_range_def)
qed

section \<open>Units\<close>

lemma concat_outcome_Done:
  "list_all (\<lambda>m. \<exists>xs. m = Done xs) ms \<Longrightarrow> \<exists>xss. ms = map Done xss \<and> concat_outcome ms = Done (concat xss)"
proof (induction ms)
  case Nil
  then show ?case by (intro exI [of _ "[]"]) simp
next
  case (Cons m ms)
  then obtain xs xss where "m = Done xs" "ms = map Done xss" "concat_outcome ms = Done (concat xss)" by auto
  then show ?case by (intro exI [of _ "xs # xss"]) simp
qed

text \<open>A unit as the packing needs it: it has a word, its slice exists and its count is no less than
  the words of the slice.\<close>

definition good_unit :: "string \<Rightarrow> ChunkUnit \<Rightarrow> bool" where
  "good_unit body u \<longleftrightarrow>
     is_char_boundary body (un_start u) \<and> is_char_boundary body (un_end u) \<and> un_start u < un_end u \<and>
     \<not> byte_ws body (un_end u - 1) \<and> word_count body (un_start u) (un_end u) \<le> un_words u \<and> 0 < un_words u"

text \<open>Units that follow one another from \<open>(ps, pe)\<close> up to position \<open>hi\<close>, with at most white space
  between the end of one and the start of the next.\<close>

fun unit_chain :: "string \<Rightarrow> nat \<Rightarrow> nat \<Rightarrow> nat \<Rightarrow> ChunkUnit list \<Rightarrow> bool" where
  "unit_chain body ps pe hi [] \<longleftrightarrow> pe \<le> hi \<and> (\<forall>p. pe \<le> p \<and> p < hi \<longrightarrow> byte_ws body p)"
| "unit_chain body ps pe hi (u # us) \<longleftrightarrow>
     ps \<le> un_start u \<and> pe \<le> un_end u \<and> (\<forall>p. pe \<le> p \<and> p < un_start u \<longrightarrow> byte_ws body p) \<and> good_unit body u \<and>
     unit_chain body (un_start u) (un_end u) hi us"

lemma unit_chain_bound: "unit_chain body ps pe hi us \<Longrightarrow> pe \<le> hi"
  by (induction us arbitrary: ps pe) (simp, force)

lemma unit_chain_weaken:
  "unit_chain body ps pe hi us \<Longrightarrow> ps' \<le> ps \<Longrightarrow> pe' \<le> pe \<Longrightarrow> (\<forall>p. pe' \<le> p \<and> p < pe \<longrightarrow> byte_ws body p) \<Longrightarrow>
   unit_chain body ps' pe' hi us"
  by (cases us) (auto, (meson not_le order_trans)+)

lemma unit_chain_append:
  "unit_chain body ps pe mid us \<Longrightarrow> ps \<le> mid \<Longrightarrow> unit_chain body mid mid hi vs \<Longrightarrow> unit_chain body ps pe hi (us @ vs)"
proof (induction us arbitrary: ps pe)
  case Nil
  then show ?case by (auto intro: unit_chain_weaken)
next
  case (Cons u us)
  then have "un_end u \<le> mid" using unit_chain_bound by fastforce
  then have "un_start u \<le> mid" using Cons.prems(1) by (simp add: good_unit_def)
  with Cons show ?case by simp
qed

text \<open>A pushed range is one unit, counted exactly.\<close>

lemma push_unit_Done:
  assumes "utf8_text body" "is_char_boundary body s" "is_char_boundary body e" "s < e" "\<not> byte_ws body (e - 1)"
  shows "\<exists>h. push_unit body (s, e) =
    Done [\<lparr>un_start = s, un_end = e, un_words = word_count body s e, un_heading = h\<rparr>] \<and> 0 < word_count body s e"
proof -
  obtain t where t: "str_slice body s e = Done t" "length (split_whitespace t) = word_count body s e"
    using slice_words assms by (meson less_imp_le)
  have "0 < word_count body s e" using assms by (intro word_count_pos [of _ "e - 1"]) auto
  with t assms(4) show ?thesis by (auto simp: push_unit_def Let_def)
qed

section \<open>Windows of words\<close>

text \<open>Runs of non-white bytes between two positions that leave out nothing but white space.\<close>

fun runs :: "(nat \<Rightarrow> bool) \<Rightarrow> nat \<Rightarrow> nat \<Rightarrow> (nat \<times> nat) list \<Rightarrow> bool" where
  "runs F lo hi [] \<longleftrightarrow> lo \<le> hi \<and> (\<forall>p. lo \<le> p \<and> p < hi \<longrightarrow> F p)"
| "runs F lo hi ((s, e) # rs) \<longleftrightarrow>
     lo \<le> s \<and> s < e \<and> (\<forall>p. lo \<le> p \<and> p < s \<longrightarrow> F p) \<and> (\<forall>p. s \<le> p \<and> p < e \<longrightarrow> \<not> F p) \<and> runs F e hi rs"

lemma runs_weaken: "runs F lo hi rs \<Longrightarrow> lo' \<le> lo \<Longrightarrow> (\<forall>p. lo' \<le> p \<and> p < lo \<longrightarrow> F p) \<Longrightarrow> runs F lo' hi rs"
  by (cases rs) (auto, (meson not_le order_trans)+)

text \<open>The bounds found in the characters \<open>chs\<close> at position \<open>i\<close> of a text, with a word open since \<open>s\<close>.\<close>

lemma word_bounds_runs:
  assumes "list_all utf8_char chs" "\<And>q. q < length (concat chs) \<Longrightarrow> F (i + q) = ws_flags chs ! q"
  shows "runs F i (i + length (concat chs)) (word_bounds i None chs)"
    and "s < i \<Longrightarrow> \<forall>p. s \<le> p \<and> p < i \<longrightarrow> \<not> F p \<Longrightarrow> runs F s (i + length (concat chs)) (word_bounds i (Some s) chs)"
  using assms
proof (induction chs arbitrary: i s)
  case Nil
  { case 1 then show ?case by auto }
  { case 2 then show ?case by simp }
next
  case (Cons c chs)
  let ?n = "length c"
  have c: "0 < ?n" if "list_all utf8_char (c # chs)" using that utf8_char_ne by simp
  have here: "F p = is_ws_char c"
    if "i \<le> p" "p < i + ?n" "\<And>q. q < length (concat (c # chs)) \<Longrightarrow> F (i + q) = ws_flags (c # chs) ! q" for i p
  proof -
    have "p - i < ?n" using that by linarith
    with that(1) that(3) [of "p - i"] show ?thesis by (simp add: nth_append)
  qed
  have tail: "F ((i + ?n) + q) = ws_flags chs ! q"
    if "q < length (concat chs)" "\<And>q. q < length (concat (c # chs)) \<Longrightarrow> F (i + q) = ws_flags (c # chs) ! q" for i q
    using that(1) that(2) [of "?n + q"] by (simp add: nth_append add.assoc)
  { case (1 i)
    have IH1: "runs F (i + ?n) (i + length (concat (c # chs))) (word_bounds (i + ?n) None chs)"
      using Cons.IH(1) [of "i + ?n"] 1 tail [OF _ 1(2)] by (simp add: add.assoc)
    have IH2: "\<forall>p. i \<le> p \<and> p < i + ?n \<longrightarrow> \<not> F p \<Longrightarrow>
      runs F i (i + length (concat (c # chs))) (word_bounds (i + ?n) (Some i) chs)"
      using Cons.IH(2) [of i "i + ?n"] 1 c tail [OF _ 1(2)] by (simp add: add.assoc)
    show ?case
    proof (cases "is_ws_char c")
      case True
      with IH1 here [OF _ _ 1(2)] show ?thesis by (auto intro: runs_weaken)
    next
      case False
      with IH2 here [OF _ _ 1(2)] show ?thesis by auto
    qed }
  { case (2 i s)
    have IH1: "runs F (i + ?n) (i + length (concat (c # chs))) (word_bounds (i + ?n) None chs)"
      using Cons.IH(1) [of "i + ?n"] 2 tail [OF _ 2(4)] by (simp add: add.assoc)
    have IH2: "\<forall>p. s \<le> p \<and> p < i + ?n \<longrightarrow> \<not> F p \<Longrightarrow>
      runs F s (i + length (concat (c # chs))) (word_bounds (i + ?n) (Some s) chs)"
      using Cons.IH(2) [of s "i + ?n"] 2 c tail [OF _ 2(4)] by (simp add: add.assoc)
    show ?case
    proof (cases "is_ws_char c")
      case True
      then have "runs F i (i + length (concat (c # chs))) (word_bounds (i + ?n) None chs)"
        using IH1 here [OF _ _ 2(4)] by (auto intro: runs_weaken)
      with True 2(1,2) show ?thesis by auto
    next
      case False
      have "\<not> F p" if "s \<le> p" "p < i + ?n" for p
        using that 2(2) here [OF _ _ 2(4), of p] False by (cases "p < i") auto
      with IH2 False show ?thesis by auto
    qed }
qed

lemma runs_drop:
  "runs F lo hi rs \<Longrightarrow> k \<le> length rs \<Longrightarrow> runs F (if k = 0 then lo else snd (rs ! (k - 1))) hi (drop k rs)"
proof (induction rs arbitrary: lo k)
  case (Cons r rs)
  obtain s e where r: "r = (s, e)" by (rule prod.exhaust)
  show ?case
  proof (cases k)
    case (Suc k')
    with Cons.IH [of e k'] Cons.prems r show ?thesis by (cases k') auto
  qed (use Cons in simp)
qed simp

lemma runs_nth:
  assumes "runs F lo hi rs" "k < length rs"
  shows "fst (rs ! k) < snd (rs ! k)" "\<forall>p. fst (rs ! k) \<le> p \<and> p < snd (rs ! k) \<longrightarrow> \<not> F p"
    "runs F (snd (rs ! k)) hi (drop (Suc k) rs)"
    "(if k = 0 then lo else snd (rs ! (k - 1))) \<le> fst (rs ! k)"
    "\<forall>p. (if k = 0 then lo else snd (rs ! (k - 1))) \<le> p \<and> p < fst (rs ! k) \<longrightarrow> F p"
  using runs_drop [OF assms(1), of k] assms(2) by (cases "rs ! k"; simp add: Cons_nth_drop_Suc [symmetric])+

lemma runs_order: "runs F lo hi rs \<Longrightarrow> k \<le> k' \<Longrightarrow> k' < length rs \<Longrightarrow> fst (rs ! k) \<le> fst (rs ! k') \<and> snd (rs ! k) \<le> snd (rs ! k')"
proof (induction "k' - k" arbitrary: k')
  case (Suc d)
  then obtain k'' where k'': "k' = Suc k''" by (cases k') auto
  with Suc have "fst (rs ! k) \<le> fst (rs ! k'') \<and> snd (rs ! k) \<le> snd (rs ! k'')" by (intro Suc.hyps(1)) auto
  moreover have "snd (rs ! k'') \<le> fst (rs ! k')" "fst (rs ! k') < snd (rs ! k')" "fst (rs ! k'') < snd (rs ! k'')"
    using runs_nth(1,4) [OF Suc.prems(1), of k'] runs_nth(1) [OF Suc.prems(1), of k''] Suc.prems(3) k'' by simp_all
  ultimately show ?case by linarith
qed simp

lemma runs_end: "runs F lo hi rs \<Longrightarrow> rs \<noteq> [] \<Longrightarrow> snd (last rs) \<le> hi \<and> (\<forall>p. snd (last rs) \<le> p \<and> p < hi \<longrightarrow> F p)"
  using runs_drop [of F lo hi rs "length rs"] by (simp add: last_conv_nth)

lemma word_count_cover:
  "s \<le> s' \<Longrightarrow> \<forall>p. e \<le> p \<and> p < s' \<longrightarrow> byte_ws body p \<Longrightarrow> word_count body s e' \<le> word_count body s e + word_count body s' e'"
  unfolding word_count_def by (rule word_starts_cover) auto

lemma word_count_run: "\<forall>p. s \<le> p \<and> p < e \<longrightarrow> \<not> byte_ws body p \<Longrightarrow> word_count body s e \<le> 1"
proof -
  assume nws: "\<forall>p. s \<le> p \<and> p < e \<longrightarrow> \<not> byte_ws body p"
  have "word_starts (byte_ws body) False s e \<subseteq> {s}"
  proof
    fix x
    assume x: "x \<in> word_starts (byte_ws body) False s e"
    show "x \<in> {s}"
    proof (rule ccontr)
      assume "x \<notin> {s}"
      with x have "s \<le> x - 1" "x - 1 < e" "byte_ws body (x - 1)" by (auto simp: word_starts_def)
      with nws show False by blast
    qed
  qed
  then show ?thesis unfolding word_count_def using card_mono [of "{s}"] by fastforce
qed

lemma window_count:
  assumes "runs (\<lambda>q. byte_ws body (base + q)) lo hi rs" "w + k < length rs"
  shows "word_count body (base + fst (rs ! w)) (base + snd (rs ! (w + k))) \<le> Suc k"
  using assms(2)
proof (induction k)
  case 0
  have "word_count body (base + fst (rs ! w)) (base + snd (rs ! w)) \<le> 1"
    using runs_nth(2) [OF assms(1), of w] 0 by (intro word_count_run) (auto simp: le_iff_add add.assoc)
  then show ?case by simp
next
  case (Suc k)
  let ?s = "base + fst (rs ! Suc (w + k))" and ?e = "base + snd (rs ! Suc (w + k))"
  have "word_count body (base + fst (rs ! w)) ?e \<le> word_count body (base + fst (rs ! w)) (base + snd (rs ! (w + k))) + word_count body ?s ?e"
    using runs_order [OF assms(1), of w "Suc (w + k)"] runs_nth(5) [OF assms(1), of "Suc (w + k)"] Suc.prems
    by (intro word_count_cover) (auto simp: le_iff_add add.assoc)
  moreover have "word_count body ?s ?e \<le> 1"
    using runs_nth(2) [OF assms(1), of "Suc (w + k)"] Suc.prems
    by (intro word_count_run) (auto simp: le_iff_add add.assoc)
  ultimately show ?case using Suc by simp
qed

lemma word_windows_chain:
  assumes rs: "runs (\<lambda>q. byte_ws body (base + q)) lo hi rs"
    and bounds: "\<And>r. r \<in> set rs \<Longrightarrow> is_char_boundary body (base + fst r) \<and> is_char_boundary body (base + snd r)"
    and step: "0 < stride" "stride \<le> target"
    and "w < length rs" "ps \<le> base + fst (rs ! w)" "pe \<le> base + snd (rs ! (min (w + target) (length rs) - 1))"
    and "\<forall>p. pe \<le> p \<and> p < base + fst (rs ! w) \<longrightarrow> byte_ws body p"
  shows "unit_chain body ps pe (base + hi) (word_windows base rs target stride w) \<and>
    list_all (\<lambda>u. un_words u \<le> target) (word_windows base rs target stride w)"
  using assms(5-)
proof (induction "length rs - w" arbitrary: w ps pe rule: less_induct)
  case less
  let ?e = "min (w + target) (length rs)"
  let ?u = "\<lparr>un_start = base + fst (rs ! w), un_end = base + snd (rs ! (?e - 1)), un_words = ?e - w, un_heading = False\<rparr>"
  have e: "w < ?e" "?e - 1 < length rs" using step less.prems(1) by auto
  have wle: "w \<le> ?e - 1" using e(1) by linarith
  have last: "\<not> byte_ws body (base + snd (rs ! (?e - 1)) - 1)"
  proof -
    have "fst (rs ! (?e - 1)) \<le> snd (rs ! (?e - 1)) - 1" "snd (rs ! (?e - 1)) - 1 < snd (rs ! (?e - 1))"
      "base + snd (rs ! (?e - 1)) - 1 = base + (snd (rs ! (?e - 1)) - 1)"
      using runs_nth(1) [OF rs e(2)] by linarith+
    with runs_nth(2) [OF rs e(2)] show ?thesis by metis
  qed
  have wc: "word_count body (base + fst (rs ! w)) (base + snd (rs ! (w + (?e - 1 - w)))) \<le> Suc (?e - 1 - w)"
    using e by (intro window_count [OF rs]) auto
  have count: "word_count body (base + fst (rs ! w)) (base + snd (rs ! (?e - 1))) \<le> ?e - w"
  proof -
    have "w + (?e - 1 - w) = ?e - 1" "Suc (?e - 1 - w) = ?e - w" using e(1) by linarith+
    with wc show ?thesis by (simp only:)
  qed
  have "fst (rs ! w) < snd (rs ! (?e - 1))"
    using runs_nth(1) [OF rs less.prems(1)] runs_order [OF rs wle e(2)] by linarith
  then have good: "good_unit body ?u"
    using bounds [of "rs ! w"] bounds [of "rs ! (?e - 1)"] e less.prems(1) last count by (simp add: good_unit_def)
  show ?case
  proof (cases "length rs \<le> ?e")
    case True
    then have E: "?e = length rs" by simp
    have "rs \<noteq> []" using less.prems(1) by auto
    then have lst: "rs ! (?e - 1) = last rs" by (simp add: E last_conv_nth)
    have "byte_ws body p" if "base + snd (last rs) \<le> p" "p < base + hi" for p
    proof -
      have "snd (last rs) \<le> p - base" "p - base < hi" "base + (p - base) = p" using that by linarith+
      with runs_end [OF rs \<open>rs \<noteq> []\<close>] show ?thesis by metis
    qed
    with runs_end [OF rs \<open>rs \<noteq> []\<close>] have "unit_chain body (un_start ?u) (un_end ?u) (base + hi) []"
      by (simp add: lst del: One_nat_def)
    with True good less.prems step show ?thesis by (subst (1 2) word_windows.simps) (simp add: Let_def)
  next
    case False
    then have E: "?e = w + target" "w + stride < length rs" using step by auto
    let ?w = "w + stride"
    have "unit_chain body (un_start ?u) (un_end ?u) (base + hi) (word_windows base rs target stride ?w) \<and>
      list_all (\<lambda>u. un_words u \<le> target) (word_windows base rs target stride ?w)"
    proof (rule less.hyps)
      show "length rs - ?w < length rs - w" using step less.prems(1) by simp
      show "?w < length rs" by (rule E(2))
      show "un_start ?u \<le> base + fst (rs ! ?w)" using runs_order [OF rs, of w ?w] E(2) by simp
      show "un_end ?u \<le> base + snd (rs ! (min (?w + target) (length rs) - 1))"
        using runs_order [OF rs, of "?e - 1" "min (?w + target) (length rs) - 1"] E step by simp
      show "\<forall>p. un_end ?u \<le> p \<and> p < base + fst (rs ! ?w) \<longrightarrow> byte_ws body p"
      proof (cases "stride = target")
        case True
        with runs_nth(5) [OF rs E(2)] E(1) step show ?thesis by (auto simp: le_iff_add add.assoc)
      next
        case False
        then have "?w \<le> ?e - 1" using step E(1) by simp
        then have "fst (rs ! ?w) < snd (rs ! (?e - 1))"
          using runs_order [OF rs, of ?w "?e - 1"] runs_nth(1) [OF rs E(2)] e(2) by linarith
        then have "base + fst (rs ! ?w) \<le> base + snd (rs ! (?e - 1))" by simp
        then show ?thesis by (simp only: ChunkUnit.simps) (meson le_trans not_le)
      qed
    qed
    with False good less.prems step show ?thesis
      by (subst (1 2) word_windows.simps) (simp add: Let_def)
  qed
qed

text \<open>The bounds of words are character boundaries.\<close>

lemma word_bounds_boundary:
  "(\<And>k. k \<le> length chs \<Longrightarrow> P (i + length (concat (take k chs)))) \<Longrightarrow> (\<And>s. open' = Some s \<Longrightarrow> P s) \<Longrightarrow>
   r \<in> set (word_bounds i open' chs) \<Longrightarrow> P (fst r) \<and> P (snd r)"
proof (induction i open' chs rule: word_bounds.induct)
  case (1 idx word_start)
  with 1(1) [of 0] show ?case by (auto split: option.splits)
next
  case (2 idx word_start ch chs)
  have here: "P idx" using 2(4) [of 0] by simp
  have later: "P (idx + length ch + length (concat (take k chs)))" if "k \<le> length chs" for k
    using 2(4) [of "Suc k"] that by (simp add: add.assoc)
  show ?case
  proof (cases "is_ws_char ch")
    case True
    show ?thesis
    proof (cases word_start)
      case None
      with True 2(6) show ?thesis by (intro 2(1) later) simp_all
    next
      case (Some s)
      with True 2(6) consider "r = (s, idx)" | "r \<in> set (word_bounds (idx + length ch) None chs)" by auto
      then show ?thesis
      proof cases
        case 1
        with 2(5) [OF Some] here show ?thesis by simp
      next
        case 2
        then show ?thesis using True Some by (intro "2.IH"(2) later) simp_all
      qed
    qed
  next
    case False
    with 2(5,6) here show ?thesis by (intro 2(3) later) (auto split: option.splits)
  qed
qed

section \<open>Splitting\<close>

lemma split_unit_chain:
  assumes "utf8_text body" "is_char_boundary body (un_start u)" "is_char_boundary body (un_end u)"
    and "un_start u < un_end u" "\<not> byte_ws body (un_end u - 1)"
    and words: "un_words u = word_count body (un_start u) (un_end u)" "0 < un_words u"
    and sizes: "0 < stride" "stride \<le> target" "target \<le> max_tokens"
    and "ps \<le> un_start u" "pe \<le> un_start u" "\<forall>p. pe \<le> p \<and> p < un_start u \<longrightarrow> byte_ws body p"
  shows "\<exists>us. split_unit body max_tokens target stride u = Done us \<and> unit_chain body ps pe (un_end u) us \<and>
    list_all (\<lambda>u. un_words u \<le> max_tokens) us"
proof (cases "un_words u \<le> max_tokens")
  case True
  with assms show ?thesis by (simp add: split_unit_def good_unit_def)
next
  case False
  let ?s = "un_start u" and ?e = "un_end u"
  obtain xs ys zs where cut: "utf8_chars body = xs @ ys @ zs" "list_all utf8_char (xs @ ys @ zs)"
    "length (concat xs) = ?s" "length (concat (xs @ ys)) = ?e" "str_slice body ?s ?e = Done (concat ys)"
    using cut_chars [OF assms(1-3) less_imp_le [OF assms(4)]] by blast
  have len: "length (concat ys) = ?e - ?s" using cut(3,4) by simp
  have ys: "list_all utf8_char ys" using cut(2) by simp
  let ?rs = "word_bounds 0 None ys"
  have "byte_ws body (?s + q) = ws_flags ys ! q" if "q < length (concat ys)" for q
    using that cut(3) by (simp add: byte_ws_def cut(1) nth_append)
  then have rs: "runs (\<lambda>q. byte_ws body (?s + q)) 0 (?e - ?s) ?rs"
    using word_bounds_runs(1) [OF ys, of "\<lambda>q. byte_ws body (?s + q)" 0] len by simp
  have "?rs \<noteq> []"
  proof
    assume "?rs = []"
    with rs have "\<forall>q < ?e - ?s. byte_ws body (?s + q)" by simp
    moreover have "?e - 1 - ?s < ?e - ?s" "?s + (?e - 1 - ?s) = ?e - 1" using assms(4) by linarith+
    ultimately show False using assms(5) by metis
  qed
  have body_eq: "body = concat (xs @ ys @ zs)" by (metis cut(1) concat_utf8_chars)
  have bound: "is_char_boundary body (?s + fst r) \<and> is_char_boundary body (?s + snd r)" if "r \<in> set ?rs" for r
  proof (rule word_bounds_boundary [OF _ _ that])
    fix k assume "k \<le> length ys"
    have "body = concat (xs @ take k ys) @ concat (drop k ys @ zs)"
      unfolding body_eq by (metis append.assoc append_take_drop_id concat_append)
    moreover have "list_all utf8_char (drop k ys @ zs)" using cut(2) by (auto simp: list_all_iff dest: in_set_dropD)
    ultimately show "is_char_boundary body (?s + (0 + length (concat (take k ys))))"
      using boundary_concat [of "drop k ys @ zs" "xs @ take k ys"] cut(3) by simp
  qed simp
  have first: "pe \<le> ?s + snd (?rs ! (min (0 + target) (length ?rs) - 1))" using assms(12) by simp
  have "byte_ws body p" if "pe \<le> p" "p < ?s + fst (?rs ! 0)" for p
  proof (cases "p < ?s")
    case True
    with that assms(13) show ?thesis by blast
  next
    case False
    then have "p - ?s < fst (?rs ! 0)" "?s + (p - ?s) = p" using that by linarith+
    with runs_nth(5) [OF rs, of 0] \<open>?rs \<noteq> []\<close> show ?thesis by (metis le0 length_greater_0_conv)
  qed
  then have "unit_chain body ps pe (?s + (?e - ?s)) (word_windows ?s ?rs target stride 0) \<and>
      list_all (\<lambda>u. un_words u \<le> target) (word_windows ?s ?rs target stride 0)"
    using \<open>?rs \<noteq> []\<close> assms(11) first
    by (intro word_windows_chain [OF rs bound sizes(1,2)]) auto
  moreover have "split_unit body max_tokens target stride u = Done (word_windows ?s ?rs target stride 0)"
    using False cut(5) ys by (simp add: split_unit_def utf8_chars_concat)
  ultimately show ?thesis using sizes(3) assms(4) by (auto simp: list_all_iff)
qed

lemma tiles_units:
  assumes "utf8_text body" "0 < stride" "stride \<le> target" "target \<le> max_tokens"
  shows "tiles body lo hi rs \<Longrightarrow> lo \<le> hi \<Longrightarrow>
    \<exists>us0 us. concat_outcome (map (push_unit body) rs) = Done us0 \<and>
      concat_outcome (map (split_unit body max_tokens target stride) us0) = Done us \<and>
      unit_chain body lo lo hi us \<and> list_all (\<lambda>u. un_words u \<le> max_tokens) us"
proof (induction rs arbitrary: lo)
  case (Cons r rs)
  obtain s e where r: "r = (s, e)" by (rule prod.exhaust)
  with Cons.prems have se: "lo \<le> s" "s < e" "e \<le> hi" "\<forall>p. lo \<le> p \<and> p < s \<longrightarrow> byte_ws body p" "\<not> byte_ws body (e - 1)"
    "is_char_boundary body s" "is_char_boundary body e" "tiles body e hi rs" by auto
  obtain us0 us where IH: "concat_outcome (map (push_unit body) rs) = Done us0"
    "concat_outcome (map (split_unit body max_tokens target stride) us0) = Done us"
    "unit_chain body e e hi us" "list_all (\<lambda>u. un_words u \<le> max_tokens) us"
    using Cons.IH [OF se(8,3)] by blast
  obtain h where u: "push_unit body (s, e) = Done [\<lparr>un_start = s, un_end = e, un_words = word_count body s e, un_heading = h\<rparr>]"
    "0 < word_count body s e" using push_unit_Done [OF assms(1) se(6,7,2,5)] by blast
  let ?u = "\<lparr>un_start = s, un_end = e, un_words = word_count body s e, un_heading = h\<rparr>"
  obtain ws where ws: "split_unit body max_tokens target stride ?u = Done ws" "unit_chain body lo lo e ws"
    "list_all (\<lambda>u. un_words u \<le> max_tokens) ws"
    using split_unit_chain [of body ?u stride target max_tokens lo lo] assms se u(2) by auto
  have "unit_chain body lo lo hi (ws @ us)"
    using ws(2) IH(3) se(1,2) by (intro unit_chain_append [of _ _ _ e]) auto
  with r u ws IH show ?case by (intro exI [of _ "?u # us0"] exI [of _ "ws @ us"]) simp
qed simp

section \<open>Packing\<close>

lemma unit_chain_nth:
  assumes "unit_chain body ps pe hi us" "k < length us"
  shows "good_unit body (us ! k)" "un_end (us ! k) \<le> hi"
    "Suc k < length us \<Longrightarrow> un_start (us ! k) \<le> un_start (us ! Suc k)"
    "Suc k < length us \<Longrightarrow> \<forall>p. un_end (us ! k) \<le> p \<and> p < un_start (us ! Suc k) \<longrightarrow> byte_ws body p"
proof -
  have "good_unit body (us ! k) \<and> un_end (us ! k) \<le> hi \<and>
    (Suc k < length us \<longrightarrow> un_start (us ! k) \<le> un_start (us ! Suc k) \<and>
      (\<forall>p. un_end (us ! k) \<le> p \<and> p < un_start (us ! Suc k) \<longrightarrow> byte_ws body p))"
    using assms
  proof (induction us arbitrary: ps pe k)
    case (Cons u us)
    show ?case
    proof (cases k)
      case 0
      have "un_end u \<le> hi" using Cons.prems(1) unit_chain_bound by fastforce
      with Cons.prems 0 show ?thesis by (cases us) auto
    next
      case (Suc k')
      with Cons.IH [of "un_start u" "un_end u" k'] Cons.prems show ?thesis by simp
    qed
  qed simp
  then show "good_unit body (us ! k)" "un_end (us ! k) \<le> hi"
    "Suc k < length us \<Longrightarrow> un_start (us ! k) \<le> un_start (us ! Suc k)"
    "Suc k < length us \<Longrightarrow> \<forall>p. un_end (us ! k) \<le> p \<and> p < un_start (us ! Suc k) \<longrightarrow> byte_ws body p" by auto
qed

lemma unit_chain_mono:
  assumes "unit_chain body ps pe hi us"
  shows "i \<le> j \<Longrightarrow> j < length us \<Longrightarrow> un_start (us ! i) \<le> un_start (us ! j)"
proof (induction j)
  case (Suc j)
  with unit_chain_nth(3) [OF assms, of j] show ?case by (cases "i = Suc j") auto
qed simp

lemma unit_chain_cover:
  "unit_chain body ps pe hi us \<Longrightarrow> pe \<le> p \<Longrightarrow> p < hi \<Longrightarrow> \<not> byte_ws body p \<Longrightarrow>
   \<exists>k < length us. un_start (us ! k) \<le> p \<and> p < un_end (us ! k)"
proof (induction us arbitrary: ps pe)
  case (Cons u us)
  show ?case
  proof (cases "p < un_end u")
    case True
    with Cons.prems show ?thesis by (intro exI [of _ 0]) (auto simp: not_less intro: leI)
  next
    case False
    with Cons.IH [of "un_start u" "un_end u"] Cons.prems obtain k where
      "k < length us" "un_start (us ! k) \<le> p" "p < un_end (us ! k)" by auto
    then show ?thesis by (intro exI [of _ "Suc k"]) simp
  qed
qed auto

lemma unit_chain_ends:
  assumes "unit_chain body ps pe hi us"
  shows "i \<le> j \<Longrightarrow> j < length us \<Longrightarrow> un_end (us ! i) \<le> un_end (us ! j)"
  using assms
proof (induction us arbitrary: ps pe i j)
  case (Cons u us)
  have later: "un_end u \<le> un_end (us ! k)" if "k < length us" for k
  proof -
    have "un_end u \<le> un_end (us ! 0)" using Cons.prems(3) that by (cases us) auto
    also have "\<dots> \<le> un_end (us ! k)" using Cons.IH [of 0 k] Cons.prems(3) that by auto
    finally show ?thesis .
  qed
  show ?case
  proof (cases i)
    case 0
    with later [of "j - 1"] Cons.prems(2) show ?thesis by (cases j) auto
  next
    case (Suc i')
    with Cons.IH [of i' "j - 1"] Cons.prems show ?thesis by (cases j) auto
  qed
qed simp

text \<open>The words of the units of a chunk bound the words of its text.\<close>

lemma chunk_count:
  assumes "unit_chain body ps pe hi us"
  shows "i \<le> j \<Longrightarrow> j < length us \<Longrightarrow>
    word_count body (un_start (us ! i)) (un_end (us ! j)) \<le> (\<Sum>k = i..<Suc j. un_words (us ! k))"
proof (induction j)
  case 0
  with unit_chain_nth(1) [OF assms, of 0] show ?case by (simp add: good_unit_def)
next
  case (Suc j)
  have here: "word_count body (un_start (us ! Suc j)) (un_end (us ! Suc j)) \<le> un_words (us ! Suc j)"
    using unit_chain_nth(1) [OF assms Suc.prems(2)] by (simp add: good_unit_def)
  show ?case
  proof (cases "i = Suc j")
    case True
    with here show ?thesis by simp
  next
    case False
    then have ij: "i \<le> j" using Suc.prems by simp
    have "word_count body (un_start (us ! i)) (un_end (us ! Suc j)) \<le>
      word_count body (un_start (us ! i)) (un_end (us ! j)) + word_count body (un_start (us ! Suc j)) (un_end (us ! Suc j))"
      using unit_chain_mono [OF assms, of i "Suc j"] unit_chain_nth(4) [OF assms, of j] Suc.prems ij
      by (intro word_count_cover) auto
    with Suc.IH [OF ij] here Suc.prems ij show ?thesis by (simp add: sum.atLeastLessThan_Suc)
  qed
qed

lemma fill_chunk_sum:
  "w \<le> m \<Longrightarrow> \<forall>k < length us. un_words (us ! k) \<le> m \<Longrightarrow> j \<le> length us \<Longrightarrow>
   w + (\<Sum>k = j..<fill_chunk us t m j w. un_words (us ! k)) \<le> m \<and> fill_chunk us t m j w \<le> length us"
proof (induction us t m j w rule: fill_chunk.induct)
  case (1 us t m j w)
  show ?case
  proof (cases "j < length us \<and> \<not> (0 < w \<and> m < w + un_words (us ! j)) \<and> \<not> (0 < w \<and> un_heading (us ! j))")
    case False
    then have "fill_chunk us t m j w = j" by (subst fill_chunk.simps) (auto simp: Let_def)
    with "1.prems" show ?thesis by simp
  next
    case True
    then have fits: "w + un_words (us ! j) \<le> m" using "1.prems" by (cases "w = 0") auto
    show ?thesis
    proof (cases "t \<le> w + un_words (us ! j)")
      case t: True
      then have "fill_chunk us t m j w = Suc j" using True by (subst fill_chunk.simps) (auto simp: Let_def)
      with fits True show ?thesis by simp
    next
      case t: False
      then have eq: "fill_chunk us t m j w = fill_chunk us t m (Suc j) (w + un_words (us ! j))"
        using True by (subst fill_chunk.simps) (auto simp: Let_def)
      have "w + un_words (us ! j) + (\<Sum>k = Suc j..<fill_chunk us t m (Suc j) (w + un_words (us ! j)). un_words (us ! k)) \<le> m \<and>
        fill_chunk us t m (Suc j) (w + un_words (us ! j)) \<le> length us"
        using 1(1) [OF _ refl] True t fits "1.prems" by auto
      moreover have "j < fill_chunk us t m (Suc j) (w + un_words (us ! j))"
        using fill_chunk_le [of "Suc j" us t m "w + un_words (us ! j)"] by simp
      ultimately show ?thesis unfolding eq by (simp add: sum.atLeast_Suc_lessThan)
    qed
  qed
qed

lemma back_up_le: "back_up us ov i k ow \<le> k"
  by (induction us ov i k ow rule: back_up.induct) (auto simp: Let_def le_Suc_eq)

text \<open>A chunk as it is promised: its text is the slice it names, with at least one word and no more
  than the limit.\<close>

definition good_chunk :: "string \<Rightarrow> nat \<Rightarrow> ChunkSpan \<Rightarrow> bool" where
  "good_chunk body max_tokens sp \<longleftrightarrow>
     str_slice body (cs_start sp) (cs_end sp) = Done (cs_text sp) \<and>
     0 < length (split_whitespace (cs_text sp)) \<and> length (split_whitespace (cs_text sp)) \<le> max_tokens"

lemma pack_chunks_good:
  assumes "utf8_text body"
  shows "unit_chain body ps pe hi us \<Longrightarrow> \<forall>k < length us. un_words (us ! k) \<le> m \<Longrightarrow>
    \<exists>spans. pack_chunks body us t m ov i = Done spans \<and> list_all (good_chunk body m) spans \<and>
      sorted (map cs_start spans) \<and> (\<forall>sp \<in> set spans. i < length us \<and> un_start (us ! i) \<le> cs_start sp) \<and>
      (\<forall>k. i \<le> k \<and> k < length us \<longrightarrow> (\<exists>sp \<in> set spans. cs_start sp \<le> un_start (us ! k) \<and> un_end (us ! k) \<le> cs_end sp))"
proof (induction "length us - i" arbitrary: i rule: less_induct)
  case less
  show ?case
  proof (cases "i < length us")
    case False
    then show ?thesis by (subst pack_chunks.simps) simp
  next
    case True
    let ?j = "fill_chunk us t m i 0"
    let ?last = "us ! (?j - 1)"
    have j: "i < ?j" "?j \<le> length us" using fill_chunk_progress [OF True, of t m] fill_chunk_sum [of 0 m us i t] less.prems True by auto
    have jl: "i \<le> ?j - 1" "?j - 1 < length us" "Suc (?j - 1) = ?j" using j by linarith+
    have gi: "good_unit body (us ! i)" and gj: "good_unit body ?last"
      using unit_chain_nth(1) [OF less.prems(1)] True jl by blast+
    have mono: "un_start (us ! i) \<le> un_start ?last" using unit_chain_mono [OF less.prems(1)] jl by blast
    obtain text' where slice: "str_slice body (un_start (us ! i)) (un_end ?last) = Done text'"
      "length (split_whitespace text') = word_count body (un_start (us ! i)) (un_end ?last)"
      using slice_words [OF assms, of "un_start (us ! i)" "un_end ?last"] gi gj mono by (auto simp: good_unit_def)
    have "word_count body (un_start (us ! i)) (un_end ?last) \<le> (\<Sum>k = i..<?j. un_words (us ! k))"
      using chunk_count [OF less.prems(1) jl(1,2)] jl(3) by simp
    also have "\<dots> \<le> m" using fill_chunk_sum [of 0 m us i t] less.prems True by auto
    finally have le_m: "word_count body (un_start (us ! i)) (un_end ?last) \<le> m" .
    have "un_start (us ! i) \<le> un_end ?last - 1" "un_end ?last - 1 < un_end ?last"
      using gj mono by (auto simp: good_unit_def)
    then have "0 < word_count body (un_start (us ! i)) (un_end ?last)"
      using gj by (intro word_count_pos) (auto simp: good_unit_def)
    with slice le_m have good: "good_chunk body m \<lparr>cs_start = un_start (us ! i), cs_end = un_end ?last, cs_text = text'\<rparr>"
      by (simp add: good_chunk_def)
    have ends: "un_end (us ! k) \<le> un_end ?last" if "k < ?j" for k
      using that unit_chain_ends [OF less.prems(1)] jl by simp
    have inside: "un_start (us ! i) \<le> un_start (us ! k) \<and> un_end (us ! k) \<le> un_end ?last" if "i \<le> k" "k < ?j" for k
      using that unit_chain_mono [OF less.prems(1), of i k] ends [of k] j(2) by simp
    show ?thesis
    proof (cases "length us \<le> ?j")
      case all: True
      then have "pack_chunks body us t m ov i = Done [\<lparr>cs_start = un_start (us ! i), cs_end = un_end ?last, cs_text = text'\<rparr>]"
        using True slice(1) by (subst pack_chunks.simps) (simp add: Let_def)
      with True good inside all show ?thesis by auto
    next
      case more: False
      let ?k = "back_up us ov i ?j 0"
      let ?n = "if i < ?k then ?k else i + 1"
      have n: "i < ?n" "?n \<le> ?j" using back_up_le [of us ov i ?j 0] j(1) by auto
      have "length us - ?n < length us - i" using n(1) True by linarith
      from less.hyps [OF this less.prems] obtain rest where rest: "pack_chunks body us t m ov ?n = Done rest"
        "list_all (good_chunk body m) rest" "sorted (map cs_start rest)"
        "\<forall>sp \<in> set rest. ?n < length us \<and> un_start (us ! ?n) \<le> cs_start sp"
        "\<forall>k. ?n \<le> k \<and> k < length us \<longrightarrow> (\<exists>sp \<in> set rest. cs_start sp \<le> un_start (us ! k) \<and> un_end (us ! k) \<le> cs_end sp)"
        by blast
      let ?sp = "\<lparr>cs_start = un_start (us ! i), cs_end = un_end ?last, cs_text = text'\<rparr>"
      have eq: "pack_chunks body us t m ov i = Done (?sp # rest)"
        using True slice(1) more rest(1) by (subst pack_chunks.simps) (simp add: Let_def)
      have lower: "un_start (us ! i) \<le> cs_start sp" if "sp \<in> set rest" for sp
        using that rest(4) unit_chain_mono [OF less.prems(1), of i ?n] n(1) by (meson le_trans less_imp_le)
      have "\<exists>sp \<in> set (?sp # rest). cs_start sp \<le> un_start (us ! k) \<and> un_end (us ! k) \<le> cs_end sp"
        if "i \<le> k" "k < length us" for k
      proof (cases "k < ?j")
        case True
        with inside [OF that(1)] show ?thesis by simp
      next
        case False
        with n(2) rest(5) that(2) show ?thesis by (meson le_trans list.set_intros(2) not_le)
      qed
      with eq good rest(2,3) lower True show ?thesis by (intro exI [of _ "?sp # rest"]) auto
    qed
  qed
qed

section \<open>The promise of the chunker\<close>

text \<open>C29: for every text and every options, the chunker returns without a panic; every chunk is the slice
  it names and has between one word and the limit of words; the chunks start in the order of the text,
  and no byte of a word is left out.\<close>

theorem chunk_note_promise:
  assumes "utf8_text body"
  shows "\<exists>spans. chunk_note body opts = Done spans \<and>
    list_all (good_chunk body (max (co_max_tokens opts) 1)) spans \<and> sorted (map cs_start spans) \<and>
    (\<forall>p. p < length body \<and> \<not> byte_ws body p \<longrightarrow> (\<exists>sp \<in> set spans. cs_start sp \<le> p \<and> p < cs_end sp))"
proof -
  let ?m = "max (co_max_tokens opts) 1"
  let ?t = "min (max (co_target_tokens opts) 1) ?m"
  let ?ov = "min (co_overlap_tokens opts) (?t - 1)"
  let ?stride = "max (?t - ?ov) 1"
  have "1 \<le> ?t" by (simp add: le_max_iff_disj)
  then have "?stride \<le> ?t" by (intro max.boundedI diff_le_self)
  moreover have "0 < ?stride" "?t \<le> ?m" by (rule less_le_trans [OF zero_less_one max.cobounded2], rule min.cobounded2)
  ultimately have sizes: "0 < ?stride" "?stride \<le> ?t" "?t \<le> ?m" by blast+
  obtain us0 us where us: "split_units body = Done us0" "split_oversized body us0 ?m ?t ?ov = Done us"
    "unit_chain body 0 0 (length body) us" "list_all (\<lambda>u. un_words u \<le> ?m) us"
    using tiles_units [OF assms sizes unit_ranges_cover [OF assms]]
    unfolding split_units_def split_oversized_def Let_def by auto
  obtain spans where spans: "pack_chunks body us ?t ?m ?ov 0 = Done spans" "list_all (good_chunk body ?m) spans"
    "sorted (map cs_start spans)"
    "\<forall>k. 0 \<le> k \<and> k < length us \<longrightarrow> (\<exists>sp \<in> set spans. cs_start sp \<le> un_start (us ! k) \<and> un_end (us ! k) \<le> cs_end sp)"
    using pack_chunks_good [OF assms us(3), of ?m ?t ?ov 0] us(4) by (auto simp: list_all_length)
  have "\<exists>sp \<in> set spans. cs_start sp \<le> p \<and> p < cs_end sp" if "p < length body" "\<not> byte_ws body p" for p
    using unit_chain_cover [OF us(3) _ that] spans(4) by (meson le0 le_trans less_le_trans)
  moreover have "chunk_note body opts = Done spans"
    using us(1,2) spans(1) by (simp add: chunk_note_def Let_def)
  ultimately show ?thesis using spans(2,3) by blast
qed

text \<open>Two paragraphs and a heading, the second with a letter of two bytes.\<close>

definition demo_body :: string where
  "demo_body = ''a'' @ [CHR 0x0A, CHR 0x0A, CHR 0xC3, CHR 0xA9, CHR 0x0A, CHR 0x0A] @ ''# h''"

lemma demo_text: "utf8_text demo_body"
  by (simp add: demo_body_def utf8_text_def utf8_char_def is_cont_def)

lemma chunk_note_promise_witness:
  "\<exists>spans. chunk_note demo_body chunker_options_default = Done spans \<and> list_all (good_chunk demo_body 512) spans \<and>
    sorted (map cs_start spans)"
  using chunk_note_promise [OF demo_text, of chunker_options_default] by (auto simp: chunker_options_default_def)

text \<open>A section shorter than the overlap is chunked once whole and then again for each of its
  paragraphs but the first, since the chunk that backs up for the overlap is cut off at the same heading.\<close>

lemma overlap_repeats_section:
  "map_outcome (map (\<lambda>sp. (cs_start sp, cs_end sp))) (chunk_note demo_body chunker_options_default) =
     Done [(0, 5), (3, 5), (7, 10)]"
  by code_simp

end
