(* ===== verification/NoteDocs.thy ===== *)
theory NoteDocs
  imports Vault
begin

text \<open>
  Building the text of a note from a frontmatter mapping and a body, and reading the mapping back
  (\<open>notesmith-http/src/routes/helpers.rs\<close>; \<open>notesmith-ops/src/lib.rs\<close> has copies of these functions).  The
  YAML library is a record of its functions.
\<close>

record YamlLib =
  yl_from :: yaml_reader
  yl_to :: yaml_writer
  yl_json :: "json \<Rightarrow> string + yaml"
  yl_error :: "string \<Rightarrow> string"

section \<open>Documents\<close>

definition serialize_yaml_mapping :: "YamlLib \<Rightarrow> yaml_map \<Rightarrow> string + string" where
  "serialize_yaml_mapping yl m =
     (case yl_to yl (YMap m) of
        None \<Rightarrow> Inl ''serialization failed''
      | Some serialized \<Rightarrow>
          Inr (trim_end_while (\<lambda>c. c = CHR 0x0A)
            (if prefix (''---'' @ [CHR 0x0A]) serialized then drop 4 serialized else serialized)))"

definition build_note_document_from_yaml :: "YamlLib \<Rightarrow> yaml_map \<Rightarrow> string \<Rightarrow> string + string" where
  "build_note_document_from_yaml yl m body =
     (case serialize_yaml_mapping yl m of
        Inl e \<Rightarrow> Inl e
      | Inr yaml' \<Rightarrow>
          Inr (if yaml' = [] then ''---'' @ [CHR 0x0A] @ ''---'' @ [CHR 0x0A] @ body
               else ''---'' @ [CHR 0x0A] @ yaml' @ [CHR 0x0A] @ ''---'' @ [CHR 0x0A] @ body))"

definition json_frontmatter_to_mapping :: "YamlLib \<Rightarrow> (string \<times> json) list \<Rightarrow> string + yaml_map" where
  "json_frontmatter_to_mapping yl frontmatter =
     (if frontmatter = [] then Inr []
      else case yl_json yl (JObject frontmatter) of
          Inl e \<Rightarrow> Inl e
        | Inr (YMap m) \<Rightarrow> Inr m
        | Inr _ \<Rightarrow> Inl ''expected frontmatter object'')"

definition raw_frontmatter_to_mapping :: "YamlLib \<Rightarrow> string option \<Rightarrow> string + yaml_map" where
  "raw_frontmatter_to_mapping yl raw =
     (case raw of
        None \<Rightarrow> Inr []
      | Some r \<Rightarrow>
          if trim r = [] then Inr []
          else case yl_from yl r of
              None \<Rightarrow> Inl (yl_error yl r)
            | Some (YMap m) \<Rightarrow> Inr m
            | Some YNull \<Rightarrow> Inr []
            | Some _ \<Rightarrow> Inl ''frontmatter must be a YAML mapping'')"

definition build_note_document ::
  "YamlLib \<Rightarrow> (string \<times> json) list option \<Rightarrow> string option \<Rightarrow> string + string" where
  "build_note_document yl frontmatter body =
     (case (case frontmatter of Some f \<Rightarrow> json_frontmatter_to_mapping yl f | None \<Rightarrow> Inr []) of
        Inl e \<Rightarrow> Inl e
      | Inr m \<Rightarrow> build_note_document_from_yaml yl m (case body of Some b \<Rightarrow> b | None \<Rightarrow> []))"

fun merge_frontmatter :: "YamlLib \<Rightarrow> yaml_map \<Rightarrow> (string \<times> json) list \<Rightarrow> string + yaml_map" where
  "merge_frontmatter yl target [] = Inr target"
| "merge_frontmatter yl target ((key, value) # updates) =
     (case yl_json yl value of
        Inl e \<Rightarrow> Inl e
      | Inr y \<Rightarrow> merge_frontmatter yl (ymap_insert (YString key) y target) updates)"

section \<open>Lookups in the parsed frontmatter\<close>

text \<open>\<open>Frontmatter\<close> is the map of fields that \<open>serde_yaml\<close> reads; \<open>number\<close> prints a YAML number.\<close>

type_synonym frontmatter = "string \<rightharpoonup> yaml"

fun yaml_as_str :: "yaml \<Rightarrow> string option" where
  "yaml_as_str (YString s) = Some s"
| "yaml_as_str (YTagged _ v) = yaml_as_str v"
| "yaml_as_str _ = None"

definition fm_str :: "frontmatter \<Rightarrow> string \<Rightarrow> string option" where
  "fm_str fm key = Option.bind (fm key) yaml_as_str"

definition fm_string :: "yaml_writer \<Rightarrow> (json_num \<Rightarrow> string) \<Rightarrow> frontmatter \<Rightarrow> string \<Rightarrow> string option" where
  "fm_string to_yaml number fm key =
     map_option (\<lambda>v. case v of
          YString s \<Rightarrow> s
        | YBool b \<Rightarrow> (if b then ''true'' else ''false'')
        | YNumber n \<Rightarrow> number n
        | YNull \<Rightarrow> []
        | _ \<Rightarrow> trim (case to_yaml v of Some s \<Rightarrow> s | None \<Rightarrow> [])) (fm key)"

definition fm_tags :: "frontmatter \<Rightarrow> string list" where
  "fm_tags fm =
     (case fm ''tags'' of
        Some (YSeq items) \<Rightarrow> List.map_filter yaml_as_str items
      | _ \<Rightarrow> [])"

end
