(* ===== verification/Scan.thy ===== *)
theory Scan
  imports NoteDocs
begin

text \<open>
  Scanning a vault (\<open>NativeVaultEngine::scan\<close>, \<open>notesmith-vault/src/engine.rs\<close>): the notes below the root, read
  and parsed, in the order of their paths.  The directory walk is the list of its entries.  Of a parsed note, its
  place, frontmatter, body and hash are here; the theory \<open>NoteParser\<close> has the rest of it.
\<close>

text \<open>An entry of the walk: an error, or a path with its being a regular file.\<close>

type_synonym walk_entry = "string + fpath \<times> bool"

record ScannedNote =
  sn_path :: string
  sn_frontmatter :: "frontmatter option"
  sn_raw_frontmatter :: "string option"
  sn_body :: string
  sn_hash :: string

definition parsed_note :: "(string \<Rightarrow> string) \<Rightarrow> (string \<Rightarrow> frontmatter option) \<Rightarrow> string \<Rightarrow> string \<Rightarrow> ScannedNote" where
  "parsed_note hash front path content =
     (case extract_frontmatter content of
        (raw, body) \<Rightarrow> \<lparr>sn_path = path, sn_frontmatter = Option.bind raw front, sn_raw_frontmatter = raw,
          sn_body = body, sn_hash = hash content\<rparr>)"

text \<open>A directory below the root that is skipped hides the files in it.\<close>

definition should_skip_entry :: "fpath \<Rightarrow> fpath \<Rightarrow> bool" where
  "should_skip_entry root p \<longleftrightarrow>
     list_ex (\<lambda>q. length root < length q \<and> last q \<in> {''.notesmith'', ''.obsidian''}) (prefixes (butlast p))"

definition is_markdown_file :: "fpath \<Rightarrow> bool \<Rightarrow> bool" where
  "is_markdown_file p is_file \<longleftrightarrow>
     is_file \<and> p \<noteq> [] \<and> (case snd (name_split (last p)) of Some ext \<Rightarrow> eq_ignore_ascii_case ext ''md'' | None \<Rightarrow> False)"

definition relative_vault_path :: "fpath \<Rightarrow> fpath \<Rightarrow> string option" where
  "relative_vault_path root p =
     (if prefix root p
      then Some (map (\<lambda>c. if c = CHR 0x5C then CHR ''/'' else c) (join_str ''/'' (drop (length root) p)))
      else None)"

definition load_note ::
  "IoFaults \<Rightarrow> (string \<Rightarrow> string) \<Rightarrow> (string \<Rightarrow> frontmatter option) \<Rightarrow> fpath \<Rightarrow> fpath \<Rightarrow> FileTree \<Rightarrow> ScannedNote option" where
  "load_note io hash front root p t =
     (case relative_vault_path root p of
        None \<Rightarrow> None
      | Some path \<Rightarrow>
          (case os_read io p t of Inl _ \<Rightarrow> None | Inr content \<Rightarrow> Some (parsed_note hash front path content)))"

definition scan_entry ::
  "IoFaults \<Rightarrow> (string \<Rightarrow> string) \<Rightarrow> (string \<Rightarrow> frontmatter option) \<Rightarrow> fpath \<Rightarrow> FileTree \<Rightarrow> walk_entry \<Rightarrow> ScannedNote option" where
  "scan_entry io hash front root t entry =
     (case entry of
        Inl _ \<Rightarrow> None
      | Inr (p, is_file) \<Rightarrow>
          if should_skip_entry root p \<or> \<not> is_markdown_file p is_file then None else load_note io hash front root p t)"

definition engine_scan ::
  "IoFaults \<Rightarrow> (string \<Rightarrow> string) \<Rightarrow> (string \<Rightarrow> frontmatter option) \<Rightarrow> fpath \<Rightarrow> walk_entry list \<Rightarrow> FileTree \<Rightarrow> ScannedNote list" where
  "engine_scan io hash front root entries t =
     sort_key sn_path (List.map_filter (scan_entry io hash front root t) entries)"

end
