(* ===== verification/Wikilinks.thy ===== *)
theory Wikilinks
  imports Scan Utf8
begin

text \<open>
  Rewriting wikilinks after a rename (\<open>notesmith-vault/src/wikilink_rewrite.rs\<close>) and the code
  ranges it leaves alone (\<open>parser.rs\<close>, \<open>find_code_block_ranges\<close>).  The walk over the vault gets the
  entries of \<open>walkdir\<close> as a list; the failures of the operating system are parameters as in Vault.
\<close>

section \<open>Code ranges\<close>

type_synonym byte_range = "nat \<times> nat"

definition parse_fence_start :: "string \<Rightarrow> (char \<times> nat) option" where
  "parse_fence_start line =
     (case line of [] \<Rightarrow> None
      | marker # _ \<Rightarrow>
          if marker \<noteq> CHR 0x60 \<and> marker \<noteq> CHR 0x7E then None
          else (let len = length (takeWhile (\<lambda>ch. ch = marker) line) in if 3 \<le> len then Some (marker, len) else None))"

definition is_fence_delimiter :: "string \<Rightarrow> char \<Rightarrow> nat \<Rightarrow> bool" where
  "is_fence_delimiter line marker len \<longleftrightarrow>
     (let run = length (takeWhile (\<lambda>ch. ch = marker) line) in len \<le> run \<and> trim (drop run line) = [])"

text \<open>The fenced blocks of the lines from byte \<open>offset\<close> on; \<open>active\<close> is the start of an open fence, its
  marker and its length.\<close>

fun fence_ranges :: "nat \<Rightarrow> (nat \<times> char \<times> nat) option \<Rightarrow> string list \<Rightarrow> byte_range list" where
  "fence_ranges offset active [] = (case active of Some (start, _, _) \<Rightarrow> [(start, offset)] | None \<Rightarrow> [])"
| "fence_ranges offset active (segment # segments) =
     (let line_end = offset + length segment;
          trimmed = dropWhile (\<lambda>c. c = CHR '' '' \<or> c = CHR 0x09) (trim_line_ending segment)
      in case active of
           Some (start, marker, len) \<Rightarrow>
             if is_fence_delimiter trimmed marker len then (start, line_end) # fence_ranges line_end None segments
             else fence_ranges line_end active segments
         | None \<Rightarrow>
             (case parse_fence_start trimmed of
                Some (marker, len) \<Rightarrow> fence_ranges line_end (Some (offset, marker, len)) segments
              | None \<Rightarrow> fence_ranges line_end None segments))"

definition range_at :: "byte_range list \<Rightarrow> nat \<Rightarrow> byte_range option" where
  "range_at excluded index = find (\<lambda>(s, e). s \<le> index \<and> index < e) excluded"

lemma range_at_Some: "range_at excluded i = Some (s, e) \<Longrightarrow> (s, e) \<in> set excluded \<and> s \<le> i \<and> i < e"
  using find_in [of _ excluded "(s, e)"] by (fastforce simp: range_at_def)

text \<open>The length of the character at an index in front of the end of the text.\<close>

definition char_len_at :: "string \<Rightarrow> nat \<Rightarrow> nat" where
  "char_len_at body index = length (hd (utf8_chars (drop index body)))"

lemma char_len_pos: "i < length body \<Longrightarrow> 0 < char_len_at body i \<and> i + char_len_at body i \<le> length body"
proof -
  assume i: "i < length body"
  obtain c s where s: "drop i body = c # s" using i by (cases "drop i body") auto
  have "length (takeWhile is_cont s) \<le> length s" by (rule length_takeWhile_le)
  moreover have "length body - i = Suc (length s)" using s by (metis length_Cons length_drop)
  ultimately show ?thesis using i by (simp add: char_len_at_def s)
qed

text \<open>The inline code spans outside of the excluded ranges.\<close>

function inline_ranges :: "string \<Rightarrow> byte_range list \<Rightarrow> (nat \<times> nat) option \<Rightarrow> nat \<Rightarrow> byte_range list" where
  "inline_ranges body excluded active index =
     (if index < length body then
        (case range_at excluded index of
           Some (s, e) \<Rightarrow> inline_ranges body excluded active e
         | None \<Rightarrow>
             if body ! index = CHR 0x60 then
               (let run = length (takeWhile (\<lambda>b. b = CHR 0x60) (drop index body))
                in case active of
                     Some (start, delimiter_len) \<Rightarrow>
                       if delimiter_len = run then (start, index + run) # inline_ranges body excluded None (index + run)
                       else inline_ranges body excluded active (index + run)
                   | None \<Rightarrow> inline_ranges body excluded (Some (index, run)) (index + run))
             else inline_ranges body excluded active (index + char_len_at body index))
      else [])"
  by pat_completeness auto

lemma backtick_run: "i < length body \<Longrightarrow> body ! i = CHR 0x60 \<Longrightarrow>
    0 < length (takeWhile (\<lambda>b. b = CHR 0x60) (drop i body)) \<and>
    i + length (takeWhile (\<lambda>b. b = CHR 0x60) (drop i body)) \<le> length body"
proof -
  assume i: "i < length body" "body ! i = CHR 0x60"
  then obtain s where "drop i body = CHR 0x60 # s" by (metis Cons_nth_drop_Suc)
  then have "0 < length (takeWhile (\<lambda>b. b = CHR 0x60) (drop i body))" by simp
  moreover have "length (takeWhile (\<lambda>b. b = CHR 0x60) (drop i body)) \<le> length body - i"
    by (metis length_takeWhile_le length_drop)
  ultimately show ?thesis using i by linarith
qed

termination inline_ranges
  using backtick_run char_len_pos
  by (relation "measure (\<lambda>(body, excluded, active, index). length body - index)")
     (auto intro!: diff_less_mono2 dest!: range_at_Some)

declare inline_ranges.simps [simp del]

fun merge_ranges :: "byte_range list \<Rightarrow> byte_range list" where
  "merge_ranges ((s, e) # (s', e') # rs) =
     (if s' \<le> e then merge_ranges ((s, max e e') # rs) else (s, e) # merge_ranges ((s', e') # rs))"
| "merge_ranges rs = rs"

definition find_code_block_ranges :: "string \<Rightarrow> byte_range list" where
  "find_code_block_ranges body =
     (let fences = fence_ranges 0 None (split_inclusive body)
      in merge_ranges (sort_key fst (fences @ inline_ranges body fences None 0)))"

definition overlaps_range :: "nat \<Rightarrow> nat \<Rightarrow> byte_range list \<Rightarrow> bool" where
  "overlaps_range start stop excluded = list_ex (\<lambda>r. start < snd r \<and> fst r < stop) excluded"

section \<open>Rewriting a body\<close>

definition link_delimiter :: "char \<Rightarrow> bool" where
  "link_delimiter c \<longleftrightarrow> c = CHR ''#'' \<or> c = CHR ''|'' \<or> c = CHR ''^''"

definition split_target :: "string \<Rightarrow> string \<times> string" where
  "split_target inner = (takeWhile (\<lambda>c. \<not> link_delimiter c) inner, dropWhile (\<lambda>c. \<not> link_delimiter c) inner)"

definition target_matches :: "string \<Rightarrow> string \<Rightarrow> bool" where
  "target_matches target old =
     (let trimmed = trim target in
      if CHR ''/'' \<in> set old then eq_ignore_ascii_case trimmed old
      else eq_ignore_ascii_case (last (split_char CHR ''/'' trimmed)) old)"

definition rewrite_target :: "string \<Rightarrow> string \<Rightarrow> string \<Rightarrow> string" where
  "rewrite_target target old new =
     (let leading_len = length target - length (trim_start target);
          leading = take leading_len target;
          after_leading = drop leading_len target;
          trimmed = trim_end after_leading;
          trailing = drop (length trimmed) after_leading;
          rewritten = (if CHR ''/'' \<in> set old then new
                       else (case rsplit_once CHR ''/'' trimmed of
                               Some (dir, _) \<Rightarrow> dir @ ''/'' @ new
                             | None \<Rightarrow> new))
      in leading @ rewritten @ trailing)"

text \<open>The text from position \<open>pos\<close> on with its links rewritten, and their number.\<close>

function rewrite_from :: "byte_range list \<Rightarrow> string \<Rightarrow> string \<Rightarrow> nat \<Rightarrow> string \<Rightarrow> string \<times> nat" where
  "rewrite_from excluded old new pos s =
     (case find_str ''[['' s of
        None \<Rightarrow> (s, 0)
      | Some start_rel \<Rightarrow>
          (let before = take start_rel s; start = pos + start_rel; tail = drop (start_rel + 2) s
           in case find_str '']]'' tail of
                None \<Rightarrow> (s, 0)
              | Some end_rel \<Rightarrow>
                  (let inner = take end_rel tail;
                       stop = start + 2 + end_rel + 2;
                       link = ''[['' @ inner @ '']]'';
                       (rest, count) = rewrite_from excluded old new stop (drop (end_rel + 2) tail)
                   in if contains_str inner ''[['' \<or> overlaps_range start stop excluded then (before @ link @ rest, count)
                      else (let (target, suffix) = split_target inner
                            in if target_matches target old
                               then (before @ ''[['' @ rewrite_target target old new @ suffix @ '']]'' @ rest, count + 1)
                               else (before @ link @ rest, count)))))"
  by pat_completeness auto

lemma find_str_Some: "find_str p s = Some i \<Longrightarrow> take (length p) (drop i s) = p \<and> i + length p \<le> length s"
proof (induction s arbitrary: i)
  case (Cons c s)
  show ?case
  proof (cases "prefix p (c # s)")
    case True
    then obtain r where r: "c # s = p @ r" by (auto simp: prefix_def)
    from True Cons.prems have "i = 0" by simp
    then show ?thesis unfolding r by simp
  next
    case False
    with Cons show ?thesis by auto
  qed
qed (simp split: if_splits)

termination rewrite_from
  by (relation "measure (\<lambda>(excluded, old, new, pos, s). length s)") (auto dest!: find_str_Some)

declare rewrite_from.simps [simp del]

definition rewrite_body :: "string \<Rightarrow> string \<Rightarrow> string \<Rightarrow> string \<times> nat" where
  "rewrite_body body old_target new_target =
     rewrite_from (find_code_block_ranges body) old_target new_target 0 body"

definition rewrite_content :: "string \<Rightarrow> string \<Rightarrow> string \<Rightarrow> string \<times> nat" where
  "rewrite_content content old_target new_target =
     (case extract_frontmatter content of
        (frontmatter, body) \<Rightarrow>
          (let (new_body, count) = rewrite_body body old_target new_target
           in ((case frontmatter of
                  Some fm \<Rightarrow>
                    ''---'' @ [CHR 0x0A] @ fm @
                    (if fm \<noteq> [] \<and> last fm = CHR 0x0A then [] else [CHR 0x0A]) @ ''---'' @ [CHR 0x0A]
                | None \<Rightarrow> []) @ new_body, count)))"

section \<open>The walk over the vault\<close>

record WikilinkRewriteResult =
  files_scanned :: nat
  files_modified :: nat
  references_rewritten :: nat

definition rewrite_result_default :: WikilinkRewriteResult where
  "rewrite_result_default = \<lparr>files_scanned = 0, files_modified = 0, references_rewritten = 0\<rparr>"

definition is_skipped_dir :: "fpath \<Rightarrow> bool" where
  "is_skipped_dir p \<longleftrightarrow> p \<noteq> [] \<and> last p \<in> {''.notesmith'', ''.obsidian'', ''.git''}"

text \<open>The temporary file of a rewritten note.\<close>

definition rewrite_temp :: "fpath \<Rightarrow> fpath" where
  "rewrite_temp p = butlast p @ [''.'' @ (if p = [] then ''note.md'' else last p) @ ''.notesmith-tmp'']"

definition atomic_write :: "IoFaults \<Rightarrow> fpath \<Rightarrow> string \<Rightarrow> FileTree \<Rightarrow> (IoError + unit) \<times> FileTree" where
  "atomic_write io p content t =
     (case os_write io (rewrite_temp p) content t of
        (Inl e, t1) \<Rightarrow> (Inl e, t1)
      | (Inr _, t1) \<Rightarrow> os_rename io (rewrite_temp p) p t1)"

text \<open>A directory that is skipped hides the entries below it.\<close>

definition md_file :: "fpath \<Rightarrow> bool" where
  "md_file p \<longleftrightarrow> p \<noteq> [] \<and> snd (name_split (last p)) = Some ''md''"

definition hidden_entry :: "fpath \<Rightarrow> fpath \<Rightarrow> bool" where
  "hidden_entry root p = list_ex (\<lambda>q. length root \<le> length q \<and> is_skipped_dir q) (prefixes p)"

definition rewrite_entry ::
  "IoFaults \<Rightarrow> fpath \<Rightarrow> string \<Rightarrow> string \<Rightarrow> walk_entry \<Rightarrow> WikilinkRewriteResult \<times> FileTree \<Rightarrow> WikilinkRewriteResult \<times> FileTree" where
  "rewrite_entry io root old_target new_target entry w =
     (case w of (result, t) \<Rightarrow>
        (case entry of
           Inl _ \<Rightarrow> (result, t)
         | Inr (p, is_file) \<Rightarrow>
             if hidden_entry root p \<or> \<not> is_file \<or> \<not> md_file p then (result, t)
             else (let scanned = result\<lparr>files_scanned := files_scanned result + 1\<rparr>
                   in case os_read io p t of
                        Inl _ \<Rightarrow> (scanned, t)
                      | Inr content \<Rightarrow>
                          (let (new_content, count) = rewrite_content content old_target new_target
                           in if count = 0 then (scanned, t)
                              else (case atomic_write io p new_content t of
                                      (Inl _, t1) \<Rightarrow> (scanned, t1)
                                    | (Inr _, t1) \<Rightarrow>
                                        (scanned\<lparr>files_modified := files_modified scanned + 1,
                                                 references_rewritten := references_rewritten scanned + count\<rparr>, t1))))))"

definition rewrite_wikilinks ::
  "IoFaults \<Rightarrow> fpath \<Rightarrow> walk_entry list \<Rightarrow> string \<Rightarrow> string \<Rightarrow> FileTree \<Rightarrow> WikilinkRewriteResult \<times> FileTree" where
  "rewrite_wikilinks io root entries old_target new_target t =
     (if old_target = new_target then (rewrite_result_default, t)
      else fold (rewrite_entry io root old_target new_target) entries (rewrite_result_default, t))"

section \<open>The code ranges are disjoint\<close>

definition proper_range :: "nat \<Rightarrow> byte_range \<Rightarrow> bool" where
  "proper_range n r \<longleftrightarrow> fst r < snd r \<and> snd r \<le> n"

lemma proper_range_pair [simp]: "proper_range n (s, e) \<longleftrightarrow> s < e \<and> e \<le> n"
  by (simp add: proper_range_def)

lemma fence_ranges_proper:
  "list_all (\<lambda>w. w \<noteq> []) segments \<Longrightarrow> (case active of Some (start, _, _) \<Rightarrow> start < offset | None \<Rightarrow> True) \<Longrightarrow>
   list_all (proper_range (offset + length (concat segments))) (fence_ranges offset active segments)"
proof (induction segments arbitrary: offset active)
  case Nil
  then show ?case by (auto split: option.splits)
next
  case (Cons segment segments)
  let ?e = "offset + length segment"
  have e: "offset < ?e" using Cons.prems(1) by auto
  have IH: "list_all (proper_range (offset + length (concat (segment # segments)))) (fence_ranges ?e active' segments)"
    if "case active' of Some (start, _, _) \<Rightarrow> start < ?e | None \<Rightarrow> True" for active'
    using Cons.IH [where active = active' and offset = ?e] that Cons.prems(1) by (simp add: add.assoc)
  show ?case
    using Cons.prems(2) IH [of active] IH [of None] IH [of "Some (offset, m, l)" for m l] e
    by (auto simp: Let_def split: option.splits)
qed

lemma inline_ranges_proper:
  "(case active of Some (start, _) \<Rightarrow> start < index | None \<Rightarrow> True) \<Longrightarrow>
   list_all (proper_range (length body)) (inline_ranges body excluded active index)"
proof (induction "length body - index" arbitrary: active index rule: less_induct)
  case less
  show ?case
  proof (cases "index < length body")
    case False
    then show ?thesis by (subst inline_ranges.simps) simp
  next
    case True
    let ?run = "length (takeWhile (\<lambda>b. b = CHR 0x60) (drop index body))"
    have IH: "list_all (proper_range (length body)) (inline_ranges body excluded active' index')"
      if "index < index'" "case active' of Some (start, _) \<Rightarrow> start < index' | None \<Rightarrow> True" for active' index'
      using that True by (intro less.hyps) (auto intro: diff_less_mono2)
    have IH': "list_all (proper_range (length body)) (inline_ranges body excluded active index')" if "index < index'" for index'
      using that less.prems by (intro IH) (auto split: option.splits)
    show ?thesis
    proof (cases "range_at excluded index")
      case (Some r)
      obtain s e where r: "r = (s, e)" by (rule prod.exhaust)
      then have "index < e" using range_at_Some Some by blast
      with IH' True Some r show ?thesis by (subst inline_ranges.simps) simp
    next
      case None
      show ?thesis
      proof (cases "body ! index = CHR 0x60")
        case False
        have "index < index + char_len_at body index" using char_len_pos [OF True] by simp
        with IH' True None False show ?thesis by (subst inline_ranges.simps) simp
      next
        case tick: True
        note run = backtick_run [OF True tick]
        then have "list_all (proper_range (length body)) (inline_ranges body excluded active (index + ?run))"
          "list_all (proper_range (length body)) (inline_ranges body excluded None (index + ?run))"
          "list_all (proper_range (length body)) (inline_ranges body excluded (Some (index, ?run)) (index + ?run))"
          by (auto intro!: IH IH')
        with True None tick run less.prems show ?thesis
          by (subst inline_ranges.simps) (auto simp: Let_def split: option.splits)
      qed
    qed
  qed
qed

definition in_ranges :: "byte_range list \<Rightarrow> nat \<Rightarrow> bool" where
  "in_ranges rs p = list_ex (\<lambda>r. fst r \<le> p \<and> p < snd r) rs"

lemma merge_ranges_disjoint:
  "sorted (map fst rs) \<Longrightarrow> list_all (proper_range n) rs \<Longrightarrow>
   sorted_wrt (\<lambda>r r'. snd r < fst r') (merge_ranges rs) \<and> list_all (proper_range n) (merge_ranges rs) \<and>
   (\<forall>r \<in> set (merge_ranges rs). \<exists>r' \<in> set rs. fst r = fst r') \<and>
   (\<forall>p. in_ranges (merge_ranges rs) p = in_ranges rs p)"
proof (induction rs rule: merge_ranges.induct)
  case (1 s e s' e' rs)
  show ?case
  proof (cases "s' \<le> e")
    case True
    have "in_ranges ((s, max e e') # rs) p = in_ranges ((s, e) # (s', e') # rs) p" for p
      using True "1.prems" by (auto simp: in_ranges_def max_def)
    moreover have "proper_range n (s, max e e')" using "1.prems"(2) by (auto simp: max_def)
    ultimately show ?thesis using True "1.IH"(1) [OF True] "1.prems" by auto
  next
    case False
    have IH: "sorted_wrt (\<lambda>r r'. snd r < fst r') (merge_ranges ((s', e') # rs))"
      "list_all (proper_range n) (merge_ranges ((s', e') # rs))"
      "\<forall>r \<in> set (merge_ranges ((s', e') # rs)). \<exists>r' \<in> set ((s', e') # rs). fst r = fst r'"
      "\<forall>p. in_ranges (merge_ranges ((s', e') # rs)) p = in_ranges ((s', e') # rs) p"
      using "1.IH"(2) [OF False] "1.prems" by auto
    have "e < fst r" if "r \<in> set (merge_ranges ((s', e') # rs))" for r
      using IH(3) that False "1.prems"(1) by fastforce
    with False IH "1.prems" show ?thesis by (auto simp: in_ranges_def)
  qed
qed (auto simp: in_ranges_def)

text \<open>The code ranges of a body lie inside it, are disjoint and in order, and cover exactly the fenced
  blocks and the inline spans between them.\<close>

lemma code_ranges_disjoint:
  "sorted_wrt (\<lambda>r r'. snd r < fst r') (find_code_block_ranges body) \<and>
   list_all (proper_range (length body)) (find_code_block_ranges body) \<and>
   in_ranges (find_code_block_ranges body) p =
     (in_ranges (fence_ranges 0 None (split_inclusive body)) p \<or>
      in_ranges (inline_ranges body (fence_ranges 0 None (split_inclusive body)) None 0) p)"
proof -
  let ?fences = "fence_ranges 0 None (split_inclusive body)"
  let ?all = "?fences @ inline_ranges body ?fences None 0"
  have "list_all (proper_range (length body)) ?fences"
    using fence_ranges_proper [where segments = "split_inclusive body" and active = None and offset = 0] by (simp add: list_all_iff split_inclusive_ne)
  moreover have "list_all (proper_range (length body)) (inline_ranges body ?fences None 0)"
    by (rule inline_ranges_proper) simp
  ultimately have "list_all (proper_range (length body)) (sort_key fst ?all)" by (auto simp: list_all_iff)
  moreover have "in_ranges (sort_key fst ?all) p = in_ranges ?all p" for p by (simp add: in_ranges_def list_ex_iff)
  moreover have "in_ranges ?all p = (in_ranges ?fences p \<or> in_ranges (inline_ranges body ?fences None 0) p)" for p
    by (simp add: in_ranges_def)
  ultimately show ?thesis
    using merge_ranges_disjoint [of "sort_key fst ?all" "length body"] by (simp add: find_code_block_ranges_def Let_def)
qed

section \<open>What is rewritten\<close>














section \<open>The frontmatter of a rewritten note\<close>

lemma split_char_append:
  "split_char c (s @ t) = butlast (split_char c s) @ (last (split_char c s) @ hd (split_char c t)) # tl (split_char c t)"
proof (induction s)
  case Nil
  show ?case using split_char_ne [of c t] by (cases "split_char c t") simp_all
next
  case (Cons x s)
  obtain w ws where "split_char c s = w # ws" by (cases "split_char c s") (auto dest: sym)
  with Cons show ?case by (cases ws) auto
qed

lemma no_delimiter_chars: "no_delimiter s \<longleftrightarrow> list_all (\<lambda>l. trim_line_ending l \<noteq> ''---'') (split_char CHR 0x0A s)"
proof (induction "length s" arbitrary: s rule: less_induct)
  case less
  show ?case
  proof (cases "CHR 0x0A \<in> set s")
    case True
    then obtain a b where s: "s = a @ CHR 0x0A # b" "CHR 0x0A \<notin> set a" by (meson split_list_first)
    have "trim_line_ending (a @ [CHR 0x0A]) = trim_line_ending a"
      by (simp add: trim_line_ending_def trim_end_while_suffix is_line_end_def)
    with less [of b] s show ?thesis by (simp add: no_delimiter_def split_inclusive_line split_char_app)
  next
    case False
    then have "split_inclusive s = (if s = [] then [] else [s])"
      by (induction s) (auto split: if_splits)
    with False show ?thesis by (simp add: no_delimiter_def split_char_none trim_line_ending_def)
  qed
qed

lemma no_delimiter_snoc: "is_line_end c \<Longrightarrow> no_delimiter (s @ [c]) = no_delimiter s"
proof -
  assume c: "is_line_end c"
  obtain ls l where ls: "split_char CHR 0x0A s = ls @ [l]" using split_char_ne by (metis append_butlast_last_id)
  have "trim_line_ending (l @ [c]) = trim_line_ending l" using c by (simp add: trim_line_ending_def trim_end_while_suffix)
  moreover have "trim_line_ending [] \<noteq> ''---''" by (simp add: trim_line_ending_def)
  ultimately show ?thesis using c ls
    by (cases "c = CHR 0x0A") (auto simp: no_delimiter_chars split_char_append is_line_end_def)
qed

lemma no_delimiter_trim: "no_delimiter (trim_line_ending s) = no_delimiter s"
proof (induction s rule: rev_induct)
  case (snoc c s)
  then show ?case by (simp add: trim_line_ending_def trim_end_while_suffix no_delimiter_snoc)
qed (simp add: trim_line_ending_def)

lemma extract_Some:
  assumes "extract_frontmatter content = (Some fm, body)"
  shows "no_delimiter fm" "trim_line_ending fm = fm"
proof -
  obtain d rest where d: "split_inclusive content = d # rest" using assms
    by (cases "split_inclusive content") (auto simp: extract_frontmatter_def)
  then obtain inner after where i: "find_close rest = Some (inner, after)" "fm = trim_line_ending (concat inner)"
    using assms by (auto simp: extract_frontmatter_def split: if_splits option.splits)
  then obtain e where e: "rest = inner @ e # after" "list_all (\<lambda>l. trim_line_ending l \<noteq> ''---'') inner"
    using find_close_Some [OF i(1)] by blast
  have "split_inclusive (concat rest) = rest" using split_inclusive_tl [OF d] .
  then have "split_inclusive (concat inner) = inner" using e(1) split_inclusive_take by metis
  with e(2) have "no_delimiter (concat inner)" by (simp add: no_delimiter_def)
  then show "no_delimiter fm" by (simp add: i(2) no_delimiter_trim)
  show "trim_line_ending fm = fm" by (simp add: i(2) trim_line_ending_def)
qed

text \<open>A note with a frontmatter keeps it: what is read back from the rewritten note is the frontmatter it
  had and the rewritten body.\<close>

lemma rewrite_keeps_frontmatter:
  assumes "extract_frontmatter content = (Some fm, body)"
  shows "extract_frontmatter (fst (rewrite_content content old new)) = (Some fm, fst (rewrite_body body old new))"
proof -
  note fm = extract_Some [OF assms]
  have "\<not> (fm \<noteq> [] \<and> last fm = CHR 0x0A)"
    using fm(2) trim_end_while_last [of is_line_end fm] by (auto simp: trim_line_ending_def is_line_end_def)
  then have "fst (rewrite_content content old new) =
      ''---'' @ [CHR 0x0A] @ fm @ [CHR 0x0A] @ ''---'' @ [CHR 0x0A] @ fst (rewrite_body body old new)"
    using assms by (simp add: rewrite_content_def split: prod.split)
  moreover have "no_delimiter (fm @ [CHR 0x0A])" using fm(1) by (simp add: no_delimiter_snoc is_line_end_def)
  ultimately show ?thesis using extract_document(1) [of fm "fst (rewrite_body body old new)"] fm(2) by (simp only:)
qed

section \<open>A renamed link names the new note\<close>

lemma list_all_utf8_trim:
  assumes "list_all utf8_char cs"
  obtains ls ms ts where "cs = ls @ ms @ ts" "list_all is_ws_char ls" "list_all is_ws_char ts"
    "ms = [] \<or> \<not> is_ws_char (hd ms) \<and> \<not> is_ws_char (last ms)"
    "trim_start (concat cs) = concat (ms @ ts)" "trim_end (concat (ms @ ts)) = concat ms"
proof -
  let ?r = "dropWhile is_ws_char cs"
  let ?ls = "takeWhile is_ws_char cs" and ?ms = "rev (dropWhile is_ws_char (rev ?r))"
    and ?ts = "rev (takeWhile is_ws_char (rev ?r))"
  have r: "?r = ?ms @ ?ts" by (metis rev_append rev_rev_ident takeWhile_dropWhile_id)
  have utf: "list_all utf8_char ?r" using assms by (auto simp: list_all_iff dest: set_dropWhileD)
  have hd: "\<not> is_ws_char (hd ?r)" if "?r \<noteq> []" using that by (rule hd_dropWhile)
  have last: "\<not> is_ws_char (last ?ms)" if "?ms \<noteq> []" using that by (simp add: last_rev hd_dropWhile)
  have "?ms = [] \<or> \<not> is_ws_char (hd ?ms) \<and> \<not> is_ws_char (last ?ms)"
  proof (cases "?ms = []")
    case False
    then have "hd ?ms = hd ?r" using r by (metis hd_append2)
    moreover have "?r \<noteq> []" using False by (metis dropWhile.simps(1) rev.simps(1))
    ultimately show ?thesis using hd last False by simp
  qed simp
  moreover have "cs = ?ls @ ?ms @ ?ts" by (simp only: r [symmetric] takeWhile_dropWhile_id)
  moreover have "list_all is_ws_char ?ls" "list_all is_ws_char ?ts" by (auto simp: list_all_iff dest: set_takeWhileD)
  moreover have "trim_start (concat cs) = concat (?ms @ ?ts)" by (simp only: r [symmetric] trim_start_chars [OF assms])
  moreover have "trim_end (concat (?ms @ ?ts)) = concat ?ms" by (simp only: r [symmetric] trim_end_chars [OF utf])
  ultimately show ?thesis by (intro that)
qed

lemma trim_surrounded:
  assumes "list_all utf8_char (ls @ ms @ ts)" "list_all is_ws_char ls" "list_all is_ws_char ts"
    and "ms = [] \<or> \<not> is_ws_char (hd ms) \<and> \<not> is_ws_char (last ms)"
  shows "trim (concat (ls @ ms @ ts)) = concat ms"
proof -
  have ts: "dropWhile is_ws_char ts = []" using assms(3) by (simp add: list_all_iff)
  have "dropWhile is_ws_char (ls @ ms @ ts) = ms @ (if ms = [] then [] else ts)"
    using assms(2,4) ts by (cases ms) (simp_all add: dropWhile_append list_all_iff)
  moreover have "rev (dropWhile is_ws_char (rev (ms @ (if ms = [] then [] else ts)))) = ms"
    using assms(3,4) by (cases ms rule: rev_cases) (simp_all add: dropWhile_append list_all_iff)
  ultimately show ?thesis by (simp only: trim_chars [OF assms(1)])
qed


lemma last_split_char: "c \<notin> set b \<Longrightarrow> last (split_char c (a @ c # b)) = b"
  using split_char_append [of c a "c # b"] by (simp add: split_char_none)

lemma slash_char: "utf8_char ch \<Longrightarrow> CHR ''/'' \<in> set ch \<Longrightarrow> ch = ''/''"
  by (erule utf8_char_cases) (auto simp: is_cont_def)

lemma concat_slash:
  assumes "list_all utf8_char ms" "CHR ''/'' \<in> set (concat ms)"
  obtains as bs where "ms = as @ ''/'' # bs" "CHR ''/'' \<notin> set (concat bs)"
proof -
  have *: "CHR ''/'' \<in> set (concat xs) \<Longrightarrow> ''/'' \<in> set xs" if "set xs \<subseteq> set ms" for xs
    using that assms(1) slash_char unfolding set_concat list_all_iff by (metis UN_E subsetD)
  from * [of ms] have "''/'' \<in> set ms" using assms(2) by simp
  then obtain as bs where ab: "ms = as @ ''/'' # bs" "''/'' \<notin> set bs" by (meson split_list_last)
  with * [of bs] have "CHR ''/'' \<notin> set (concat bs)" by auto
  with ab(1) show ?thesis by (rule that)
qed


lemma trimmed_chars:
  assumes "list_all utf8_char ns" "trim (concat ns) = concat ns"
  shows "ns = [] \<or> \<not> is_ws_char (hd ns) \<and> \<not> is_ws_char (last ns)"
proof -
  obtain ls ms ts where p: "ns = ls @ ms @ ts" "list_all is_ws_char ls" "list_all is_ws_char ts"
    "ms = [] \<or> \<not> is_ws_char (hd ms) \<and> \<not> is_ws_char (last ms)"
    using list_all_utf8_trim [OF assms(1)] by metis
  have "concat ms = concat (ls @ ms @ ts)" using trim_surrounded [of ls ms ts] p assms by simp
  then have "concat ls = []" "concat ts = []" using length_append by (auto dest: arg_cong [of _ _ length])
  moreover have "\<forall>x \<in> set ls \<union> set ts. x \<noteq> []" using p(1) assms(1) by (auto simp: list_all_iff dest: utf8_char_ne)
  ultimately have "ls = []" by (cases ls) simp_all
  moreover have "ts = []" using \<open>concat ts = []\<close> \<open>\<forall>x \<in> set ls \<union> set ts. x \<noteq> []\<close> by (cases ts) simp_all
  ultimately show ?thesis using p by simp
qed

text \<open>The parts of a rewritten target.\<close>

lemma rewrite_target_parts:
  assumes "utf8_text t" "utf8_text new" "trim new = new" "CHR ''/'' \<notin> set old" "CHR ''/'' \<notin> set new"
  shows "(\<exists>a b. rewrite_target t old new = a @ trim (rewrite_target t old new) @ b \<and> set a \<union> set b \<subseteq> set t) \<and>
    set (trim (rewrite_target t old new)) \<subseteq> set t \<union> set new \<and>
    last (split_char CHR ''/'' (trim (rewrite_target t old new))) = new"
proof -
  obtain cs where cs: "list_all utf8_char cs" "t = concat cs" using utf8_text_obtain [OF assms(1)] by blast
  obtain ns where ns: "list_all utf8_char ns" "new = concat ns" using utf8_text_obtain [OF assms(2)] by blast
  obtain ls ms ts where p: "cs = ls @ ms @ ts" "list_all is_ws_char ls" "list_all is_ws_char ts"
    "ms = [] \<or> \<not> is_ws_char (hd ms) \<and> \<not> is_ws_char (last ms)"
    "trim_start (concat cs) = concat (ms @ ts)" "trim_end (concat (ms @ ts)) = concat ms"
    using list_all_utf8_trim [OF cs(1)] by metis
  have n: "ns = [] \<or> \<not> is_ws_char (hd ns) \<and> \<not> is_ws_char (last ns)" using trimmed_chars ns assms(3) by simp
  let ?w = "case rsplit_once CHR ''/'' (concat ms) of Some (dir, _) \<Rightarrow> dir @ ''/'' @ new | None \<Rightarrow> new"
  have lead: "length t - length (trim_start t) = length (concat ls)" unfolding cs(2) p(5) by (simp add: p(1))
  have rt: "rewrite_target t old new = concat ls @ ?w @ concat ts"
    unfolding rewrite_target_def Let_def lead using p(1,6) assms(4) by (simp add: cs(2) split: option.splits)
  obtain rs where rs: "?w = concat rs" "list_all utf8_char rs" "rs = [] \<or> \<not> is_ws_char (hd rs) \<and> \<not> is_ws_char (last rs)"
    "last (split_char CHR ''/'' ?w) = new" "set ?w \<subseteq> set t \<union> set new"
  proof (cases "CHR ''/'' \<in> set (concat ms)")
    case True
    obtain as bs where ab: "ms = as @ ''/'' # bs" "CHR ''/'' \<notin> set (concat bs)"
      using concat_slash [OF _ True] cs(1) p(1) by auto
    have slash: "\<not> is_ws_char ''/''" by (simp add: is_ws_char_def ws_len_def ascii_ws_def)
    have "rsplit_once CHR ''/'' (concat ms) = Some (concat as, concat bs)"
      using rsplit_once_app [OF ab(2)] by (simp add: ab(1))
    then have w: "?w = concat (as @ ''/'' # ns)" by (simp add: ns(2))
    show ?thesis
    proof (rule that [OF w])
      show "list_all utf8_char (as @ ''/'' # ns)" using cs(1) ns(1) p(1) ab(1) by simp
      show "as @ ''/'' # ns = [] \<or> \<not> is_ws_char (hd (as @ ''/'' # ns)) \<and> \<not> is_ws_char (last (as @ ''/'' # ns))"
        using p(4) n slash ab(1) by (cases as; cases "ns = []") auto
      show "last (split_char CHR ''/'' ?w) = new" using last_split_char assms(5) w ns(2) by simp
      show "set ?w \<subseteq> set t \<union> set new" unfolding w by (auto simp: ns(2) cs(2) p(1) ab(1))
    qed
  next
    case False
    then have w: "?w = new" by (simp add: rsplit_once_def)
    show ?thesis using that [of ns] ns n assms(5) unfolding w by (simp add: split_char_none)
  qed
  have "trim (rewrite_target t old new) = ?w"
    unfolding rt rs(1) using trim_surrounded [of ls rs ts] rs(2,3) p(1-3) cs(1) by simp
  moreover have "set (concat ls) \<union> set (concat ts) \<subseteq> set t" by (auto simp: cs(2) p(1))
  ultimately show ?thesis using rs(4,5) rt by metis
qed

text \<open>After a rename to a plain note name, a rewritten link keeps its anchor, block and alias, and its
  target names the new note.\<close>

lemma renamed_link_resolves:
  assumes "utf8_text inner" "utf8_text new" "trim new = new"
    and "CHR ''/'' \<notin> set old" "CHR ''/'' \<notin> set new" "list_all (\<lambda>c. \<not> link_delimiter c) new"
    and "split_target inner = (t, u)"
  shows "split_target (rewrite_target t old new @ u) = (rewrite_target t old new, u) \<and>
    target_matches (rewrite_target t old new) new"
proof -
  have tu: "t = takeWhile (\<lambda>c. \<not> link_delimiter c) inner" "u = dropWhile (\<lambda>c. \<not> link_delimiter c) inner"
    using assms(7) by (simp_all add: split_target_def)
  then have inner: "inner = t @ u" by simp
  have u: "u = [] \<or> link_delimiter (hd u)" using hd_dropWhile [of "\<lambda>c. \<not> link_delimiter c" inner] tu(2) by blast
  then have "u = [] \<or> \<not> is_cont (hd u)" by (auto simp: link_delimiter_def is_cont_def)
  then have utf: "utf8_text t" using utf8_text_appendD(1) [of t u] assms(1) inner by simp
  note parts = rewrite_target_parts [OF utf assms(2,3,4,5)]
  let ?r = "rewrite_target t old new"
  obtain a b where ab: "?r = a @ trim ?r @ b" "set a \<union> set b \<subseteq> set t" using parts by blast
  have "set (a @ trim ?r @ b) \<subseteq> set t \<union> set new" using ab(2) parts by auto
  then have "set ?r \<subseteq> set t \<union> set new" by (simp only: ab(1) [symmetric])
  moreover have "\<not> link_delimiter c" if "c \<in> set t \<union> set new" for c
    using that assms(6) tu(1) by (auto simp: list_all_iff dest: set_takeWhileD)
  ultimately have "\<not> link_delimiter c" if "c \<in> set ?r" for c using that by blast
  then have "split_target (rewrite_target t old new @ u) = (rewrite_target t old new, u)"
    using u by (cases u) (simp_all add: split_target_def)
  then show ?thesis using parts assms(5) by (simp add: target_matches_def)
qed

lemma renamed_link_resolves_witness:
  "split_target (rewrite_target ''dir/Foo'' ''Foo'' ''Bar'' @ ''#Sec'') = (rewrite_target ''dir/Foo'' ''Foo'' ''Bar'', ''#Sec'') \<and>
    target_matches (rewrite_target ''dir/Foo'' ''Foo'' ''Bar'') ''Bar''"
proof (rule renamed_link_resolves)
  show "utf8_text ''dir/Foo#Sec''" "utf8_text ''Bar''"
    by (simp_all add: utf8_text_def utf8_char_def is_cont_def)
  show "trim ''Bar'' = ''Bar''" by (rule trim_solid) (simp_all add: solid_def)
  show "split_target ''dir/Foo#Sec'' = (''dir/Foo'', ''#Sec'')" by (simp add: split_target_def link_delimiter_def)
qed (simp_all add: link_delimiter_def)

section \<open>A rename touches only notes that link to the old name\<close>

text \<open>What the walk does to a note it visits: its new text and the number of links changed, when it has
  such links and can be read and written.\<close>

definition relinked :: "IoFaults \<Rightarrow> string \<Rightarrow> string \<Rightarrow> FileTree \<Rightarrow> fpath \<Rightarrow> (string \<times> nat) option" where
  "relinked io old new t p =
     (case os_read io p t of
        Inl _ \<Rightarrow> None
      | Inr c \<Rightarrow>
          if snd (rewrite_content c old new) = 0 \<or> io_temp io (rewrite_temp p) \<noteq> None \<or>
             io_rename io (rewrite_temp p) p \<noteq> None \<or> p \<in> ft_dirs t
          then None else Some (rewrite_content c old new))"

definition visited :: "fpath \<Rightarrow> walk_entry list \<Rightarrow> fpath list" where
  "visited root entries =
     concat (map (\<lambda>e. case e of Inr (p, True) \<Rightarrow> if hidden_entry root p \<or> \<not> md_file p then [] else [p] | _ \<Rightarrow> []) entries)"

lemma visited_simps [simp]:
  "visited root [] = []"
  "visited root (Inl e # es) = visited root es"
  "visited root (Inr (p, f) # es) =
     (if hidden_entry root p \<or> \<not> f \<or> \<not> md_file p then visited root es else p # visited root es)"
  by (auto simp: visited_def split: bool.split)

definition rewrite_gain :: "WikilinkRewriteResult \<Rightarrow> nat \<Rightarrow> (string \<times> nat) option list \<Rightarrow> WikilinkRewriteResult" where
  "rewrite_gain r n outs =
     \<lparr>files_scanned = files_scanned r + n,
      files_modified = files_modified r + length (filter (\<lambda>out. out \<noteq> None) outs),
      references_rewritten = references_rewritten r + sum_list (map (\<lambda>out. case out of Some (_, c) \<Rightarrow> c | None \<Rightarrow> 0) outs)\<rparr>"

lemma rewrite_gain_Cons: "rewrite_gain (rewrite_gain r 1 [out]) n outs = rewrite_gain r (Suc n) (out # outs)"
  by (simp add: rewrite_gain_def)

lemma temp_not_md: "\<not> md_file (rewrite_temp p)"
proof -
  have "rsplit_once CHR ''.'' ((''.'' @ n) @ CHR ''.'' # ''notesmith-tmp'') = Some (''.'' @ n, ''notesmith-tmp'')" for n
    by (rule rsplit_once_app) simp
  then show ?thesis by (simp add: md_file_def rewrite_temp_def name_split_def)
qed

lemma atomic_write_result:
  assumes "md_file p" "atomic_write io p c t = (r, t')"
  shows "isl r \<longleftrightarrow> io_temp io (rewrite_temp p) \<noteq> None \<or> io_rename io (rewrite_temp p) p \<noteq> None \<or> p \<in> ft_dirs t"
    and "md_file k \<Longrightarrow> ft_files t' k = (if k = p \<and> \<not> isl r then Some c else ft_files t k)"
    and "ft_dirs t' = ft_dirs t"
  using assms temp_not_md [of p]
  by (auto simp: atomic_write_def os_write_def os_rename_def split: option.splits if_splits)

lemma rewrite_entry_visited:
  assumes "\<not> hidden_entry root p" "md_file p" "rewrite_entry io root old new (Inr (p, True)) (r, t) = (r', t')"
  shows "r' = rewrite_gain r 1 [relinked io old new t p] \<and> ft_dirs t' = ft_dirs t \<and>
    (\<forall>k. md_file k \<longrightarrow> ft_files t' k =
      (case relinked io old new t p of Some (c, _) \<Rightarrow> if k = p then Some c else ft_files t k | None \<Rightarrow> ft_files t k))"
proof (cases "os_read io p t")
  case (Inl e)
  then show ?thesis using assms by (auto simp: rewrite_entry_def relinked_def rewrite_gain_def Let_def)
next
  case (Inr content)
  obtain c n where c: "rewrite_content content old new = (c, n)" by fastforce
  show ?thesis
  proof (cases "n = 0")
    case True
    with Inr c show ?thesis using assms by (auto simp: rewrite_entry_def relinked_def rewrite_gain_def Let_def)
  next
    case False
    obtain a t1 where a: "atomic_write io p c t = (a, t1)" by fastforce
    note w = atomic_write_result [OF assms(2) a]
    show ?thesis
    proof (cases a)
      case (Inl e)
      with w(1) have "relinked io old new t p = None" using Inr c by (auto simp: relinked_def)
      with Inl Inr c a False w show ?thesis using assms by (auto simp: rewrite_entry_def rewrite_gain_def Let_def)
    next
      case (Inr u)
      with w(1) have "relinked io old new t p = Some (c, n)" using \<open>os_read io p t = Inr content\<close> c False by (auto simp: relinked_def)
      with Inr \<open>os_read io p t = Inr content\<close> c a False w show ?thesis
        using assms by (auto simp: rewrite_entry_def rewrite_gain_def Let_def)
    qed
  qed
qed

lemma relinked_cong:
  "ft_files t' p = ft_files t p \<Longrightarrow> ft_dirs t' = ft_dirs t \<Longrightarrow> relinked io old new t' p = relinked io old new t p"
  by (cases "ft_files t p"; cases "io_read io p") (simp_all add: relinked_def os_read_def)

lemma visited_md: "p \<in> set (visited root entries) \<Longrightarrow> md_file p"
  by (auto simp: visited_def split: sum.splits prod.splits if_splits bool.splits)

lemma rewrite_walk:
  "distinct (visited root entries) \<Longrightarrow> fold (rewrite_entry io root old new) entries (r, t) = (r', t') \<Longrightarrow>
   r' = rewrite_gain r (length (visited root entries)) (map (relinked io old new t) (visited root entries)) \<and>
   (\<forall>k. md_file k \<longrightarrow> ft_files t' k =
      (case relinked io old new t k of
         Some (c, _) \<Rightarrow> if k \<in> set (visited root entries) then Some c else ft_files t k
       | None \<Rightarrow> ft_files t k))"
proof (induction entries arbitrary: r t)
  case Nil
  then show ?case by (auto simp: rewrite_gain_def split: option.splits)
next
  case (Cons entry entries)
  obtain r1 t1 where one: "rewrite_entry io root old new entry (r, t) = (r1, t1)" by fastforce
  with Cons.prems(2) have rest: "fold (rewrite_entry io root old new) entries (r1, t1) = (r', t')" by simp
  show ?case
  proof (cases "\<exists>p. entry = Inr (p, True) \<and> \<not> hidden_entry root p \<and> md_file p")
    case False
    then have vis: "visited root (entry # entries) = visited root entries"
      by (cases entry) (auto simp: visited_def split: bool.split)
    have same: "r1 = r" "t1 = t"
      using one False by (auto simp: rewrite_entry_def split: sum.splits prod.splits if_splits)
    show ?thesis
      using Cons.IH [OF Cons.prems(1) [unfolded vis] rest [unfolded same]] unfolding vis .
  next
    case True
    then obtain p where p: "entry = Inr (p, True)" "\<not> hidden_entry root p" "md_file p" by blast
    note first = rewrite_entry_visited [OF p(2,3) one [unfolded p(1)]]
    have vis: "visited root (entry # entries) = p # visited root entries" using p by simp
    with Cons.prems(1) have d: "distinct (visited root entries)" "p \<notin> set (visited root entries)" by simp_all
    have other: "relinked io old new t1 k = relinked io old new t k" if "md_file k" "k \<noteq> p" for k
      using first that by (intro relinked_cong) (auto split: option.splits)
    have same: "map (relinked io old new t1) (visited root entries) = map (relinked io old new t) (visited root entries)"
      using other d(2) visited_md by (intro map_cong) auto
    note IH = Cons.IH [OF d(1) rest]
    have "r' = rewrite_gain (rewrite_gain r 1 [relinked io old new t p]) (length (visited root entries))
        (map (relinked io old new t) (visited root entries))"
      using IH first same by metis
    then have "r' = rewrite_gain r (length (p # visited root entries)) (map (relinked io old new t) (p # visited root entries))"
      by (simp only: rewrite_gain_Cons list.map length_Cons)
    moreover have "ft_files t' k = (case relinked io old new t k of
         Some (c, _) \<Rightarrow> if k \<in> set (p # visited root entries) then Some c else ft_files t k
       | None \<Rightarrow> ft_files t k)" if k: "md_file k" for k
    proof (cases "k = p")
      case True
      have "ft_files t' p = ft_files t1 p" using IH k d(2) True by (auto split: option.splits)
      with first k True show ?thesis by (auto split: option.splits)
    next
      case False
      with first IH k other [OF k False] show ?thesis by (auto split: option.splits)
    qed
    ultimately show ?thesis unfolding vis by blast
  qed
qed

text \<open>C20: a rename rewrites exactly the visited notes that link to the old name and can be read and written;
  every other note, also one whose write fails, keeps its text, and the counts are those of the rewritten notes.\<close>

theorem rename_walk_exact:
  assumes "old \<noteq> new" "distinct (visited root entries)"
  shows "fst (rewrite_wikilinks io root entries old new t) =
      rewrite_gain rewrite_result_default (length (visited root entries)) (map (relinked io old new t) (visited root entries)) \<and>
    (\<forall>k. md_file k \<longrightarrow> ft_files (snd (rewrite_wikilinks io root entries old new t)) k =
      (case relinked io old new t k of
         Some (c, _) \<Rightarrow> if k \<in> set (visited root entries) then Some c else ft_files t k
       | None \<Rightarrow> ft_files t k))"
  using rewrite_walk [OF assms(2) surjective_pairing] assms(1) by (simp add: rewrite_wikilinks_def)

lemma rename_walk_exact_witness:
  "ft_files (snd (rewrite_wikilinks no_faults [''v''] [Inr ([''v''], False), Inr ([''v'', ''b.md''], True)] ''Foo'' ''Bar''
      \<lparr>ft_files = [[''v'', ''b.md''] \<mapsto> ''see [[Foo]]''], ft_dirs = {[''v'']}\<rparr>)) [''v'', ''b.md''] = Some ''see [[Bar]]''"
proof -
  let ?t = "\<lparr>ft_files = [[''v'', ''b.md''] \<mapsto> ''see [[Foo]]''], ft_dirs = {[''v'']}\<rparr>"
  let ?es = "[Inr ([''v''], False), Inr ([''v'', ''b.md''], True)]"
  have md: "md_file [''v'', ''b.md'']" by (simp add: md_file_def name_split_def rsplit_once_def)
  have vis: "visited [''v''] ?es = [[''v'', ''b.md'']]"
    using md by (simp add: hidden_entry_def is_skipped_dir_def)
  have rel: "relinked no_faults ''Foo'' ''Bar'' ?t [''v'', ''b.md''] = Some (''see [[Bar]]'', 1)" by code_simp
  show ?thesis
    using rename_walk_exact [of "''Foo''" "''Bar''" "[''v'']" ?es no_faults ?t] vis md rel by simp
qed

end
