(* ===== verification/NoteRoutes.thy ===== *)
theory NoteRoutes
  imports Wikilinks ManagedSection Events NoteDocs
begin

text \<open>
  The handlers of the server that create, replace, patch, append to, move, rename and delete notes
  (\<open>notesmith-http/src/routes/notes.rs\<close> with \<open>routes/helpers.rs\<close>), composed of the native engine, the save
  pipeline, the managed sections, the rewriting of wikilinks and the event buffer.  Handlers that only read the
  index are not modelled, but for the snippet of a folder entry and the query of a folder.  The hash, the YAML
  library, the clocks and the name of temporary files are fields of \<open>NoteLib\<close>.
\<close>

section \<open>Requests, replies and state\<close>

record NoteLib =
  lib_io :: IoFaults
  lib_hash :: "string \<Rightarrow> string"
  lib_temp_tag :: string
  lib_yaml :: YamlLib
  lib_saved_at :: string
  lib_event_at :: string
  lib_debug :: "string \<Rightarrow> string"
  lib_walk :: "string \<Rightarrow> FileTree \<Rightarrow> walk_entry list"
  lib_pid :: nat

record NoteVault =
  nv_root :: string
  nv_capture_folder :: string

record NoteWorld =
  nw_tree :: FileTree
  nw_events :: EventBuffer

text \<open>An error reply: status and JSON body.\<close>

type_synonym http_error = "nat \<times> (string \<times> json) list"

record CreateNoteRequest =
  cn_title :: string
  cn_folder :: "string option"
  cn_content :: "string option"
  cn_frontmatter :: "(string \<times> json) list option"

record PutNoteRequest =
  pn_content :: string
  pn_expected_hash :: "string option"

record PatchNoteRequest =
  pa_frontmatter :: "(string \<times> json) list"
  pa_expected_hash :: "string option"

record UpdateSectionRequest =
  us_section_id :: string
  us_content :: string
  us_append_if_missing :: bool
  us_expected_hash :: "string option"

record WriteNoteResponse =
  wr_path :: string
  wr_hash :: string

record UpdateSectionResponse =
  ur_path :: string
  ur_hash :: string
  ur_section_id :: string
  ur_appended :: bool
  ur_changed :: bool

record MoveNoteResponse =
  mr_from :: string
  mr_to :: string

record RenameNoteResponse =
  rn_from :: string
  rn_to :: string
  rn_references_rewritten :: nat

section \<open>Errors\<close>

fun section_error_text :: "(string \<Rightarrow> string) \<Rightarrow> ManagedSectionError \<Rightarrow> string" where
  "section_error_text debug (InvalidSectionId i reason) = ''invalid managed-section id '' @ debug i @ '': '' @ reason"
| "section_error_text debug (SectionNotFound i) = ''no managed section `'' @ i @ ''` in the note''"
| "section_error_text debug (DuplicateBeginMarker i a b) =
     ''managed section `'' @ i @ ''` has duplicate begin markers (lines '' @ show_nat a @ '' and '' @ show_nat b @ '')''"
| "section_error_text debug (DuplicateEndMarker i a b) =
     ''managed section `'' @ i @ ''` has duplicate end markers (lines '' @ show_nat a @ '' and '' @ show_nat b @ '')''"
| "section_error_text debug (InvertedMarkers i b e) =
     ''managed section `'' @ i @ ''` is inverted: end marker on line '' @ show_nat e @
     '' precedes begin marker on line '' @ show_nat b"
| "section_error_text debug (MissingEndMarker i line) =
     ''managed section `'' @ i @ ''` has a begin marker on line '' @ show_nat line @ '' with no end marker''"
| "section_error_text debug (MissingBeginMarker i line) =
     ''managed section `'' @ i @ ''` has an end marker on line '' @ show_nat line @ '' with no begin marker''"
| "section_error_text debug (ContentContainsMarker i line) =
     ''managed section `'' @ i @ ''`: content line '' @ show_nat line @
     '' is a section marker; content must not contain marker lines''"

definition internal_error :: "string \<Rightarrow> http_error" where
  "internal_error e = (500, [(''error'', JString e)])"

definition bad_request :: "string \<Rightarrow> http_error" where
  "bad_request e = (400, [(''error'', JString e)])"

definition conflict_error :: "string \<Rightarrow> string \<Rightarrow> http_error" where
  "conflict_error e path = (409, [(''error'', JString e), (''path'', JString path)])"

definition vault_missing :: "string \<Rightarrow> http_error" where
  "vault_missing name = (404, [(''error'', JString (''vault not found: '' @ name))])"

definition note_error :: "NotesmithError \<Rightarrow> http_error" where
  "note_error e =
     (case e of NoteNotFound _ \<Rightarrow> 404 | _ \<Rightarrow> 500, [(''error'', JString (notesmith_error_text e))])"

definition write_conflict :: "string \<Rightarrow> string \<Rightarrow> string \<Rightarrow> http_error" where
  "write_conflict path expected actual =
     (409, [(''error'', JString ''write conflict''), (''path'', JString path),
            (''expected'', JString expected), (''actual'', JString actual)])"

definition managed_section_error :: "(string \<Rightarrow> string) \<Rightarrow> ManagedSectionError \<Rightarrow> http_error" where
  "managed_section_error debug e =
     (422, [(''error'', JString (section_error_text debug e)), (''reason'', JString (section_error_code e)),
            (''section_id'', JString (section_error_id e))])"

section \<open>The handlers\<close>

definition write_note_response ::
  "NoteLib \<Rightarrow> string \<Rightarrow> string \<Rightarrow> string option \<Rightarrow> string \<Rightarrow> FileTree \<Rightarrow> (http_error + WriteNoteResponse) \<times> FileTree" where
  "write_note_response lib root path expected content t =
     (case engine_write (lib_io lib) (lib_hash lib) (lib_temp_tag lib) root path expected content t of
        (Inl e, t1) \<Rightarrow> (Inl (note_error e), t1)
      | (Inr (Written h), t1) \<Rightarrow> (Inr \<lparr>wr_path = path, wr_hash = h\<rparr>, t1)
      | (Inr (Conflict e a), t1) \<Rightarrow> (Inl (write_conflict path e a), t1))"

definition emit_note :: "NoteLib \<Rightarrow> string \<Rightarrow> EventType \<Rightarrow> string \<Rightarrow> string option \<Rightarrow> EventBuffer \<Rightarrow> EventBuffer" where
  "emit_note lib vault event_type path hash b =
     (let e = event_new (lib_event_at lib) vault event_type path
      in snd (emit (case hash of Some h \<Rightarrow> with_hash e h | None \<Rightarrow> e) b))"

text \<open>Saving: what creating, replacing, patching and appending share.\<close>

definition save_text :: "NoteLib \<Rightarrow> string \<Rightarrow> string" where
  "save_text lib content = apply_save_pipeline (yl_from (lib_yaml lib)) (yl_to (lib_yaml lib)) (lib_saved_at lib) content"

definition write_and_emit ::
  "NoteLib \<Rightarrow> string \<Rightarrow> EventType \<Rightarrow> string \<Rightarrow> string \<Rightarrow> string option \<Rightarrow> string \<Rightarrow> NoteWorld \<Rightarrow>
     (http_error + WriteNoteResponse) \<times> NoteWorld" where
  "write_and_emit lib vault event_type root path expected content w =
     (case write_note_response lib root path expected content (nw_tree w) of
        (Inl e, t) \<Rightarrow> (Inl e, w\<lparr>nw_tree := t\<rparr>)
      | (Inr response, t) \<Rightarrow>
          (Inr response,
           \<lparr>nw_tree = t, nw_events = emit_note lib vault event_type path (Some (wr_hash response)) (nw_events w)\<rparr>))"

definition create_path :: "NoteVault \<Rightarrow> CreateNoteRequest \<Rightarrow> string" where
  "create_path vault r =
     (let folder = (case cn_folder r of Some f \<Rightarrow> f | None \<Rightarrow> nv_capture_folder vault)
      in if folder = [] then cn_title r @ ''.md'' else folder @ ''/'' @ cn_title r @ ''.md'')"

definition create_note ::
  "NoteLib \<Rightarrow> (string \<rightharpoonup> NoteVault) \<Rightarrow> string \<Rightarrow> CreateNoteRequest \<Rightarrow> NoteWorld \<Rightarrow> (http_error + WriteNoteResponse) \<times> NoteWorld" where
  "create_note lib vaults vault_name request w =
     (case vaults vault_name of
        None \<Rightarrow> (Inl (vault_missing vault_name), w)
      | Some vault \<Rightarrow>
          (let path = create_path vault request
           in case engine_read (lib_io lib) (nv_root vault) path (nw_tree w) of
                Inr _ \<Rightarrow> (Inl (conflict_error ''note already exists'' path), w)
              | Inl (NoteNotFound _) \<Rightarrow>
                  (case build_note_document (lib_yaml lib) (cn_frontmatter request) (cn_content request) of
                     Inl e \<Rightarrow> (Inl (internal_error e), w)
                   | Inr initial_content \<Rightarrow>
                       write_and_emit lib vault_name NoteCreated (nv_root vault) path None (save_text lib initial_content) w)
              | Inl e \<Rightarrow> (Inl (note_error e), w)))"

definition put_note ::
  "NoteLib \<Rightarrow> (string \<rightharpoonup> NoteVault) \<Rightarrow> string \<Rightarrow> string \<Rightarrow> PutNoteRequest \<Rightarrow> NoteWorld \<Rightarrow>
     (http_error + WriteNoteResponse) \<times> NoteWorld" where
  "put_note lib vaults vault_name path request w =
     (case vaults vault_name of
        None \<Rightarrow> (Inl (vault_missing vault_name), w)
      | Some vault \<Rightarrow>
          write_and_emit lib vault_name NoteUpdated (nv_root vault) path (pn_expected_hash request)
            (save_text lib (pn_content request)) w)"

definition patched_text :: "NoteLib \<Rightarrow> (string \<times> json) list \<Rightarrow> string \<Rightarrow> string + string" where
  "patched_text lib updates current =
     (case extract_frontmatter current of
        (raw, body) \<Rightarrow>
          (case raw_frontmatter_to_mapping (lib_yaml lib) raw of
             Inl e \<Rightarrow> Inl e
           | Inr m \<Rightarrow>
               (case merge_frontmatter (lib_yaml lib) m updates of
                  Inl e \<Rightarrow> Inl e
                | Inr merged \<Rightarrow> build_note_document_from_yaml (lib_yaml lib) merged body)))"

definition patch_note ::
  "NoteLib \<Rightarrow> (string \<rightharpoonup> NoteVault) \<Rightarrow> string \<Rightarrow> string \<Rightarrow> PatchNoteRequest \<Rightarrow> NoteWorld \<Rightarrow>
     (http_error + WriteNoteResponse) \<times> NoteWorld" where
  "patch_note lib vaults vault_name path request w =
     (case vaults vault_name of
        None \<Rightarrow> (Inl (vault_missing vault_name), w)
      | Some vault \<Rightarrow>
          (case engine_read (lib_io lib) (nv_root vault) path (nw_tree w) of
             Inl e \<Rightarrow> (Inl (note_error e), w)
           | Inr current \<Rightarrow>
               (case patched_text lib (pa_frontmatter request) current of
                  Inl e \<Rightarrow> (Inl (internal_error e), w)
                | Inr merged \<Rightarrow>
                    write_and_emit lib vault_name NoteUpdated (nv_root vault) path (pa_expected_hash request)
                      (save_text lib merged) w)))"

definition delete_note ::
  "NoteLib \<Rightarrow> (string \<rightharpoonup> NoteVault) \<Rightarrow> string \<Rightarrow> string \<Rightarrow> NoteWorld \<Rightarrow> (http_error + unit) \<times> NoteWorld" where
  "delete_note lib vaults vault_name path w =
     (case vaults vault_name of
        None \<Rightarrow> (Inl (vault_missing vault_name), w)
      | Some vault \<Rightarrow>
          (case engine_delete (lib_io lib) (nv_root vault) path (nw_tree w) of
             (Inl e, t) \<Rightarrow> (Inl (note_error e), w\<lparr>nw_tree := t\<rparr>)
           | (Inr _, t) \<Rightarrow>
               (Inr (), \<lparr>nw_tree = t, nw_events = emit_note lib vault_name NoteDeleted path None (nw_events w)\<rparr>)))"

definition appended_text :: "string \<Rightarrow> string \<Rightarrow> string" where
  "appended_text current content =
     current @ (if current \<noteq> [] \<and> last current = CHR 0x0A then [] else [CHR 0x0A]) @ content"

definition append_note ::
  "NoteLib \<Rightarrow> (string \<rightharpoonup> NoteVault) \<Rightarrow> string \<Rightarrow> string \<Rightarrow> string \<Rightarrow> NoteWorld \<Rightarrow> (http_error + WriteNoteResponse) \<times> NoteWorld" where
  "append_note lib vaults vault_name path content w =
     (case vaults vault_name of
        None \<Rightarrow> (Inl (vault_missing vault_name), w)
      | Some vault \<Rightarrow>
          (case engine_read (lib_io lib) (nv_root vault) path (nw_tree w) of
             Inl e \<Rightarrow> (Inl (note_error e), w)
           | Inr current \<Rightarrow>
               write_and_emit lib vault_name NoteUpdated (nv_root vault) path None
                 (save_text lib (appended_text current content)) w))"

definition section_write ::
  "NoteLib \<Rightarrow> string \<Rightarrow> string \<Rightarrow> string \<Rightarrow> string \<Rightarrow> string \<Rightarrow> UpdateSectionRequest \<Rightarrow> NoteWorld \<Rightarrow>
     (http_error + UpdateSectionResponse) \<times> NoteWorld" where
  "section_write lib vault_name root path current current_hash request w =
     (case update_managed_section current (us_section_id request) (us_content request) (us_append_if_missing request) of
        Inl e \<Rightarrow> (Inl (managed_section_error (lib_debug lib) e), w)
      | Inr update \<Rightarrow>
          (case write_and_emit lib vault_name NoteUpdated root path (Some current_hash) (msu_content update) w of
             (Inl e, w1) \<Rightarrow> (Inl e, w1)
           | (Inr response, w1) \<Rightarrow>
               (Inr \<lparr>ur_path = wr_path response, ur_hash = wr_hash response, ur_section_id = us_section_id request,
                     ur_appended = msu_appended update, ur_changed = msu_changed update\<rparr>, w1)))"

definition update_section ::
  "NoteLib \<Rightarrow> (string \<rightharpoonup> NoteVault) \<Rightarrow> string \<Rightarrow> string \<Rightarrow> UpdateSectionRequest \<Rightarrow> NoteWorld \<Rightarrow>
     (http_error + UpdateSectionResponse) \<times> NoteWorld" where
  "update_section lib vaults vault_name path request w =
     (case vaults vault_name of
        None \<Rightarrow> (Inl (vault_missing vault_name), w)
      | Some vault \<Rightarrow>
          (case engine_read (lib_io lib) (nv_root vault) path (nw_tree w) of
             Inl e \<Rightarrow> (Inl (note_error e), w)
           | Inr current \<Rightarrow>
               (let current_hash = lib_hash lib current
                in case us_expected_hash request of
                     Some expected \<Rightarrow> if expected \<noteq> current_hash then (Inl (write_conflict path expected current_hash), w)
                                       else section_write lib vault_name (nv_root vault) path current current_hash request w
                   | None \<Rightarrow> section_write lib vault_name (nv_root vault) path current current_hash request w)))"

section \<open>Moving and renaming\<close>

definition move_note ::
  "NoteLib \<Rightarrow> (string \<rightharpoonup> NoteVault) \<Rightarrow> string \<Rightarrow> string \<Rightarrow> string \<Rightarrow> NoteWorld \<Rightarrow> (http_error + MoveNoteResponse) \<times> NoteWorld" where
  "move_note lib vaults vault_name path destination w =
     (case vaults vault_name of
        None \<Rightarrow> (Inl (vault_missing vault_name), w)
      | Some vault \<Rightarrow>
          (case engine_move (lib_io lib) (nv_root vault) path destination (nw_tree w) of
             (Inl e, t) \<Rightarrow> (Inl (note_error e), w\<lparr>nw_tree := t\<rparr>)
           | (Inr _, t) \<Rightarrow>
               (Inr \<lparr>mr_from = path, mr_to = destination\<rparr>,
                \<lparr>nw_tree = t, nw_events = emit_note lib vault_name NoteMoved destination None (nw_events w)\<rparr>)))"

definition is_control_char :: "string \<Rightarrow> bool" where
  "is_control_char ch =
     (case ch of
        [c] \<Rightarrow> (of_char c :: nat) < 0x20 \<or> (of_char c :: nat) = 0x7F
      | [c, d] \<Rightarrow> (of_char c :: nat) = 0xC2 \<and> (of_char d :: nat) < 0xA0
      | _ \<Rightarrow> False)"

definition validate_note_name :: "string \<Rightarrow> http_error + string" where
  "validate_note_name name =
     (let trimmed = trim name in
      if trimmed = [] then Inl (bad_request ''note name must not be empty'')
      else if CHR ''/'' \<in> set trimmed \<or> CHR 0x5C \<in> set trimmed
      then Inl (bad_request ''note name must not contain path separators'')
      else if trimmed = ''.'' \<or> trimmed = ''..'' then Inl (bad_request ''note name contains unsafe segments'')
      else if list_ex (\<lambda>ch. ch \<in> {'':'', ''*'', ''?'', [CHR 0x22], ''<'', ''>'', ''|''} \<or> is_control_char ch) (utf8_chars trimmed)
      then Inl (bad_request ''note name contains characters not allowed in filenames'')
      else (let stripped = trim (if suffix ''.md'' trimmed then take (length trimmed - 3) trimmed else trimmed)
            in if stripped = [] then Inl (bad_request ''note name must not be empty'') else Inr stripped))"

text \<open>\<open>Path::parent\<close>: separators and \<open>.\<close> behind the first component do not count.\<close>

definition strip_segments :: "string list \<Rightarrow> string list" where
  "strip_segments segments =
     take 1 segments @ rev (dropWhile (\<lambda>s. s = [] \<or> s = ''.'') (rev (drop 1 segments)))"

definition parent_str :: "string \<Rightarrow> string" where
  "parent_str path =
     (let segments = strip_segments (split_char CHR ''/'' path)
      in if length segments \<le> 1 then [] else join_str ''/'' (strip_segments (butlast segments)))"

definition rename_candidate :: "nat \<Rightarrow> string option \<Rightarrow> fpath \<Rightarrow> fpath" where
  "rename_candidate pid index p =
     butlast p @ [''.notesmith-rename-'' @ show_nat pid @ ''-'' @ (case index of Some i \<Rightarrow> i @ ''-'' | None \<Rightarrow> []) @
       (if p = [] then ''folder'' else last p)]"

definition rename_temp :: "nat \<Rightarrow> fpath \<Rightarrow> FileTree \<Rightarrow> fpath" where
  "rename_temp pid p t =
     (case find (\<lambda>c. \<not> os_exists t c) (map (\<lambda>index. rename_candidate pid (Some (show_nat index)) p) [0..<1000]) of
        Some c \<Rightarrow> c | None \<Rightarrow> rename_candidate pid None p)"

text \<open>Whether two existing paths are the same entry, on a file system that tells cases apart.\<close>

definition same_entry :: "FileTree \<Rightarrow> fpath \<Rightarrow> fpath \<Rightarrow> bool" where
  "same_entry t a b \<longleftrightarrow> os_exists t a \<and> os_exists t b \<and> a = b"

definition rename_path_with_case_support ::
  "IoFaults \<Rightarrow> nat \<Rightarrow> fpath \<Rightarrow> fpath \<Rightarrow> FileTree \<Rightarrow> (IoError + unit) \<times> FileTree" where
  "rename_path_with_case_support io pid a b t =
     (if a = b \<or> same_entry t a b then
        (let temp = rename_temp pid a t
         in case os_rename io a temp t of
              (Inl e, t1) \<Rightarrow> (Inl e, t1)
            | (Inr _, t1) \<Rightarrow>
                (case os_rename io temp b t1 of
                   (Inl e, t2) \<Rightarrow> (Inl e, snd (os_rename io temp a t2))
                 | (Inr _, t2) \<Rightarrow> (Inr (), t2)))
      else os_rename io a b t)"

text \<open>The links of the vault after a rename, with their number.\<close>

definition relink_vault :: "NoteLib \<Rightarrow> string \<Rightarrow> string \<Rightarrow> string \<Rightarrow> FileTree \<Rightarrow> nat \<times> FileTree" where
  "relink_vault lib root old_stem new_name t =
     (if old_stem = [] \<or> old_stem = new_name then (0, t)
      else (case rewrite_wikilinks (lib_io lib) (resolve_parts (path_parts root)) (lib_walk lib root t) old_stem new_name t of
              (result, t1) \<Rightarrow> (references_rewritten result, t1)))"

definition rename_to :: "string \<Rightarrow> string \<Rightarrow> string" where
  "rename_to from' new_name =
     (let parent = parent_str from'
      in if parent = [] then new_name @ ''.md'' else parent @ ''/'' @ new_name @ ''.md'')"

definition rename_note ::
  "NoteLib \<Rightarrow> (string \<rightharpoonup> NoteVault) \<Rightarrow> string \<Rightarrow> string \<Rightarrow> string \<Rightarrow> NoteWorld \<Rightarrow> (http_error + RenameNoteResponse) \<times> NoteWorld" where
  "rename_note lib vaults vault_name note_path name w =
     (case vaults vault_name of
        None \<Rightarrow> (Inl (vault_missing vault_name), w)
      | Some vault \<Rightarrow>
     (case validate_note_name name of
        Inl e \<Rightarrow> (Inl e, w)
      | Inr new_name \<Rightarrow>
     (let from' = trim_matches_char CHR ''/'' note_path in
      if from' = [] then (Inl (bad_request ''note path must not be empty''), w)
      else
     (let root = nv_root vault;
          to = rename_to from' new_name;
          from_abs = at root from'; to_abs = at root to
      in if ft_files (nw_tree w) from_abs = None
         then (Inl (404, [(''error'', JString ''note not found''), (''path'', JString from')]), w)
         else if from' = to then (Inr \<lparr>rn_from = from', rn_to = to, rn_references_rewritten = 0\<rparr>, w)
         else if os_exists (nw_tree w) to_abs \<and> \<not> same_entry (nw_tree w) from_abs to_abs
         then (Inl (conflict_error ''a note with that name already exists'' to), w)
         else (case rename_path_with_case_support (lib_io lib) (lib_pid lib) from_abs to_abs (nw_tree w) of
                 (Inl e, t) \<Rightarrow> (Inl (internal_error (io_text e)), w\<lparr>nw_tree := t\<rparr>)
               | (Inr _, t) \<Rightarrow>
                   (let old_stem = (case file_stem from' of Some s \<Rightarrow> s | None \<Rightarrow> []);
                        (rewritten, t1) = relink_vault lib root old_stem new_name t
                    in (Inr \<lparr>rn_from = from', rn_to = to, rn_references_rewritten = rewritten\<rparr>,
                        \<lparr>nw_tree = t1, nw_events = emit_note lib vault_name NoteMoved to None (nw_events w)\<rparr>)))))))"

section \<open>Folder entries\<close>

text \<open>\<open>&body_excerpt[..200]\<close> panics when byte 200 is inside a character.\<close>

definition extract_snippet :: "string \<Rightarrow> string outcome" where
  "extract_snippet body_excerpt =
     bind_outcome (if 200 < length body_excerpt then str_slice body_excerpt 0 200 else Done body_excerpt)
       (\<lambda>trimmed. Done (trim (join_str [CHR 0x0A] (take 2 (lines_of trimmed)))))"

datatype FolderSort = SortModified | SortCreated | SortName

datatype SortDir = Asc | Desc

record FolderNotesQuery =
  fq_path :: string
  fq_recursive :: bool
  fq_limit :: "nat option"
  fq_sort :: FolderSort
  fq_sort_dir :: SortDir

definition folder_notes_sql :: "string \<Rightarrow> FolderNotesQuery \<Rightarrow> string" where
  "folder_notes_sql vault_name params =
     (let folder = trim_end_char CHR ''/'' (fq_path params);
          path_filter = folder @ ''/%'';
          sort_column = (case fq_sort params of
              SortModified \<Rightarrow> ''updated_at'' | SortCreated \<Rightarrow> ''created_at'' | SortName \<Rightarrow> ''path'');
          sort_direction = (case fq_sort_dir params of Asc \<Rightarrow> ''ASC'' | Desc \<Rightarrow> ''DESC'');
          quote = [CHR 0x27];
          non_recursive_filter =
            (if fq_recursive params then [] else '' AND path NOT LIKE '' @ quote @ folder @ ''/%/%'' @ quote);
          limit_clause = (case fq_limit params of Some n \<Rightarrow> '' LIMIT '' @ show_nat n | None \<Rightarrow> [])
      in ''SELECT path, title, body_excerpt, updated_at, created_at FROM notes WHERE vault_name = '' @
         quote @ vault_name @ quote @ '' AND path LIKE '' @ quote @ path_filter @ quote @ non_recursive_filter @
         '' ORDER BY '' @ sort_column @ '' '' @ sort_direction @ limit_clause)"

section \<open>What a request promises\<close>

text \<open>The requests on single notes, and their replies.\<close>

datatype note_request =
    CreateReq CreateNoteRequest
  | PutReq string PutNoteRequest
  | PatchReq string PatchNoteRequest
  | AppendReq string string
  | SectionReq string UpdateSectionRequest
  | DeleteReq string
  | MoveReq string string

datatype note_reply =
    Wrote WriteNoteResponse
  | Sectioned UpdateSectionResponse
  | DeletedNote
  | Moved MoveNoteResponse

definition reply_with :: "('a \<Rightarrow> note_reply) \<Rightarrow> (http_error + 'a) \<times> NoteWorld \<Rightarrow> (http_error + note_reply) \<times> NoteWorld" where
  "reply_with f = (\<lambda>(r, w). (map_sum id f r, w))"

fun handle_note ::
  "NoteLib \<Rightarrow> (string \<rightharpoonup> NoteVault) \<Rightarrow> string \<Rightarrow> note_request \<Rightarrow> NoteWorld \<Rightarrow> (http_error + note_reply) \<times> NoteWorld" where
  "handle_note lib vaults v (CreateReq r) w = reply_with Wrote (create_note lib vaults v r w)"
| "handle_note lib vaults v (PutReq p r) w = reply_with Wrote (put_note lib vaults v p r w)"
| "handle_note lib vaults v (PatchReq p r) w = reply_with Wrote (patch_note lib vaults v p r w)"
| "handle_note lib vaults v (AppendReq p c) w = reply_with Wrote (append_note lib vaults v p c w)"
| "handle_note lib vaults v (SectionReq p r) w = reply_with Sectioned (update_section lib vaults v p r w)"
| "handle_note lib vaults v (DeleteReq p) w = reply_with (\<lambda>_. DeletedNote) (delete_note lib vaults v p w)"
| "handle_note lib vaults v (MoveReq p d) w = reply_with Moved (move_note lib vaults v p d w)"

text \<open>The abstract store: the notes by path, temporary files left out.\<close>

type_synonym note_store = "fpath \<rightharpoonup> string"

definition plain_notes :: "FileTree \<Rightarrow> note_store" where
  "plain_notes t = (\<lambda>k. if plain_path k then ft_files t k else None)"

text \<open>What a successful request does to the store, and what it announces.\<close>

definition store_put ::
  "NoteLib \<Rightarrow> string \<Rightarrow> EventType \<Rightarrow> string \<Rightarrow> string \<Rightarrow> string option \<Rightarrow> string \<Rightarrow> note_store \<Rightarrow> (note_store \<times> VaultEvent) option" where
  "store_put lib v event_type root path expected content m =
     (if (case expected of Some h \<Rightarrow> map_option (lib_hash lib) (m (at root path)) = Some h | None \<Rightarrow> True)
      then Some (m(at root path \<mapsto> content),
                 with_hash (event_new (lib_event_at lib) v event_type path) (lib_hash lib content))
      else None)"

fun note_effect ::
  "NoteLib \<Rightarrow> string \<Rightarrow> NoteVault \<Rightarrow> note_request \<Rightarrow> note_store \<Rightarrow> (note_store \<times> VaultEvent) option" where
  "note_effect lib v vault (CreateReq r) m =
     (let path = create_path vault r in
      case (m (at (nv_root vault) path), build_note_document (lib_yaml lib) (cn_frontmatter r) (cn_content r)) of
        (None, Inr doc) \<Rightarrow> store_put lib v NoteCreated (nv_root vault) path None (save_text lib doc) m
      | _ \<Rightarrow> None)"
| "note_effect lib v vault (PutReq path r) m =
     store_put lib v NoteUpdated (nv_root vault) path (pn_expected_hash r) (save_text lib (pn_content r)) m"
| "note_effect lib v vault (PatchReq path r) m =
     (case m (at (nv_root vault) path) of
        None \<Rightarrow> None
      | Some current \<Rightarrow>
          (case patched_text lib (pa_frontmatter r) current of
             Inl _ \<Rightarrow> None
           | Inr merged \<Rightarrow> store_put lib v NoteUpdated (nv_root vault) path (pa_expected_hash r) (save_text lib merged) m))"
| "note_effect lib v vault (AppendReq path content) m =
     (case m (at (nv_root vault) path) of
        None \<Rightarrow> None
      | Some current \<Rightarrow>
          store_put lib v NoteUpdated (nv_root vault) path None (save_text lib (appended_text current content)) m)"
| "note_effect lib v vault (SectionReq path r) m =
     (case m (at (nv_root vault) path) of
        None \<Rightarrow> None
      | Some current \<Rightarrow>
          (case update_managed_section current (us_section_id r) (us_content r) (us_append_if_missing r) of
             Inl _ \<Rightarrow> None
           | Inr update \<Rightarrow> store_put lib v NoteUpdated (nv_root vault) path (us_expected_hash r) (msu_content update) m))"
| "note_effect lib v vault (DeleteReq path) m =
     (case m (at (nv_root vault) path) of
        None \<Rightarrow> None
      | Some _ \<Rightarrow> Some (m(at (nv_root vault) path := None), event_new (lib_event_at lib) v NoteDeleted path))"
| "note_effect lib v vault (MoveReq path destination) m =
     (case m (at (nv_root vault) path) of
        None \<Rightarrow> None
      | Some c \<Rightarrow> Some (m(at (nv_root vault) path := None, at (nv_root vault) destination \<mapsto> c),
                         event_new (lib_event_at lib) v NoteMoved destination))"

fun request_paths :: "NoteVault \<Rightarrow> note_request \<Rightarrow> fpath list" where
  "request_paths vault (CreateReq r) = [at (nv_root vault) (create_path vault r)]"
| "request_paths vault (PutReq p r) = [at (nv_root vault) p]"
| "request_paths vault (PatchReq p r) = [at (nv_root vault) p]"
| "request_paths vault (AppendReq p c) = [at (nv_root vault) p]"
| "request_paths vault (SectionReq p r) = [at (nv_root vault) p]"
| "request_paths vault (DeleteReq p) = [at (nv_root vault) p]"
| "request_paths vault (MoveReq p d) = [at (nv_root vault) p, at (nv_root vault) d]"

section \<open>The handlers refine the store\<close>

lemma plain_notes_eqI: "(\<And>k. plain_path k \<Longrightarrow> ft_files t' k = ft_files t k) \<Longrightarrow> plain_notes t' = plain_notes t"
  by (rule ext) (simp add: plain_notes_def)

lemma plain_notes_at: "plain_path k \<Longrightarrow> plain_notes t k = ft_files t k"
  by (simp add: plain_notes_def)

lemma plain_notes_upd:
  "plain_path p \<Longrightarrow> ft_files t' p = x \<Longrightarrow> (\<And>k. plain_path k \<Longrightarrow> k \<noteq> p \<Longrightarrow> ft_files t' k = ft_files t k) \<Longrightarrow>
     plain_notes t' = (plain_notes t)(p := x)"
  by (rule ext) (simp add: plain_notes_def)

lemma engine_read_plain:
  "plain_path (at root path) \<Longrightarrow> engine_read io root path t = Inr c \<Longrightarrow> plain_notes t (at root path) = Some c"
  by (auto simp: engine_read_def os_read_def plain_notes_def note_io_error_def split: option.splits if_splits)

lemma engine_read_absent:
  "engine_read io root path t = Inl (NoteNotFound p) \<Longrightarrow> plain_notes t (at root path) = None"
  by (auto simp: engine_read_def os_read_def plain_notes_def note_io_error_def split: option.splits if_splits)

definition note_view :: "NoteWorld \<Rightarrow> note_store \<times> EventBuffer" where
  "note_view w = (plain_notes (nw_tree w), nw_events w)"

definition apply_effect :: "(note_store \<times> VaultEvent) option \<Rightarrow> EventBuffer \<Rightarrow> (note_store \<times> EventBuffer) option" where
  "apply_effect eff b = map_option (\<lambda>(m, e). (m, snd (emit e b))) eff"

definition fulfils :: "(note_store \<times> VaultEvent) option \<Rightarrow> NoteWorld \<Rightarrow> (http_error + 'a) \<times> NoteWorld \<Rightarrow> bool" where
  "fulfils eff w out =
     (case out of
        (Inl _, w') \<Rightarrow> note_view w' = note_view w
      | (Inr _, w') \<Rightarrow> apply_effect eff (nw_events w) = Some (note_view w'))"

lemma fulfils_error [simp]: "fulfils eff w (Inl e, w)"
  by (simp add: fulfils_def)

lemma fulfils_reply [simp]: "fulfils eff w (reply_with f out) = fulfils eff w out"
  by (auto simp: fulfils_def reply_with_def split: prod.splits sum.splits)

lemma write_and_emit_fulfils:
  assumes "plain_path (at root path)"
  shows "fulfils (store_put lib v ty root path e c (plain_notes (nw_tree w))) w (write_and_emit lib v ty root path e c w)"
proof -
  obtain r t where w: "engine_write (lib_io lib) (lib_hash lib) (lib_temp_tag lib) root path e c (nw_tree w) = (r, t)" by fastforce
  note res = engine_write_result [OF w]
  show ?thesis
  proof (cases "\<exists>h. r = Inr (Written h)")
    case True
    with res(1) have r: "r = Inr (Written (lib_hash lib c))" "ft_files t (at root path) = Some c"
      and guard: "case e of Some x \<Rightarrow> \<exists>old. ft_files (nw_tree w) (at root path) = Some old \<and> lib_hash lib old = x | None \<Rightarrow> True"
      by auto
    have "plain_notes t = (plain_notes (nw_tree w))(at root path \<mapsto> c)"
      using res(2) r(2) by (intro plain_notes_upd [OF assms]) auto
    with r guard assms show ?thesis
      by (auto simp: write_and_emit_def write_note_response_def w fulfils_def apply_effect_def store_put_def note_view_def
          emit_note_def Let_def plain_notes_at split: option.splits)
  next
    case False
    then have "plain_notes t = plain_notes (nw_tree w)" using res(2) by (intro plain_notes_eqI) auto
    with False show ?thesis
      by (cases r) (auto simp: write_and_emit_def write_note_response_def w fulfils_def note_view_def split: WriteResult.splits)
  qed
qed


lemma create_note_fulfils:
  assumes "vaults v = Some vault" "plain_path (at (nv_root vault) (create_path vault r))"
  shows "fulfils (note_effect lib v vault (CreateReq r) (plain_notes (nw_tree w))) w (create_note lib vaults v r w)"
  using write_and_emit_fulfils [OF assms(2), of lib v NoteCreated None _ w]
    engine_read_absent [of "lib_io lib" "nv_root vault" "create_path vault r" "nw_tree w"]
  by (auto simp: create_note_def assms(1) Let_def split: sum.splits NotesmithError.splits)

lemma section_write_fulfils:
  assumes "plain_path (at root path)" "plain_notes (nw_tree w) (at root path) = Some current"
    and "us_expected_hash r = None \<or> us_expected_hash r = Some (lib_hash lib current)"
    and "update_managed_section current (us_section_id r) (us_content r) (us_append_if_missing r) = Inr update"
  shows "fulfils (store_put lib v NoteUpdated root path (us_expected_hash r) (msu_content update) (plain_notes (nw_tree w))) w
    (section_write lib v root path current (lib_hash lib current) r w)"
proof -
  have "store_put lib v NoteUpdated root path (us_expected_hash r) c (plain_notes (nw_tree w)) =
      store_put lib v NoteUpdated root path (Some (lib_hash lib current)) c (plain_notes (nw_tree w))" for c
    using assms(2,3) by (auto simp: store_put_def)
  with write_and_emit_fulfils [OF assms(1), of lib v NoteUpdated "Some (lib_hash lib current)" "msu_content update" w]
  show ?thesis by (auto simp: section_write_def assms(4) fulfils_def split: prod.splits sum.splits)
qed

lemma update_section_fulfils:
  assumes "vaults v = Some vault" "plain_path (at (nv_root vault) path)"
  shows "fulfils (note_effect lib v vault (SectionReq path r) (plain_notes (nw_tree w))) w (update_section lib vaults v path r w)"
proof (cases "engine_read (lib_io lib) (nv_root vault) path (nw_tree w)")
  case (Inr current)
  note cur = engine_read_plain [OF assms(2) Inr]
  show ?thesis
  proof (cases "update_managed_section current (us_section_id r) (us_content r) (us_append_if_missing r)")
    case (Inl e)
    then show ?thesis using Inr by (simp add: update_section_def assms(1) Let_def section_write_def split: option.split)
  next
    case u: (Inr update)
    show ?thesis
      using section_write_fulfils [OF assms(2) cur _ u, of lib v] Inr cur u
      by (auto simp: update_section_def assms(1) Let_def split: option.split)
  qed
qed (simp add: update_section_def assms(1))

lemma delete_note_fulfils:
  assumes "vaults v = Some vault" "plain_path (at (nv_root vault) path)"
  shows "fulfils (note_effect lib v vault (DeleteReq path) (plain_notes (nw_tree w))) w (delete_note lib vaults v path w)"
proof -
  let ?k = "at (nv_root vault) path"
  obtain r t where d: "os_remove (lib_io lib) ?k (nw_tree w) = (r, t)" by fastforce
  show ?thesis
  proof (cases r)
    case (Inl e)
    then have "t = nw_tree w" using d by (auto simp: os_remove_def split: option.splits if_splits)
    with Inl show ?thesis by (simp add: delete_note_def engine_delete_def assms(1) d)
  next
    case (Inr u)
    then have t: "ft_files (nw_tree w) ?k \<noteq> None" "ft_files t = (ft_files (nw_tree w))(?k := None)"
      using d by (auto simp: os_remove_def split: option.splits if_splits)
    then have "plain_notes t = (plain_notes (nw_tree w))(?k := None)" by (intro plain_notes_upd [OF assms(2)]) simp_all
    with t Inr assms(2) show ?thesis
      by (auto simp: delete_note_def engine_delete_def assms(1) d fulfils_def apply_effect_def note_view_def emit_note_def
          plain_notes_at)
  qed
qed

lemma move_note_fulfils:
  assumes "vaults v = Some vault" "plain_path (at (nv_root vault) path)" "plain_path (at (nv_root vault) d)"
  shows "fulfils (note_effect lib v vault (MoveReq path d) (plain_notes (nw_tree w))) w (move_note lib vaults v path d w)"
proof -
  let ?a = "at (nv_root vault) path" and ?b = "at (nv_root vault) d"
  obtain r1 t1 where m: "os_mkdir_all (lib_io lib) (parent_of (nv_root vault) d) (nw_tree w) = (r1, t1)" by fastforce
  obtain r2 t2 where n: "os_rename (lib_io lib) ?a ?b t1 = (r2, t2)" by fastforce
  have f1: "plain_notes t1 = plain_notes (nw_tree w)" by (simp only: plain_notes_def os_mkdir_files [OF m])
  show ?thesis
  proof (cases r1)
    case (Inl e)
    then show ?thesis using f1 by (simp add: move_note_def engine_move_def assms(1) m fulfils_def note_view_def)
  next
    case r1: (Inr u)
    show ?thesis
    proof (cases r2)
      case (Inl e)
      then have "t2 = t1" using os_rename_files [OF n] by simp
      with Inl r1 f1 show ?thesis by (simp add: move_note_def engine_move_def assms(1) m n fulfils_def note_view_def)
    next
      case (Inr u')
      then obtain c where c: "ft_files t1 ?a = Some c" "ft_files t2 = ((ft_files t1)(?a := None))(?b \<mapsto> c)"
        using os_rename_files [OF n] by auto
      have "plain_notes t2 = ((plain_notes t1)(?a := None))(?b \<mapsto> c)"
        using c(2) assms(2,3) by (auto simp: plain_notes_def)
      with c Inr r1 f1 plain_notes_at [OF assms(2), of t1] show ?thesis
        by (simp add: move_note_def engine_move_def assms(1) m n fulfils_def apply_effect_def note_view_def emit_note_def)
    qed
  qed
qed

lemma handle_note_fulfils:
  assumes "vaults v = Some vault" "list_all plain_path (request_paths vault request)"
  shows "fulfils (note_effect lib v vault request (plain_notes (nw_tree w))) w (handle_note lib vaults v request w)"
proof (cases request)
  case (PatchReq path r)
  with assms show ?thesis
    using write_and_emit_fulfils [of "nv_root vault" path lib v NoteUpdated "pa_expected_hash r" _ w] engine_read_plain
    by (auto simp: patch_note_def split: sum.splits)
next
  case (AppendReq path c)
  with assms show ?thesis
    using write_and_emit_fulfils [of "nv_root vault" path lib v NoteUpdated None _ w] engine_read_plain
    by (auto simp: append_note_def split: sum.splits)
qed (use assms create_note_fulfils update_section_fulfils delete_note_fulfils move_note_fulfils write_and_emit_fulfils in
    \<open>simp_all add: put_note_def\<close>)

section \<open>Runs of requests\<close>

text \<open>A request with the vault it names and what the libraries, the clock and the system do for it.\<close>

type_synonym note_call = "NoteLib \<times> string \<times> note_request"

definition note_step :: "(string \<rightharpoonup> NoteVault) \<Rightarrow> note_call \<Rightarrow> NoteWorld \<Rightarrow> (http_error + note_reply) \<times> NoteWorld" where
  "note_step vaults = (\<lambda>(lib, v, request) w. handle_note lib vaults v request w)"

definition plain_call :: "(string \<rightharpoonup> NoteVault) \<Rightarrow> note_call \<Rightarrow> bool" where
  "plain_call vaults =
     (\<lambda>(lib, v, request). case vaults v of Some vault \<Rightarrow> list_all plain_path (request_paths vault request) | None \<Rightarrow> True)"

definition call_effect :: "(string \<rightharpoonup> NoteVault) \<Rightarrow> note_call \<Rightarrow> note_store \<times> EventBuffer \<Rightarrow> (note_store \<times> EventBuffer) option" where
  "call_effect vaults =
     (\<lambda>(lib, v, request) (m, b).
        (case vaults v of None \<Rightarrow> None | Some vault \<Rightarrow> apply_effect (note_effect lib v vault request m) b))"

lemma unknown_vault: "vaults v = None \<Longrightarrow> handle_note lib vaults v request w = (Inl (vault_missing v), w)"
  by (cases request)
    (simp_all add: reply_with_def create_note_def put_note_def patch_note_def append_note_def update_section_def
      delete_note_def move_note_def)

interpretation note_server: refinement "note_step vaults" "plain_call vaults" note_view "call_effect vaults" for vaults
proof
  fix i s e s'
  assume "plain_call vaults i" and step: "note_step vaults i s = (Inl e, s')"
  moreover obtain lib v request where i: "i = (lib, v, request)" by (rule prod_cases3)
  ultimately show "note_view s' = note_view s"
    using handle_note_fulfils [of vaults v _ request lib s] unknown_vault [of vaults v lib request s]
    by (cases "vaults v") (auto simp: plain_call_def note_step_def fulfils_def)
next
  fix i s r s'
  assume "plain_call vaults i" and step: "note_step vaults i s = (Inr r, s')"
  moreover obtain lib v request where i: "i = (lib, v, request)" by (rule prod_cases3)
  ultimately show "call_effect vaults i (note_view s) = Some (note_view s')"
    using handle_note_fulfils [of vaults v _ request lib s] unknown_vault [of vaults v lib request s]
    by (cases "vaults v") (auto simp: plain_call_def note_step_def fulfils_def call_effect_def note_view_def)
qed

text \<open>C2: any run of note requests, under any failures of the file system, leaves the notes and the event
  buffer that the successful requests alone give on an abstract store of notes: a failed request changes and
  announces nothing, a successful one does exactly what it promises and announces the hash of what it stored.\<close>

theorem requests_refine_store:
  assumes "list_all (plain_call vaults) calls" and "run_requests (note_step vaults) calls w = (replies, w')"
  shows "replay_effects (call_effect vaults) (zip calls (map (\<lambda>r. \<not> isl r) replies)) (note_view w) = Some (note_view w')"
  by (rule note_server.run_refines [OF assms])

section \<open>A rename keeps every note\<close>

text \<open>The text of a note after its links were rewritten, or not.\<close>

definition relinked_text :: "string \<Rightarrow> string \<Rightarrow> string option \<Rightarrow> string option \<Rightarrow> bool" where
  "relinked_text old new before after \<longleftrightarrow>
     after = before \<or> (\<exists>c. before = Some c \<and> after = Some (fst (rewrite_content c old new)))"

lemma relinked_Some: "relinked io old new t p = Some (c, n) \<Longrightarrow>
    \<exists>c0. ft_files t p = Some c0 \<and> c = fst (rewrite_content c0 old new)"
  by (auto simp: relinked_def os_read_def split: sum.splits option.splits if_splits)

lemma relink_vault_text:
  assumes "relink_vault lib root old new t = (n, t')" "md_file k"
    and "distinct (visited (resolve_parts (path_parts root)) (lib_walk lib root t))"
  shows "relinked_text old new (ft_files t k) (ft_files t' k)"
proof (cases "old = [] \<or> old = new")
  case True
  with assms(1) show ?thesis by (auto simp: relink_vault_def relinked_text_def)
next
  case False
  let ?r = "resolve_parts (path_parts root)" and ?es = "lib_walk lib root t"
  have t': "t' = snd (rewrite_wikilinks (lib_io lib) ?r ?es old new t)"
    using assms(1) False by (auto simp: relink_vault_def split: prod.splits)
  obtain res where "fold (rewrite_entry (lib_io lib) ?r old new) ?es (rewrite_result_default, t) = (res, t')"
    using t' False by (cases "fold (rewrite_entry (lib_io lib) ?r old new) ?es (rewrite_result_default, t)")
      (simp add: rewrite_wikilinks_def)
  with rewrite_walk [OF assms(3)] assms(2)
  have "ft_files t' k = (case relinked (lib_io lib) old new t k of
         Some (c, _) \<Rightarrow> if k \<in> set (visited ?r ?es) then Some c else ft_files t k
       | None \<Rightarrow> ft_files t k)" by blast
  then show ?thesis
    using relinked_Some [of "lib_io lib" old new t k] by (auto simp: relinked_text_def split: option.splits if_splits)
qed

lemma rename_plain:
  assumes "rename_path_with_case_support io pid a b t = (r, t')" "a \<noteq> b"
  shows "case r of Inl _ \<Rightarrow> t' = t
    | Inr _ \<Rightarrow> \<exists>c. ft_files t a = Some c \<and> ft_files t' = ((ft_files t)(a := None))(b \<mapsto> c)"
  using assms os_rename_files [of io a b t r t'] by (simp add: rename_path_with_case_support_def same_entry_def)

text \<open>C21: renaming a note fails without a trace, or moves it to a path that was free; then every note has
  its text, at most with the links to the old name rewritten.\<close>

theorem rename_note_keeps_notes:
  assumes "vaults v = Some vault" and "validate_note_name name = Inr new"
    and "rename_note lib vaults v note_path name w = (r, w')"
    and "a = at (nv_root vault) (trim_matches_char CHR ''/'' note_path)"
    and "b = at (nv_root vault) (rename_to (trim_matches_char CHR ''/'' note_path) new)"
    and "a \<noteq> b" and "old = (case file_stem (trim_matches_char CHR ''/'' note_path) of Some s \<Rightarrow> s | None \<Rightarrow> [])"
    and "\<And>t. distinct (visited (resolve_parts (path_parts (nv_root vault))) (lib_walk lib (nv_root vault) t))"
  shows "case r of
      Inl _ \<Rightarrow> w' = w
    | Inr _ \<Rightarrow> ft_files (nw_tree w) a \<noteq> None \<and> ft_files (nw_tree w) b = None \<and>
        (\<forall>k. md_file k \<longrightarrow>
           relinked_text old new (((ft_files (nw_tree w))(a := None, b := ft_files (nw_tree w) a)) k) (ft_files (nw_tree w') k))"
proof -
  let ?t = "nw_tree w" and ?root = "nv_root vault" and ?from = "trim_matches_char CHR ''/'' note_path"
  let ?to = "rename_to ?from new"
  have ne: "?from \<noteq> ?to" using assms(4-6) by auto
  obtain r1 t1 where one: "rename_path_with_case_support (lib_io lib) (lib_pid lib) a b ?t = (r1, t1)" by fastforce
  note plain = rename_plain [OF one assms(6)]
  note unf = assms(3) [unfolded rename_note_def assms(1,2) option.case sum.case Let_def, folded assms(4) assms(5), unfolded one]
  show ?thesis
  proof (cases r)
    case (Inl e)
    then have "w' = w" using unf plain ne by (auto split: if_splits sum.splits prod.splits)
    with Inl show ?thesis by simp
  next
    case (Inr resp)
    obtain n t2 where two: "relink_vault lib ?root old new t1 = (n, t2)" by fastforce
    have *: "ft_files ?t a \<noteq> None" "\<not> os_exists ?t b" "\<exists>u. r1 = Inr u" "nw_tree w' = t2"
      using unf Inr ne assms(6) two by (auto simp: same_entry_def assms(7) split: if_splits sum.splits prod.splits)
    then obtain c where c: "ft_files ?t a = Some c" "ft_files t1 = ((ft_files ?t)(a := None))(b \<mapsto> c)"
      using plain by auto
    have free: "ft_files ?t b = None" using *(2) by (simp add: os_exists_def)
    have "ft_files t1 = (ft_files ?t)(a := None, b := ft_files ?t a)" using c by simp
    then have "relinked_text old new (((ft_files ?t)(a := None, b := ft_files ?t a)) k) (ft_files t2 k)" if "md_file k" for k
      using relink_vault_text [OF two that assms(8)] by (simp only:)
    then have "\<forall>k. md_file k \<longrightarrow>
        relinked_text old new (((ft_files ?t)(a := None, b := ft_files ?t a)) k) (ft_files (nw_tree w') k)"
      unfolding *(4) by blast
    with *(1) free Inr show ?thesis by (simp only: sum.case simp_thms)
  qed
qed

section \<open>Snippets\<close>

text \<open>The snippet of a folder entry panics exactly on an excerpt of more than 200 bytes in which byte 200
  is inside of a character.\<close>

lemma snippet_panics_iff:
  "extract_snippet body_excerpt = Panicked \<longleftrightarrow> 200 < length body_excerpt \<and> is_cont (body_excerpt ! 200)"
  by (auto simp: extract_snippet_def str_slice_def is_char_boundary_def)

section \<open>Concrete runs\<close>

definition demo_lib :: NoteLib where
  "demo_lib =
     \<lparr>lib_io = no_faults, lib_hash = (\<lambda>c. c), lib_temp_tag = ''1'', 
      lib_yaml = \<lparr>yl_from = (\<lambda>_. None), yl_to = (\<lambda>_. None), yl_json = (\<lambda>_. Inl []), yl_error = (\<lambda>_. [])\<rparr>, lib_saved_at = ''t'', lib_event_at = ''t'',
      lib_debug = (\<lambda>s. s), lib_walk = (\<lambda>root t. [Inr ([''v'', ''Bar.md''], True)]), lib_pid = 1\<rparr>"

definition demo_vaults :: "string \<rightharpoonup> NoteVault" where
  "demo_vaults = [''main'' \<mapsto> \<lparr>nv_root = ''/v'', nv_capture_folder = []\<rparr>]"

definition demo_world :: NoteWorld where
  "demo_world = \<lparr>nw_tree = demo_tree, nw_events = buffer_new 100\<rparr>"

text \<open>A note is moved and then deleted under its old name.\<close>

definition demo_calls :: "note_call list" where
  "demo_calls = [(demo_lib, ''main'', MoveReq ''a.md'' ''b.md''), (demo_lib, ''main'', DeleteReq ''a.md'')]"

lemma demo_replies:
  "map (\<lambda>r. \<not> isl r) (fst (run_requests (note_step demo_vaults) demo_calls demo_world)) = [True, False]"
  by code_simp

lemma demo_moved:
  "ft_files (nw_tree (snd (run_requests (note_step demo_vaults) demo_calls demo_world))) [''v'', ''b.md''] = Some ''old''"
  by code_simp

lemma demo_at:
  "at ''/v'' ''a.md'' = [''v'', ''a.md'']" "at ''/v'' ''b.md'' = [''v'', ''b.md'']" "at ''/v'' ''Bar.md'' = [''v'', ''Bar.md'']"
  by code_simp+

lemma demo_calls_plain: "list_all (plain_call demo_vaults) demo_calls"
  by (simp add: demo_calls_def plain_call_def demo_vaults_def plain_path_def suffix_def demo_at)

lemma requests_refine_store_witness:
  "replay_effects (call_effect demo_vaults) (zip demo_calls [True, False]) (note_view demo_world) =
     Some (note_view (snd (run_requests (note_step demo_vaults) demo_calls demo_world)))"
  using requests_refine_store [OF demo_calls_plain surjective_pairing, of demo_world] by (simp only: demo_replies)

text \<open>A destination is not kept inside the vault: the note leaves it.\<close>

lemma move_leaves_vault:
  "ft_files (nw_tree (snd (move_note demo_lib demo_vaults ''main'' ''a.md'' ''../out.md'' demo_world))) [''out.md''] = Some ''old''"
  by code_simp

lemma demo_rename:
  "fst (rename_note demo_lib demo_vaults ''main'' ''a.md'' ''Bar'' demo_world) =
     Inr \<lparr>rn_from = ''a.md'', rn_to = ''Bar.md'', rn_references_rewritten = 0\<rparr>"
  by code_simp


lemma demo_rename_names:
  "validate_note_name ''Bar'' = Inr ''Bar''" "trim_matches_char CHR ''/'' ''a.md'' = ''a.md''"
  "rename_to ''a.md'' ''Bar'' = ''Bar.md''" "file_stem ''a.md'' = Some ''a''"
  by code_simp+

lemma rename_note_keeps_notes_witness:
  "relinked_text ''a'' ''Bar'' (Some ''old'')
     (ft_files (nw_tree (snd (rename_note demo_lib demo_vaults ''main'' ''a.md'' ''Bar'' demo_world))) [''v'', ''Bar.md''])"
proof -
  obtain r w' where run: "rename_note demo_lib demo_vaults ''main'' ''a.md'' ''Bar'' demo_world = (r, w')" by fastforce
  have r: "r = Inr \<lparr>rn_from = ''a.md'', rn_to = ''Bar.md'', rn_references_rewritten = 0\<rparr>" using demo_rename run by simp
  let ?V = "\<lparr>nv_root = ''/v'', nv_capture_folder = []\<rparr>"
  have vault: "demo_vaults ''main'' = Some ?V" by (simp add: demo_vaults_def)
  have "case r of Inl _ \<Rightarrow> w' = demo_world
    | Inr _ \<Rightarrow> ft_files (nw_tree demo_world) [''v'', ''a.md''] \<noteq> None \<and> ft_files (nw_tree demo_world) [''v'', ''Bar.md''] = None \<and>
        (\<forall>k. md_file k \<longrightarrow> relinked_text ''a'' ''Bar''
           (((ft_files (nw_tree demo_world))([''v'', ''a.md''] := None, [''v'', ''Bar.md''] := ft_files (nw_tree demo_world) [''v'', ''a.md''])) k)
           (ft_files (nw_tree w') k))"
    by (rule rename_note_keeps_notes [OF vault demo_rename_names(1) run])
       (simp_all add: demo_rename_names demo_at demo_lib_def)
  then have all: "\<forall>k. md_file k \<longrightarrow> relinked_text ''a'' ''Bar''
           (((ft_files (nw_tree demo_world))([''v'', ''a.md''] := None, [''v'', ''Bar.md''] := ft_files (nw_tree demo_world) [''v'', ''a.md''])) k)
           (ft_files (nw_tree w') k)"
    unfolding r sum.case by blast
  have "md_file [''v'', ''Bar.md'']" by (simp add: md_file_def name_split_def rsplit_once_def)
  moreover have "ft_files (nw_tree demo_world) [''v'', ''a.md''] = Some ''old''" by (simp add: demo_world_def demo_tree_def)
  ultimately show ?thesis using spec [OF all, of "[''v'', ''Bar.md'']"] by (simp add: run)
qed

end
