(* ===== verification/Facts.thy ===== *)
theory Facts
  imports NoteDocs Utf8
begin

text \<open>
  The memory facts of a vault (\<open>notesmith-ops/src/lib.rs\<close>): notes under \<open>facts/\<close> with \<open>type: fact\<close> that an
  agent saves, updates, supersedes and deletes.  A mutation is previewed first; applying it needs the token
  of the preview, a keyed hash over what was shown.  This theory holds paths, texts, drafts and documents;
  \<open>MemoryOps\<close> holds the operations.  The hash, the keyed hash, the JSON and YAML libraries, the clock, the
  Unicode tables and the index are fields of \<open>FactLib\<close>.
\<close>

section \<open>Paths of facts\<close>

definition is_ascii_alphabetic :: "char \<Rightarrow> bool" where
  "is_ascii_alphabetic c \<longleftrightarrow> ascii_alnum c \<and> \<not> is_digit c"

definition has_windows_path_prefix :: "string \<Rightarrow> bool" where
  "has_windows_path_prefix path \<longleftrightarrow>
     (case path of
        a # b # c # _ \<Rightarrow> is_ascii_alphabetic a \<and> b = CHR '':'' \<and> (c = CHR ''/'' \<or> c = CHR 0x5C)
      | _ \<Rightarrow> False)"

text \<open>A path that passes the checks is relative, and its segments are its components.\<close>

definition fact_note_path_components :: "string \<Rightarrow> string list option" where
  "fact_note_path_components path =
     (let segments = split_char CHR ''/'' path in
      if path = [] \<or> CHR 0x5C \<in> set path \<or> hd path = CHR ''/'' \<or> last path = CHR ''/'' \<or>
         list_ex (\<lambda>s. s = [] \<or> s = ''.'' \<or> s = ''..'') segments \<or> has_windows_path_prefix path
      then None
      else if length segments < 2 \<or> hd segments \<noteq> ''facts'' then None
      else (case name_split (last segments) of
              (stem, ext) \<Rightarrow> if ext \<noteq> Some ''md'' \<or> stem = [] then None else Some segments))"

definition is_fact_note_path :: "string \<Rightarrow> bool" where
  "is_fact_note_path path \<longleftrightarrow> fact_note_path_components path \<noteq> None"

definition is_example_fact_path :: "string \<Rightarrow> bool" where
  "is_example_fact_path path \<longleftrightarrow>
     (case fact_note_path_components path of
        Some components \<Rightarrow> list_ex (\<lambda>c. eq_ignore_ascii_case c ''examples'') components
      | None \<Rightarrow> False)"

text \<open>\<open>stem_of\<close> slices the last three bytes off; the slice panics inside of a character.\<close>

definition stem_text :: "string \<Rightarrow> string" where
  "stem_text file =
     (if 3 \<le> length file \<and> eq_ignore_ascii_case (drop (length file - 3) file) ''.md''
      then take (length file - 3) file else file)"

definition stem_of :: "string \<Rightarrow> string outcome" where
  "stem_of path =
     (let file = last (split_char CHR ''/'' path) in
      if 3 \<le> length file \<and> \<not> is_char_boundary file (length file - 3) then Panicked else Done (stem_text file))"

section \<open>Texts\<close>

definition join_words :: "string \<Rightarrow> string" where
  "join_words s = join_str '' '' (split_whitespace s)"

definition sanitize_slug :: "(string \<Rightarrow> bool) \<Rightarrow> string \<Rightarrow> string" where
  "sanitize_slug is_alphanumeric input =
     join_words (concat (map (\<lambda>ch. if is_alphanumeric ch \<or> ch = '' '' \<or> ch = ''-'' then ch else '' '') (utf8_chars input)))"

definition sanitize_fact_slug :: "(string \<Rightarrow> bool) \<Rightarrow> string \<Rightarrow> string" where
  "sanitize_fact_slug is_alphanumeric input =
     join_words (map (\<lambda>c. if c = CHR ''/'' \<or> c = CHR 0x5C then CHR '' '' else c)
       (trim_matches_char CHR ''.'' (trim (sanitize_slug is_alphanumeric input))))"

definition normalize_claim :: "string \<Rightarrow> string" where
  "normalize_claim input = map ascii_lower (join_words input)"

fun canonical_tags :: "string list \<Rightarrow> string list \<Rightarrow> string list" where
  "canonical_tags ordered [] = ordered"
| "canonical_tags ordered (tag # tags) =
     (let tag = trim tag in
      if tag = [] \<or> list_ex (\<lambda>existing. eq_ignore_ascii_case existing tag) ordered then canonical_tags ordered tags
      else canonical_tags (ordered @ [tag]) tags)"

definition canonical_fact_tags :: "string list option \<Rightarrow> string list" where
  "canonical_fact_tags tags = canonical_tags [''fact''] (case tags of Some ts \<Rightarrow> ts | None \<Rightarrow> [])"

definition nl :: string where
  "nl = [CHR 0x0A]"

definition canonical_fact_body :: "string \<Rightarrow> string \<Rightarrow> string" where
  "canonical_fact_body title claim = ''# '' @ title @ nl @ nl @ claim"

definition is_heading :: "string \<Rightarrow> bool" where
  "is_heading line \<longleftrightarrow> prefix ''# '' (trim_start line)"

definition blank :: "string \<Rightarrow> bool" where
  "blank line \<longleftrightarrow> trim line = []"

text \<open>The lines behind a heading and the blank lines after it.\<close>

definition skip_heading :: "string list \<Rightarrow> string list" where
  "skip_heading ls = (if ls \<noteq> [] \<and> is_heading (hd ls) then dropWhile blank (tl ls) else ls)"

definition first_fact_paragraph :: "string \<Rightarrow> string option" where
  "first_fact_paragraph body =
     (if trim body = [] then None
      else (let paragraph = takeWhile (\<lambda>l. \<not> blank l) (skip_heading (lines_of (trim body)));
                txt = trim (join_str '' '' (map trim paragraph))
            in if txt = [] then None else Some txt))"

definition rebuild_fact_body :: "string \<Rightarrow> string \<Rightarrow> string \<Rightarrow> string" where
  "rebuild_fact_body existing_body title claim =
     (if trim existing_body = [] then canonical_fact_body title claim
      else (let rest = dropWhile blank (dropWhile (\<lambda>l. \<not> blank l) (skip_heading (lines_of (trim existing_body))));
                remainder = trim (join_str nl rest)
            in if remainder = [] then canonical_fact_body title claim
               else ''# '' @ title @ nl @ nl @ claim @ nl @ nl @ remainder))"

definition append_lifecycle_note :: "string \<Rightarrow> string \<Rightarrow> string" where
  "append_lifecycle_note body line =
     (let trimmed = trim body in
      if trimmed = [] then line else if contains_str trimmed line then trimmed else trimmed @ nl @ nl @ line)"

section \<open>Drafts and documents\<close>

record FactDraft =
  fd_title :: string
  fd_claim :: string
  fd_description :: string
  fd_scope :: string
  fd_subject :: "string option"
  fd_certainty :: string
  fd_source :: "string option"
  fd_status :: string
  fd_confirmed :: string
  fd_supersedes :: "string option"
  fd_tags :: "string list"

record PlannedFactDocument =
  pd_path :: string
  pd_content :: string
  pd_hash :: string

definition nonblank :: "string option \<Rightarrow> string option" where
  "nonblank s = (case s of Some v \<Rightarrow> if trim v = [] then None else Some (trim v) | None \<Rightarrow> None)"

definition validate_fact_draft ::
  "string \<Rightarrow> string \<Rightarrow> string \<Rightarrow> string option \<Rightarrow> string \<Rightarrow> string option \<Rightarrow> string \<Rightarrow> string option \<Rightarrow> string \<Rightarrow>
     string option \<Rightarrow> string option \<Rightarrow> string list option \<Rightarrow> bool \<Rightarrow> string + FactDraft" where
  "validate_fact_draft today title claim description scope subject certainty source status confirmed supersedes tags
     acknowledge_inference =
     (let title = trim title; claim = trim claim; scope = trim scope; certainty = trim certainty; status = trim status;
          source = nonblank source
      in if title = [] then Inl ''fact title must not be blank''
         else if claim = [] then Inl ''fact claim must not be blank''
         else if scope = [] then Inl ''fact scope must not be blank''
         else if certainty \<notin> {''explicit'', ''observed'', ''inferred''}
         then Inl (''invalid certainty '' @ [CHR 0x27] @ certainty @ [CHR 0x27] @
                   ''; expected one of explicit, observed, inferred'')
         else if status \<notin> {''active'', ''superseded'', ''retracted''}
         then Inl (''invalid status '' @ [CHR 0x27] @ status @ [CHR 0x27] @
                   ''; expected one of active, superseded, retracted'')
         else if certainty = ''observed'' \<and> source = None then Inl ''observed facts require a nonblank source''
         else if certainty = ''inferred'' \<and> \<not> acknowledge_inference
         then Inl ''inferred facts require explicit acknowledgement''
         else Inr
           \<lparr>fd_title = title, fd_claim = claim,
            fd_description = (case nonblank description of Some d \<Rightarrow> d | None \<Rightarrow> claim),
            fd_scope = scope, fd_subject = nonblank subject, fd_certainty = certainty, fd_source = source,
            fd_status = status, fd_confirmed = (case nonblank confirmed of Some d \<Rightarrow> d | None \<Rightarrow> today),
            fd_supersedes = nonblank supersedes, fd_tags = canonical_fact_tags tags\<rparr>)"

definition set_yaml_string :: "string \<Rightarrow> string option \<Rightarrow> yaml_map \<Rightarrow> yaml_map" where
  "set_yaml_string key value m =
     ymap_insert (YString key) (YString (case value of Some v \<Rightarrow> v | None \<Rightarrow> [])) m"

definition set_some :: "string \<Rightarrow> string option \<Rightarrow> yaml_map \<Rightarrow> yaml_map" where
  "set_some key value m = (case value of Some v \<Rightarrow> set_yaml_string key (Some v) m | None \<Rightarrow> m)"

definition set_tags :: "string list \<Rightarrow> yaml_map \<Rightarrow> yaml_map" where
  "set_tags tags m = ymap_insert (YString ''tags'') (YSeq (map YString tags)) m"

definition draft_frontmatter :: "FactDraft \<Rightarrow> yaml_map" where
  "draft_frontmatter draft =
     set_tags (fd_tags draft)
       (set_yaml_string ''supersedes'' (fd_supersedes draft)
       (set_yaml_string ''confirmed'' (Some (fd_confirmed draft))
       (set_yaml_string ''status'' (Some (fd_status draft))
       (set_yaml_string ''source'' (fd_source draft)
       (set_yaml_string ''certainty'' (Some (fd_certainty draft))
       (set_yaml_string ''subject'' (fd_subject draft)
       (set_yaml_string ''scope'' (Some (fd_scope draft))
       (set_yaml_string ''description'' (Some (fd_description draft))
       (set_yaml_string ''title'' (Some (fd_title draft))
       (set_yaml_string ''type'' (Some ''fact'') []))))))))))"

definition build_fact_document :: "YamlLib \<Rightarrow> FactDraft \<Rightarrow> string option \<Rightarrow> string" where
  "build_fact_document yl draft replacement_body =
     (let canonical = canonical_fact_body (fd_title draft) (fd_claim draft)
      in case build_note_document_from_yaml yl (draft_frontmatter draft)
                (case replacement_body of Some b \<Rightarrow> b | None \<Rightarrow> canonical) of
           Inr doc \<Rightarrow> doc
         | Inl _ \<Rightarrow> canonical)"

definition update_fact_frontmatter ::
  "yaml_map \<Rightarrow> string option \<Rightarrow> string option \<Rightarrow> string option \<Rightarrow> string option \<Rightarrow> string option \<Rightarrow> string option \<Rightarrow>
     string option \<Rightarrow> string option \<Rightarrow> string option \<Rightarrow> string list option \<Rightarrow> yaml_map" where
  "update_fact_frontmatter m title description scope subject certainty source status confirmed supersedes tags =
     (let m' = set_some ''supersedes'' supersedes (set_some ''confirmed'' confirmed (set_some ''status'' status
                 (set_some ''source'' source (set_some ''certainty'' certainty (set_some ''subject'' subject
                 (set_some ''scope'' scope (set_some ''description'' description (set_some ''title'' title
                 (set_yaml_string ''type'' (Some ''fact'') m)))))))))
      in case tags of Some ts \<Rightarrow> set_tags ts m' | None \<Rightarrow> m')"

section \<open>Fact paths stay under the facts folder\<close>

lemma split_char_join: "split_char c (a @ c # b) = split_char c a @ split_char c b"
proof (induction a)
  case (Cons x a)
  then show ?case by (cases "split_char c a") auto
qed simp

lemma path_parts_slash: "path_parts (a @ CHR ''/'' # b) = path_parts a @ path_parts b"
  by (simp add: path_parts_def split_char_join)

lemma path_parts_Nil [simp]: "path_parts [] = []"
  by (simp add: path_parts_def)

lemma path_parts_join:
  assumes "\<not> prefix ''/'' rel"
  shows "path_parts (path_join base rel) = path_parts base @ path_parts rel"
proof (cases "base = [] \<or> last base = CHR ''/''")
  case True
  show ?thesis
  proof (cases base rule: rev_cases)
    case (snoc a x)
    with True have "base = a @ ''/''" by simp
    then show ?thesis using assms path_parts_slash [of a rel] path_parts_slash [of a "[]"] by (simp add: path_join_def)
  qed (use assms in \<open>simp add: path_join_def\<close>)
next
  case False
  then show ?thesis using assms path_parts_slash [of base rel] by (simp add: path_join_def)
qed

lemma resolve_parts_plain: "''..'' \<notin> set segs \<Longrightarrow> resolve_parts (ps @ segs) = resolve_parts ps @ segs"
proof -
  have "foldl (\<lambda>acc p. if p = ''..'' then butlast acc else acc @ [p]) acc segs = acc @ segs" if "''..'' \<notin> set segs" for acc
    using that by (induction segs arbitrary: acc) auto
  then show "''..'' \<notin> set segs \<Longrightarrow> ?thesis" by (simp add: resolve_parts_def)
qed

definition good_segment :: "string \<Rightarrow> bool" where
  "good_segment s \<longleftrightarrow> s \<noteq> [] \<and> s \<noteq> ''.'' \<and> s \<noteq> ''..'' \<and> CHR ''/'' \<notin> set s \<and> CHR 0x5C \<notin> set s"

definition md_name :: "string \<Rightarrow> bool" where
  "md_name n \<longleftrightarrow> snd (name_split n) = Some ''md'' \<and> fst (name_split n) \<noteq> []"

definition fact_segments :: "string list \<Rightarrow> bool" where
  "fact_segments segs \<longleftrightarrow> 2 \<le> length segs \<and> hd segs = ''facts'' \<and> list_all good_segment segs \<and> md_name (last segs)"

lemma split_char_other: "x \<in> set s \<Longrightarrow> x \<noteq> c \<Longrightarrow> \<exists>w \<in> set (split_char c s). x \<in> set w"
  by (induction s) (auto split: list.splits)

lemma good_segments_chars:
  "list_all good_segment (split_char CHR ''/'' p) \<longleftrightarrow>
     CHR 0x5C \<notin> set p \<and> \<not> list_ex (\<lambda>s. s = [] \<or> s = ''.'' \<or> s = ''..'') (split_char CHR ''/'' p)"
proof -
  have "CHR 0x5C \<in> set p \<longleftrightarrow> (\<exists>w \<in> set (split_char CHR ''/'' p). CHR 0x5C \<in> set w)"
    using split_char_other [of "CHR 0x5C" p "CHR ''/''"] split_char_chars [of _ "CHR ''/''" p] by (simp, blast)
  moreover have "\<forall>w \<in> set (split_char CHR ''/'' p). CHR ''/'' \<notin> set w" using split_char_no_sep by blast
  ultimately show ?thesis unfolding good_segment_def list_all_iff list_ex_iff by blast
qed

lemma hd_split_char: "split_char c p = (''f'' @ w) # ws \<Longrightarrow> p \<noteq> [] \<and> hd p = CHR ''f''"
  by (cases p) (auto split: if_splits list.splits)

lemma fact_components_iff:
  "fact_note_path_components p = Some segs \<longleftrightarrow> segs = split_char CHR ''/'' p \<and> fact_segments segs"
proof -
  let ?s = "split_char CHR ''/'' p"
  show ?thesis
  proof (cases "fact_segments ?s")
    case True
    then have good: "list_all good_segment ?s" and hd: "hd ?s = ''facts''" and md: "md_name (last ?s)" and two: "2 \<le> length ?s"
      by (simp_all add: fact_segments_def)
    obtain ws where ws: "?s = ''facts'' # ws" using hd split_char_ne by (metis list.collapse)
    then have p: "p \<noteq> []" "hd p = CHR ''f''" using hd_split_char [of "CHR ''/''" p "''acts''" ws] by simp_all
    have "\<exists>z. join_str ''/'' (''facts'' # ws) = ''facts'' @ z" by (cases ws) auto
    then have pre: "\<exists>z. p = ''facts'' @ z" using join_split_char [of "CHR ''/''" p] by (simp only: ws)
    have last: "last p \<noteq> CHR ''/''"
    proof
      assume "last p = CHR ''/''"
      then obtain q where "p = q @ CHR ''/'' # []" using p(1) by (metis append_butlast_last_id)
      then have "?s = split_char CHR ''/'' q @ [[]]" using split_char_join [of "CHR ''/''" q "[]"] by simp
      with good show False by (simp add: good_segment_def)
    qed
    have "\<not> has_windows_path_prefix p" using pre by (auto simp: has_windows_path_prefix_def)
    moreover have "CHR 0x5C \<notin> set p" "\<not> list_ex (\<lambda>s. s = [] \<or> s = ''.'' \<or> s = ''..'') ?s"
      using good unfolding good_segments_chars by simp_all
    moreover have "hd p \<noteq> CHR ''/''" using p(2) by simp
    moreover obtain st where "name_split (last ?s) = (st, Some ''md'')" "st \<noteq> []"
      using md by (cases "name_split (last ?s)") (simp add: md_name_def)
    ultimately have "fact_note_path_components p = Some ?s"
      using p(1) last hd two by (simp add: fact_note_path_components_def Let_def)
    with True show ?thesis by auto
  next
    case False
    have "fact_segments ?s" if "fact_note_path_components p = Some segs"
    proof -
      have "CHR 0x5C \<notin> set p" "\<not> list_ex (\<lambda>s. s = [] \<or> s = ''.'' \<or> s = ''..'') ?s" "2 \<le> length ?s" "hd ?s = ''facts''" "md_name (last ?s)"
        using that unfolding fact_note_path_components_def Let_def md_name_def
        by (simp_all split: if_splits prod.splits)
      then show ?thesis by (simp add: fact_segments_def good_segments_chars)
    qed
    with False show ?thesis by blast
  qed
qed

lemma is_fact_note_path_iff: "is_fact_note_path p \<longleftrightarrow> fact_segments (split_char CHR ''/'' p)"
  by (auto simp: is_fact_note_path_def fact_components_iff)

lemma fact_path_join:
  assumes "fact_segments segs"
  shows "split_char CHR ''/'' (join_str ''/'' segs) = segs" "is_fact_note_path (join_str ''/'' segs)"
proof -
  have "\<forall>w \<in> set segs. CHR ''/'' \<notin> set w" using assms unfolding fact_segments_def list_all_iff good_segment_def by blast
  moreover have "segs \<noteq> []" using assms unfolding fact_segments_def by force
  ultimately show *: "split_char CHR ''/'' (join_str ''/'' segs) = segs" by (rule split_join_char)
  show "is_fact_note_path (join_str ''/'' segs)" using assms * by (simp add: is_fact_note_path_iff)
qed

text \<open>Where the file of a fact and its folder are.\<close>

definition vault_dir :: "string \<Rightarrow> fpath" where
  "vault_dir root = resolve_parts (path_parts root)"

lemma fact_path_at:
  assumes "is_fact_note_path p"
  shows "at root p = vault_dir root @ split_char CHR ''/'' p"
    and "parent_of root p = vault_dir root @ butlast (split_char CHR ''/'' p)"
proof -
  let ?s = "split_char CHR ''/'' p"
  have seg: "list_all good_segment ?s" "2 \<le> length ?s" using assms by (simp_all add: is_fact_note_path_iff fact_segments_def)
  then have parts: "path_parts p = ?s" unfolding path_parts_def
    by (intro filter_True) (auto simp: list_all_iff good_segment_def)
  have up: "''..'' \<notin> set ?s" using seg(1) by (auto simp: list_all_iff good_segment_def)
  have "\<not> prefix ''/'' p" using seg(1) by (cases p) (auto simp: good_segment_def)
  then have "path_parts (path_join root p) = path_parts root @ ?s" by (simp add: path_parts_join parts)
  moreover have "butlast (path_parts root @ ?s) = path_parts root @ butlast ?s" using seg(2) by (simp add: butlast_append)
  moreover have "''..'' \<notin> set (butlast ?s)" using up by (meson in_set_butlastD)
  ultimately show "at root p = vault_dir root @ ?s" "parent_of root p = vault_dir root @ butlast ?s"
    using up by (simp_all add: at_def parent_of_def vault_dir_def resolve_parts_plain)
qed

section \<open>File names of facts\<close>

lemma split_ws_chars: "w \<in> set (split_ws cur cs) \<Longrightarrow> set w \<subseteq> set cur \<union> \<Union> (set ` set cs)"
  by (induction cs arbitrary: cur) (fastforce split: if_splits)+

lemma join_str_chars: "set (join_str sep ws) \<subseteq> set sep \<union> \<Union> (set ` set ws)"
  by (induction sep ws rule: join_str.induct) auto

lemma join_words_chars: "set (join_words s) \<subseteq> {CHR '' ''} \<union> set s"
proof -
  have "\<Union> (set ` set (utf8_chars s)) = set s" by (metis concat_utf8_chars set_concat)
  then have "set w \<subseteq> set s" if "w \<in> set (split_whitespace s)" for w
    using split_ws_chars [of w "[]" "utf8_chars s"] that by (simp add: split_whitespace_def)
  then show ?thesis using join_str_chars [of "'' ''" "split_whitespace s"] unfolding join_words_def by fastforce
qed

lemma slug_no_separator: "CHR ''/'' \<notin> set (sanitize_fact_slug f t)" "CHR 0x5C \<notin> set (sanitize_fact_slug f t)"
  unfolding sanitize_fact_slug_def
  using join_words_chars [of "map (\<lambda>c. if c = CHR ''/'' \<or> c = CHR 0x5C then CHR '' '' else c)
       (trim_matches_char CHR ''.'' (trim (sanitize_slug f t)))"]
  by (auto split: if_splits)

lemma name_split_md: "n \<noteq> [] \<Longrightarrow> name_split (n @ ''.md'') = (n, Some ''md'')"
  using rsplit_once_app [of "CHR ''.''" "''md''" n] by (simp add: name_split_def)

lemma md_segment:
  assumes "n \<noteq> []" "CHR ''/'' \<notin> set n" "CHR 0x5C \<notin> set n"
  shows "good_segment (n @ ''.md'')" "md_name (n @ ''.md'')"
proof -
  have "n @ ''.md'' \<noteq> ''.''" "n @ ''.md'' \<noteq> ''..''" using assms(1) by (auto simp: append_eq_Cons_conv)
  with assms show "good_segment (n @ ''.md'')" by (simp add: good_segment_def)
  show "md_name (n @ ''.md'')" using name_split_md [OF assms(1)] assms(1) by (simp add: md_name_def)
qed

lemma fact_path_new:
  assumes "list_all good_segment ps" "ps \<noteq> []" "hd ps = ''facts''"
    and "n \<noteq> []" "CHR ''/'' \<notin> set n" "CHR 0x5C \<notin> set n"
  shows "is_fact_note_path (join_str ''/'' ps @ ''/'' @ n @ ''.md'')"
    and "split_char CHR ''/'' (join_str ''/'' ps @ ''/'' @ n @ ''.md'') = ps @ [n @ ''.md'']"
proof -
  have seg: "fact_segments (ps @ [n @ ''.md''])"
    using assms md_segment [OF assms(4-6)] by (cases ps) (simp_all add: fact_segments_def)
  have join: "join_str ''/'' ps @ ''/'' @ w = join_str ''/'' (ps @ [w])" if "ps \<noteq> []" for ps and w :: string
    using that by (induction "''/''" ps rule: join_str.induct) simp_all
  show "is_fact_note_path (join_str ''/'' ps @ ''/'' @ n @ ''.md'')"
    "split_char CHR ''/'' (join_str ''/'' ps @ ''/'' @ n @ ''.md'') = ps @ [n @ ''.md'']"
    using fact_path_join [OF seg] join [OF assms(2), of "n @ ''.md''"] by simp_all
qed

end
