(* ===== verification/MemoryOps.thy ===== *)
theory MemoryOps
  imports Facts
begin

text \<open>
  The memory operations (\<open>notesmith-ops/src/lib.rs\<close>, \<open>memory_save\<close>, \<open>memory_update\<close>, \<open>memory_supersede\<close>,
  \<open>memory_delete\<close>) over the native engine: loading and checking a fact, the preview with its token, and the
  writes with their rollback.  Rows and hits of the index come from \<open>FactLib\<close>; a refresh of the index may
  fail.  \<open>None\<close> is a search for a free file name that does not end.
\<close>

section \<open>Environment\<close>

record FactNoteMeta =
  fmeta_path :: string
  fmeta_title :: string
  fmeta_claim :: string
  fmeta_scope :: "string option"
  fmeta_certainty :: "string option"
  fmeta_source :: "string option"

record FactHit =
  hit_path :: string
  hit_score :: "32 word"
  hit_lexical_rank :: "nat option"
  hit_semantic_rank :: "nat option"

record MemoryReviewCandidate =
  mc_path :: string
  mc_hash :: string
  mc_title :: string
  mc_claim :: string
  mc_scope :: "string option"
  mc_certainty :: "string option"
  mc_source :: "string option"
  mc_status :: string
  mc_score :: "32 word"
  mc_rank :: nat
  mc_lexical_rank :: "nat option"
  mc_semantic_rank :: "nat option"
  mc_exact_duplicate :: bool

record MemoryPreviewTokenCandidate =
  tc_path :: string
  tc_hash :: string
  tc_score :: "32 word"
  tc_rank :: nat
  tc_lexical_rank :: "nat option"
  tc_semantic_rank :: "nat option"
  tc_exact_duplicate :: bool

record MemoryPreviewTokenPayload =
  tp_version :: nat
  tp_operation :: string
  tp_current_path :: "string option"
  tp_expected_hash :: "string option"
  tp_mutation_timestamp :: string
  tp_proposed_path :: string
  tp_proposed_hash :: string
  tp_candidates :: "MemoryPreviewTokenCandidate list"

record FactLib =
  fl_io :: IoFaults
  fl_root :: string
  fl_hash :: "string \<Rightarrow> string"
  fl_temp_tag :: string
  fl_yaml :: YamlLib
  fl_fields :: "string \<Rightarrow> frontmatter option"
  fl_number :: "json_num \<Rightarrow> string"
  fl_alnum :: "string \<Rightarrow> bool"
  fl_now :: string
  fl_today :: string
  fl_mac :: "string \<Rightarrow> string"
  fl_from_hex :: "string \<Rightarrow> string option"
  fl_write_json :: "MemoryPreviewTokenPayload \<Rightarrow> string"
  fl_read_json :: "string \<Rightarrow> MemoryPreviewTokenPayload option"
  fl_active :: "string + FactNoteMeta list"
  fl_search :: "string \<Rightarrow> nat \<Rightarrow> string set \<Rightarrow> string + FactHit list"
  fl_refresh :: "string \<Rightarrow> FileTree \<Rightarrow> string option"
  fl_unindex :: "string \<Rightarrow> FileTree \<Rightarrow> string option"

section \<open>Loading a fact\<close>

record LoadedFactNote =
  lf_path :: string
  lf_hash :: string
  lf_body :: string
  lf_mapping :: yaml_map
  lf_title :: string
  lf_claim :: string
  lf_description :: string
  lf_scope :: "string option"
  lf_subject :: "string option"
  lf_certainty :: "string option"
  lf_source :: "string option"
  lf_status :: string
  lf_confirmed :: "string option"
  lf_supersedes :: "string option"
  lf_tags :: "string list"

definition fact_of ::
  "FactLib \<Rightarrow> string \<Rightarrow> string \<Rightarrow> string \<Rightarrow> frontmatter \<Rightarrow> yaml_map \<Rightarrow> LoadedFactNote" where
  "fact_of lib path content body fm m =
     (let get = fm_string (yl_to (fl_yaml lib)) (fl_number lib) fm;
          filled = (\<lambda>s. case s of Some v \<Rightarrow> if trim v = [] then None else Some v | None \<Rightarrow> None);
          title = (case fm_str fm ''title'' of Some t \<Rightarrow> t | None \<Rightarrow> stem_text (last (split_char CHR ''/'' path)));
          description = (case filled (get ''description'') of
              Some d \<Rightarrow> d
            | None \<Rightarrow> (case first_fact_paragraph body of Some p \<Rightarrow> p | None \<Rightarrow> title))
      in \<lparr>lf_path = path, lf_hash = fl_hash lib content, lf_body = body, lf_mapping = m, lf_title = title,
          lf_claim = (case first_fact_paragraph body of Some p \<Rightarrow> p | None \<Rightarrow> description),
          lf_description = description, lf_scope = get ''scope'', lf_subject = get ''subject'',
          lf_certainty = get ''certainty'', lf_source = get ''source'',
          lf_status = (case filled (get ''status'') of Some s \<Rightarrow> s | None \<Rightarrow> ''active''),
          lf_confirmed = get ''confirmed'', lf_supersedes = get ''supersedes'', lf_tags = fm_tags fm\<rparr>)"

definition load_fact_note :: "FactLib \<Rightarrow> string \<Rightarrow> bool \<Rightarrow> FileTree \<Rightarrow> string + LoadedFactNote" where
  "load_fact_note lib path reject_examples t =
     (if \<not> is_fact_note_path path then Inl ''memory tools only operate on facts/ note paths with type: fact''
      else if reject_examples \<and> is_example_fact_path path then Inl ''memory tools do not delete or mutate example facts''
      else case engine_read (fl_io lib) (fl_root lib) path t of
          Inl e \<Rightarrow> Inl (notesmith_error_text e)
        | Inr content \<Rightarrow>
            (case extract_frontmatter content of
               (raw, body) \<Rightarrow>
                 (case Option.bind raw (fl_fields lib) of
                    None \<Rightarrow> Inl ''memory tools only operate on notes with type: fact frontmatter''
                  | Some fm \<Rightarrow>
                      if fm_str fm ''type'' \<noteq> Some ''fact''
                      then Inl ''memory tools only operate on notes whose current type is type: fact''
                      else (case raw_frontmatter_to_mapping (fl_yaml lib) raw of
                              Inl e \<Rightarrow> Inl e
                            | Inr m \<Rightarrow>
                                if reject_examples \<and> list_ex (\<lambda>tag. eq_ignore_ascii_case tag ''example'') (fm_tags fm)
                                then Inl ''memory tools do not delete or mutate example facts''
                                else Inr (fact_of lib path content body fm m)))))"

definition write_conflict_text :: "string \<Rightarrow> string \<Rightarrow> string \<Rightarrow> string" where
  "write_conflict_text path expected actual =
     ''write conflict for '' @ path @ '' (expected '' @ expected @ '', actual '' @ actual @ '')''"

definition ensure_fact_hash_matches :: "FactLib \<Rightarrow> string \<Rightarrow> string \<Rightarrow> FileTree \<Rightarrow> string + unit" where
  "ensure_fact_hash_matches lib path expected_hash t =
     (case load_fact_note lib path False t of
        Inl e \<Rightarrow> Inl e
      | Inr loaded \<Rightarrow>
          if lf_hash loaded \<noteq> expected_hash then Inl (write_conflict_text path expected_hash (lf_hash loaded)) else Inr ())"

section \<open>Candidates for review\<close>

definition DEFAULT_MEMORY_REVIEW_LIMIT :: nat where
  "DEFAULT_MEMORY_REVIEW_LIMIT = 10"

definition MAX_MEMORY_REVIEW_LIMIT :: nat where
  "MAX_MEMORY_REVIEW_LIMIT = 25"

definition in_scope :: "string option \<Rightarrow> string option \<Rightarrow> bool" where
  "in_scope filter_scope fact_scope =
     (case filter_scope of
        None \<Rightarrow> True
      | Some wanted \<Rightarrow> (case fact_scope of None \<Rightarrow> False | Some s \<Rightarrow> s = ''user'' \<or> s = wanted))"

definition named_meta :: "FactNoteMeta \<Rightarrow> FactNoteMeta" where
  "named_meta meta =
     (let titled = (if trim (fmeta_title meta) = []
                    then meta\<lparr>fmeta_title := stem_text (last (split_char CHR ''/'' (fmeta_path meta)))\<rparr> else meta)
      in if trim (fmeta_claim titled) = [] then titled\<lparr>fmeta_claim := fmeta_title titled\<rparr> else titled)"

definition active_fact_candidates :: "string option \<Rightarrow> FactNoteMeta list \<Rightarrow> string \<rightharpoonup> FactNoteMeta" where
  "active_fact_candidates scope rows =
     collect_map (map (\<lambda>meta. (fmeta_path meta, named_meta meta))
       (filter (\<lambda>meta. \<not> is_example_fact_path (fmeta_path meta) \<and> in_scope scope (fmeta_scope meta)) rows))"

definition review_candidate :: "string \<Rightarrow> string \<Rightarrow> nat \<Rightarrow> FactHit \<Rightarrow> FactNoteMeta \<Rightarrow> string \<Rightarrow> MemoryReviewCandidate" where
  "review_candidate claim scope idx hit meta hash =
     \<lparr>mc_path = hit_path hit, mc_hash = hash,
      mc_title = (if fmeta_title meta = [] then stem_text (last (split_char CHR ''/'' (fmeta_path meta))) else fmeta_title meta),
      mc_claim = fmeta_claim meta, mc_scope = fmeta_scope meta, mc_certainty = fmeta_certainty meta,
      mc_source = fmeta_source meta, mc_status = ''active'', mc_score = hit_score hit, mc_rank = idx + 1,
      mc_lexical_rank = hit_lexical_rank hit, mc_semantic_rank = hit_semantic_rank hit,
      mc_exact_duplicate =
        (normalize_claim (fmeta_claim meta) = normalize_claim claim \<and>
         map ascii_lower (case fmeta_scope meta of Some s \<Rightarrow> s | None \<Rightarrow> []) = map ascii_lower (trim scope))\<rparr>"

fun review_hits ::
  "FactLib \<Rightarrow> string \<Rightarrow> string \<Rightarrow> (string \<rightharpoonup> FactNoteMeta) \<Rightarrow> FileTree \<Rightarrow> nat \<Rightarrow> FactHit list \<Rightarrow> MemoryReviewCandidate list" where
  "review_hits lib claim scope facts t idx [] = []"
| "review_hits lib claim scope facts t idx (hit # hits) =
     (case facts (hit_path hit) of
        None \<Rightarrow> review_hits lib claim scope facts t (idx + 1) hits
      | Some meta \<Rightarrow>
          (case load_fact_note lib (hit_path hit) False t of
             Inl _ \<Rightarrow> review_hits lib claim scope facts t (idx + 1) hits
           | Inr loaded \<Rightarrow>
               review_candidate claim scope idx hit meta (lf_hash loaded) # review_hits lib claim scope facts t (idx + 1) hits))"

definition build_review_candidates ::
  "FactLib \<Rightarrow> string \<Rightarrow> string \<Rightarrow> string option \<Rightarrow> FileTree \<Rightarrow> string + MemoryReviewCandidate list" where
  "build_review_candidates lib claim scope exclude_path t =
     (case fl_active lib of
        Inl e \<Rightarrow> Inl e
      | Inr rows \<Rightarrow>
          (let facts = active_fact_candidates (Some scope) rows;
               allowed = {p \<in> fmeta_path ` set rows. facts p \<noteq> None \<and> exclude_path \<noteq> Some p}
           in case (if allowed = {} then Inr []
                    else fl_search lib claim (min DEFAULT_MEMORY_REVIEW_LIMIT MAX_MEMORY_REVIEW_LIMIT) allowed) of
                Inl e \<Rightarrow> Inl e
              | Inr hits \<Rightarrow> Inr (review_hits lib claim scope facts t 0 hits)))"

section \<open>Preview tokens\<close>

definition token_candidate :: "MemoryReviewCandidate \<Rightarrow> MemoryPreviewTokenCandidate" where
  "token_candidate c =
     \<lparr>tc_path = mc_path c, tc_hash = mc_hash c, tc_score = mc_score c, tc_rank = mc_rank c,
      tc_lexical_rank = mc_lexical_rank c, tc_semantic_rank = mc_semantic_rank c, tc_exact_duplicate = mc_exact_duplicate c\<rparr>"

definition token_payload ::
  "string \<Rightarrow> string option \<Rightarrow> string option \<Rightarrow> string \<Rightarrow> PlannedFactDocument \<Rightarrow> MemoryReviewCandidate list \<Rightarrow> MemoryPreviewTokenPayload" where
  "token_payload operation current_path expected_hash timestamp proposed candidates =
     \<lparr>tp_version = 1, tp_operation = operation, tp_current_path = current_path, tp_expected_hash = expected_hash,
      tp_mutation_timestamp = timestamp, tp_proposed_path = pd_path proposed, tp_proposed_hash = pd_hash proposed,
      tp_candidates = map token_candidate candidates\<rparr>"

definition build_preview_token ::
  "FactLib \<Rightarrow> string \<Rightarrow> string option \<Rightarrow> string option \<Rightarrow> string \<Rightarrow> PlannedFactDocument \<Rightarrow> MemoryReviewCandidate list \<Rightarrow> string" where
  "build_preview_token lib operation current_path expected_hash timestamp proposed candidates =
     (let raw = fl_write_json lib (token_payload operation current_path expected_hash timestamp proposed candidates)
      in fl_mac lib raw @ '':'' @ raw)"

definition token_expired :: string where
  "token_expired = ''preview_token invalid or expired; rerun preview after daemon restart or after any input change''"

definition token_required :: string where
  "token_required = ''apply requires preview_token from a fresh preview of the same mutation''"

definition preview_token_timestamp :: "FactLib \<Rightarrow> bool \<Rightarrow> string option \<Rightarrow> string + string" where
  "preview_token_timestamp lib confirm_apply preview_token =
     (if \<not> confirm_apply then Inr (fl_now lib)
      else case preview_token of
          None \<Rightarrow> Inl token_required
        | Some supplied \<Rightarrow>
            (case split_once '':'' supplied of
               None \<Rightarrow> Inl token_expired
             | Some (signature, raw) \<Rightarrow>
                 (case fl_from_hex lib signature of
                    None \<Rightarrow> Inl token_expired
                  | Some expected \<Rightarrow>
                      if fl_mac lib raw \<noteq> expected then Inl token_expired
                      else (case fl_read_json lib raw of
                              None \<Rightarrow> Inl token_expired
                            | Some payload \<Rightarrow> Inr (tp_mutation_timestamp payload)))))"

datatype MemoryReply =
    MemoryPlan string string PlannedFactDocument "MemoryReviewCandidate list"
  | FactApplied string string string
  | FactSuperseded string string string string
  | FactDeleted string

definition apply_fact_preview ::
  "FactLib \<Rightarrow> string \<Rightarrow> string option \<Rightarrow> string option \<Rightarrow> string \<Rightarrow> PlannedFactDocument \<Rightarrow> MemoryReviewCandidate list \<Rightarrow>
     bool \<Rightarrow> string option \<Rightarrow> string + MemoryReply" where
  "apply_fact_preview lib operation current_path expected_hash timestamp proposed candidates confirm_apply preview_token =
     (let computed = build_preview_token lib operation current_path expected_hash timestamp proposed candidates
      in if \<not> confirm_apply then Inr (MemoryPlan computed operation proposed candidates)
         else case preview_token of
             None \<Rightarrow> Inl token_required
           | Some supplied \<Rightarrow>
               if supplied \<noteq> computed then Inl token_expired
               else if list_ex mc_exact_duplicate candidates
               then Inl ''exact duplicate candidate exists; update or supersede the existing fact instead''
               else Inr (FactApplied (pd_path proposed) (pd_hash proposed) (pd_content proposed)))"

section \<open>Writing\<close>

definition save_at :: "FactLib \<Rightarrow> string \<Rightarrow> string \<Rightarrow> string" where
  "save_at lib timestamp content = apply_save_pipeline (yl_from (fl_yaml lib)) (yl_to (fl_yaml lib)) timestamp content"

definition plan_fact_document :: "FactLib \<Rightarrow> string \<Rightarrow> FactDraft \<Rightarrow> string option \<Rightarrow> string \<Rightarrow> PlannedFactDocument" where
  "plan_fact_document lib path draft replacement_body timestamp =
     (let content = save_at lib timestamp (build_fact_document (fl_yaml lib) draft replacement_body)
      in \<lparr>pd_path = path, pd_content = content, pd_hash = fl_hash lib content\<rparr>)"

definition fact_parent :: "string option \<Rightarrow> string" where
  "fact_parent current_path =
     (case current_path of
        Some path \<Rightarrow> (let parent = join_str ''/'' (butlast (split_char CHR ''/'' path)) in if parent = [] then ''facts'' else parent)
      | None \<Rightarrow> ''facts'')"

definition fact_candidate :: "string \<Rightarrow> string \<Rightarrow> nat \<Rightarrow> string" where
  "fact_candidate parent stem index = parent @ ''/'' @ stem @ '' ('' @ show_nat index @ '').md''"

text \<open>A free path for the title, or the current one; \<open>None\<close> when the search does not end.\<close>

definition target_fact_path :: "FactLib \<Rightarrow> string \<Rightarrow> string option \<Rightarrow> FileTree \<Rightarrow> (string + string) option" where
  "target_fact_path lib title current_path t =
     (let slug = sanitize_fact_slug (fl_alnum lib) title;
          parent = fact_parent current_path;
          base = parent @ ''/'' @ slug @ ''.md'';
          taken = (\<lambda>path. current_path \<noteq> Some path \<and> os_exists t (at (fl_root lib) path))
      in if slug = [] then Some (Inl ''fact title does not produce a safe path under facts/'')
         else if \<not> taken base then Some (Inr base)
         else (let stem = (case file_stem base of Some s \<Rightarrow> s | None \<Rightarrow> slug)
               in map_option Inr (search_free (fact_candidate parent stem) taken 1)))"

definition ensure_note_missing :: "FactLib \<Rightarrow> string \<Rightarrow> FileTree \<Rightarrow> string + unit" where
  "ensure_note_missing lib path t =
     (case engine_read (fl_io lib) (fl_root lib) path t of
        Inr _ \<Rightarrow> Inl (''note already exists: '' @ path)
      | Inl (NoteNotFound _) \<Rightarrow> Inr ()
      | Inl e \<Rightarrow> Inl (notesmith_error_text e))"

definition write_content :: "FactLib \<Rightarrow> string \<Rightarrow> string option \<Rightarrow> string \<Rightarrow> FileTree \<Rightarrow> (string + string) \<times> FileTree" where
  "write_content lib path expected_hash content t =
     (case engine_write (fl_io lib) (fl_hash lib) (fl_temp_tag lib) (fl_root lib) path expected_hash content t of
        (Inl e, t1) \<Rightarrow> (Inl (notesmith_error_text e), t1)
      | (Inr (Written hash), t1) \<Rightarrow> (Inr hash, t1)
      | (Inr (Conflict expected actual), t1) \<Rightarrow> (Inl (write_conflict_text path expected actual), t1))"

definition refresh_indexes :: "FactLib \<Rightarrow> string \<Rightarrow> FileTree \<Rightarrow> string + unit" where
  "refresh_indexes lib path t =
     (case engine_read (fl_io lib) (fl_root lib) path t of
        Inl e \<Rightarrow> Inl (notesmith_error_text e)
      | Inr _ \<Rightarrow> (case fl_refresh lib path t of Some e \<Rightarrow> Inl e | None \<Rightarrow> Inr ()))"

definition remove_from_indexes :: "FactLib \<Rightarrow> string \<Rightarrow> FileTree \<Rightarrow> string + unit" where
  "remove_from_indexes lib path t = (case fl_unindex lib path t of Some e \<Rightarrow> Inl e | None \<Rightarrow> Inr ())"

definition write_or_rename_fact ::
  "FactLib \<Rightarrow> string \<Rightarrow> string \<Rightarrow> string \<Rightarrow> string \<Rightarrow> FileTree \<Rightarrow> (string + string) \<times> FileTree" where
  "write_or_rename_fact lib from_path to_path expected_hash content t =
     (if from_path = to_path then
        (case write_content lib from_path (Some expected_hash) content t of
           (Inl e, t1) \<Rightarrow> (Inl e, t1)
         | (Inr hash, t1) \<Rightarrow>
             (case refresh_indexes lib from_path t1 of Inl e \<Rightarrow> (Inl e, t1) | Inr _ \<Rightarrow> (Inr hash, t1)))
      else
        (case ensure_note_missing lib to_path t of
           Inl e \<Rightarrow> (Inl e, t)
         | Inr _ \<Rightarrow>
             (case engine_move (fl_io lib) (fl_root lib) from_path to_path t of
                (Inl e, t1) \<Rightarrow> (Inl (notesmith_error_text e), t1)
              | (Inr _, t1) \<Rightarrow>
                  (case write_content lib to_path (Some expected_hash) content t1 of
                     (Inl e, t2) \<Rightarrow>
                       (case engine_move (fl_io lib) (fl_root lib) to_path from_path t2 of
                          (Inl rollback, t3) \<Rightarrow>
                            (Inl (''fact update partially applied: renamed '' @ from_path @ '' to '' @ to_path @
                                  '' but write failed ('' @ e @ ''); rollback rename also failed ('' @
                                  notesmith_error_text rollback @ ''); file is stranded at '' @ to_path), t3)
                        | (Inr _, t3) \<Rightarrow>
                            (Inl (''fact write failed after renaming '' @ from_path @ '' to '' @ to_path @
                                  '' ('' @ e @ '')''), t3))
                   | (Inr _, t2) \<Rightarrow>
                       (case remove_from_indexes lib from_path t2 of
                          Inl e \<Rightarrow> (Inl e, t2)
                        | Inr _ \<Rightarrow>
                            (case refresh_indexes lib to_path t2 of
                               Inl e \<Rightarrow> (Inl e, t2)
                             | Inr _ \<Rightarrow> (Inr (fl_hash lib content), t2)))))))"

section \<open>The operations\<close>

text \<open>What a mutation plans from the state it reads, before it is confirmed: the timestamp, the document and
  the candidates.  \<open>bind_plan\<close> passes errors and endless searches on.\<close>

fun bind_plan :: "(string + 'a) option \<Rightarrow> ('a \<Rightarrow> (string + 'b) option) \<Rightarrow> (string + 'b) option" where
  "bind_plan None f = None"
| "bind_plan (Some (Inl e)) f = Some (Inl e)"
| "bind_plan (Some (Inr x)) f = f x"

record SaveRequest =
  sr_title :: string
  sr_claim :: string
  sr_description :: "string option"
  sr_scope :: string
  sr_subject :: "string option"
  sr_certainty :: string
  sr_source :: "string option"
  sr_confirmed :: "string option"
  sr_supersedes :: "string option"
  sr_tags :: "string list option"
  sr_acknowledge :: bool

record UpdateRequest =
  ur_title :: "string option"
  ur_claim :: "string option"
  ur_description :: "string option"
  ur_body :: "string option"
  ur_scope :: "string option"
  ur_subject :: "string option"
  ur_certainty :: "string option"
  ur_source :: "string option"
  ur_status :: "string option"
  ur_confirmed :: "string option"
  ur_tags :: "string list option"
  ur_acknowledge :: bool

definition save_plan ::
  "FactLib \<Rightarrow> SaveRequest \<Rightarrow> bool \<Rightarrow> string option \<Rightarrow> FileTree \<Rightarrow>
     (string + string \<times> PlannedFactDocument \<times> MemoryReviewCandidate list) option" where
  "save_plan lib r confirm_apply preview_token t =
     bind_plan (Some (validate_fact_draft (fl_today lib) (sr_title r) (sr_claim r) (sr_description r) (sr_scope r) (sr_subject r)
         (sr_certainty r) (sr_source r) ''active'' (sr_confirmed r) (sr_supersedes r) (sr_tags r) (sr_acknowledge r)))
       (\<lambda>draft. bind_plan (Some (preview_token_timestamp lib confirm_apply preview_token))
       (\<lambda>timestamp. bind_plan (target_fact_path lib (fd_title draft) None t)
       (\<lambda>path. bind_plan (Some (build_review_candidates lib (fd_claim draft) (fd_scope draft) None t))
       (\<lambda>candidates. Some (Inr (timestamp, plan_fact_document lib path draft None timestamp, candidates))))))"

definition memory_save ::
  "FactLib \<Rightarrow> SaveRequest \<Rightarrow> bool \<Rightarrow> string option \<Rightarrow> FileTree \<Rightarrow> ((string + MemoryReply) \<times> FileTree) option" where
  "memory_save lib r confirm_apply preview_token t =
     (case save_plan lib r confirm_apply preview_token t of
        None \<Rightarrow> None
      | Some (Inl e) \<Rightarrow> Some (Inl e, t)
      | Some (Inr (timestamp, proposed, candidates)) \<Rightarrow>
          Some (case apply_fact_preview lib ''memory_save'' None None timestamp proposed candidates confirm_apply preview_token of
             Inl e \<Rightarrow> (Inl e, t)
           | Inr preview \<Rightarrow>
               if \<not> confirm_apply then (Inr preview, t)
               else (case ensure_note_missing lib (pd_path proposed) t of
                       Inl e \<Rightarrow> (Inl e, t)
                     | Inr _ \<Rightarrow>
                         (case write_content lib (pd_path proposed) None (pd_content proposed) t of
                            (Inl e, t1) \<Rightarrow> (Inl e, t1)
                          | (Inr hash, t1) \<Rightarrow>
                              (case refresh_indexes lib (pd_path proposed) t1 of
                                 Inl e \<Rightarrow> (Inl e, t1)
                               | Inr _ \<Rightarrow> (Inr (FactApplied (pd_path proposed) hash (pd_content proposed)), t1))))))"

definition update_draft :: "FactLib \<Rightarrow> UpdateRequest \<Rightarrow> LoadedFactNote \<Rightarrow> string + FactDraft" where
  "update_draft lib r current =
     (case or_else (ur_scope r) (lf_scope current) of
        None \<Rightarrow> Inl ''existing fact is missing scope''
      | Some scope \<Rightarrow>
          validate_fact_draft (fl_today lib)
            (case ur_title r of Some x \<Rightarrow> x | None \<Rightarrow> lf_title current)
            (case ur_claim r of Some x \<Rightarrow> x | None \<Rightarrow> lf_claim current)
            (Some (case ur_description r of Some x \<Rightarrow> x | None \<Rightarrow> lf_description current))
            scope (or_else (ur_subject r) (lf_subject current))
            (case or_else (ur_certainty r) (lf_certainty current) of Some x \<Rightarrow> x | None \<Rightarrow> ''explicit'')
            (or_else (ur_source r) (lf_source current))
            (case ur_status r of Some x \<Rightarrow> x | None \<Rightarrow> lf_status current)
            (or_else (ur_confirmed r) (lf_confirmed current)) (lf_supersedes current)
            (Some (case ur_tags r of Some x \<Rightarrow> x | None \<Rightarrow> lf_tags current)) (ur_acknowledge r))"

definition updated_document :: "FactLib \<Rightarrow> UpdateRequest \<Rightarrow> LoadedFactNote \<Rightarrow> FactDraft \<Rightarrow> string \<Rightarrow> string \<Rightarrow> string + PlannedFactDocument" where
  "updated_document lib r current draft next_path timestamp =
     (let body = (case ur_body r of Some b \<Rightarrow> b | None \<Rightarrow> rebuild_fact_body (lf_body current) (fd_title draft) (fd_claim draft));
          m = update_fact_frontmatter (lf_mapping current) (Some (fd_title draft)) (Some (fd_description draft))
                (Some (fd_scope draft)) (fd_subject draft) (Some (fd_certainty draft)) (fd_source draft)
                (Some (fd_status draft)) (Some (fd_confirmed draft)) (fd_supersedes draft) (Some (fd_tags draft))
      in case build_note_document_from_yaml (fl_yaml lib) m body of
           Inl e \<Rightarrow> Inl e
         | Inr doc \<Rightarrow>
             (let content = save_at lib timestamp doc
              in Inr \<lparr>pd_path = next_path, pd_content = content, pd_hash = fl_hash lib content\<rparr>))"

definition load_guarded :: "FactLib \<Rightarrow> string \<Rightarrow> string \<Rightarrow> FileTree \<Rightarrow> string + LoadedFactNote" where
  "load_guarded lib path expected_hash t =
     (case ensure_fact_hash_matches lib path expected_hash t of
        Inl e \<Rightarrow> Inl e
      | Inr _ \<Rightarrow> load_fact_note lib path True t)"

definition update_plan ::
  "FactLib \<Rightarrow> string \<Rightarrow> string \<Rightarrow> UpdateRequest \<Rightarrow> bool \<Rightarrow> string option \<Rightarrow> FileTree \<Rightarrow>
     (string + string \<times> PlannedFactDocument \<times> MemoryReviewCandidate list) option" where
  "update_plan lib path expected_hash r confirm_apply preview_token t =
     bind_plan (Some (load_guarded lib path expected_hash t))
       (\<lambda>current. bind_plan (Some (update_draft lib r current))
       (\<lambda>draft. bind_plan (Some (preview_token_timestamp lib confirm_apply preview_token))
       (\<lambda>timestamp. bind_plan (target_fact_path lib (fd_title draft) (Some path) t)
       (\<lambda>next_path. bind_plan (Some (updated_document lib r current draft next_path timestamp))
       (\<lambda>proposed. bind_plan (Some (if normalize_claim (fd_claim draft) \<noteq> normalize_claim (lf_claim current)
            then build_review_candidates lib (fd_claim draft) (fd_scope draft) (Some path) t else Inr []))
       (\<lambda>candidates. Some (Inr (timestamp, proposed, candidates))))))))"

definition memory_update ::
  "FactLib \<Rightarrow> string \<Rightarrow> string \<Rightarrow> UpdateRequest \<Rightarrow> bool \<Rightarrow> string option \<Rightarrow> FileTree \<Rightarrow>
     ((string + MemoryReply) \<times> FileTree) option" where
  "memory_update lib path expected_hash r confirm_apply preview_token t =
     (case update_plan lib path expected_hash r confirm_apply preview_token t of
        None \<Rightarrow> None
      | Some (Inl e) \<Rightarrow> Some (Inl e, t)
      | Some (Inr (timestamp, proposed, candidates)) \<Rightarrow>
          Some (case apply_fact_preview lib ''memory_update'' (Some path) (Some expected_hash) timestamp proposed candidates
                  confirm_apply preview_token of
             Inl e \<Rightarrow> (Inl e, t)
           | Inr preview \<Rightarrow>
               if \<not> confirm_apply then (Inr preview, t)
               else (case write_or_rename_fact lib path (pd_path proposed) expected_hash (pd_content proposed) t of
                       (Inl e, t1) \<Rightarrow> (Inl e, t1)
                     | (Inr hash, t1) \<Rightarrow> (Inr (FactApplied (pd_path proposed) hash (pd_content proposed)), t1))))"

definition link_to :: "string \<Rightarrow> string" where
  "link_to title = ''[['' @ title @ '']]''"

definition supersede_draft :: "FactLib \<Rightarrow> SaveRequest \<Rightarrow> LoadedFactNote \<Rightarrow> string + FactDraft" where
  "supersede_draft lib r current =
     (if lf_status current \<noteq> ''active''
      then Inl (''memory_supersede requires an active fact; found status '' @ lf_status current)
      else validate_fact_draft (fl_today lib) (sr_title r) (sr_claim r) (sr_description r) (sr_scope r) (sr_subject r)
             (sr_certainty r) (sr_source r) ''active'' (sr_confirmed r) (Some (link_to (lf_title current))) (sr_tags r)
             (sr_acknowledge r))"

definition superseding_body :: "FactDraft \<Rightarrow> LoadedFactNote \<Rightarrow> string" where
  "superseding_body draft current =
     canonical_fact_body (fd_title draft) (fd_claim draft) @ nl @ nl @ ''Supersedes '' @ link_to (lf_title current) @ ''.''"

definition supersede_plan ::
  "FactLib \<Rightarrow> string \<Rightarrow> string \<Rightarrow> SaveRequest \<Rightarrow> bool \<Rightarrow> string option \<Rightarrow> FileTree \<Rightarrow>
     (string + LoadedFactNote \<times> FactDraft \<times> string \<times> PlannedFactDocument \<times> MemoryReviewCandidate list) option" where
  "supersede_plan lib path expected_hash r confirm_apply preview_token t =
     bind_plan (Some (load_guarded lib path expected_hash t))
       (\<lambda>current. bind_plan (Some (supersede_draft lib r current))
       (\<lambda>draft. bind_plan (Some (preview_token_timestamp lib confirm_apply preview_token))
       (\<lambda>timestamp. bind_plan (target_fact_path lib (fd_title draft) (Some path) t)
       (\<lambda>new_path. bind_plan (Some (build_review_candidates lib (fd_claim draft) (fd_scope draft) None t))
       (\<lambda>candidates. Some (Inr (current, draft, timestamp,
            plan_fact_document lib new_path draft (Some (superseding_body draft current)) timestamp, candidates)))))))"

text \<open>The old fact, marked as superseded.\<close>

definition superseded_text :: "FactLib \<Rightarrow> LoadedFactNote \<Rightarrow> FactDraft \<Rightarrow> string \<Rightarrow> string + string" where
  "superseded_text lib current draft timestamp =
     (let m = update_fact_frontmatter (lf_mapping current) None None None None None None (Some ''superseded'')
                (lf_confirmed current) (lf_supersedes current) (Some (lf_tags current));
          body = append_lifecycle_note (lf_body current) (''Superseded by '' @ link_to (fd_title draft) @ ''.'')
      in map_sum id (save_at lib timestamp) (build_note_document_from_yaml (fl_yaml lib) m body))"

text \<open>The two writes of superseding, once the preview is confirmed.\<close>

definition supersede_write ::
  "FactLib \<Rightarrow> string \<Rightarrow> string \<Rightarrow> LoadedFactNote \<Rightarrow> FactDraft \<Rightarrow> string \<Rightarrow> PlannedFactDocument \<Rightarrow> FileTree \<Rightarrow>
     (string + MemoryReply) \<times> FileTree" where
  "supersede_write lib path expected_hash current draft timestamp proposed t =
     (case ensure_note_missing lib (pd_path proposed) t of
        Inl e \<Rightarrow> (Inl e, t)
      | Inr _ \<Rightarrow>
          (case write_content lib (pd_path proposed) None (pd_content proposed) t of
             (Inl e, t1) \<Rightarrow> (Inl e, t1)
           | (Inr new_hash, t1) \<Rightarrow>
               (case superseded_text lib current draft timestamp of
                  Inl e \<Rightarrow> (Inl e, t1)
                | Inr old_content \<Rightarrow>
                    (case write_content lib path (Some expected_hash) old_content t1 of
                       (Inl e, t2) \<Rightarrow>
                         (case engine_delete (fl_io lib) (fl_root lib) (pd_path proposed) t2 of
                            (Inl rollback, t3) \<Rightarrow>
                              (Inl (''supersede partially applied: new fact written to '' @ pd_path proposed @
                                    '' but old fact update failed ('' @ e @ ''); rollback delete also failed ('' @
                                    notesmith_error_text rollback @ '')''), t3)
                          | (Inr _, t3) \<Rightarrow> (Inl e, t3))
                     | (Inr _, t2) \<Rightarrow>
                         (case refresh_indexes lib (pd_path proposed) t2 of
                            Inl e \<Rightarrow> (Inl e, t2)
                          | Inr _ \<Rightarrow>
                              (case refresh_indexes lib path t2 of
                                 Inl e \<Rightarrow> (Inl e, t2)
                               | Inr _ \<Rightarrow>
                                   (Inr (FactSuperseded path (fl_hash lib old_content) (pd_path proposed) new_hash), t2)))))))"

definition memory_supersede ::
  "FactLib \<Rightarrow> string \<Rightarrow> string \<Rightarrow> SaveRequest \<Rightarrow> bool \<Rightarrow> string option \<Rightarrow> FileTree \<Rightarrow>
     ((string + MemoryReply) \<times> FileTree) option" where
  "memory_supersede lib path expected_hash r confirm_apply preview_token t =
     (case supersede_plan lib path expected_hash r confirm_apply preview_token t of
        None \<Rightarrow> None
      | Some (Inl e) \<Rightarrow> Some (Inl e, t)
      | Some (Inr (current, draft, timestamp, proposed, candidates)) \<Rightarrow>
          Some (case apply_fact_preview lib ''memory_supersede'' (Some path) (Some expected_hash) timestamp proposed candidates
                  confirm_apply preview_token of
             Inl e \<Rightarrow> (Inl e, t)
           | Inr preview \<Rightarrow>
               if \<not> confirm_apply then (Inr preview, t)
               else supersede_write lib path expected_hash current draft timestamp proposed t))"

definition memory_delete :: "FactLib \<Rightarrow> string \<Rightarrow> string \<Rightarrow> bool \<Rightarrow> FileTree \<Rightarrow> (string + MemoryReply) \<times> FileTree" where
  "memory_delete lib path expected_hash confirm_delete t =
     (if \<not> confirm_delete
      then (Inl ''memory_delete requires explicit confirmation because it hard-deletes fact notes'', t)
      else case load_guarded lib path expected_hash t of
          Inl e \<Rightarrow> (Inl e, t)
        | Inr _ \<Rightarrow>
            (case engine_delete (fl_io lib) (fl_root lib) path t of
               (Inl e, t1) \<Rightarrow> (Inl (notesmith_error_text e), t1)
             | (Inr _, t1) \<Rightarrow>
                 (case remove_from_indexes lib path t1 of
                    Inl e \<Rightarrow> (Inl e, t1)
                  | Inr _ \<Rightarrow> (Inr (FactDeleted path), t1))))"

end
