(* ===== verification/MemorySafety.thy ===== *)
theory MemorySafety
  imports MemoryOps
begin

text \<open>
  What the memory operations promise: they stay in the folder \<open>facts/\<close>, apply what a preview showed, never
  lose a fact, and delete only a confirmed fact.
\<close>

section \<open>The engine on fact paths\<close>

definition facts_only :: "string \<Rightarrow> FileTree \<Rightarrow> FileTree \<Rightarrow> bool" where
  "facts_only root t t' \<longleftrightarrow>
     (\<forall>k. \<not> prefix (vault_dir root @ [''facts'']) k \<longrightarrow> ft_files t' k = ft_files t k)"

lemma facts_only_refl [simp]: "facts_only root t t"
  by (simp add: facts_only_def)

lemma facts_only_trans [trans]: "facts_only root t1 t2 \<Longrightarrow> facts_only root t2 t3 \<Longrightarrow> facts_only root t1 t3"
  by (simp add: facts_only_def)

lemma facts_only_files: "ft_files t' = ft_files t \<Longrightarrow> facts_only root t t'"
  by (simp add: facts_only_def)

lemma fact_path_in_facts:
  assumes "is_fact_note_path p"
  shows "prefix (vault_dir root @ [''facts'']) (at root p)"
    and "prefix (vault_dir root @ [''facts'']) (parent_of root p @ w)"
    and "plain_path (at root p)"
proof -
  let ?s = "split_char CHR ''/'' p"
  have seg: "2 \<le> length ?s" "hd ?s = ''facts''" "md_name (last ?s)"
    using assms by (simp_all add: is_fact_note_path_iff fact_segments_def)
  then obtain a x y ys where s: "?s = ''facts'' # ys" "ys \<noteq> []" by (cases ?s) (auto simp: Suc_le_eq)
  then have "butlast ?s = ''facts'' # butlast ys" by simp
  then show "prefix (vault_dir root @ [''facts'']) (at root p)"
    "prefix (vault_dir root @ [''facts'']) (parent_of root p @ w)"
    using fact_path_at [OF assms, of root] s(1) by simp_all
  have "\<not> suffix ''.tmp'' (last ?s)"
  proof
    assume "suffix ''.tmp'' (last ?s)"
    then obtain q where "last ?s = q @ CHR ''.'' # ''tmp''" by (auto simp: suffix_def)
    then have "name_split (last ?s) = (if q = [] then ([], None) else (q, Some ''tmp'')) \<or> snd (name_split (last ?s)) \<noteq> Some ''md''"
      using rsplit_once_app [of "CHR ''.''" "''tmp''" q] by (auto simp: name_split_def)
    then show False using seg(3) by (auto simp: md_name_def split: if_splits)
  qed
  then show "plain_path (at root p)" using fact_path_at(1) [OF assms, of root] s by (simp add: plain_path_def)
qed

lemma replace_file_files:
  assumes "replace_file io hash tag root path c t = (r, t')" "k \<noteq> at root path" "k \<noteq> sibling_temp_path tag root path"
  shows "ft_files t' k = ft_files t k"
proof -
  let ?temp = "sibling_temp_path tag root path"
  obtain r1 t1 where m: "os_mkdir_all io (parent_of root path) t = (r1, t1)" by fastforce
  obtain r2 t2 where w: "os_write io ?temp c t1 = (r2, t2)" by fastforce
  obtain r3 t3 where n: "os_rename io ?temp (at root path) t2 = (r3, t3)" by fastforce
  show ?thesis
    using assms(1) [unfolded replace_file_def m w n Let_def] os_rename_files [OF n] os_write_files [OF w assms(3)]
      os_remove_files [OF assms(3), of io t3] os_mkdir_files [OF m] assms(2,3)
    by (cases r1; cases r2; cases r3) (simp_all add: w n, auto)
qed

lemma write_content_result:
  assumes "write_content lib p e c t = (r, t')"
  shows "r = Inr h \<Longrightarrow> h = fl_hash lib c \<and> ft_files t' (at (fl_root lib) p) = Some c \<and>
      (case e of Some x \<Rightarrow> \<exists>old. ft_files t (at (fl_root lib) p) = Some old \<and> fl_hash lib old = x | None \<Rightarrow> True)"
    and "plain_path k \<Longrightarrow> k \<noteq> at (fl_root lib) p \<or> isl r \<Longrightarrow> ft_files t' k = ft_files t k"
    and "is_fact_note_path p \<Longrightarrow> facts_only (fl_root lib) t t'"
proof -
  obtain r1 where w: "engine_write (fl_io lib) (fl_hash lib) (fl_temp_tag lib) (fl_root lib) p e c t = (r1, t')"
    and r: "r = (case r1 of Inl x \<Rightarrow> Inl (notesmith_error_text x) | Inr (Written h) \<Rightarrow> Inr h
                | Inr (Conflict a b) \<Rightarrow> Inl (write_conflict_text p a b))"
    using assms by (cases "engine_write (fl_io lib) (fl_hash lib) (fl_temp_tag lib) (fl_root lib) p e c t")
      (auto simp: write_content_def split: sum.splits WriteResult.splits)
  show "r = Inr h \<Longrightarrow> h = fl_hash lib c \<and> ft_files t' (at (fl_root lib) p) = Some c \<and>
      (case e of Some x \<Rightarrow> \<exists>old. ft_files t (at (fl_root lib) p) = Some old \<and> fl_hash lib old = x | None \<Rightarrow> True)"
    using engine_write_result(1) [OF w] r by (auto split: sum.splits WriteResult.splits)
  show "plain_path k \<Longrightarrow> k \<noteq> at (fl_root lib) p \<or> isl r \<Longrightarrow> ft_files t' k = ft_files t k"
    using engine_write_result(2) [OF w, of k] r by (auto split: sum.splits WriteResult.splits)
  assume p: "is_fact_note_path p"
  have "ft_files t' k = ft_files t k" if "\<not> prefix (vault_dir (fl_root lib) @ [''facts'']) k" for k
  proof -
    have "k \<noteq> at (fl_root lib) p" "k \<noteq> sibling_temp_path (fl_temp_tag lib) (fl_root lib) p"
      using that fact_path_in_facts(1,2) [OF p] unfolding sibling_temp_path_def by metis+
    then show ?thesis using w replace_file_files by (fastforce simp: engine_write_def split: option.splits sum.splits)
  qed
  then show "facts_only (fl_root lib) t t'" by (simp add: facts_only_def)
qed

lemma ensure_note_missing_free: "ensure_note_missing lib p t = Inr u \<Longrightarrow> ft_files t (at (fl_root lib) p) = None"
  by (auto simp: ensure_note_missing_def engine_read_def os_read_def note_io_error_def
      split: sum.splits NotesmithError.splits option.splits if_splits IoError.splits)

section \<open>Where a fact is written\<close>

lemma fact_file_stem:
  assumes "is_fact_note_path p"
  shows "file_stem p = Some (fst (name_split (last (split_char CHR ''/'' p))))"
proof -
  let ?s = "split_char CHR ''/'' p"
  have seg: "list_all good_segment ?s" "?s \<noteq> []" using assms by (auto simp: is_fact_note_path_iff fact_segments_def)
  then have "path_parts p = ?s" unfolding path_parts_def by (intro filter_True) (auto simp: list_all_iff good_segment_def)
  moreover have "last ?s \<noteq> ''..''" using seg last_in_set unfolding list_all_iff good_segment_def by blast
  ultimately show ?thesis using seg(2) by (simp add: file_stem_def file_name_def)
qed

lemma show_nat_no_separator [simp]: "CHR ''/'' \<notin> set (show_nat i)" "CHR 0x5C \<notin> set (show_nat i)"
proof -
  have "\<not> is_digit CHR ''/''" "\<not> is_digit CHR 0x5C" by (simp_all add: is_digit_def)
  then show "CHR ''/'' \<notin> set (show_nat i)" "CHR 0x5C \<notin> set (show_nat i)"
    using show_nat_digits [of i] unfolding list_all_iff by blast+
qed

lemma load_fact_note_facts:
  assumes "load_fact_note lib p b t = Inr f"
  shows "is_fact_note_path p" "b \<Longrightarrow> \<not> is_example_fact_path p"
    and "\<exists>old. ft_files t (at (fl_root lib) p) = Some old \<and> lf_hash f = fl_hash lib old"
    and "lf_path f = p"
proof -
  have p: "is_fact_note_path p" using assms by (rule contrapos_pp) (simp add: load_fact_note_def)
  have e: "b \<longrightarrow> \<not> is_example_fact_path p"
    using assms by (rule contrapos_pp) (simp add: load_fact_note_def)
  have "case engine_read (fl_io lib) (fl_root lib) p t of
      Inl x \<Rightarrow> False
    | Inr c \<Rightarrow> \<exists>body fm m. f = fact_of lib p c body fm m"
    using assms p e unfolding load_fact_note_def by (auto split: sum.splits prod.splits option.splits if_splits)
  then obtain c body fm m where "engine_read (fl_io lib) (fl_root lib) p t = Inr c" and f: "f = fact_of lib p c body fm m"
    by (auto split: sum.splits)
  then have "ft_files t (at (fl_root lib) p) = Some c"
    by (auto simp: engine_read_def os_read_def split: option.splits if_splits sum.splits)
  moreover have "lf_hash f = fl_hash lib c" "lf_path f = p" using f by (simp_all add: fact_of_def Let_def)
  ultimately show "is_fact_note_path p" "b \<Longrightarrow> \<not> is_example_fact_path p"
    "\<exists>old. ft_files t (at (fl_root lib) p) = Some old \<and> lf_hash f = fl_hash lib old" "lf_path f = p"
    using p e by auto
qed

lemma load_guarded_facts:
  assumes "load_guarded lib p h t = Inr f"
  shows "is_fact_note_path p" "\<not> is_example_fact_path p"
    and "\<exists>old. ft_files t (at (fl_root lib) p) = Some old \<and> fl_hash lib old = h"
    and "load_fact_note lib p True t = Inr f"
proof -
  obtain g where "load_fact_note lib p False t = Inr g" "lf_hash g = h" and f: "load_fact_note lib p True t = Inr f"
    using assms by (auto simp: load_guarded_def ensure_fact_hash_matches_def split: sum.splits if_splits)
  then show "\<exists>old. ft_files t (at (fl_root lib) p) = Some old \<and> fl_hash lib old = h"
    using load_fact_note_facts(3) by fastforce
  show "is_fact_note_path p" "\<not> is_example_fact_path p" "load_fact_note lib p True t = Inr f"
    using load_fact_note_facts(1,2) [OF f] f by simp_all
qed

lemma fact_parent_segments:
  assumes "case cur of Some p \<Rightarrow> is_fact_note_path p | None \<Rightarrow> True"
  shows "\<exists>ps. fact_parent cur = join_str ''/'' ps \<and> ps \<noteq> [] \<and> hd ps = ''facts'' \<and> list_all good_segment ps"
proof (cases cur)
  case None
  then show ?thesis by (intro exI [of _ "[''facts'']"]) (simp add: fact_parent_def good_segment_def)
next
  case (Some p)
  let ?s = "split_char CHR ''/'' p"
  have s: "2 \<le> length ?s" "hd ?s = ''facts''" "list_all good_segment ?s"
    using assms Some by (simp_all add: is_fact_note_path_iff fact_segments_def)
  then obtain ys where ys: "?s = ''facts'' # ys" "ys \<noteq> []" by (cases ?s) (auto simp: Suc_le_eq)
  have good: "list_all good_segment (butlast ?s)" using s(3) in_set_butlastD unfolding list_all_iff by metis
  have "join_str ''/'' (butlast ?s) \<noteq> []" using ys by (cases "butlast ys") simp_all
  then show ?thesis using Some ys good by (intro exI [of _ "butlast ?s"]) (simp add: fact_parent_def Let_def)
qed

lemma target_fact_path_safe:
  assumes "target_fact_path lib title cur t = Some (Inr p)"
    and "case cur of Some q \<Rightarrow> is_fact_note_path q | None \<Rightarrow> True"
  shows "is_fact_note_path p" and "cur = Some p \<or> \<not> os_exists t (at (fl_root lib) p)"
proof -
  let ?slug = "sanitize_fact_slug (fl_alnum lib) title"
  let ?base = "fact_parent cur @ ''/'' @ ?slug @ ''.md''"
  let ?taken = "\<lambda>path. cur \<noteq> Some path \<and> os_exists t (at (fl_root lib) path)"
  obtain ps where ps: "fact_parent cur = join_str ''/'' ps" "ps \<noteq> []" "hd ps = ''facts''" "list_all good_segment ps"
    using fact_parent_segments [OF assms(2)] by blast
  have at: "cur = Some p \<or> \<not> os_exists t (at (fl_root lib) p)" if "\<not> ?taken p" for p using that by blast
  have new: "is_fact_note_path (fact_parent cur @ ''/'' @ n @ ''.md'')"
    if "n \<noteq> []" "CHR ''/'' \<notin> set n" "CHR 0x5C \<notin> set n" for n
    using fact_path_new(1) [OF ps(4,2,3) that] by (simp add: ps(1))
  have slug: "?slug \<noteq> []" using assms(1) by (auto simp: target_fact_path_def Let_def)
  have stem: "file_stem ?base = Some ?slug"
    using fact_file_stem [OF new] fact_path_new(2) [OF ps(4,2,3) slug slug_no_separator] slug slug_no_separator
    by (simp add: ps(1) name_split_md)
  consider "p = ?base" "\<not> ?taken ?base" | "search_free (fact_candidate (fact_parent cur) ?slug) ?taken 1 = Some p"
  proof (cases "?taken ?base")
    case True
    then have "map_option Inr (search_free (fact_candidate (fact_parent cur) ?slug) ?taken 1) = Some (Inr p :: string + string)"
      using assms(1) slug stem unfolding target_fact_path_def Let_def by simp
    then show ?thesis using that(2) by auto
  next
    case False
    then have "p = ?base" using assms(1) slug unfolding target_fact_path_def Let_def by (simp split: if_splits)
    then show ?thesis using that(1) False by blast
  qed
  then have "is_fact_note_path p \<and> \<not> ?taken p"
  proof cases
    case 1
    have "is_fact_note_path ?base" by (rule new) (simp_all add: slug slug_no_separator)
    with 1 show ?thesis by simp
  next
    case 2
    then obtain m where m: "p = fact_candidate (fact_parent cur) ?slug m" "\<not> ?taken p" using search_free_found [OF 2] by fast
    have "is_fact_note_path p" using new [of "?slug @ '' ('' @ show_nat m @ '')''"] slug_no_separator
      by (simp add: fact_candidate_def m(1))
    with m(2) show ?thesis by simp
  qed
  then show "is_fact_note_path p" "cur = Some p \<or> \<not> os_exists t (at (fl_root lib) p)" using at by simp_all
qed

section \<open>One fact moves or changes\<close>

text \<open>The texts at plain paths: temporary files are left out.\<close>

definition plain_files :: "FileTree \<Rightarrow> fpath \<rightharpoonup> string" where
  "plain_files t = ft_files t |` {k. plain_path k}"

lemma plain_files_at [simp]: "plain_path k \<Longrightarrow> plain_files t k = ft_files t k"
  by (simp add: plain_files_def)

lemma write_content_plain:
  assumes "write_content lib p e c t = (r, t')" "plain_path (at (fl_root lib) p)"
  shows "plain_files t' = (case r of Inl _ \<Rightarrow> plain_files t | Inr _ \<Rightarrow> (plain_files t)(at (fl_root lib) p \<mapsto> c))"
proof
  fix k
  show "plain_files t' k = (case r of Inl _ \<Rightarrow> plain_files t | Inr _ \<Rightarrow> (plain_files t)(at (fl_root lib) p \<mapsto> c)) k"
  proof (cases "plain_path k")
    case True
    show ?thesis
    proof (cases r)
      case (Inl e)
      then show ?thesis using write_content_result(2) [OF assms(1) True] True by simp
    next
      case (Inr h)
      then show ?thesis using write_content_result(2) [OF assms(1) True] write_content_result(1) [OF assms(1) Inr] True
        by (cases "k = at (fl_root lib) p") simp_all
    qed
  next
    case False
    with assms(2) show ?thesis by (cases r) (auto simp: plain_files_def)
  qed
qed

lemma move_plain:
  assumes "engine_move io root a b t = (r, t')" "plain_path (at root a)" "plain_path (at root b)"
  shows "case r of Inl _ \<Rightarrow> plain_files t' = plain_files t
      | Inr _ \<Rightarrow> \<exists>c. ft_files t (at root a) = Some c \<and> plain_files t' = ((plain_files t)(at root a := None))(at root b \<mapsto> c)"
  using engine_move_result [OF assms(1)] assms(2,3)
  by (cases r) (auto simp: plain_files_def restrict_map_def fun_eq_iff)

lemma delete_plain:
  assumes "engine_delete io root p t = (r, t')"
  shows "plain_files t' = (case r of Inl _ \<Rightarrow> plain_files t | Inr _ \<Rightarrow> (plain_files t)(at root p := None))"
  using engine_delete_result [OF assms] by (cases r) (auto simp: plain_files_def restrict_map_def)

definition one_fact :: "FileTree \<Rightarrow> FileTree \<Rightarrow> fpath \<Rightarrow> fpath \<Rightarrow> string \<Rightarrow> bool" where
  "one_fact t t' a k txt \<longleftrightarrow>
     plain_files t' = ((plain_files t)(a := None))(k \<mapsto> txt) \<and> (k = a \<or> ft_files t k = None)"

lemma one_fact_same: "ft_files t a = Some old \<Longrightarrow> plain_path a \<Longrightarrow> plain_files t' = plain_files t \<Longrightarrow> one_fact t t' a a old"
  by (auto simp: one_fact_def fun_eq_iff)

lemma write_or_rename_fate:
  assumes run: "write_or_rename_fact lib p q h c t = (r, t')"
    and facts: "is_fact_note_path p" "is_fact_note_path q"
    and old: "ft_files t (at (fl_root lib) p) = Some old"
  shows "\<exists>k txt. one_fact t t' (at (fl_root lib) p) k txt \<and>
      (k = at (fl_root lib) p \<and> txt = old \<and> isl r \<or>
       k = at (fl_root lib) q \<and> txt = old \<and> isl r \<or>
       k = at (fl_root lib) q \<and> txt = c \<and> fl_hash lib old = h \<and> (\<forall>x. r = Inr x \<longrightarrow> x = fl_hash lib c))"
proof -
  let ?a = "at (fl_root lib) p" and ?b = "at (fl_root lib) q"
  have plain: "plain_path ?a" "plain_path ?b" using facts fact_path_in_facts(3) by simp_all
  have keep: ?thesis if "isl r" "plain_files t' = plain_files t"
    using that one_fact_same [OF old plain(1)] by blast
  show ?thesis
  proof (cases "p = q")
    case True
    obtain r1 t1 where w: "write_content lib p (Some h) c t = (r1, t1)" by fastforce
    note unf = run [unfolded write_or_rename_fact_def w]
    show ?thesis
    proof (cases r1)
      case (Inl e)
      then have "isl r" "plain_files t' = plain_files t" using unf True write_content_plain [OF w plain(1)] by auto
      then show ?thesis by (rule keep)
    next
      case (Inr x)
      have "t' = t1" "\<forall>y. r = Inr y \<longrightarrow> y = x" using unf True Inr by (auto split: sum.splits)
      moreover have "one_fact t t1 ?a ?a c" using write_content_plain [OF w plain(1)] Inr by (simp add: one_fact_def)
      moreover have "fl_hash lib old = h" "x = fl_hash lib c" using write_content_result(1) [OF w Inr] old by simp_all
      ultimately have "one_fact t t' ?a ?b c \<and> fl_hash lib old = h \<and> (\<forall>y. r = Inr y \<longrightarrow> y = fl_hash lib c)" using True by simp
      then show ?thesis by blast
    qed
  next
    case False
    note unf = run [unfolded write_or_rename_fact_def if_not_P [OF False]]
    show ?thesis
    proof (cases "ensure_note_missing lib q t")
      case (Inl e)
      then have "isl r" "plain_files t' = plain_files t" using unf by auto
      then show ?thesis by (rule keep)
    next
      case (Inr u)
      then have free: "ft_files t ?b = None" by (rule ensure_note_missing_free)
      then have ne: "?a \<noteq> ?b" using old by auto
      obtain r1 t1 where m: "engine_move (fl_io lib) (fl_root lib) p q t = (r1, t1)" by fastforce
      note unf = unf [unfolded Inr m, simplified]
      show ?thesis
      proof (cases r1)
        case (Inl e)
        then have "isl r" "plain_files t' = plain_files t" using unf move_plain [OF m plain] by auto
        then show ?thesis by (rule keep)
      next
        case (Inr u)
        have t1: "plain_files t1 = ((plain_files t)(?a := None))(?b \<mapsto> old)"
          using move_plain [OF m plain] Inr old by auto
        obtain r2 t2 where w: "write_content lib q (Some h) c t1 = (r2, t2)" by fastforce
        note unf = unf [unfolded Inr sum.case w, simplified]
        show ?thesis
        proof (cases r2)
          case (Inl e)
          then have t2: "plain_files t2 = plain_files t1" using write_content_plain [OF w plain(2)] by simp
          obtain r3 t3 where b: "engine_move (fl_io lib) (fl_root lib) q p t2 = (r3, t3)" by fastforce
          have t': "t' = t3" "isl r" using unf Inl b by (auto split: sum.splits)
          show ?thesis
          proof (cases r3)
            case (Inl e)
            then have "one_fact t t3 ?a ?b old" using move_plain [OF b plain(2,1)] t1 t2 free by (simp add: one_fact_def)
            with t' show ?thesis by blast
          next
            case (Inr u)
            have "ft_files t2 ?b = Some old" using t1 t2 plain(2) by (metis fun_upd_same plain_files_at)
            then have "plain_files t3 = ((plain_files t1)(?b := None))(?a \<mapsto> old)"
              using move_plain [OF b plain(2,1)] Inr t2 by auto
            also have "\<dots> = plain_files t" using t1 ne free old plain by (auto simp: fun_eq_iff)
            finally have "plain_files t' = plain_files t" using t'(1) by simp
            with t'(2) show ?thesis by (rule keep)
          qed
        next
          case (Inr x)
          have t': "t' = t2" "\<forall>y. r = Inr y \<longrightarrow> y = fl_hash lib c" using unf Inr by (auto split: sum.splits)
          have "ft_files t1 ?b = Some old" using t1 plain(2) by (metis fun_upd_same plain_files_at)
          then have "fl_hash lib old = h" using write_content_result(1) [OF w Inr] by simp
          moreover have "one_fact t t2 ?a ?b c" using write_content_plain [OF w plain(2)] Inr t1 free by (simp add: one_fact_def)
          ultimately show ?thesis using t' by blast
        qed
      qed
    qed
  qed
qed

lemma move_facts_only:
  assumes "engine_move io root p q t = (r, t')" "is_fact_note_path p" "is_fact_note_path q"
  shows "facts_only root t t'"
proof (cases r)
  case (Inl e)
  then show ?thesis using engine_move_result [OF assms(1)] by (simp add: facts_only_files)
next
  case (Inr u)
  then obtain c where "ft_files t' = ((ft_files t)(at root p := None))(at root q \<mapsto> c)" using engine_move_result [OF assms(1)] by auto
  moreover have "k \<noteq> at root p \<and> k \<noteq> at root q" if "\<not> prefix (vault_dir root @ [''facts'']) k" for k
    using that fact_path_in_facts(1) [OF assms(2)] fact_path_in_facts(1) [OF assms(3)] by metis
  ultimately show ?thesis by (simp add: facts_only_def)
qed

lemma delete_facts_only:
  assumes "engine_delete io root p t = (r, t')" "is_fact_note_path p"
  shows "facts_only root t t'"
proof -
  have "k \<noteq> at root p" if "\<not> prefix (vault_dir root @ [''facts'']) k" for k
    using that fact_path_in_facts(1) [OF assms(2)] by metis
  then show ?thesis using engine_delete_result [OF assms(1)] by (cases r) (simp_all add: facts_only_def)
qed

lemma write_or_rename_confined:
  assumes "write_or_rename_fact lib p q h c t = (r, t')" "is_fact_note_path p" "is_fact_note_path q"
  shows "facts_only (fl_root lib) t t'"
proof -
  obtain r0 t0 where s: "write_content lib p (Some h) c t = (r0, t0)" by fastforce
  obtain r1 t1 where m: "engine_move (fl_io lib) (fl_root lib) p q t = (r1, t1)" by fastforce
  obtain r2 t2 where w: "write_content lib q (Some h) c t1 = (r2, t2)" by fastforce
  obtain r3 t3 where b: "engine_move (fl_io lib) (fl_root lib) q p t2 = (r3, t3)" by fastforce
  have "t' \<in> {t, t0, t1, t2, t3}"
    using assms(1) b unfolding write_or_rename_fact_def s m prod.case w
    by (simp split: if_splits sum.splits) (blast+)?
  moreover have "facts_only (fl_root lib) t t0" "facts_only (fl_root lib) t t1"
    "facts_only (fl_root lib) t1 t2" "facts_only (fl_root lib) t2 t3"
    using write_content_result(3) [OF s assms(2)] move_facts_only [OF m assms(2,3)] write_content_result(3) [OF w assms(3)]
      move_facts_only [OF b assms(3,2)] by simp_all
  ultimately show ?thesis by (auto intro: facts_only_trans)
qed

section \<open>Plans\<close>

lemma bind_plan_Inr: "bind_plan x f = Some (Inr y) \<longleftrightarrow> (\<exists>v. x = Some (Inr v) \<and> f v = Some (Inr y))"
  by (cases x; cases "the x") auto

lemma plan_fact_document_parts [simp]:
  "pd_path (plan_fact_document lib p d b ts) = p"
  "pd_hash (plan_fact_document lib p d b ts) = fl_hash lib (pd_content (plan_fact_document lib p d b ts))"
  by (simp_all add: plan_fact_document_def Let_def)

definition good_plan :: "FactLib \<Rightarrow> string option \<Rightarrow> FileTree \<Rightarrow> PlannedFactDocument \<Rightarrow> bool" where
  "good_plan lib cur t d \<longleftrightarrow>
     is_fact_note_path (pd_path d) \<and> pd_hash d = fl_hash lib (pd_content d) \<and>
     (cur = Some (pd_path d) \<or> \<not> os_exists t (at (fl_root lib) (pd_path d)))"

lemma save_plan_good:
  "save_plan lib r conf tok t = Some (Inr (ts, d, cands)) \<Longrightarrow> good_plan lib None t d"
  using target_fact_path_safe [of lib _ None t]
  by (fastforce simp: save_plan_def bind_plan_Inr good_plan_def)

lemma updated_document_parts:
  "updated_document lib r f d p ts = Inr doc \<Longrightarrow> pd_path doc = p \<and> pd_hash doc = fl_hash lib (pd_content doc)"
  by (auto simp: updated_document_def Let_def split: sum.splits)

lemma update_plan_good:
  assumes "update_plan lib p h r conf tok t = Some (Inr (ts, d, cands))"
  shows "is_fact_note_path p" "good_plan lib (Some p) t d" "\<exists>f. load_guarded lib p h t = Inr f"
proof -
  obtain f dr q where l: "load_guarded lib p h t = Inr f" and q: "target_fact_path lib (fd_title dr) (Some p) t = Some (Inr q)"
    and d: "updated_document lib r f dr q ts = Inr d"
    using assms unfolding update_plan_def bind_plan_Inr by blast
  show p: "is_fact_note_path p" using load_guarded_facts(1) [OF l] .
  show "good_plan lib (Some p) t d"
    using target_fact_path_safe [OF q] p updated_document_parts [OF d] by (auto simp: good_plan_def)
  show "\<exists>f. load_guarded lib p h t = Inr f" using l by blast
qed

lemma supersede_plan_good:
  assumes "supersede_plan lib p h r conf tok t = Some (Inr (f, dr, ts, d, cands))"
  shows "is_fact_note_path p" "good_plan lib (Some p) t d" "load_guarded lib p h t = Inr f"
    and "target_fact_path lib (fd_title dr) (Some p) t = Some (Inr (pd_path d))"
    and "d = plan_fact_document lib (pd_path d) dr (Some (superseding_body dr f)) ts"
    and "supersede_draft lib r f = Inr dr"
proof -
  obtain q where l: "load_guarded lib p h t = Inr f" and q: "target_fact_path lib (fd_title dr) (Some p) t = Some (Inr q)"
    and d: "d = plan_fact_document lib q dr (Some (superseding_body dr f)) ts" and "supersede_draft lib r f = Inr dr"
    using assms unfolding supersede_plan_def bind_plan_Inr by blast
  then have "pd_path d = q" by simp
  show p: "is_fact_note_path p" using load_guarded_facts(1) [OF l] .
  show "good_plan lib (Some p) t d" using target_fact_path_safe [OF q] p d by (auto simp: good_plan_def)
  show "load_guarded lib p h t = Inr f" "target_fact_path lib (fd_title dr) (Some p) t = Some (Inr (pd_path d))"
    "d = plan_fact_document lib (pd_path d) dr (Some (superseding_body dr f)) ts" "supersede_draft lib r f = Inr dr"
    using l q d \<open>pd_path d = q\<close> \<open>supersede_draft lib r f = Inr dr\<close> by simp_all
qed

lemma apply_preview_Inr:
  "apply_fact_preview lib op cp eh ts d cands conf tok = Inr reply \<longleftrightarrow>
     (if conf then tok = Some (build_preview_token lib op cp eh ts d cands) \<and> \<not> list_ex mc_exact_duplicate cands \<and>
        reply = FactApplied (pd_path d) (pd_hash d) (pd_content d)
      else reply = MemoryPlan (build_preview_token lib op cp eh ts d cands) op d cands)"
  by (auto simp: apply_fact_preview_def Let_def split: option.splits)

section \<open>Confinement\<close>

datatype MemoryMutation =
    SaveFact SaveRequest
  | UpdateFact string string UpdateRequest
  | SupersedeFact string string SaveRequest

fun mutate :: "FactLib \<Rightarrow> MemoryMutation \<Rightarrow> bool \<Rightarrow> string option \<Rightarrow> FileTree \<Rightarrow> ((string + MemoryReply) \<times> FileTree) option" where
  "mutate lib (SaveFact r) conf tok t = memory_save lib r conf tok t"
| "mutate lib (UpdateFact p h r) conf tok t = memory_update lib p h r conf tok t"
| "mutate lib (SupersedeFact p h r) conf tok t = memory_supersede lib p h r conf tok t"

lemma supersede_write_confined:
  assumes "supersede_write lib p h f dr ts d t = (r, t')" "is_fact_note_path p" "is_fact_note_path (pd_path d)"
  shows "facts_only (fl_root lib) t t'"
proof -
  obtain r1 t1 where a: "write_content lib (pd_path d) None (pd_content d) t = (r1, t1)" by fastforce
  have 1: "facts_only (fl_root lib) t t1" using write_content_result(3) [OF a assms(3)] .
  show ?thesis
  proof (cases "superseded_text lib f dr ts")
    case (Inl e)
    then have "t' = t \<or> t' = t1" using assms(1) unfolding supersede_write_def a by (auto split: sum.splits)
    with 1 show ?thesis by auto
  next
    case (Inr text1)
    obtain r2 t2 where b: "write_content lib p (Some h) text1 t1 = (r2, t2)" by fastforce
    obtain r3 t3 where c: "engine_delete (fl_io lib) (fl_root lib) (pd_path d) t2 = (r3, t3)" by fastforce
    have "t' \<in> {t, t1, t2, t3}"
      using assms(1) c unfolding supersede_write_def a prod.case Inr sum.case b
      by (simp split: sum.splits) (blast+)?
    moreover have "facts_only (fl_root lib) t1 t2" "facts_only (fl_root lib) t2 t3"
      using write_content_result(3) [OF b assms(2)] delete_facts_only [OF c assms(3)] by simp_all
    ultimately show ?thesis using 1 by (auto intro: facts_only_trans)
  qed
qed

lemma mutate_confined:
  assumes "mutate lib m conf tok t = Some (r, t')"
  shows "facts_only (fl_root lib) t t'"
proof (cases m)
  case (SaveFact q)
  show ?thesis
  proof (cases "t' = t")
    case False
    obtain ts d cands where plan: "save_plan lib q conf tok t = Some (Inr (ts, d, cands))"
      using assms False SaveFact by (auto simp: memory_save_def split: option.splits sum.splits prod.splits)
    obtain r1 t1 where w: "write_content lib (pd_path d) None (pd_content d) t = (r1, t1)" by fastforce
    have "t' = t1" using assms False SaveFact plan w
      by (auto simp: memory_save_def split: if_splits sum.splits)
    then show ?thesis using write_content_result(3) [OF w] save_plan_good [OF plan] by (simp add: good_plan_def)
  qed simp
next
  case (UpdateFact p h q)
  show ?thesis
  proof (cases "t' = t")
    case False
    obtain ts d cands where plan: "update_plan lib p h q conf tok t = Some (Inr (ts, d, cands))"
      using assms False UpdateFact by (auto simp: memory_update_def split: option.splits sum.splits prod.splits)
    obtain r1 t1 where w: "write_or_rename_fact lib p (pd_path d) h (pd_content d) t = (r1, t1)" by fastforce
    have "t' = t1" using assms False UpdateFact plan w
      by (auto simp: memory_update_def split: if_splits sum.splits)
    then show ?thesis using write_or_rename_confined [OF w] update_plan_good [OF plan] by (simp add: good_plan_def)
  qed simp
next
  case (SupersedeFact p h q)
  show ?thesis
  proof (cases "t' = t")
    case False
    obtain f dr ts d cands where plan: "supersede_plan lib p h q conf tok t = Some (Inr (f, dr, ts, d, cands))"
      using assms False SupersedeFact by (auto simp: memory_supersede_def split: option.splits sum.splits prod.splits)
    then have "supersede_write lib p h f dr ts d t = (r, t')" using assms False SupersedeFact
      by (auto simp: memory_supersede_def split: if_splits sum.splits)
    then show ?thesis using supersede_write_confined supersede_plan_good [OF plan] by (simp add: good_plan_def)
  qed simp
qed

lemma memory_delete_fate:
  assumes "memory_delete lib p h conf t = (r, t')"
  shows "t' = t \<or> conf \<and> (\<exists>f. load_guarded lib p h t = Inr f) \<and> ft_files t (at (fl_root lib) p) \<noteq> None \<and>
      t' = t\<lparr>ft_files := (ft_files t)(at (fl_root lib) p := None)\<rparr>"
    and "\<not> isl r \<Longrightarrow> conf \<and> (\<exists>f. load_guarded lib p h t = Inr f) \<and>
      t' = t\<lparr>ft_files := (ft_files t)(at (fl_root lib) p := None)\<rparr>"
proof -
  obtain r1 t1 where d: "engine_delete (fl_io lib) (fl_root lib) p t = (r1, t1)" by fastforce
  note unf = assms [unfolded memory_delete_def d]
  show "t' = t \<or> conf \<and> (\<exists>f. load_guarded lib p h t = Inr f) \<and> ft_files t (at (fl_root lib) p) \<noteq> None \<and>
      t' = t\<lparr>ft_files := (ft_files t)(at (fl_root lib) p := None)\<rparr>"
    using unf engine_delete_result [OF d] by (auto split: if_splits sum.splits)
  show "\<not> isl r \<Longrightarrow> conf \<and> (\<exists>f. load_guarded lib p h t = Inr f) \<and>
      t' = t\<lparr>ft_files := (ft_files t)(at (fl_root lib) p := None)\<rparr>"
    using unf engine_delete_result [OF d] by (auto split: if_splits sum.splits)
qed

section \<open>Previews\<close>

fun operation_name :: "MemoryMutation \<Rightarrow> string" where
  "operation_name (SaveFact _) = ''memory_save''"
| "operation_name (UpdateFact _ _ _) = ''memory_update''"
| "operation_name (SupersedeFact _ _ _) = ''memory_supersede''"

fun current_fact :: "MemoryMutation \<Rightarrow> (string \<times> string) option" where
  "current_fact (SaveFact _) = None"
| "current_fact (UpdateFact p h _) = Some (p, h)"
| "current_fact (SupersedeFact p h _) = Some (p, h)"

definition preview_token_of ::
  "FactLib \<Rightarrow> MemoryMutation \<Rightarrow> string \<Rightarrow> PlannedFactDocument \<Rightarrow> MemoryReviewCandidate list \<Rightarrow> string" where
  "preview_token_of lib m ts d cands =
     build_preview_token lib (operation_name m) (map_option fst (current_fact m)) (map_option snd (current_fact m)) ts d cands"

lemma mutate_preview:
  assumes "mutate lib m False tok t = Some (r, t')"
  shows "t' = t" and "r = Inr (MemoryPlan token op d cands) \<Longrightarrow>
      op = operation_name m \<and> (\<exists>ts. token = preview_token_of lib m ts d cands) \<and> pd_hash d = fl_hash lib (pd_content d)"
proof -
  have "t' = t \<and> (\<forall>token op d cands. r = Inr (MemoryPlan token op d cands) \<longrightarrow>
      op = operation_name m \<and> (\<exists>ts. token = preview_token_of lib m ts d cands) \<and> pd_hash d = fl_hash lib (pd_content d))"
  proof (cases m)
    case (SaveFact q)
    show ?thesis
    proof (cases "\<exists>ts d cands. save_plan lib q False tok t = Some (Inr (ts, d, cands))")
      case True
      then obtain ts d cands where plan: "save_plan lib q False tok t = Some (Inr (ts, d, cands))" by blast
      then have "r = Inr (MemoryPlan (preview_token_of lib m ts d cands) ''memory_save'' d cands) \<and> t' = t"
        using assms SaveFact by (auto simp: memory_save_def apply_fact_preview_def preview_token_of_def)
      then show ?thesis using save_plan_good [OF plan] SaveFact by (auto simp: good_plan_def)
    qed (use assms SaveFact in \<open>auto simp: memory_save_def split: option.splits sum.splits\<close>)
  next
    case (UpdateFact p h q)
    show ?thesis
    proof (cases "\<exists>ts d cands. update_plan lib p h q False tok t = Some (Inr (ts, d, cands))")
      case True
      then obtain ts d cands where plan: "update_plan lib p h q False tok t = Some (Inr (ts, d, cands))" by blast
      then have "r = Inr (MemoryPlan (preview_token_of lib m ts d cands) ''memory_update'' d cands) \<and> t' = t"
        using assms UpdateFact by (auto simp: memory_update_def apply_fact_preview_def preview_token_of_def)
      then show ?thesis using update_plan_good [OF plan] UpdateFact by (auto simp: good_plan_def)
    qed (use assms UpdateFact in \<open>auto simp: memory_update_def split: option.splits sum.splits\<close>)
  next
    case (SupersedeFact p h q)
    show ?thesis
    proof (cases "\<exists>f dr ts d cands. supersede_plan lib p h q False tok t = Some (Inr (f, dr, ts, d, cands))")
      case True
      then obtain f dr ts d cands where plan: "supersede_plan lib p h q False tok t = Some (Inr (f, dr, ts, d, cands))" by blast
      then have "r = Inr (MemoryPlan (preview_token_of lib m ts d cands) ''memory_supersede'' d cands) \<and> t' = t"
        using assms SupersedeFact by (auto simp: memory_supersede_def apply_fact_preview_def preview_token_of_def)
      then show ?thesis using supersede_plan_good(2) [OF plan] SupersedeFact by (auto simp: good_plan_def)
    qed (use assms SupersedeFact in \<open>auto simp: memory_supersede_def split: option.splits sum.splits\<close>)
  qed
  then show "t' = t" "r = Inr (MemoryPlan token op d cands) \<Longrightarrow>
      op = operation_name m \<and> (\<exists>ts. token = preview_token_of lib m ts d cands) \<and> pd_hash d = fl_hash lib (pd_content d)"
    by blast+
qed

section \<open>Superseding\<close>

lemma supersede_write_fate:
  assumes run: "supersede_write lib p h f dr ts d t = (r, t')"
    and facts: "is_fact_note_path p" "is_fact_note_path (pd_path d)"
    and old: "ft_files t (at (fl_root lib) p) = Some old"
  shows "plain_files t' = plain_files t \<and> isl r \<or>
      ft_files t (at (fl_root lib) (pd_path d)) = None \<and>
      (plain_files t' = (plain_files t)(at (fl_root lib) (pd_path d) \<mapsto> pd_content d) \<and> isl r \<or>
       (\<exists>body. superseded_text lib f dr ts = Inr body \<and> fl_hash lib old = h \<and>
          plain_files t' = (plain_files t)(at (fl_root lib) (pd_path d) \<mapsto> pd_content d, at (fl_root lib) p \<mapsto> body)))"
proof -
  let ?a = "at (fl_root lib) p" and ?b = "at (fl_root lib) (pd_path d)"
  have plain: "plain_path ?a" "plain_path ?b" using facts fact_path_in_facts(3) by simp_all
  show ?thesis
  proof (cases "ensure_note_missing lib (pd_path d) t")
    case (Inl e)
    then show ?thesis using run by (auto simp: supersede_write_def)
  next
    case (Inr u)
    then have free: "ft_files t ?b = None" by (rule ensure_note_missing_free)
    then have ne: "?a \<noteq> ?b" using old by auto
    obtain r1 t1 where a: "write_content lib (pd_path d) None (pd_content d) t = (r1, t1)" by fastforce
    note run = run [unfolded supersede_write_def Inr sum.case a prod.case]
    show ?thesis
    proof (cases r1)
      case (Inl e)
      then show ?thesis using run write_content_plain [OF a plain(2)] by auto
    next
      case (Inr x)
      then have t1: "plain_files t1 = (plain_files t)(?b \<mapsto> pd_content d)" using write_content_plain [OF a plain(2)] by simp
      note run = run [unfolded Inr sum.case]
      show ?thesis
      proof (cases "superseded_text lib f dr ts")
        case (Inl e)
        then show ?thesis using run t1 free by auto
      next
        case (Inr body)
        obtain r2 t2 where b: "write_content lib p (Some h) body t1 = (r2, t2)" by fastforce
        note run = run [unfolded Inr sum.case b prod.case]
        show ?thesis
        proof (cases r2)
          case (Inl e)
          then have t2: "plain_files t2 = plain_files t1" using write_content_plain [OF b plain(1)] by simp
          obtain r3 t3 where c: "engine_delete (fl_io lib) (fl_root lib) (pd_path d) t2 = (r3, t3)" by fastforce
          have t': "t' = t3" "isl r" using run Inl c by (auto split: sum.splits)
          have undone: "(plain_files t)(?b := None) = plain_files t" using free plain(2) by (simp add: fun_eq_iff)
          show ?thesis using delete_plain [OF c] t1 t2 t' free undone by (cases r3) simp_all
        next
          case (Inr y)
          have t': "t' = t2" using run Inr by (auto split: sum.splits)
          have "ft_files t1 ?a = Some old" using t1 ne old plain(1) by (metis fun_upd_other plain_files_at)
          then have "fl_hash lib old = h" using write_content_result(1) [OF b Inr] by simp
          then show ?thesis using write_content_plain [OF b plain(1)] Inr t1 t' free \<open>superseded_text lib f dr ts = Inr body\<close> by simp
        qed
      qed
    qed
  qed
qed

lemma supersede_write_done:
  assumes "supersede_write lib p h f dr ts d t = (Inr reply, t')"
  shows "\<exists>oh nh. reply = FactSuperseded p oh (pd_path d) nh" "ft_files t (at (fl_root lib) (pd_path d)) = None"
    and "\<exists>body. superseded_text lib f dr ts = Inr body"
proof -
  obtain u where free: "ensure_note_missing lib (pd_path d) t = Inr u" using assms by (auto simp: supersede_write_def split: sum.splits)
  then show "ft_files t (at (fl_root lib) (pd_path d)) = None" by (rule ensure_note_missing_free)
  show "\<exists>oh nh. reply = FactSuperseded p oh (pd_path d) nh"
    using assms unfolding supersede_write_def by (auto split: sum.splits prod.splits)
  show "\<exists>body. superseded_text lib f dr ts = Inr body"
    using assms unfolding supersede_write_def by (auto split: sum.splits prod.splits)
qed

section \<open>Applying\<close>

lemma mutate_apply:
  assumes "mutate lib m True tok t = Some (Inr reply, t')"
  shows "\<exists>ts d cands. tok = Some (preview_token_of lib m ts d cands) \<and> \<not> list_ex mc_exact_duplicate cands \<and>
      ft_files t' (at (fl_root lib) (pd_path d)) = Some (pd_content d) \<and> pd_hash d = fl_hash lib (pd_content d)"
proof (cases m)
  case (SaveFact q)
  obtain ts d cands where plan: "save_plan lib q True tok t = Some (Inr (ts, d, cands))"
    using assms SaveFact by (auto simp: memory_save_def split: option.splits sum.splits)
  obtain x where pre: "apply_fact_preview lib ''memory_save'' None None ts d cands True tok = Inr x"
    using assms SaveFact plan by (auto simp: memory_save_def split: sum.splits)
  obtain r1 t1 where w: "write_content lib (pd_path d) None (pd_content d) t = (r1, t1)" by fastforce
  have "t' = t1" "\<exists>h. r1 = Inr h" using assms SaveFact plan pre w by (auto simp: memory_save_def split: sum.splits)
  then have "ft_files t' (at (fl_root lib) (pd_path d)) = Some (pd_content d)" using write_content_result(1) [OF w] by blast
  then show ?thesis using pre save_plan_good [OF plan] SaveFact
    by (auto simp: apply_preview_Inr preview_token_of_def good_plan_def)
next
  case (UpdateFact p h q)
  obtain ts d cands where plan: "update_plan lib p h q True tok t = Some (Inr (ts, d, cands))"
    using assms UpdateFact by (auto simp: memory_update_def split: option.splits sum.splits)
  obtain x where pre: "apply_fact_preview lib ''memory_update'' (Some p) (Some h) ts d cands True tok = Inr x"
    using assms UpdateFact plan by (auto simp: memory_update_def split: sum.splits)
  obtain r1 t1 where w: "write_or_rename_fact lib p (pd_path d) h (pd_content d) t = (r1, t1)" by fastforce
  have t': "t' = t1" "\<not> isl r1" using assms UpdateFact plan pre w by (auto simp: memory_update_def split: sum.splits)
  obtain old where old: "ft_files t (at (fl_root lib) p) = Some old"
    using update_plan_good(3) [OF plan] load_guarded_facts(3) by blast
  have good: "is_fact_note_path p" "is_fact_note_path (pd_path d)" "pd_hash d = fl_hash lib (pd_content d)"
    using update_plan_good(1,2) [OF plan] by (simp_all add: good_plan_def)
  then have "one_fact t t1 (at (fl_root lib) p) (at (fl_root lib) (pd_path d)) (pd_content d)"
    using write_or_rename_fate [OF w good(1,2) old] t'(2) by blast
  then have "ft_files t' (at (fl_root lib) (pd_path d)) = Some (pd_content d)"
    using fact_path_in_facts(3) [OF good(2)] t'(1) by (metis fun_upd_same one_fact_def plain_files_at)
  then show ?thesis using pre good UpdateFact by (auto simp: apply_preview_Inr preview_token_of_def)
next
  case (SupersedeFact p h q)
  obtain f dr ts d cands where plan: "supersede_plan lib p h q True tok t = Some (Inr (f, dr, ts, d, cands))"
    using assms SupersedeFact by (auto simp: memory_supersede_def split: option.splits sum.splits)
  obtain x where pre: "apply_fact_preview lib ''memory_supersede'' (Some p) (Some h) ts d cands True tok = Inr x"
    using assms SupersedeFact plan by (auto simp: memory_supersede_def split: sum.splits)
  have w: "supersede_write lib p h f dr ts d t = (Inr reply, t')"
    using assms SupersedeFact plan pre by (auto simp: memory_supersede_def)
  have good: "is_fact_note_path p" "is_fact_note_path (pd_path d)" "pd_hash d = fl_hash lib (pd_content d)"
    using supersede_plan_good(1,2) [OF plan] by (simp_all add: good_plan_def)
  obtain old where old: "ft_files t (at (fl_root lib) p) = Some old"
    using load_guarded_facts(3) [OF supersede_plan_good(3) [OF plan]] by blast
  note free = supersede_write_done(2) [OF w]
  obtain body where new: "superseded_text lib f dr ts = Inr body" using supersede_write_done(3) [OF w] by blast
  have "at (fl_root lib) p \<noteq> at (fl_root lib) (pd_path d)" using free old by auto
  moreover have "plain_files t (at (fl_root lib) (pd_path d)) = None"
    using free fact_path_in_facts(3) [OF good(2)] by simp
  moreover have "plain_files t' = (plain_files t)(at (fl_root lib) (pd_path d) \<mapsto> pd_content d, at (fl_root lib) p \<mapsto> body)"
    using supersede_write_fate [OF w good(1,2) old] new by auto
  ultimately have "ft_files t' (at (fl_root lib) (pd_path d)) = Some (pd_content d)"
    using fact_path_in_facts(3) [OF good(2)] by (metis fun_upd_apply plain_files_at)
  then show ?thesis using pre good SupersedeFact by (auto simp: apply_preview_Inr preview_token_of_def)
qed

text \<open>What the JSON text of a token says of the payload.\<close>

definition json_tells :: "(MemoryPreviewTokenPayload \<Rightarrow> string) \<Rightarrow> bool" where
  "json_tells w \<longleftrightarrow> (\<forall>p q. w p = w q \<longrightarrow>
     tp_operation p = tp_operation q \<and> tp_current_path p = tp_current_path q \<and> tp_expected_hash p = tp_expected_hash q \<and>
     tp_proposed_path p = tp_proposed_path q \<and> tp_proposed_hash p = tp_proposed_hash q \<and>
     map tc_exact_duplicate (tp_candidates p) = map tc_exact_duplicate (tp_candidates q))"

lemma same_token:
  assumes "preview_token_of lib m ts d cands = preview_token_of lib0 m0 ts0 d0 cands0"
    and "fl_mac lib = fl_mac lib0" "fl_write_json lib = fl_write_json lib0"
    and mac: "\<forall>raw. CHR '':'' \<notin> set (fl_mac lib0 raw)" and json: "json_tells (fl_write_json lib0)"
  shows "operation_name m = operation_name m0" "current_fact m = current_fact m0"
    and "pd_path d = pd_path d0" "pd_hash d = pd_hash d0"
    and "list_ex mc_exact_duplicate cands = list_ex mc_exact_duplicate cands0"
proof -
  let ?p = "\<lambda>m ts d cands. token_payload (operation_name m) (map_option fst (current_fact m)) (map_option snd (current_fact m)) ts d cands"
  have colon: "a = b" if "u @ CHR '':'' # a = v @ CHR '':'' # b" "CHR '':'' \<notin> set u" "CHR '':'' \<notin> set v" for u v a b :: string
  proof -
    have "dropWhile (\<lambda>c. c \<noteq> CHR '':'') (w @ CHR '':'' # x) = CHR '':'' # x" if "CHR '':'' \<notin> set w" for w x :: string
      using that by (induction w) auto
    then show ?thesis using that by (metis list.inject)
  qed
  have "fl_mac lib0 (fl_write_json lib0 (?p m ts d cands)) @ CHR '':'' # fl_write_json lib0 (?p m ts d cands) =
      fl_mac lib0 (fl_write_json lib0 (?p m0 ts0 d0 cands0)) @ CHR '':'' # fl_write_json lib0 (?p m0 ts0 d0 cands0)"
    using assms(1) unfolding preview_token_of_def build_preview_token_def Let_def assms(2,3) by (simp only: append_Cons append_Nil)
  then have "fl_write_json lib0 (?p m ts d cands) = fl_write_json lib0 (?p m0 ts0 d0 cands0)"
    by (rule colon) (use mac in blast)+
  note told = json [unfolded json_tells_def, rule_format, OF this, unfolded token_payload_def, simplified]
  have *: "operation_name m = operation_name m0" "map_option fst (current_fact m) = map_option fst (current_fact m0)"
    "map_option snd (current_fact m) = map_option snd (current_fact m0)" "pd_path d = pd_path d0" "pd_hash d = pd_hash d0"
    using told by simp_all
  have "tc_exact_duplicate \<circ> token_candidate = mc_exact_duplicate" by (simp add: fun_eq_iff token_candidate_def)
  then have flags: "map mc_exact_duplicate cands = map mc_exact_duplicate cands0" using told by simp
  show "operation_name m = operation_name m0" "pd_path d = pd_path d0" "pd_hash d = pd_hash d0" using * by simp_all
  show "current_fact m = current_fact m0"
    using *(2,3) by (cases "current_fact m"; cases "current_fact m0") (auto intro: prod_eqI)
  have "list_ex mc_exact_duplicate cs = list_ex id (map mc_exact_duplicate cs)" for cs by (induction cs) simp_all
  then show "list_ex mc_exact_duplicate cands = list_ex mc_exact_duplicate cands0" using flags by metis
qed

section \<open>Properties\<close>

text \<open>C14: whatever the file system and the index do, saving, updating, superseding and deleting facts change
  no file outside of the folder \<open>facts/\<close> of the vault, temporary files included.\<close>

theorem memory_confined:
  assumes "mutate lib m conf tok t = Some (r, t') \<or> memory_delete lib p h conf t = (r, t')"
    and "\<not> prefix (vault_dir (fl_root lib) @ [''facts'']) k"
  shows "ft_files t' k = ft_files t k"
  using assms(1)
proof
  assume "mutate lib m conf tok t = Some (r, t')"
  then show ?thesis using mutate_confined assms(2) unfolding facts_only_def by blast
next
  assume "memory_delete lib p h conf t = (r, t')"
  note fate = memory_delete_fate(1) [OF this]
  show ?thesis
  proof (cases "t' = t")
    case False
    then obtain f where f: "load_guarded lib p h t = Inr f"
      and t': "t' = t\<lparr>ft_files := (ft_files t)(at (fl_root lib) p := None)\<rparr>" using fate by blast
    have "k \<noteq> at (fl_root lib) p"
      using assms(2) fact_path_in_facts(1) [OF load_guarded_facts(1) [OF f], of "fl_root lib"] by blast
    with t' show ?thesis by simp
  qed simp
qed

text \<open>C13: a preview changes nothing.  When its token is applied, at any later state and whatever was asked
  then, it is applied by the same operation to the same version of the same fact, the preview had no exact
  duplicate, and the file at the previewed path has a text of the previewed hash.\<close>

theorem apply_writes_the_preview:
  assumes "mutate lib0 m0 False tok0 t0 = Some (Inr (MemoryPlan token op d cands), t0')"
    and "mutate lib m True (Some token) t = Some (Inr reply, t')"
    and "fl_mac lib = fl_mac lib0" "fl_write_json lib = fl_write_json lib0" "fl_hash lib = fl_hash lib0"
    and "\<forall>raw. CHR '':'' \<notin> set (fl_mac lib0 raw)" "json_tells (fl_write_json lib0)"
  shows "t0' = t0 \<and> operation_name m = op \<and> current_fact m = current_fact m0 \<and> \<not> list_ex mc_exact_duplicate cands \<and>
    (\<exists>content. ft_files t' (at (fl_root lib) (pd_path d)) = Some content \<and> fl_hash lib content = pd_hash d)"
proof -
  obtain ts0 where token: "token = preview_token_of lib0 m0 ts0 d cands" and op: "op = operation_name m0" and t0: "t0' = t0"
    using mutate_preview [OF assms(1)] by blast
  obtain ts d' cands' where app: "token = preview_token_of lib m ts d' cands'" "\<not> list_ex mc_exact_duplicate cands'"
    "ft_files t' (at (fl_root lib) (pd_path d')) = Some (pd_content d')" "pd_hash d' = fl_hash lib (pd_content d')"
    using mutate_apply [OF assms(2)] by blast
  note same = same_token [OF app(1) [unfolded token, symmetric] assms(3,4,6,7)]
  show ?thesis using same app(2-4) t0 op by auto
qed

lemma not_isl_Inr: "\<not> isl s \<Longrightarrow> \<exists>x. s = Inr x"
  by (cases s) auto

text \<open>C15: an update never loses the fact.  Whatever fails, the vault holds it once, at its own path or at a
  path that was free, and its text is the old one or the confirmed one; the latter only replaces a text that
  has the expected hash.  No other file changes.\<close>

theorem update_keeps_the_fact:
  assumes "memory_update lib p h q conf tok t = Some (r, t')" and "is_fact_note_path p"
    and "ft_files t (at (fl_root lib) p) = Some old"
  shows "\<exists>k content. one_fact t t' (at (fl_root lib) p) k content \<and>
      (content = old \<and> isl r \<or> content = old \<and> \<not> conf \<or>
       conf \<and> fl_hash lib old = h \<and> (\<exists>ts d cands. k = at (fl_root lib) (pd_path d) \<and> content = pd_content d \<and>
         tok = Some (preview_token_of lib (UpdateFact p h q) ts d cands) \<and> \<not> list_ex mc_exact_duplicate cands))"
proof -
  have plain: "plain_path (at (fl_root lib) p)" using fact_path_in_facts(3) [OF assms(2)] .
  have keep: ?thesis if "isl r \<or> \<not> conf" "t' = t"
    using that one_fact_same [OF assms(3) plain] by blast
  show ?thesis
  proof (cases "\<exists>ts d cands x. update_plan lib p h q conf tok t = Some (Inr (ts, d, cands)) \<and> conf \<and>
      apply_fact_preview lib ''memory_update'' (Some p) (Some h) ts d cands True tok = Inr x")
    case True
    then obtain ts d cands x where plan: "update_plan lib p h q conf tok t = Some (Inr (ts, d, cands))" and conf
      and pre: "apply_fact_preview lib ''memory_update'' (Some p) (Some h) ts d cands True tok = Inr x" by blast
    obtain r1 t1 where w: "write_or_rename_fact lib p (pd_path d) h (pd_content d) t = (r1, t1)" by fastforce
    have t': "t' = t1" "isl r \<longleftrightarrow> isl r1"
      using assms(1) plan pre \<open>conf\<close> w by (auto simp: memory_update_def split: sum.splits)
    have "is_fact_note_path (pd_path d)" using update_plan_good(2) [OF plan] by (simp add: good_plan_def)
    then obtain k content where k: "one_fact t t' (at (fl_root lib) p) k content"
      "content = old \<and> isl r \<or> k = at (fl_root lib) (pd_path d) \<and> content = pd_content d \<and> fl_hash lib old = h"
      using write_or_rename_fate [OF w assms(2) _ assms(3)] t' by blast
    have "tok = Some (preview_token_of lib (UpdateFact p h q) ts d cands)" "\<not> list_ex mc_exact_duplicate cands"
      using pre by (simp_all add: apply_preview_Inr preview_token_of_def)
    with k \<open>conf\<close> show ?thesis by blast
  next
    case False
    then have "isl r \<or> \<not> conf" "t' = t" using assms(1) unfolding memory_update_def
      by (auto split: option.splits sum.splits prod.splits if_splits dest!: not_isl_Inr)
    then show ?thesis by (rule keep)
  qed
qed

text \<open>C32: superseding leaves the vault as it was, or with the confirmed new fact at a path that was free and
  the old fact as it was (only after an error), or with both the new fact and the old one marked as
  superseded, which had the expected hash.  No other file changes.\<close>

theorem supersede_all_or_nothing:
  assumes "memory_supersede lib p h q conf tok t = Some (r, t')"
  shows "plain_files t' = plain_files t \<and> (isl r \<or> \<not> conf) \<or>
    (\<exists>f dr ts d cands. tok = Some (preview_token_of lib (SupersedeFact p h q) ts d cands) \<and>
       load_guarded lib p h t = Inr f \<and> is_fact_note_path (pd_path d) \<and> ft_files t (at (fl_root lib) (pd_path d)) = None \<and>
       (isl r \<and> plain_files t' = (plain_files t)(at (fl_root lib) (pd_path d) \<mapsto> pd_content d) \<or>
        (\<exists>body. superseded_text lib f dr ts = Inr body \<and>
           plain_files t' = (plain_files t)(at (fl_root lib) (pd_path d) \<mapsto> pd_content d, at (fl_root lib) p \<mapsto> body))))"
proof (cases "\<exists>f dr ts d cands x. supersede_plan lib p h q conf tok t = Some (Inr (f, dr, ts, d, cands)) \<and> conf \<and>
      apply_fact_preview lib ''memory_supersede'' (Some p) (Some h) ts d cands True tok = Inr x")
  case True
  then obtain f dr ts d cands x where plan: "supersede_plan lib p h q conf tok t = Some (Inr (f, dr, ts, d, cands))" and conf
    and pre: "apply_fact_preview lib ''memory_supersede'' (Some p) (Some h) ts d cands True tok = Inr x" by blast
  have w: "supersede_write lib p h f dr ts d t = (r, t')"
    using assms plan pre \<open>conf\<close> by (auto simp: memory_supersede_def)
  have good: "is_fact_note_path p" "is_fact_note_path (pd_path d)" "load_guarded lib p h t = Inr f"
    using supersede_plan_good(1-3) [OF plan] by (simp_all add: good_plan_def)
  obtain old where old: "ft_files t (at (fl_root lib) p) = Some old" using load_guarded_facts(3) [OF good(3)] by blast
  have "tok = Some (preview_token_of lib (SupersedeFact p h q) ts d cands)"
    using pre by (simp add: apply_preview_Inr preview_token_of_def)
  then show ?thesis using supersede_write_fate [OF w good(1,2) old] good by blast
next
  case False
  then have "isl r \<or> \<not> conf" "t' = t" using assms unfolding memory_supersede_def
    by (auto split: option.splits sum.splits prod.splits if_splits dest!: not_isl_Inr)
  then show ?thesis by simp
qed

text \<open>A new fact whose title gives the file name of the fact it supersedes cannot be applied, with any
  token, although its preview succeeds: the path it is given is the current one, which is not free.\<close>

lemma supersede_same_name_fails:
  assumes "fact_parent (Some p) @ ''/'' @ sanitize_fact_slug (fl_alnum lib) (trim (sr_title q)) @ ''.md'' = p"
    and "memory_supersede lib p h q True tok t = Some (r, t')"
  shows "isl r \<and> t' = t"
proof -
  show ?thesis
  proof (cases "\<exists>f dr ts d cands. supersede_plan lib p h q True tok t = Some (Inr (f, dr, ts, d, cands))")
    case True
    then obtain f dr ts d cands where plan: "supersede_plan lib p h q True tok t = Some (Inr (f, dr, ts, d, cands))" by blast
    have "fd_title dr = trim (sr_title q)"
      using supersede_plan_good(6) [OF plan]
      by (auto simp: supersede_draft_def validate_fact_draft_def Let_def split: if_splits)
    moreover have "target_fact_path lib (trim (sr_title q)) (Some p) t \<noteq> Some (Inr w)" if "w \<noteq> p" for w
      using assms(1) that by (auto simp: target_fact_path_def Let_def)
    ultimately have "pd_path d = p" using supersede_plan_good(4) [OF plan] by metis
    moreover obtain old where "ft_files t (at (fl_root lib) p) = Some old"
      using load_guarded_facts(3) [OF supersede_plan_good(3) [OF plan]] by blast
    ultimately have "isl (ensure_note_missing lib (pd_path d) t)"
      using ensure_note_missing_free [of lib "pd_path d" t] by (cases "ensure_note_missing lib (pd_path d) t") auto
    then show ?thesis using assms(2) plan unfolding memory_supersede_def supersede_write_def
      by (auto split: sum.splits) (metis sum.disc(1))
  next
    case False
    then show ?thesis using assms(2) unfolding memory_supersede_def by (auto split: option.splits sum.splits prod.splits)
  qed
qed

text \<open>C33: deleting a fact removes nothing, or exactly the file of a fact that was confirmed, lies under
  \<open>facts/\<close> outside of the examples, and has a text of the expected hash whose frontmatter says it is a fact
  and not an example; when it reports success the file is gone.\<close>

theorem delete_only_the_fact:
  assumes "memory_delete lib p h conf t = (r, t')"
  shows "t' = t \<and> isl r \<or>
    conf \<and> is_fact_note_path p \<and> \<not> is_example_fact_path p \<and>
    (\<exists>old fm. ft_files t (at (fl_root lib) p) = Some old \<and> fl_hash lib old = h \<and>
       Option.bind (fst (extract_frontmatter old)) (fl_fields lib) = Some fm \<and> fm_str fm ''type'' = Some ''fact'' \<and>
       \<not> list_ex (\<lambda>tag. eq_ignore_ascii_case tag ''example'') (fm_tags fm)) \<and>
    t' = t\<lparr>ft_files := (ft_files t)(at (fl_root lib) p := None)\<rparr>"
proof (cases "t' = t \<and> isl r")
  case False
  then obtain f where f: "load_guarded lib p h t = Inr f" and t': "t' = t\<lparr>ft_files := (ft_files t)(at (fl_root lib) p := None)\<rparr>"
    and conf
    using memory_delete_fate [OF assms] by blast
  obtain old where old: "ft_files t (at (fl_root lib) p) = Some old" "fl_hash lib old = h" using load_guarded_facts(3) [OF f] by blast
  note load = load_guarded_facts(4) [OF f]
  have "engine_read (fl_io lib) (fl_root lib) p t = Inr old"
    using load old(1) by (auto simp: load_fact_note_def engine_read_def os_read_def split: if_splits option.splits)
  then have "\<exists>fm. Option.bind (fst (extract_frontmatter old)) (fl_fields lib) = Some fm \<and> fm_str fm ''type'' = Some ''fact'' \<and>
       \<not> list_ex (\<lambda>tag. eq_ignore_ascii_case tag ''example'') (fm_tags fm)"
    using load load_guarded_facts(1,2) [OF f] unfolding load_fact_note_def
    by (auto split: prod.splits option.splits if_splits sum.splits)
  then show ?thesis using old t' \<open>conf\<close> load_guarded_facts(1,2) [OF f] by blast
qed simp

section \<open>Witnesses\<close>

text \<open>A vault with one fact; the token's JSON is a prefix code of the fields a client sees.\<close>

fun told_text :: "string \<Rightarrow> string" where
  "told_text [] = ''.''"
| "told_text (c # cs) = CHR ''c'' # c # told_text cs"

definition told_opt :: "string option \<Rightarrow> string" where
  "told_opt s = (case s of None \<Rightarrow> ''n'' | Some v \<Rightarrow> CHR ''s'' # told_text v)"

definition told_flag :: "bool \<Rightarrow> char" where
  "told_flag b = (if b then CHR ''d'' else CHR ''o'')"

definition told_json :: "MemoryPreviewTokenPayload \<Rightarrow> string" where
  "told_json p = told_text (tp_operation p) @ told_opt (tp_current_path p) @ told_opt (tp_expected_hash p) @
     told_text (tp_proposed_path p) @ told_text (tp_proposed_hash p) @ map told_flag (map tc_exact_duplicate (tp_candidates p))"

definition fact_yaml :: YamlLib where
  "fact_yaml = \<lparr>yl_from = (\<lambda>_. Some (YMap [])), yl_to = (\<lambda>_. Some ''a: b''), yl_json = (\<lambda>_. Inl []), yl_error = id\<rparr>"

definition fact_lib :: FactLib where
  "fact_lib = \<lparr>fl_io = no_faults, fl_root = ''/v'', fl_hash = id, fl_temp_tag = ''1'', fl_yaml = fact_yaml,
     fl_fields = (\<lambda>_. Some [''type'' \<mapsto> YString ''fact'', ''scope'' \<mapsto> YString ''user'']), fl_number = (\<lambda>_. []),
     fl_alnum = (\<lambda>c. list_all ascii_alnum c), fl_now = ''now'', fl_today = ''today'', fl_mac = (\<lambda>_. ''m''), fl_from_hex = Some,
     fl_write_json = told_json,
     fl_read_json = (\<lambda>_. Some \<lparr>tp_version = 1, tp_operation = [], tp_current_path = None, tp_expected_hash = None,
        tp_mutation_timestamp = ''now'', tp_proposed_path = [], tp_proposed_hash = [], tp_candidates = []\<rparr>),
     fl_active = Inr [], fl_search = (\<lambda>_ _ _. Inr []), fl_refresh = (\<lambda>_ _. None), fl_unindex = (\<lambda>_ _. None)\<rparr>"

definition fact_request :: SaveRequest where
  "fact_request = \<lparr>sr_title = ''Tea'', sr_claim = ''Likes tea'', sr_description = None, sr_scope = ''user'', sr_subject = None,
     sr_certainty = ''explicit'', sr_source = None, sr_confirmed = None, sr_supersedes = None, sr_tags = None, sr_acknowledge = False\<rparr>"

definition fact_note :: string where
  "fact_note = ''---'' @ nl @ ''a: b'' @ nl @ ''---'' @ nl @ nl @ ''# Tea'' @ nl @ nl @ ''Likes tea'' @ nl"

definition fact_tree :: FileTree where
  "fact_tree = \<lparr>ft_files = [[''v'', ''facts'', ''Tea.md''] \<mapsto> fact_note], ft_dirs = {[], [''v''], [''v'', ''facts'']}\<rparr>"

definition empty_tree :: FileTree where
  "empty_tree = \<lparr>ft_files = (\<lambda>_. None), ft_dirs = {[], [''v'']}\<rparr>"
lemma told_text_inj: "told_text a @ x = told_text b @ y \<longleftrightarrow> a = b \<and> x = y"
proof (induction a arbitrary: b)
  case Nil
  then show ?case by (cases b) auto
next
  case (Cons c cs)
  then show ?case by (cases b) auto
qed

lemma told_opt_inj: "told_opt a @ x = told_opt b @ y \<longleftrightarrow> a = b \<and> x = y"
  by (cases a; cases b) (auto simp: told_opt_def told_text_inj)

lemma told_flags_inj: "map told_flag bs = map told_flag cs \<longleftrightarrow> bs = cs"
  by (rule inj_map_eq_map) (simp add: inj_def told_flag_def)

lemma told_json_tells: "json_tells told_json"
  unfolding json_tells_def told_json_def append_assoc told_text_inj told_opt_inj told_flags_inj by blast

definition tea_plan :: PlannedFactDocument where
  "tea_plan =
     (let body = ''---'' @ nl @ ''a: b'' @ nl @ ''---'' @ nl @ ''# Tea'' @ nl @ nl @ ''Likes tea'' @ nl
      in \<lparr>pd_path = ''facts/Tea.md'', pd_content = body, pd_hash = body\<rparr>)"

definition tea_token :: string where
  "tea_token = preview_token_of fact_lib (SaveFact fact_request) ''now'' tea_plan []"

lemma fact_preview:
  "map_option fst (memory_save fact_lib fact_request False None empty_tree) = Some (Inr (MemoryPlan tea_token ''memory_save'' tea_plan []))"
  by code_simp

lemma fact_applied:
  "map_option fst (memory_save fact_lib fact_request True (Some tea_token) empty_tree) =
     Some (Inr (FactApplied ''facts/Tea.md'' (pd_hash tea_plan) (pd_content tea_plan)))"
  by code_simp

lemma fact_deleted:
  "fst (memory_delete fact_lib ''facts/Tea.md'' fact_note True fact_tree) = Inr (FactDeleted ''facts/Tea.md'')"
  by code_simp

lemma same_name_preview:
  "case map_option fst (memory_supersede fact_lib ''facts/Tea.md'' fact_note fact_request False None fact_tree) of
     Some (Inr (MemoryPlan token op d cands)) \<Rightarrow> pd_path d = ''facts/Tea.md''
   | _ \<Rightarrow> False"
  by code_simp

lemma memory_confined_witness:
  "fst (memory_delete fact_lib ''facts/Tea.md'' fact_note True fact_tree) = Inr (FactDeleted ''facts/Tea.md'') \<and>
   ft_files (snd (memory_delete fact_lib ''facts/Tea.md'' fact_note True fact_tree)) [''v'', ''Tea.md''] =
     ft_files fact_tree [''v'', ''Tea.md'']"
proof -
  obtain r t' where run: "memory_delete fact_lib ''facts/Tea.md'' fact_note True fact_tree = (r, t')" by fastforce
  have "ft_files t' [''v'', ''Tea.md''] = ft_files fact_tree [''v'', ''Tea.md'']"
    by (rule memory_confined [OF disjI2 [OF run]])
      (simp add: fact_lib_def vault_dir_def resolve_parts_def path_parts_def)
  then show ?thesis using fact_deleted run by simp
qed

lemma fact_preview_state:
  "memory_save fact_lib fact_request False None empty_tree = Some (Inr (MemoryPlan tea_token ''memory_save'' tea_plan []), empty_tree)"
proof -
  obtain t' where "memory_save fact_lib fact_request False None empty_tree = Some (Inr (MemoryPlan tea_token ''memory_save'' tea_plan []), t')"
    using fact_preview by (auto simp: map_option_eq_Some)
  then show ?thesis using mutate_preview(1) [of fact_lib "SaveFact fact_request"] by simp
qed

lemma apply_writes_the_preview_witness:
  "\<exists>t'. memory_save fact_lib fact_request True (Some tea_token) empty_tree =
       Some (Inr (FactApplied ''facts/Tea.md'' (pd_hash tea_plan) (pd_content tea_plan)), t') \<and>
     (\<exists>content. ft_files t' (at ''/v'' ''facts/Tea.md'') = Some content \<and> content = pd_hash tea_plan)"
proof -
  obtain t' where app: "memory_save fact_lib fact_request True (Some tea_token) empty_tree =
      Some (Inr (FactApplied ''facts/Tea.md'' (pd_hash tea_plan) (pd_content tea_plan)), t')"
    using fact_applied by (auto simp: map_option_eq_Some)
  have pre: "mutate fact_lib (SaveFact fact_request) False None empty_tree = Some (Inr (MemoryPlan tea_token ''memory_save'' tea_plan []), empty_tree)"
    and app': "mutate fact_lib (SaveFact fact_request) True (Some tea_token) empty_tree =
      Some (Inr (FactApplied ''facts/Tea.md'' (pd_hash tea_plan) (pd_content tea_plan)), t')"
    using fact_preview_state app by simp_all
  have "\<forall>raw. CHR '':'' \<notin> set (fl_mac fact_lib raw)" "json_tells (fl_write_json fact_lib)"
    by (simp_all add: fact_lib_def told_json_tells)
  from apply_writes_the_preview [OF pre app' refl refl refl this]
  have "\<exists>content. ft_files t' (at (fl_root fact_lib) (pd_path tea_plan)) = Some content \<and> fl_hash fact_lib content = pd_hash tea_plan"
    by blast
  then show ?thesis using app by (simp add: fact_lib_def tea_plan_def Let_def)
qed

definition green_request :: UpdateRequest where
  "green_request = \<lparr>ur_title = Some ''Green'', ur_claim = Some ''Likes green tea'', ur_description = None, ur_body = None,
     ur_scope = None, ur_subject = None, ur_certainty = None, ur_source = None, ur_status = None, ur_confirmed = None,
     ur_tags = None, ur_acknowledge = False\<rparr>"

definition green_plan :: PlannedFactDocument where
  "green_plan =
     (let body = ''---'' @ nl @ ''a: b'' @ nl @ ''---'' @ nl @ ''# Green'' @ nl @ nl @ ''Likes green tea'' @ nl
      in \<lparr>pd_path = ''facts/Green.md'', pd_content = body, pd_hash = body\<rparr>)"

definition green_token :: string where
  "green_token = preview_token_of fact_lib (UpdateFact ''facts/Tea.md'' fact_note green_request) ''now'' green_plan []"

lemma fact_updated:
  "map_option fst (memory_update fact_lib ''facts/Tea.md'' fact_note green_request True (Some green_token) fact_tree) =
     Some (Inr (FactApplied ''facts/Green.md'' (pd_hash green_plan) (pd_content green_plan)))"
  by code_simp

lemma tea_path: "is_fact_note_path ''facts/Tea.md''" "ft_files fact_tree (at (fl_root fact_lib) ''facts/Tea.md'') = Some fact_note"
  by code_simp+

lemma update_keeps_the_fact_witness:
  "\<exists>t'. map_option fst (memory_update fact_lib ''facts/Tea.md'' fact_note green_request True (Some green_token) fact_tree) =
       Some (Inr (FactApplied ''facts/Green.md'' (pd_hash green_plan) (pd_content green_plan))) \<and>
     (\<exists>k content. one_fact fact_tree t' (at (fl_root fact_lib) ''facts/Tea.md'') k content)"
proof -
  obtain r t' where run: "memory_update fact_lib ''facts/Tea.md'' fact_note green_request True (Some green_token) fact_tree = Some (r, t')"
    using fact_updated by (auto simp: map_option_eq_Some)
  show ?thesis using update_keeps_the_fact [OF run tea_path] fact_updated by blast
qed

definition rooibos_request :: SaveRequest where
  "rooibos_request = fact_request\<lparr>sr_title := ''Rooibos''\<rparr>"

definition rooibos_plan :: PlannedFactDocument where
  "rooibos_plan =
     (let body = ''---'' @ nl @ ''a: b'' @ nl @ ''---'' @ nl @ ''# Rooibos'' @ nl @ nl @ ''Likes tea'' @ nl @ nl @
        ''Supersedes [[Tea]].'' @ nl
      in \<lparr>pd_path = ''facts/Rooibos.md'', pd_content = body, pd_hash = body\<rparr>)"

definition rooibos_token :: string where
  "rooibos_token = preview_token_of fact_lib (SupersedeFact ''facts/Tea.md'' fact_note rooibos_request) ''now'' rooibos_plan []"

lemma fact_superseded:
  "case map_option fst (memory_supersede fact_lib ''facts/Tea.md'' fact_note rooibos_request True (Some rooibos_token) fact_tree) of
     Some (Inr (FactSuperseded old _ new _)) \<Rightarrow> old = ''facts/Tea.md'' \<and> new = ''facts/Rooibos.md''
   | _ \<Rightarrow> False"
  by code_simp

lemma supersede_all_or_nothing_witness:
  "\<exists>r t'. memory_supersede fact_lib ''facts/Tea.md'' fact_note rooibos_request True (Some rooibos_token) fact_tree = Some (r, t') \<and>
     (plain_files t' = plain_files fact_tree \<and> isl r \<or>
      (\<exists>f. load_guarded fact_lib ''facts/Tea.md'' fact_note fact_tree = Inr f))"
proof -
  obtain r t' where run: "memory_supersede fact_lib ''facts/Tea.md'' fact_note rooibos_request True (Some rooibos_token) fact_tree = Some (r, t')"
    using fact_superseded by (auto split: option.splits)
  show ?thesis using supersede_all_or_nothing [OF run] run by blast
qed

lemma same_name_slug:
  "fact_parent (Some ''facts/Tea.md'') @ ''/'' @ sanitize_fact_slug (fl_alnum fact_lib) (trim (sr_title fact_request)) @ ''.md'' = ''facts/Tea.md''"
  "case map_option fst (memory_supersede fact_lib ''facts/Tea.md'' fact_note fact_request True None fact_tree) of Some _ \<Rightarrow> True | None \<Rightarrow> False"
  by code_simp+

lemma supersede_same_name_fails_witness:
  "\<exists>r. memory_supersede fact_lib ''facts/Tea.md'' fact_note fact_request True None fact_tree = Some (r, fact_tree) \<and> isl r"
proof -
  obtain r t' where run: "memory_supersede fact_lib ''facts/Tea.md'' fact_note fact_request True None fact_tree = Some (r, t')"
    using same_name_slug(2) by (auto split: option.splits)
  show ?thesis using supersede_same_name_fails [OF same_name_slug(1) run] run by simp
qed

lemma delete_only_the_fact_witness:
  "fst (memory_delete fact_lib ''facts/Tea.md'' fact_note True fact_tree) = Inr (FactDeleted ''facts/Tea.md'') \<and>
   snd (memory_delete fact_lib ''facts/Tea.md'' fact_note True fact_tree) =
     fact_tree\<lparr>ft_files := (ft_files fact_tree)(at (fl_root fact_lib) ''facts/Tea.md'' := None)\<rparr>"
proof -
  obtain r t' where run: "memory_delete fact_lib ''facts/Tea.md'' fact_note True fact_tree = (r, t')" by fastforce
  then show ?thesis using delete_only_the_fact [OF run] fact_deleted by auto
qed

end
