(* ===== verification/Document.thy ===== *)
theory Document
  imports Utf8
begin

text \<open>
  Documents (\<open>notesmith-document/src/lib.rs\<close>): the kind of a file, the parsing of PDF and EPUB files into a
  normalized text, the chunks of a text and the note rendered for a document.  The PDF, EPUB and HTML libraries
  are fields of \<open>DocLib\<close>; a panic in one of them is caught, as in the source.
\<close>

section \<open>Kinds and errors\<close>

datatype DocumentKind = Pdf | Epub

fun source_type :: "DocumentKind \<Rightarrow> string" where
  "source_type Pdf = ''pdf''"
| "source_type Epub = ''epub''"

fun unit_label :: "DocumentKind \<Rightarrow> string" where
  "unit_label Pdf = ''page''"
| "unit_label Epub = ''chapter''"

definition kind_of_filename :: "string \<Rightarrow> DocumentKind option" where
  "kind_of_filename name =
     (let ext = map ascii_lower (last (split_char CHR ''.'' name))
      in if ext = ''pdf'' then Some Pdf else if ext = ''epub'' then Some Epub else None)"

datatype DocumentError =
    DocUnsupported string
  | DocEncrypted
  | DocEmpty
  | DocParse string string

fun document_error_text :: "DocumentError \<Rightarrow> string" where
  "document_error_text (DocUnsupported ext) = ''unsupported document type: '' @ ext"
| "document_error_text DocEncrypted = ''document is encrypted and cannot be read''"
| "document_error_text DocEmpty = ''document contained no extractable text''"
| "document_error_text (DocParse kind reason) = ''failed to parse '' @ kind @ '' document: '' @ reason"

record DocumentMeta =
  dm_source_type :: string
  dm_title :: "string option"
  dm_author :: "string option"
  dm_unit_label :: string
  dm_unit_count :: nat

record DocumentChunk =
  dc_index :: nat
  dc_start :: nat
  dc_end :: nat
  dc_text :: string

record ParsedDocument =
  pd_meta :: DocumentMeta
  pd_text :: string
  pd_chunks :: "DocumentChunk list"

section \<open>Chunks\<close>

definition newline :: string where
  "newline = [CHR 0x0A]"

text \<open>The end of a window: behind its last newline, unless that is its first character or the text ends in
  the window.\<close>

definition last_newline :: "string list \<Rightarrow> nat \<Rightarrow> nat \<Rightarrow> nat option" where
  "last_newline chars start stop = find (\<lambda>i. chars ! i = newline) (rev [start..<stop])"

definition chunk_end :: "string list \<Rightarrow> nat \<Rightarrow> nat \<Rightarrow> nat" where
  "chunk_end chars target start =
     (let stop = min (start + target) (length chars)
      in if stop < length chars then
           (case last_newline chars start stop of
              Some i \<Rightarrow> if start < i then i + 1 else stop
            | None \<Rightarrow> stop)
         else stop)"

lemma last_newline_range: "last_newline chars start stop = Some i \<Longrightarrow> start \<le> i \<and> i < stop"
proof -
  assume "last_newline chars start stop = Some i"
  then have "i \<in> set (rev [start..<stop])" unfolding last_newline_def find_Some_iff by (metis nth_mem)
  then show "start \<le> i \<and> i < stop" by simp
qed

lemma chunk_end_bounds:
  assumes "start < length chars" "0 < target"
  shows "start < chunk_end chars target start" "chunk_end chars target start \<le> length chars"
    "chunk_end chars target start \<le> start + target"
proof -
  let ?stop = "min (start + target) (length chars)"
  have stop: "start < ?stop" "?stop \<le> length chars" "?stop \<le> start + target" using assms by simp_all
  have "chunk_end chars target start = ?stop \<or>
      (\<exists>i. last_newline chars start ?stop = Some i \<and> start < i \<and> chunk_end chars target start = i + 1)"
    by (simp add: chunk_end_def Let_def split: option.split)
  then have "start < chunk_end chars target start \<and> chunk_end chars target start \<le> ?stop"
    using stop(1) last_newline_range by fastforce
  then show "start < chunk_end chars target start" "chunk_end chars target start \<le> length chars"
    "chunk_end chars target start \<le> start + target" using stop(2,3) by linarith+
qed

definition slice_chars :: "string list \<Rightarrow> nat \<Rightarrow> nat \<Rightarrow> string" where
  "slice_chars chars start stop = concat (take (stop - start) (drop start chars))"

function chunk_from :: "string list \<Rightarrow> nat \<Rightarrow> nat \<Rightarrow> nat \<Rightarrow> DocumentChunk list" where
  "chunk_from chars target start idx =
     (if length chars \<le> start \<or> target = 0 then []
      else (let stop = chunk_end chars target start;
                slice = trim (slice_chars chars start stop)
            in if slice = [] then chunk_from chars target stop idx
               else \<lparr>dc_index = idx, dc_start = start, dc_end = stop, dc_text = slice\<rparr> #
                    chunk_from chars target stop (idx + 1)))"
  by pat_completeness auto
termination
proof (relation "measure (\<lambda>(chars, target, start, idx). length chars - start)")
  fix chars target start idx stop
  assume "\<not> (length chars \<le> start \<or> target = 0)" "stop = chunk_end chars target start"
  then have "start < length chars" "start < stop" using chunk_end_bounds(1) [of start chars target] by simp_all
  then show "((chars, target, stop, idx), chars, target, start, idx) \<in> measure (\<lambda>(chars, target, start, idx). length chars - start)"
    "((chars, target, stop, idx + 1), chars, target, start, idx) \<in> measure (\<lambda>(chars, target, start, idx). length chars - start)"
    by simp_all
qed simp

declare chunk_from.simps [simp del]

definition chunk_text :: "string \<Rightarrow> nat \<Rightarrow> DocumentChunk list" where
  "chunk_text txt target_chars = chunk_from (utf8_chars txt) (max target_chars 1) 0 0"

section \<open>Parsing\<close>

fun collapse_blank :: "nat \<Rightarrow> string list \<Rightarrow> string" where
  "collapse_blank run [] = []"
| "collapse_blank run (line # ls) =
     (if trim_end line = [] then (if run + 1 \<le> 1 then newline else []) @ collapse_blank (run + 1) ls
      else trim_end line @ newline @ collapse_blank 0 ls)"

definition normalize_text :: "string \<Rightarrow> string" where
  "normalize_text raw = trim (collapse_blank 0 (lines_of raw))"

text \<open>What the EPUB library reads: the metadata, the number of chapters and the content of each resource of
  the reading order, when it is text.\<close>

record EpubBook =
  eb_title :: "string option"
  eb_author :: "string option"
  eb_chapters :: nat
  eb_contents :: "string option list"

record DocLib =
  dl_pdf :: "string \<Rightarrow> (string + string list) outcome"
  dl_epub :: "string \<Rightarrow> (string + EpubBook) outcome"
  dl_markdown :: "string \<Rightarrow> string option"
  dl_lower :: "string \<Rightarrow> string"

definition parser_panicked :: string where
  "parser_panicked = ''parser panicked on malformed input''"

definition parse_pdf :: "DocLib \<Rightarrow> string \<Rightarrow> DocumentError + string \<times> DocumentMeta" where
  "parse_pdf lib bytes =
     (case dl_pdf lib bytes of
        Panicked \<Rightarrow> Inl (DocParse ''pdf'' parser_panicked)
      | Done (Inl reason) \<Rightarrow>
          if contains_str (dl_lower lib reason) ''encrypt'' then Inl DocEncrypted else Inl (DocParse ''pdf'' reason)
      | Done (Inr pages) \<Rightarrow>
          Inr (join_str (newline @ newline) pages,
               \<lparr>dm_source_type = source_type Pdf, dm_title = None, dm_author = None,
                dm_unit_label = unit_label Pdf, dm_unit_count = length pages\<rparr>))"

definition epub_sections :: "DocLib \<Rightarrow> string option list \<Rightarrow> string list" where
  "epub_sections lib contents =
     filter (\<lambda>s. s \<noteq> [])
       (map (\<lambda>content. trim (case dl_markdown lib content of Some md \<Rightarrow> md | None \<Rightarrow> []))
         (List.map_filter id contents))"

definition parse_epub :: "DocLib \<Rightarrow> string \<Rightarrow> DocumentError + string \<times> DocumentMeta" where
  "parse_epub lib bytes =
     (case dl_epub lib bytes of
        Panicked \<Rightarrow> Inl (DocParse ''epub'' parser_panicked)
      | Done (Inl reason) \<Rightarrow> Inl (DocParse ''epub'' reason)
      | Done (Inr book) \<Rightarrow>
          Inr (join_str (newline @ newline) (epub_sections lib (eb_contents book)),
               \<lparr>dm_source_type = source_type Epub, dm_title = eb_title book, dm_author = eb_author book,
                dm_unit_label = unit_label Epub, dm_unit_count = eb_chapters book\<rparr>))"

definition unsupported_ext :: "string \<Rightarrow> string" where
  "unsupported_ext filename =
     (let ext = last (split_char CHR ''.'' filename) in if ext = filename then ''(none)'' else ext)"

definition DEFAULT_CHUNK_CHARS :: nat where
  "DEFAULT_CHUNK_CHARS = 1600"

definition parse_document :: "DocLib \<Rightarrow> string \<Rightarrow> string \<Rightarrow> nat \<Rightarrow> DocumentError + ParsedDocument" where
  "parse_document lib filename bytes target_chars =
     (case kind_of_filename filename of
        None \<Rightarrow> Inl (DocUnsupported (unsupported_ext filename))
      | Some kind \<Rightarrow>
          (case (case kind of Pdf \<Rightarrow> parse_pdf lib bytes | Epub \<Rightarrow> parse_epub lib bytes) of
             Inl e \<Rightarrow> Inl e
           | Inr (raw_text, meta) \<Rightarrow>
               (let txt = normalize_text raw_text
                in if txt = [] then Inl DocEmpty
                   else Inr \<lparr>pd_meta = meta, pd_text = txt, pd_chunks = chunk_text txt target_chars\<rparr>)))"

section \<open>The note of a document\<close>

text \<open>A JSON object keeps its keys in order.\<close>

fun jobj_insert :: "string \<Rightarrow> json \<Rightarrow> (string \<times> json) list \<Rightarrow> (string \<times> json) list" where
  "jobj_insert k v [] = [(k, v)]"
| "jobj_insert k v ((k', v') # m) =
     (if k = k' then (k, v) # m else if k < k' then (k, v) # (k', v') # m else (k', v') # jobj_insert k v m)"

record RenderedNote =
  rd_frontmatter :: "(string \<times> json) list"
  rd_body :: string
  rd_markdown :: string

definition jobj_insert_opt :: "string \<Rightarrow> string option \<Rightarrow> (string \<times> json) list \<Rightarrow> (string \<times> json) list" where
  "jobj_insert_opt k v m = (case v of Some s \<Rightarrow> jobj_insert k (JString s) m | None \<Rightarrow> m)"

definition document_frontmatter :: "string \<Rightarrow> ParsedDocument \<Rightarrow> string \<Rightarrow> (string \<times> json) list" where
  "document_frontmatter source_path doc ingested_at =
     jobj_insert ''ingested_at'' (JString ingested_at)
       (jobj_insert (dm_unit_label (pd_meta doc) @ ''_count'') (JNumber (PosInt (dm_unit_count (pd_meta doc))))
       (jobj_insert ''source_path'' (JString source_path)
       (jobj_insert_opt ''author'' (dm_author (pd_meta doc))
       (jobj_insert_opt ''title'' (dm_title (pd_meta doc))
       (jobj_insert ''source_type'' (JString (dm_source_type (pd_meta doc))) [])))))"

definition render_document_note_parts ::
  "(json \<Rightarrow> string option) \<Rightarrow> string \<Rightarrow> ParsedDocument \<Rightarrow> string \<Rightarrow> RenderedNote" where
  "render_document_note_parts json_yaml source_path doc ingested_at =
     (let frontmatter = document_frontmatter source_path doc ingested_at;
          heading = (case dm_title (pd_meta doc) of Some t \<Rightarrow> t | None \<Rightarrow> last (split_char CHR ''/'' source_path));
          body = ''# '' @ heading @ newline @ newline @ pd_text doc @ newline;
          yaml = (case json_yaml (JObject frontmatter) of Some y \<Rightarrow> y | None \<Rightarrow> [])
      in \<lparr>rd_frontmatter = frontmatter, rd_body = body,
          rd_markdown = ''---'' @ newline @ yaml @ ''---'' @ newline @ newline @ body\<rparr>)"

definition render_document_note :: "(json \<Rightarrow> string option) \<Rightarrow> string \<Rightarrow> ParsedDocument \<Rightarrow> string \<Rightarrow> string" where
  "render_document_note json_yaml source_path doc ingested_at =
     rd_markdown (render_document_note_parts json_yaml source_path doc ingested_at)"

section \<open>Chunks cover the text\<close>

definition chunk_ok :: "string list \<Rightarrow> nat \<Rightarrow> nat \<Rightarrow> DocumentChunk \<Rightarrow> bool" where
  "chunk_ok chars target start c \<longleftrightarrow>
     start \<le> dc_start c \<and> dc_start c < dc_end c \<and> dc_end c \<le> length chars \<and> dc_end c \<le> dc_start c + target \<and>
     dc_text c = trim (slice_chars chars (dc_start c) (dc_end c)) \<and> dc_text c \<noteq> []"

definition chunks_from_ok :: "string list \<Rightarrow> nat \<Rightarrow> nat \<Rightarrow> nat \<Rightarrow> DocumentChunk list \<Rightarrow> bool" where
  "chunks_from_ok chars target start idx cs \<longleftrightarrow>
     list_all (chunk_ok chars target start) cs \<and> sorted_wrt (\<lambda>c d. dc_end c \<le> dc_start d) cs \<and>
     map dc_index cs = [idx..<idx + length cs] \<and>
     (list_all utf8_char chars \<longrightarrow> (\<forall>p. start \<le> p \<and> p < length chars \<and> \<not> is_ws_char (chars ! p) \<longrightarrow>
        (\<exists>c \<in> set cs. dc_start c \<le> p \<and> p < dc_end c)))"

lemma chunk_ok_mono: "chunk_ok chars target stop c \<Longrightarrow> start \<le> stop \<Longrightarrow> chunk_ok chars target start c"
  unfolding chunk_ok_def by (meson order_trans)

lemma blank_slice:
  assumes "list_all utf8_char chars" "trim (slice_chars chars start stop) = []" "start \<le> p" "p < stop" "stop \<le> length chars"
  shows "is_ws_char (chars ! p)"
proof -
  let ?s = "take (stop - start) (drop start chars)"
  have "list_all utf8_char ?s" using assms(1) by (auto simp: list_all_iff dest: in_set_takeD in_set_dropD)
  then have "list_all is_ws_char ?s" using assms(2) trim_eq_Nil by (simp add: slice_chars_def)
  moreover have "?s ! (p - start) = chars ! p" "p - start < length ?s" using assms(3-5) by simp_all
  ultimately show ?thesis by (metis list_all_length)
qed

lemma chunk_from_step:
  assumes "chunks_from_ok chars target stop (if piece = [] then idx else idx + 1) cs"
    and "start < stop" "stop \<le> length chars" "stop \<le> start + target" "piece = trim (slice_chars chars start stop)"
  shows "chunks_from_ok chars target start idx
    (if piece = [] then cs else \<lparr>dc_index = idx, dc_start = start, dc_end = stop, dc_text = piece\<rparr> # cs)"
proof -
  let ?c = "\<lparr>dc_index = idx, dc_start = start, dc_end = stop, dc_text = piece\<rparr>"
  have ok: "\<forall>c \<in> set cs. chunk_ok chars target start c \<and> stop \<le> dc_start c"
    using assms(1,2) chunk_ok_mono [of chars target stop _ start] by (auto simp: chunks_from_ok_def list_all_iff chunk_ok_def)
  have cover: "\<exists>c \<in> set cs. dc_start c \<le> p \<and> p < dc_end c"
    if "list_all utf8_char chars" "stop \<le> p" "p < length chars" "\<not> is_ws_char (chars ! p)" for p
    using assms(1) that by (simp add: chunks_from_ok_def)
  show ?thesis
  proof (cases "piece = []")
    case True
    have "\<exists>c \<in> set cs. dc_start c \<le> p \<and> p < dc_end c"
      if "list_all utf8_char chars" "start \<le> p" "p < length chars" "\<not> is_ws_char (chars ! p)" for p
      using that cover [of p] blank_slice [OF that(1), of start stop p] assms(3,5) True by (cases "p < stop") auto
    then show ?thesis using assms(1) ok True by (auto simp: chunks_from_ok_def list_all_iff)
  next
    case False
    have "chunk_ok chars target start ?c" using assms False by (simp add: chunk_ok_def)
    moreover have "map dc_index (?c # cs) = [idx..<idx + length (?c # cs)]"
      using assms(1) False by (simp add: chunks_from_ok_def upt_conv_Cons del: upt_Suc)
    moreover have "\<exists>c \<in> set (?c # cs). dc_start c \<le> p \<and> p < dc_end c"
      if "list_all utf8_char chars" "start \<le> p" "p < length chars" "\<not> is_ws_char (chars ! p)" for p
      using that cover [of p] by (cases "p < stop") auto
    ultimately show ?thesis using assms(1) ok False unfolding chunks_from_ok_def list_all_iff by (simp del: upt_Suc)
  qed
qed

lemma chunk_from_ok: "0 < target \<Longrightarrow> start \<le> length chars \<Longrightarrow> chunks_from_ok chars target start idx (chunk_from chars target start idx)"
proof (induction chars target start idx rule: chunk_from.induct)
  case (1 chars target start idx)
  show ?case
  proof (cases "length chars \<le> start")
    case True
    then show ?thesis by (subst chunk_from.simps) (simp add: chunks_from_ok_def)
  next
    case False
    let ?stop = "chunk_end chars target start" let ?slice = "trim (slice_chars chars start ?stop)"
    have bounds: "start < ?stop" "?stop \<le> length chars" "?stop \<le> start + target"
      using chunk_end_bounds [of start chars target] False 1(3) by simp_all
    have cs: "chunk_from chars target start idx =
        (if ?slice = [] then chunk_from chars target ?stop (if ?slice = [] then idx else idx + 1)
         else \<lparr>dc_index = idx, dc_start = start, dc_end = ?stop, dc_text = ?slice\<rparr> #
           chunk_from chars target ?stop (if ?slice = [] then idx else idx + 1))"
      using False 1(3) by (subst chunk_from.simps) (simp add: Let_def)
    have "chunks_from_ok chars target ?stop (if ?slice = [] then idx else idx + 1)
        (chunk_from chars target ?stop (if ?slice = [] then idx else idx + 1))"
      using 1(1,2) [OF _ refl refl] False 1(3) bounds(2) by (cases "?slice = []") auto
    from chunk_from_step [OF this bounds refl] show ?thesis unfolding cs .
  qed
qed

text \<open>The chunks of a text are numbered from 0 and in the order of the text; each is the trimmed,
  nonempty text of its range of characters, which is not empty and not longer than the target; ranges do not
  overlap, and every character that is not white space is in one.\<close>

lemma chunk_text_promise:
  assumes "utf8_text txt"
  shows "map dc_index (chunk_text txt n) = [0..<length (chunk_text txt n)]"
    and "list_all (\<lambda>c. dc_start c < dc_end c \<and> dc_end c \<le> length (utf8_chars txt) \<and> dc_end c \<le> dc_start c + max n 1 \<and>
        dc_text c = trim (slice_chars (utf8_chars txt) (dc_start c) (dc_end c)) \<and> dc_text c \<noteq> []) (chunk_text txt n)"
    and "sorted_wrt (\<lambda>c d. dc_end c \<le> dc_start d) (chunk_text txt n)"
    and "\<forall>p < length (utf8_chars txt). \<not> is_ws_char (utf8_chars txt ! p) \<longrightarrow>
        (\<exists>c \<in> set (chunk_text txt n). dc_start c \<le> p \<and> p < dc_end c)"
proof -
  have "chunks_from_ok (utf8_chars txt) (max n 1) 0 0 (chunk_text txt n)"
    unfolding chunk_text_def by (rule chunk_from_ok) simp_all
  note ok = this [unfolded chunks_from_ok_def list_all_iff chunk_ok_def]
  show "map dc_index (chunk_text txt n) = [0..<length (chunk_text txt n)]"
    "sorted_wrt (\<lambda>c d. dc_end c \<le> dc_start d) (chunk_text txt n)"
    using ok by simp_all
  show "list_all (\<lambda>c. dc_start c < dc_end c \<and> dc_end c \<le> length (utf8_chars txt) \<and> dc_end c \<le> dc_start c + max n 1 \<and>
        dc_text c = trim (slice_chars (utf8_chars txt) (dc_start c) (dc_end c)) \<and> dc_text c \<noteq> []) (chunk_text txt n)"
    unfolding list_all_iff
  proof
    fix c
    assume "c \<in> set (chunk_text txt n)"
    from bspec [OF conjunct1 [OF ok] this] show "dc_start c < dc_end c \<and> dc_end c \<le> length (utf8_chars txt) \<and>
        dc_end c \<le> dc_start c + max n 1 \<and>
        dc_text c = trim (slice_chars (utf8_chars txt) (dc_start c) (dc_end c)) \<and> dc_text c \<noteq> []"
      by (elim conjE) (intro conjI)
  qed
  show "\<forall>p < length (utf8_chars txt). \<not> is_ws_char (utf8_chars txt ! p) \<longrightarrow>
        (\<exists>c \<in> set (chunk_text txt n). dc_start c \<le> p \<and> p < dc_end c)"
    using ok assms unfolding utf8_text_def list_all_iff by simp
qed

lemma chunk_text_promise_witness:
  "map dc_index (chunk_text (''ab'' @ newline @ ''cd'') 4) = [0..<length (chunk_text (''ab'' @ newline @ ''cd'') 4)] \<and>
   map dc_text (chunk_text (''ab'' @ newline @ ''cd'') 4) = [''ab'', ''cd'']"
proof -
  have "utf8_text (''ab'' @ newline @ ''cd'')" by code_simp
  moreover have "map dc_text (chunk_text (''ab'' @ newline @ ''cd'') 4) = [''ab'', ''cd'']" by code_simp
  ultimately show ?thesis using chunk_text_promise(1) [of "''ab'' @ newline @ ''cd''" 4] by blast
qed

end
