(* ===== verification/Ingest.thy ===== *)
theory Ingest
  imports Scan Document
begin

text \<open>
  The drop-folder ingestion worker (\<open>notesmith-ingest/src/lib.rs\<close>): a pass over the files of a raw folder that
  writes a note for each, tracked by the source path and the hash in its frontmatter.  The engine, the save
  pipeline and the document parser are those of the other theories; the directory walks, the hashes, the clock,
  YAML and the failures of the operating system are fields of \<open>IngestLib\<close>.
\<close>

section \<open>Outcomes and reports\<close>

definition STATUS_INGESTED :: string where "STATUS_INGESTED = ''ingested''"
definition STATUS_FAILED :: string where "STATUS_FAILED = ''failed''"
definition STATUS_UNSUPPORTED :: string where "STATUS_UNSUPPORTED = ''unsupported''"
definition LEDGER_FILENAME :: string where "LEDGER_FILENAME = ''log.md''"

datatype IngestError = IngestWrite string string

datatype ItemOutcome = Ingested | Unchanged | Reingested | Renamed | ItemFailed | Unsupported

record IngestItem =
  it_source_path :: string
  it_note_path :: string
  it_source_hash :: string
  it_outcome :: ItemOutcome

record IngestReport =
  ir_items :: "IngestItem list"
  ir_orphaned :: "string list"

definition report_count :: "IngestReport \<Rightarrow> ItemOutcome \<Rightarrow> nat" where
  "report_count r outcome = length (filter (\<lambda>i. it_outcome i = outcome) (ir_items r))"

record Sidecar =
  sc_note_path :: string
  sc_source_path :: string
  sc_source_hash :: string
  sc_status :: string
  sc_body :: string

record RawFile =
  rf_rel_path :: string
  rf_abs_path :: fpath
  rf_kind :: "DocumentKind option"

section \<open>Environment\<close>

text \<open>\<open>ig_walk_raw\<close> lists the entries below the raw folder by their paths in it; \<open>ig_ledger\<close> says how many bytes
  of the ledger's lines are written when it can be opened (\<open>None\<close>: it cannot).\<close>

record IngestLib =
  ig_io :: IoFaults
  ig_hash :: "string \<Rightarrow> string"
  ig_temp_tag :: string
  ig_yaml :: YamlLib
  ig_fields :: "string \<Rightarrow> frontmatter option"
  ig_stamp :: "string \<Rightarrow> string \<Rightarrow> string"
  ig_doc :: DocLib
  ig_sha :: "string \<Rightarrow> string"
  ig_mtime :: "fpath \<Rightarrow> string option"
  ig_walk :: "FileTree \<Rightarrow> walk_entry list"
  ig_walk_raw :: "FileTree \<Rightarrow> (string + string \<times> bool) list"
  ig_raw_fault :: "fpath \<Rightarrow> bool"
  ig_ledger :: "nat option"

record IngestWorker =
  iw_root :: string
  iw_raw_dir :: string
  iw_notes_dir :: string
  iw_now :: string

definition normalize_dir :: "string \<Rightarrow> string" where
  "normalize_dir dir = trim_matches_char CHR ''/'' dir"

definition ingest_worker :: "string \<Rightarrow> string \<Rightarrow> string \<Rightarrow> string \<Rightarrow> IngestWorker" where
  "ingest_worker root raw_dir notes_dir now =
     \<lparr>iw_root = root, iw_raw_dir = normalize_dir raw_dir, iw_notes_dir = normalize_dir notes_dir, iw_now = now\<rparr>"

section \<open>Names and hashes\<close>

definition raw_file_name :: "string \<Rightarrow> string" where
  "raw_file_name rel = last (split_char CHR ''/'' rel)"

definition raw_stem :: "string \<Rightarrow> string" where
  "raw_stem name = (case rsplit_once CHR ''.'' name of Some (s, _) \<Rightarrow> s | None \<Rightarrow> name)"

definition file_extension :: "string \<Rightarrow> string" where
  "file_extension rel =
     (case rsplit_once CHR ''.'' (raw_file_name rel) of Some (_, ext) \<Rightarrow> map ascii_lower ext | None \<Rightarrow> ''unknown'')"

definition hash_bytes :: "IngestLib \<Rightarrow> string \<Rightarrow> string" where
  "hash_bytes lib bytes = ''sha256:'' @ ig_sha lib bytes"

definition item_short_hash :: "string \<Rightarrow> string" where
  "item_short_hash hash =
     concat (take 12 (utf8_chars (case strip_prefix ''sha256:'' hash of Some h \<Rightarrow> h | None \<Rightarrow> hash)))"

fun ledger_status :: "ItemOutcome \<Rightarrow> string option" where
  "ledger_status Ingested = Some ''ingested''"
| "ledger_status Reingested = Some ''reingest''"
| "ledger_status Renamed = Some ''renamed''"
| "ledger_status ItemFailed = Some ''failed''"
| "ledger_status Unsupported = Some ''unsupported''"
| "ledger_status Unchanged = None"

fun classify_error :: "DocumentError \<Rightarrow> string \<times> ItemOutcome" where
  "classify_error (DocParse _ _) = (STATUS_FAILED, ItemFailed)"
| "classify_error DocEmpty = (STATUS_UNSUPPORTED, Unsupported)"
| "classify_error DocEncrypted = (STATUS_UNSUPPORTED, Unsupported)"
| "classify_error (DocUnsupported _) = (STATUS_UNSUPPORTED, Unsupported)"

fun promote_to_reingest :: "ItemOutcome \<Rightarrow> ItemOutcome" where
  "promote_to_reingest Ingested = Reingested"
| "promote_to_reingest other = other"

definition note_path_for :: "IngestWorker \<Rightarrow> string \<Rightarrow> string" where
  "note_path_for w raw_rel =
     (let without_prefix = (case strip_prefix (iw_raw_dir w @ ''/'') raw_rel of Some r \<Rightarrow> r | None \<Rightarrow> raw_rel);
          base = (case rsplit_once CHR ''.'' without_prefix of Some (s, _) \<Rightarrow> s | None \<Rightarrow> without_prefix)
      in iw_notes_dir w @ ''/'' @ base @ ''.md'')"

section \<open>Notes\<close>

definition fm_put :: "string \<Rightarrow> yaml \<Rightarrow> yaml_map \<Rightarrow> yaml_map" where
  "fm_put key value m = ymap_insert (YString key) value m"

definition fm_put_opt :: "string \<Rightarrow> string option \<Rightarrow> yaml_map \<Rightarrow> yaml_map" where
  "fm_put_opt key value m = (case value of Some v \<Rightarrow> fm_put key (YString v) m | None \<Rightarrow> m)"

definition yaml_text :: "IngestLib \<Rightarrow> yaml_map \<Rightarrow> string" where
  "yaml_text lib m = (case yl_to (ig_yaml lib) (YMap m) of Some y \<Rightarrow> y | None \<Rightarrow> [])"

definition ingest_frontmatter ::
  "IngestWorker \<Rightarrow> string \<Rightarrow> string \<Rightarrow> string \<Rightarrow> string \<Rightarrow> string option \<Rightarrow> string \<Rightarrow> (string \<times> nat) option \<Rightarrow> string option \<Rightarrow> yaml_map" where
  "ingest_frontmatter w title stype source_path source_hash mtime status unit reason =
     fm_put_opt ''reason'' reason
       ((case unit of Some (field, count) \<Rightarrow> fm_put field (YNumber (PosInt count)) | None \<Rightarrow> id)
       (fm_put ''status'' (YString status)
       (fm_put ''ingested_at'' (YString (iw_now w))
       (fm_put_opt ''source_mtime'' mtime
       (fm_put ''source_hash'' (YString source_hash)
       (fm_put ''source_path'' (YString source_path)
       (fm_put ''source_type'' (YString stype)
       (fm_put ''title'' (YString title) []))))))))"

definition render_note ::
  "IngestLib \<Rightarrow> IngestWorker \<Rightarrow> string \<Rightarrow> string \<Rightarrow> string \<Rightarrow> string \<Rightarrow> string option \<Rightarrow> string \<Rightarrow> (string \<times> nat) option \<Rightarrow>
     string option \<Rightarrow> string \<Rightarrow> string" where
  "render_note lib w title stype source_path source_hash mtime status unit reason body =
     ''---'' @ newline @
     yaml_text lib (ingest_frontmatter w title stype source_path source_hash mtime status unit reason) @
     ''---'' @ newline @ newline @ ''# '' @ title @ newline @ newline @ body @ newline"

definition moved_frontmatter ::
  "IngestWorker \<Rightarrow> string \<Rightarrow> string \<Rightarrow> string \<Rightarrow> string option \<Rightarrow> string \<Rightarrow> yaml_map" where
  "moved_frontmatter w title source_path source_hash mtime status =
     fm_put ''status'' (YString status)
       (fm_put ''ingested_at'' (YString (iw_now w))
       (fm_put_opt ''source_mtime'' mtime
       (fm_put ''source_hash'' (YString source_hash)
       (fm_put ''source_path'' (YString source_path)
       (fm_put ''title'' (YString title) [])))))"

definition render_note_with_body ::
  "IngestLib \<Rightarrow> IngestWorker \<Rightarrow> string \<Rightarrow> string \<Rightarrow> string \<Rightarrow> string option \<Rightarrow> string \<Rightarrow> string \<Rightarrow> string" where
  "render_note_with_body lib w title source_path source_hash mtime status body =
     ''---'' @ newline @ yaml_text lib (moved_frontmatter w title source_path source_hash mtime status) @
     ''---'' @ newline @ newline @ body @ newline"

definition write_ingested :: "IngestLib \<Rightarrow> IngestWorker \<Rightarrow> string \<Rightarrow> string \<Rightarrow> FileTree \<Rightarrow> (IngestError + unit) \<times> FileTree" where
  "write_ingested lib w note_path content t =
     (let finalized = apply_save_pipeline (yl_from (ig_yaml lib)) (yl_to (ig_yaml lib)) (ig_stamp lib note_path content) content
      in case engine_write (ig_io lib) (ig_hash lib) (ig_temp_tag lib) (iw_root w) note_path None finalized t of
          (Inl e, t1) \<Rightarrow> (Inl (IngestWrite note_path (notesmith_error_text e)), t1)
        | (Inr _, t1) \<Rightarrow> (Inr (), t1))"

text \<open>What is extracted of a raw file: title, source type, status, unit count, reason and body of its note, and
  the outcome it stands for.\<close>

type_synonym extract_result = "string \<times> string \<times> string \<times> (string \<times> nat) option \<times> string option \<times> string \<times> ItemOutcome"

definition extracted_parts :: "IngestLib \<Rightarrow> RawFile \<Rightarrow> string \<Rightarrow> extract_result" where
  "extracted_parts lib raw bytes =
     (let rel = rf_rel_path raw; filename = raw_file_name rel
      in case rf_kind raw of
          None \<Rightarrow>
            (filename, file_extension rel, STATUS_UNSUPPORTED, None, Some ''unsupported file type'', [], Unsupported)
        | Some kind \<Rightarrow>
            (case parse_document (ig_doc lib) filename bytes DEFAULT_CHUNK_CHARS of
               Inr parsed \<Rightarrow>
                 (let meta = pd_meta parsed
                  in (case dm_title meta of Some t \<Rightarrow> t | None \<Rightarrow> raw_stem filename, dm_source_type meta, STATUS_INGESTED,
                      Some (dm_unit_label meta @ ''_count'', dm_unit_count meta), None, pd_text parsed, Ingested))
             | Inl e \<Rightarrow>
                 (case classify_error e of
                    (status, outcome) \<Rightarrow>
                      (raw_stem filename, source_type kind, status, None, Some (document_error_text e), [], outcome))))"

definition extracted :: "IngestLib \<Rightarrow> IngestWorker \<Rightarrow> RawFile \<Rightarrow> string \<Rightarrow> string \<Rightarrow> string \<times> ItemOutcome" where
  "extracted lib w raw bytes current_hash =
     (case extracted_parts lib raw bytes of
        (title, stype, status, unit, reason, body, outcome) \<Rightarrow>
          (render_note lib w title stype (rf_rel_path raw) current_hash (ig_mtime lib (rf_abs_path raw)) status unit reason
             body, outcome))"

definition extract_and_write ::
  "IngestLib \<Rightarrow> IngestWorker \<Rightarrow> RawFile \<Rightarrow> string \<Rightarrow> string \<Rightarrow> string \<Rightarrow> FileTree \<Rightarrow> (IngestError + ItemOutcome) \<times> FileTree" where
  "extract_and_write lib w raw bytes current_hash note_path t =
     (case extracted lib w raw bytes current_hash of
        (note, outcome) \<Rightarrow>
          (case write_ingested lib w note_path note t of
             (Inl e, t1) \<Rightarrow> (Inl e, t1)
           | (Inr _, t1) \<Rightarrow> (Inr outcome, t1)))"

definition rename_sidecar ::
  "IngestLib \<Rightarrow> IngestWorker \<Rightarrow> Sidecar \<Rightarrow> RawFile \<Rightarrow> string \<Rightarrow> string \<Rightarrow> FileTree \<Rightarrow> (IngestError + unit) \<times> FileTree" where
  "rename_sidecar lib w sidecar raw current_hash new_note_path t =
     (let rel = rf_rel_path raw;
          note = render_note_with_body lib w (raw_file_name rel) rel current_hash (ig_mtime lib (rf_abs_path raw))
                   (sc_status sidecar) (sc_body sidecar)
      in case write_ingested lib w new_note_path note t of
          (Inl e, t1) \<Rightarrow> (Inl e, t1)
        | (Inr _, t1) \<Rightarrow>
            (Inr (), if sc_note_path sidecar \<noteq> new_note_path
                     then snd (engine_delete (ig_io lib) (iw_root w) (sc_note_path sidecar) t1) else t1))"

section \<open>Scans\<close>

definition scan_sidecars :: "IngestLib \<Rightarrow> IngestWorker \<Rightarrow> FileTree \<Rightarrow> Sidecar list" where
  "scan_sidecars lib w t =
     List.map_filter (\<lambda>note.
       (case sn_frontmatter note of
          None \<Rightarrow> None
        | Some fm \<Rightarrow>
            (case fm_str fm ''source_path'' of
               None \<Rightarrow> None
             | Some source_path \<Rightarrow>
                 if \<not> prefix (iw_raw_dir w @ ''/'') source_path then None
                 else Some
                   \<lparr>sc_note_path = sn_path note, sc_source_path = source_path,
                    sc_source_hash = (case fm_str fm ''source_hash'' of Some h \<Rightarrow> h | None \<Rightarrow> []),
                    sc_status = (case fm_str fm ''status'' of Some s \<Rightarrow> s | None \<Rightarrow> STATUS_INGESTED),
                    sc_body = sn_body note\<rparr>)))
       (engine_scan (ig_io lib) (ig_hash lib) (ig_fields lib) (resolve_parts (path_parts (iw_root w))) (ig_walk lib t) t)"

definition ledger_rel_path :: "IngestWorker \<Rightarrow> string" where
  "ledger_rel_path w = iw_raw_dir w @ ''/'' @ LEDGER_FILENAME"

definition raw_entry :: "IngestWorker \<Rightarrow> string + string \<times> bool \<Rightarrow> RawFile option" where
  "raw_entry w entry =
     (case entry of
        Inl _ \<Rightarrow> None
      | Inr (sub, is_file) \<Rightarrow>
          (let path = path_join (iw_raw_dir w) sub; rel_path = map (\<lambda>c. if c = CHR 0x5C then CHR ''/'' else c) path
           in if \<not> is_file \<or> prefix ''.'' (raw_file_name sub) \<or> rel_path = ledger_rel_path w then None
              else Some \<lparr>rf_rel_path = rel_path, rf_abs_path = at (iw_root w) path, rf_kind = kind_of_filename rel_path\<rparr>))"

definition scan_raw_files :: "IngestLib \<Rightarrow> IngestWorker \<Rightarrow> FileTree \<Rightarrow> RawFile list" where
  "scan_raw_files lib w t =
     (if at (iw_root w) (iw_raw_dir w) \<in> ft_dirs t
      then sort_key rf_rel_path (List.map_filter (raw_entry w) (ig_walk_raw lib t)) else [])"

section \<open>A pass\<close>

definition raw_bytes :: "IngestLib \<Rightarrow> RawFile \<Rightarrow> FileTree \<Rightarrow> string option" where
  "raw_bytes lib raw t = (if ig_raw_fault lib (rf_abs_path raw) then None else ft_files t (rf_abs_path raw))"

definition ingest_item :: "RawFile \<Rightarrow> string \<Rightarrow> string \<Rightarrow> ItemOutcome \<Rightarrow> IngestItem" where
  "ingest_item raw note_path hash outcome =
     \<lparr>it_source_path = rf_rel_path raw, it_note_path = note_path, it_source_hash = hash, it_outcome = outcome\<rparr>"

definition up_to_date :: "string \<Rightarrow> Sidecar \<Rightarrow> bool" where
  "up_to_date current_hash s \<longleftrightarrow> sc_source_hash s = current_hash \<and> sc_status s \<noteq> STATUS_FAILED"

definition process_raw ::
  "IngestLib \<Rightarrow> IngestWorker \<Rightarrow> (string \<rightharpoonup> Sidecar) \<Rightarrow> (string \<rightharpoonup> Sidecar) \<Rightarrow> string list \<Rightarrow> RawFile \<Rightarrow> FileTree \<Rightarrow>
     (IngestError + IngestItem) \<times> FileTree" where
  "process_raw lib w by_source_path by_hash raw_set raw t =
     (let expected_note = note_path_for w (rf_rel_path raw)
      in case raw_bytes lib raw t of
          None \<Rightarrow> (Inr (ingest_item raw expected_note [] ItemFailed), t)
        | Some bytes \<Rightarrow>
            (let current_hash = hash_bytes lib bytes
             in case by_source_path (rf_rel_path raw) of
                 Some sidecar \<Rightarrow>
                   if up_to_date current_hash sidecar
                   then (Inr (ingest_item raw (sc_note_path sidecar) current_hash Unchanged), t)
                   else (case extract_and_write lib w raw bytes current_hash (sc_note_path sidecar) t of
                           (Inl e, t1) \<Rightarrow> (Inl e, t1)
                         | (Inr outcome, t1) \<Rightarrow>
                             (Inr (ingest_item raw (sc_note_path sidecar) current_hash (promote_to_reingest outcome)), t1))
               | None \<Rightarrow>
                   (case by_hash current_hash of
                      Some sidecar \<Rightarrow>
                        if sc_source_path sidecar \<notin> set raw_set
                        then (case rename_sidecar lib w sidecar raw current_hash expected_note t of
                                (Inl e, t1) \<Rightarrow> (Inl e, t1)
                              | (Inr _, t1) \<Rightarrow> (Inr (ingest_item raw expected_note current_hash Renamed), t1))
                        else (case extract_and_write lib w raw bytes current_hash expected_note t of
                                (Inl e, t1) \<Rightarrow> (Inl e, t1)
                              | (Inr outcome, t1) \<Rightarrow> (Inr (ingest_item raw expected_note current_hash outcome), t1))
                    | None \<Rightarrow>
                        (case extract_and_write lib w raw bytes current_hash expected_note t of
                           (Inl e, t1) \<Rightarrow> (Inl e, t1)
                         | (Inr outcome, t1) \<Rightarrow> (Inr (ingest_item raw expected_note current_hash outcome), t1)))))"

fun process_all ::
  "(RawFile \<Rightarrow> FileTree \<Rightarrow> (IngestError + IngestItem) \<times> FileTree) \<Rightarrow> RawFile list \<Rightarrow> FileTree \<Rightarrow>
     (IngestError + IngestItem list) \<times> FileTree" where
  "process_all f [] t = (Inr [], t)"
| "process_all f (raw # raws) t =
     (case f raw t of
        (Inl e, t1) \<Rightarrow> (Inl e, t1)
      | (Inr item, t1) \<Rightarrow>
          (case process_all f raws t1 of
             (Inl e, t2) \<Rightarrow> (Inl e, t2)
           | (Inr items, t2) \<Rightarrow> (Inr (item # items), t2)))"

definition ledger_line :: "string \<Rightarrow> IngestItem \<Rightarrow> string" where
  "ledger_line ts item =
     (case ledger_status (it_outcome item) of
        None \<Rightarrow> []
      | Some status \<Rightarrow>
          ''## ['' @ ts @ ''] ingest | '' @ it_note_path item @ '' | status='' @ status @ '' | source='' @ it_source_path item @
          (if item_short_hash (it_source_hash item) = [] then [] else '' | hash='' @ item_short_hash (it_source_hash item)) @ newline)"

text \<open>Lines are appended; a failing write leaves a part of them.\<close>

definition append_ledger :: "IngestLib \<Rightarrow> IngestWorker \<Rightarrow> IngestReport \<Rightarrow> FileTree \<Rightarrow> FileTree" where
  "append_ledger lib w report t =
     (let ls = concat (map (ledger_line (iw_now w)) (ir_items report)); p = at (iw_root w) (ledger_rel_path w)
      in if ls = [] then t
         else case os_mkdir_all (ig_io lib) (parent_of (iw_root w) (ledger_rel_path w)) t of
             (Inl _, t1) \<Rightarrow> t1
           | (Inr _, t1) \<Rightarrow>
               (case ig_ledger lib of
                  None \<Rightarrow> t1
                | Some n \<Rightarrow>
                    if p \<in> ft_dirs t1 then t1
                    else t1\<lparr>ft_files := (ft_files t1)(p \<mapsto> (case ft_files t1 p of Some old \<Rightarrow> old | None \<Rightarrow> []) @ take n ls)\<rparr>))"

definition ingest_pass :: "IngestLib \<Rightarrow> IngestWorker \<Rightarrow> FileTree \<Rightarrow> (IngestError + IngestReport) \<times> FileTree" where
  "ingest_pass lib w t =
     (let sidecars = scan_sidecars lib w t;
          by_source_path = collect_map (map (\<lambda>s. (sc_source_path s, s)) sidecars);
          by_hash = collect_map (map (\<lambda>s. (sc_source_hash s, s)) sidecars);
          raw_files = scan_raw_files lib w t;
          raw_set = map rf_rel_path raw_files
      in case process_all (process_raw lib w by_source_path by_hash raw_set) raw_files t of
          (Inl e, t1) \<Rightarrow> (Inl e, t1)
        | (Inr items, t1) \<Rightarrow>
            (let report = \<lparr>ir_items = items,
                   ir_orphaned = sort (map sc_note_path (filter (\<lambda>s. sc_source_path s \<notin> set raw_set) sidecars))\<rparr>
             in (Inr report, append_ledger lib w report t1)))"

section \<open>What a pass changes\<close>

lemma write_ingested_files:
  assumes "write_ingested lib w path c t = (r, t')"
  shows "\<not> isl r \<Longrightarrow> ft_files t' (at (iw_root w) path) =
      Some (apply_save_pipeline (yl_from (ig_yaml lib)) (yl_to (ig_yaml lib)) (ig_stamp lib path c) c)"
    and "plain_path k \<Longrightarrow> k \<noteq> at (iw_root w) path \<Longrightarrow> ft_files t' k = ft_files t k"
proof -
  let ?c = "apply_save_pipeline (yl_from (ig_yaml lib)) (yl_to (ig_yaml lib)) (ig_stamp lib path c) c"
  obtain r1 where e: "engine_write (ig_io lib) (ig_hash lib) (ig_temp_tag lib) (iw_root w) path None ?c t = (r1, t')"
    and r: "isl r = isl r1" using assms by (auto simp: write_ingested_def Let_def split: sum.splits prod.splits)
  show "\<not> isl r \<Longrightarrow> ft_files t' (at (iw_root w) path) = Some ?c"
  proof -
    assume "\<not> isl r"
    then obtain res where res: "r1 = Inr res" using r by (cases r1) auto
    have "\<exists>h. res = Written h"
      using e res unfolding engine_write_def replace_file_def Let_def
      by (auto split: option.splits sum.splits prod.splits)
    then show ?thesis using engine_write_result(1) [OF e] res by blast
  qed
  show "plain_path k \<Longrightarrow> k \<noteq> at (iw_root w) path \<Longrightarrow> ft_files t' k = ft_files t k"
    using engine_write_result(2) [OF e, of k] by blast
qed









section \<open>Settled and unsettled folders\<close>

definition tracked :: "IngestLib \<Rightarrow> IngestWorker \<Rightarrow> FileTree \<Rightarrow> RawFile \<Rightarrow> bool" where
  "tracked lib w t raw \<longleftrightarrow>
     (\<exists>bytes s. raw_bytes lib raw t = Some bytes \<and>
        collect_map (map (\<lambda>s. (sc_source_path s, s)) (scan_sidecars lib w t)) (rf_rel_path raw) = Some s \<and>
        up_to_date (hash_bytes lib bytes) s)"

lemma process_tracked:
  assumes "raw_bytes lib raw t = Some bytes" "bs (rf_rel_path raw) = Some s" "up_to_date (hash_bytes lib bytes) s"
  shows "process_raw lib w bs bh rs raw t = (Inr (ingest_item raw (sc_note_path s) (hash_bytes lib bytes) Unchanged), t)"
  using assms by (simp add: process_raw_def Let_def)

lemma process_unchanged:
  assumes "process_raw lib w bs bh rs raw t = (Inr item, t')" "it_outcome item = Unchanged"
  shows "t' = t \<and> (\<exists>bytes s. raw_bytes lib raw t = Some bytes \<and> bs (rf_rel_path raw) = Some s \<and>
    up_to_date (hash_bytes lib bytes) s)"
proof -
  have not_unchanged: "o1 \<noteq> Unchanged" if "extract_and_write lib w raw b h p t = (Inr o1, t1)" for b h p t t1 o1
  proof -
    obtain nt o2 where e: "extracted lib w raw b h = (nt, o2)" by fastforce
    have "o2 \<noteq> Unchanged"
    proof -
      obtain x where parts: "extracted_parts lib raw b = x" by blast
      have "snd (snd (snd (snd (snd (snd (extracted_parts lib raw b)))))) \<noteq> Unchanged"
        unfolding extracted_parts_def Let_def
        by (auto split: option.splits sum.splits prod.splits elim!: classify_error.elims)
      then show ?thesis using e by (auto simp: extracted_def split: prod.splits)
    qed
    then show ?thesis using that e by (auto simp: extract_and_write_def split: sum.splits prod.splits)
  qed
  have promoted: "promote_to_reingest o1 \<noteq> Unchanged" if "o1 \<noteq> Unchanged" for o1 using that by (cases o1) simp_all
  show ?thesis
  proof (cases "raw_bytes lib raw t")
    case None
    then show ?thesis using assms by (auto simp: process_raw_def ingest_item_def)
  next
    case (Some bytes)
    note unf = assms(1) [unfolded process_raw_def Let_def Some option.case]
    show ?thesis
    proof (cases "bs (rf_rel_path raw)")
      case None
      then show ?thesis using unf assms(2) not_unchanged by (auto simp: ingest_item_def split: option.splits if_splits sum.splits prod.splits)
    next
      case some: (Some s)
      show ?thesis
      proof (cases "up_to_date (hash_bytes lib bytes) s")
        case True
        then show ?thesis using unf some Some by simp
      next
        case False
        then show ?thesis using unf some assms(2) not_unchanged promoted
          by (auto simp: ingest_item_def split: sum.splits prod.splits)
      qed
    qed
  qed
qed

lemma process_all_tracked:
  assumes "\<forall>raw \<in> set raws. \<exists>bytes s. raw_bytes lib raw t = Some bytes \<and> bs (rf_rel_path raw) = Some s \<and>
      up_to_date (hash_bytes lib bytes) s"
  shows "\<exists>items. process_all (process_raw lib w bs bh rs) raws t = (Inr items, t) \<and>
    map it_source_path items = map rf_rel_path raws \<and> list_all (\<lambda>i. it_outcome i = Unchanged) items"
  using assms
proof (induction raws)
  case (Cons raw raws)
  then obtain bytes s where "raw_bytes lib raw t = Some bytes" "bs (rf_rel_path raw) = Some s" "up_to_date (hash_bytes lib bytes) s"
    by auto
  then have one: "process_raw lib w bs bh rs raw t = (Inr (ingest_item raw (sc_note_path s) (hash_bytes lib bytes) Unchanged), t)"
    by (rule process_tracked)
  moreover obtain items where "process_all (process_raw lib w bs bh rs) raws t = (Inr items, t)"
    "map it_source_path items = map rf_rel_path raws" "list_all (\<lambda>i. it_outcome i = Unchanged) items"
    using Cons by auto
  ultimately show ?case by (simp add: ingest_item_def)
qed simp

lemma process_all_unchanged:
  assumes "process_all (process_raw lib w bs bh rs) raws t = (Inr items, t')" "list_all (\<lambda>i. it_outcome i = Unchanged) items"
  shows "\<forall>raw \<in> set raws. \<exists>bytes s. raw_bytes lib raw t = Some bytes \<and> bs (rf_rel_path raw) = Some s \<and>
      up_to_date (hash_bytes lib bytes) s"
  using assms
proof (induction raws arbitrary: items)
  case (Cons raw raws)
  obtain item t1 where one: "process_raw lib w bs bh rs raw t = (Inr item, t1)"
    using Cons.prems(1) by (auto split: sum.splits prod.splits)
  then obtain rest where items: "items = item # rest" "process_all (process_raw lib w bs bh rs) raws t1 = (Inr rest, t')"
    using Cons.prems(1) by (auto split: sum.splits prod.splits)
  then have "it_outcome item = Unchanged" "list_all (\<lambda>i. it_outcome i = Unchanged) rest" using Cons.prems(2) by simp_all
  then show ?case using process_unchanged [OF one] items(2) Cons.IH by auto
qed simp

lemma ledger_silent:
  assumes "list_all (\<lambda>i. it_outcome i = Unchanged) (ir_items rep)"
  shows "append_ledger lib w rep t = t"
proof -
  have "concat (map (ledger_line ts) items) = []" if "list_all (\<lambda>i. it_outcome i = Unchanged) items" for ts items
    using that by (induction items) (auto simp: ledger_line_def)
  with assms show ?thesis by (simp add: append_ledger_def)
qed

text \<open>C36: a pass leaves the vault exactly as it is and reports every raw file as unchanged if and only if it
  succeeds and every raw file is readable and tracked by a note with its hash that is not marked as failed.\<close>

theorem steady_pass_iff:
  "(\<exists>rep. ingest_pass lib w t = (Inr rep, t) \<and> list_all (\<lambda>i. it_outcome i = Unchanged) (ir_items rep)) \<longleftrightarrow>
   list_all (tracked lib w t) (scan_raw_files lib w t)"
proof -
  let ?sc = "scan_sidecars lib w t" and ?raws = "scan_raw_files lib w t"
  let ?bs = "collect_map (map (\<lambda>s. (sc_source_path s, s)) ?sc)" and ?bh = "collect_map (map (\<lambda>s. (sc_source_hash s, s)) ?sc)"
  let ?run = "process_all (process_raw lib w ?bs ?bh (map rf_rel_path ?raws)) ?raws t"
  show ?thesis
  proof
    assume "\<exists>rep. ingest_pass lib w t = (Inr rep, t) \<and> list_all (\<lambda>i. it_outcome i = Unchanged) (ir_items rep)"
    then obtain rep where rep: "ingest_pass lib w t = (Inr rep, t)" "list_all (\<lambda>i. it_outcome i = Unchanged) (ir_items rep)" by blast
    then obtain t1 where "?run = (Inr (ir_items rep), t1)"
      unfolding ingest_pass_def Let_def by (auto split: sum.splits prod.splits)
    from process_all_unchanged [OF this rep(2)] show "list_all (tracked lib w t) ?raws"
      by (simp add: tracked_def list_all_iff)
  next
    assume "list_all (tracked lib w t) ?raws"
    then obtain items where items: "?run = (Inr items, t)" "list_all (\<lambda>i. it_outcome i = Unchanged) items"
      using process_all_tracked [of ?raws lib t ?bs w ?bh "map rf_rel_path ?raws"] unfolding tracked_def list_all_iff by blast
    then show "\<exists>rep. ingest_pass lib w t = (Inr rep, t) \<and> list_all (\<lambda>i. it_outcome i = Unchanged) (ir_items rep)"
      by (simp add: ingest_pass_def ledger_silent)
  qed
qed


section \<open>The notes track their files\<close>

text \<open>What YAML keeps of a mapping: the note as rendered and the note as saved read back.\<close>

definition yaml_keeps :: "IngestLib \<Rightarrow> string \<Rightarrow> yaml_map \<Rightarrow> bool" where
  "yaml_keeps lib ts m \<longleftrightarrow>
     (\<exists>y. yl_to (ig_yaml lib) (YMap m) = Some (y @ newline) \<and> no_delimiter (y @ newline) \<and>
        parse_frontmatter_mapping (yl_from (ig_yaml lib)) (trim_line_ending y) = Some m) \<and>
     yaml_reads_back (yl_from (ig_yaml lib)) (yl_to (ig_yaml lib)) (saved_mapping (yl_to (ig_yaml lib)) ts m) \<and>
     (\<exists>fm. ig_fields lib (trim_line_ending (serialize_frontmatter (yl_to (ig_yaml lib)) (saved_mapping (yl_to (ig_yaml lib)) ts m))) = Some fm \<and>
        (\<forall>key. fm key = map_of (saved_mapping (yl_to (ig_yaml lib)) ts m) (YString key)))"

lemma saved_note_fields:
  assumes "yaml_keeps lib ts m" "distinct (map fst m)"
    and "parsed = parsed_note hash (ig_fields lib) path
      (apply_save_pipeline (yl_from (ig_yaml lib)) (yl_to (ig_yaml lib)) ts
        (''---'' @ newline @ yaml_text lib m @ ''---'' @ newline @ body))"
  shows "\<exists>fm. sn_frontmatter parsed = Some fm \<and> sn_body parsed = saved_body body \<and>
      (\<forall>key. key \<notin> {''created'', ''updated''} \<longrightarrow> fm key = map_of m (YString key))"
proof -
  let ?from = "yl_from (ig_yaml lib)" and ?to = "yl_to (ig_yaml lib)"
  let ?content = "''---'' @ newline @ yaml_text lib m @ ''---'' @ newline @ body"
  obtain y where y: "?to (YMap m) = Some (y @ newline)" "no_delimiter (y @ newline)"
    "parse_frontmatter_mapping ?from (trim_line_ending y) = Some m" using assms(1) by (auto simp: yaml_keeps_def)
  have "extract_frontmatter ?content = (Some (trim_line_ending y), body)"
    using extract_document(1) [OF y(2) [unfolded newline_def], of body] y(1) by (simp add: yaml_text_def newline_def)
  from save_extract [OF this y(3)] assms(1)
  have saved: "extract_frontmatter (apply_save_pipeline ?from ?to ts ?content) =
      (Some (trim_line_ending (serialize_frontmatter ?to (saved_mapping ?to ts m))), saved_body body)"
    by (simp add: yaml_keeps_def)
  obtain fm where fm: "ig_fields lib (trim_line_ending (serialize_frontmatter ?to (saved_mapping ?to ts m))) = Some fm"
    "\<forall>key. fm key = map_of (saved_mapping ?to ts m) (YString key)" using assms(1) by (auto simp: yaml_keeps_def)
  have "map_of (saved_mapping ?to ts m) = map_of (stamp ts m)"
    unfolding saved_mapping_def by (rule sort_mapping_lookup) (rule stamp_distinct [OF assms(2)])
  then have "fm key = map_of m (YString key)" if "key \<notin> {''created'', ''updated''}" for key
    using fm(2) that by (auto simp: stamp_lookup)
  then show ?thesis using fm(1) unfolding assms(3) parsed_note_def saved prod.case by simp
qed

lemma fm_put_lookup: "map_of (fm_put key v m) k = (if k = YString key then Some v else map_of m k)"
  by (simp add: fm_put_def map_of_ymap_insert)

lemma fm_put_opt_lookup: "k \<noteq> YString key \<Longrightarrow> map_of (fm_put_opt key v m) k = map_of m k"
  by (simp add: fm_put_opt_def fm_put_lookup split: option.split)

lemma fm_put_distinct: "distinct (map fst m) \<Longrightarrow> distinct (map fst (fm_put key v m))"
  "distinct (map fst m) \<Longrightarrow> distinct (map fst (fm_put_opt key s m))"
  by (simp_all add: fm_put_def fm_put_opt_def ymap_insert_distinct split: option.split)

definition count_unit :: "(string \<times> nat) option \<Rightarrow> bool" where
  "count_unit unit \<longleftrightarrow> (case unit of Some (field, _) \<Rightarrow> suffix ''_count'' field | None \<Rightarrow> True)"

lemma ingest_frontmatter_lookup:
  assumes "count_unit unit"
  shows "map_of (ingest_frontmatter w title stype rel h mtime status unit reason) (YString ''source_path'') = Some (YString rel)"
    and "map_of (ingest_frontmatter w title stype rel h mtime status unit reason) (YString ''source_hash'') = Some (YString h)"
    and "map_of (ingest_frontmatter w title stype rel h mtime status unit reason) (YString ''status'') = Some (YString status)"
    and "distinct (map fst (ingest_frontmatter w title stype rel h mtime status unit reason))"
proof -
  have "field \<noteq> ''source_path'' \<and> field \<noteq> ''source_hash'' \<and> field \<noteq> ''status''" if "unit = Some (field, n)" for field n
    using assms that by (auto simp: count_unit_def suffix_def append_eq_Cons_conv)
  then show "map_of (ingest_frontmatter w title stype rel h mtime status unit reason) (YString ''source_path'') = Some (YString rel)"
    "map_of (ingest_frontmatter w title stype rel h mtime status unit reason) (YString ''source_hash'') = Some (YString h)"
    "map_of (ingest_frontmatter w title stype rel h mtime status unit reason) (YString ''status'') = Some (YString status)"
    by (auto simp: ingest_frontmatter_def fm_put_lookup fm_put_opt_lookup split: option.split)
  show "distinct (map fst (ingest_frontmatter w title stype rel h mtime status unit reason))"
    unfolding ingest_frontmatter_def by (cases unit) (auto intro!: fm_put_distinct)
qed

lemma extracted_parts_status:
  assumes "extracted_parts lib raw bytes = (title, stype, status, unit, reason, body, outcome)"
  shows "count_unit unit" "status \<noteq> STATUS_FAILED \<longleftrightarrow> outcome \<noteq> ItemFailed"
proof -
  have "count_unit unit \<and> (status \<noteq> STATUS_FAILED \<longleftrightarrow> outcome \<noteq> ItemFailed)"
    using assms unfolding extracted_parts_def Let_def
    by (auto simp: count_unit_def suffix_def STATUS_FAILED_def STATUS_INGESTED_def STATUS_UNSUPPORTED_def
        split: option.splits sum.splits prod.splits elim!: classify_error.elims)
  then show "count_unit unit" "status \<noteq> STATUS_FAILED \<longleftrightarrow> outcome \<noteq> ItemFailed" by blast+
qed

definition sidecar_of :: "IngestWorker \<Rightarrow> ScannedNote \<Rightarrow> Sidecar option" where
  "sidecar_of w nt =
     (case sn_frontmatter nt of
        None \<Rightarrow> None
      | Some fm \<Rightarrow>
          (case fm_str fm ''source_path'' of
             None \<Rightarrow> None
           | Some source_path \<Rightarrow>
               if \<not> prefix (iw_raw_dir w @ ''/'') source_path then None
               else Some
                 \<lparr>sc_note_path = sn_path nt, sc_source_path = source_path,
                  sc_source_hash = (case fm_str fm ''source_hash'' of Some h \<Rightarrow> h | None \<Rightarrow> []),
                  sc_status = (case fm_str fm ''status'' of Some s \<Rightarrow> s | None \<Rightarrow> STATUS_INGESTED),
                  sc_body = sn_body nt\<rparr>))"

lemma scan_sidecars_alt: "scan_sidecars lib w t = List.map_filter (sidecar_of w)
    (engine_scan (ig_io lib) (ig_hash lib) (ig_fields lib) (resolve_parts (path_parts (iw_root w))) (ig_walk lib t) t)"
  unfolding scan_sidecars_def sidecar_of_def by (rule refl)

text \<open>C35: the note written for a raw file, scanned again, is a sidecar of that file with its hash; the next pass
  takes it as up to date unless the extraction failed, and the failed one is tried again.\<close>

theorem note_tracks_its_file:
  assumes "extract_and_write lib w raw bytes h path t = (Inr outcome, t')"
    and "extracted_parts lib raw bytes = (title, stype, status, unit, reason, body, outcome)"
    and "yaml_keeps lib (ig_stamp lib path (fst (extracted lib w raw bytes h)))
      (ingest_frontmatter w title stype (rf_rel_path raw) h (ig_mtime lib (rf_abs_path raw)) status unit reason)"
    and "prefix (iw_raw_dir w @ ''/'') (rf_rel_path raw)"
  shows "\<exists>content s. ft_files t' (at (iw_root w) path) = Some content \<and>
      sidecar_of w (parsed_note (ig_hash lib) (ig_fields lib) path content) = Some s \<and>
      sc_note_path s = path \<and> sc_source_path s = rf_rel_path raw \<and> (up_to_date h s \<longleftrightarrow> outcome \<noteq> ItemFailed)"
proof -
  let ?m = "ingest_frontmatter w title stype (rf_rel_path raw) h (ig_mtime lib (rf_abs_path raw)) status unit reason"
  obtain nt where nt: "extracted lib w raw bytes h = (nt, outcome)" and text_eq: "nt = ''---'' @ newline @ yaml_text lib ?m @ ''---'' @ newline @
      (newline @ ''# '' @ title @ newline @ newline @ body @ newline)"
    using assms(2) by (simp add: extracted_def render_note_def)
  have keeps: "yaml_keeps lib (ig_stamp lib path nt) ?m" using assms(3) nt by simp
  obtain r1 t1 where wr: "write_ingested lib w path nt t = (r1, t1)" by fastforce
  have "\<not> isl r1" "t' = t1" using assms(1) unfolding extract_and_write_def nt prod.case wr by (auto split: sum.splits)
  then have written: "ft_files t' (at (iw_root w) path) =
      Some (apply_save_pipeline (yl_from (ig_yaml lib)) (yl_to (ig_yaml lib)) (ig_stamp lib path nt) nt)"
    using write_ingested_files(1) [OF wr] by simp
  note parts = extracted_parts_status [OF assms(2)]
  note look = ingest_frontmatter_lookup [OF parts(1), of w title stype "rf_rel_path raw" h "ig_mtime lib (rf_abs_path raw)" status reason]
  let ?p = "parsed_note (ig_hash lib) (ig_fields lib) path
      (apply_save_pipeline (yl_from (ig_yaml lib)) (yl_to (ig_yaml lib)) (ig_stamp lib path nt) nt)"
  obtain fm where fm: "sn_frontmatter ?p = Some fm" "\<forall>key. key \<notin> {''created'', ''updated''} \<longrightarrow> fm key = map_of ?m (YString key)"
    using saved_note_fields [OF keeps look(4), of ?p] unfolding text_eq by blast
  have "fm ''source_path'' = Some (YString (rf_rel_path raw))" "fm ''source_hash'' = Some (YString h)"
    "fm ''status'' = Some (YString status)"
    using fm(2) look(1-3) by simp_all
  then have s: "\<exists>s. sidecar_of w ?p = Some s \<and> sc_note_path s = path \<and> sc_source_path s = rf_rel_path raw \<and>
      sc_source_hash s = h \<and> sc_status s = status"
    using fm(1) assms(4) by (simp add: sidecar_of_def fm_str_def parsed_note_def split: prod.split)
  then show ?thesis using written parts(2) by (auto simp: up_to_date_def)
qed

section \<open>Witnesses\<close>

definition drop_doc :: DocLib where
  "drop_doc = \<lparr>dl_pdf = (\<lambda>_. Done (Inr [''hello''])), dl_epub = (\<lambda>_. Done (Inl ''bad'')), dl_markdown = Some, dl_lower = id\<rparr>"

definition drop_to :: "yaml \<Rightarrow> string option" where
  "drop_to y = (case y of YMap m \<Rightarrow> Some ((if ymap_has (YString ''updated'') m then ''c: d'' else ''a: b'') @ newline) | _ \<Rightarrow> Some [])"

definition drop_worker :: IngestWorker where
  "drop_worker = ingest_worker ''/v'' ''/raw/'' ''ingested'' ''now''"

definition drop_mapping :: yaml_map where
  "drop_mapping = ingest_frontmatter drop_worker ''a'' ''pdf'' ''raw/a.pdf'' ''sha256:x'' None STATUS_INGESTED (Some (''page_count'', 1)) None"

definition drop_from :: "string \<Rightarrow> yaml option" where
  "drop_from raw = (if raw = ''a: b'' then Some (YMap drop_mapping)
     else if raw = ''c: d'' then Some (YMap (saved_mapping drop_to ''t'' drop_mapping)) else None)"

definition drop_lib :: IngestLib where
  "drop_lib = \<lparr>ig_io = no_faults, ig_hash = id, ig_temp_tag = ''1'',
     ig_yaml = \<lparr>yl_from = drop_from, yl_to = drop_to, yl_json = (\<lambda>_. Inl []), yl_error = id\<rparr>,
     ig_fields = (\<lambda>raw. if raw = ''c: d'' then Some (\<lambda>key. map_of (saved_mapping drop_to ''t'' drop_mapping) (YString key)) else None),
     ig_stamp = (\<lambda>_ _. ''t''), ig_doc = drop_doc, ig_sha = (\<lambda>_. ''x''), ig_mtime = (\<lambda>_. None),
     ig_walk = (\<lambda>_. [Inr ([''v'', ''ingested'', ''a.md''], True), Inr ([''v'', ''raw'', ''a.pdf''], True)]),
     ig_walk_raw = (\<lambda>_. [Inr (''a.pdf'', True), Inr (''a.epub'', True), Inr (''log.md'', True)]),
     ig_raw_fault = (\<lambda>_. False), ig_ledger = Some 1000\<rparr>"

definition drop_tree :: FileTree where
  "drop_tree = \<lparr>ft_files = [[''v'', ''raw'', ''a.pdf''] \<mapsto> ''PDF'', [''v'', ''raw'', ''a.epub''] \<mapsto> ''EPUB'',
       [''v'', ''ingested'', ''a.md''] \<mapsto> ''---'' @ newline @ ''c: d'' @ newline @ ''---'' @ newline @ ''x''],
     ft_dirs = {[], [''v''], [''v'', ''raw''], [''v'', ''ingested'']}\<rparr>"







lemma drop_extract:
  "extracted_parts drop_lib \<lparr>rf_rel_path = ''raw/a.pdf'', rf_abs_path = [''v'', ''raw'', ''a.pdf''], rf_kind = Some Pdf\<rparr> ''PDF'' =
     (''a'', ''pdf'', STATUS_INGESTED, Some (''page_count'', 1), None, ''hello'', Ingested)"
  by code_simp

lemma drop_keeps: "yaml_keeps drop_lib ''t'' drop_mapping"
proof -
  have "drop_to (YMap drop_mapping) = Some (''a: b'' @ newline)" "no_delimiter (''a: b'' @ newline)"
    "parse_frontmatter_mapping drop_from (trim_line_ending ''a: b'') = Some drop_mapping"
    "serialize_frontmatter drop_to (saved_mapping drop_to ''t'' drop_mapping) = ''c: d''"
    "trim_line_ending ''c: d'' = ''c: d''" "no_delimiter (''c: d'' @ [CHR 0x0A])"
    "parse_frontmatter_mapping drop_from ''c: d'' = Some (saved_mapping drop_to ''t'' drop_mapping)"
    by code_simp+
  then show ?thesis by (auto simp: yaml_keeps_def drop_lib_def yaml_reads_back_def)
qed

lemma note_tracks_its_file_witness:
  "\<exists>outcome t' content s. extract_and_write drop_lib drop_worker
       \<lparr>rf_rel_path = ''raw/a.pdf'', rf_abs_path = [''v'', ''raw'', ''a.pdf''], rf_kind = Some Pdf\<rparr> ''PDF'' ''sha256:x'' ''ingested/b.md'' drop_tree =
       (Inr outcome, t') \<and>
     ft_files t' (at (iw_root drop_worker) ''ingested/b.md'') = Some content \<and>
     sidecar_of drop_worker (parsed_note (ig_hash drop_lib) (ig_fields drop_lib) ''ingested/b.md'' content) = Some s \<and> up_to_date ''sha256:x'' s"
proof -
  let ?raw = "\<lparr>rf_rel_path = ''raw/a.pdf'', rf_abs_path = [''v'', ''raw'', ''a.pdf''], rf_kind = Some Pdf\<rparr>"
  have ok: "fst (extract_and_write drop_lib drop_worker ?raw ''PDF'' ''sha256:x'' ''ingested/b.md'' drop_tree) = Inr Ingested"
    by code_simp
  obtain t' where run: "extract_and_write drop_lib drop_worker ?raw ''PDF'' ''sha256:x'' ''ingested/b.md'' drop_tree = (Inr Ingested, t')"
    using ok by (cases "extract_and_write drop_lib drop_worker ?raw ''PDF'' ''sha256:x'' ''ingested/b.md'' drop_tree") auto
  have "yaml_keeps drop_lib (ig_stamp drop_lib ''ingested/b.md'' (fst (extracted drop_lib drop_worker ?raw ''PDF'' ''sha256:x'')))
      (ingest_frontmatter drop_worker ''a'' ''pdf'' (rf_rel_path ?raw) ''sha256:x'' (ig_mtime drop_lib (rf_abs_path ?raw)) STATUS_INGESTED
        (Some (''page_count'', 1)) None)"
    using drop_keeps by (simp add: drop_lib_def drop_mapping_def)
  from note_tracks_its_file [OF run drop_extract this] show ?thesis using run by (auto simp: drop_worker_def ingest_worker_def normalize_dir_def trim_matches_char_def)
qed

end
