(* ===== verification/Periodic.thy ===== *)
theory Periodic
  imports Utf8
begin

text \<open>
  Periodic notes: the kinds of period, their keys and bounds (\<open>notesmith-core/src/periodic.rs\<close>) and the
  recognition of a periodic note by its path (\<open>PeriodicConfig\<close> in \<open>notesmith-config/src/vault.rs\<close>).  The
  calendar of \<open>chrono\<close> is a record of its functions over a type of dates; a date outside of its range makes
  the arithmetic panic.
\<close>

section \<open>Signed and narrow integers\<close>

definition parse_u32 :: "string \<Rightarrow> nat option" where
  "parse_u32 s = (case parse_u64 s of Some n \<Rightarrow> if n < 2 ^ 32 then Some n else None | None \<Rightarrow> None)"

definition parse_i32 :: "string \<Rightarrow> int option" where
  "parse_i32 s =
     (if s \<noteq> [] \<and> hd s = CHR ''-'' then
        if tl s = [] \<or> \<not> list_all is_digit (tl s) then None
        else if read_nat (tl s) \<le> 2 ^ 31 then Some (- int (read_nat (tl s))) else None
      else case parse_u64 s of Some n \<Rightarrow> if n < 2 ^ 31 then Some (int n) else None | None \<Rightarrow> None)"

definition show_int :: "int \<Rightarrow> string" where
  "show_int i = (if i < 0 then CHR ''-'' # show_nat (nat (- i)) else show_nat (nat i))"

section \<open>Kinds, keys and bounds\<close>

datatype PeriodKind = Daily | Weekly | Monthly | Quarterly | Yearly

definition period_kinds :: "PeriodKind list" where
  "period_kinds = [Daily, Weekly, Monthly, Quarterly, Yearly]"

fun kind_str :: "PeriodKind \<Rightarrow> string" where
  "kind_str Daily = ''daily''"
| "kind_str Weekly = ''weekly''"
| "kind_str Monthly = ''monthly''"
| "kind_str Quarterly = ''quarterly''"
| "kind_str Yearly = ''yearly''"

definition kind_from_str :: "string \<Rightarrow> string + PeriodKind" where
  "kind_from_str s =
     (if s = ''daily'' then Inr Daily
      else if s = ''weekly'' then Inr Weekly
      else if s = ''monthly'' then Inr Monthly
      else if s = ''quarterly'' then Inr Quarterly
      else if s = ''yearly'' then Inr Yearly
      else Inl (''unknown period kind: '' @ s))"

text \<open>
  \<open>NaiveDate\<close>: \<open>from_ymd_opt\<close>, \<open>from_isoywd_opt\<close> with Monday, \<open>parse_from_str\<close> with \<open>%Y-%m-%d\<close>, the parts of a
  date, the addition of days (\<open>None\<close> where \<open>+\<close> panics), \<open>format\<close> and \<open>Display\<close>; \<open>dl_checks\<close> is the build
  option of overflow checks.
\<close>

record 'd DateLib =
  dl_ymd :: "int \<Rightarrow> nat \<Rightarrow> nat \<Rightarrow> 'd option"
  dl_isoywd :: "int \<Rightarrow> nat \<Rightarrow> 'd option"
  dl_parse :: "string \<Rightarrow> 'd option"
  dl_year :: "'d \<Rightarrow> int"
  dl_month :: "'d \<Rightarrow> nat"
  dl_weekday :: "'d \<Rightarrow> nat"
  dl_plus :: "'d \<Rightarrow> int \<Rightarrow> 'd option"
  dl_format :: "string \<Rightarrow> 'd \<Rightarrow> string"
  dl_show :: "'d \<Rightarrow> string"
  dl_checks :: bool

fun unwrap :: "'a option \<Rightarrow> 'a outcome" where
  "unwrap (Some x) = Done x"
| "unwrap None = Panicked"

definition quarter_of :: "'d DateLib \<Rightarrow> 'd \<Rightarrow> nat" where
  "quarter_of dl d = (dl_month dl d - 1) div 3 + 1"

fun current_key :: "'d DateLib \<Rightarrow> PeriodKind \<Rightarrow> 'd \<Rightarrow> string" where
  "current_key dl Daily d = dl_format dl ''%Y-%m-%d'' d"
| "current_key dl Weekly d = dl_format dl ''%G-W%V'' d"
| "current_key dl Monthly d = dl_format dl ''%Y-%m'' d"
| "current_key dl Quarterly d = show_int (dl_year dl d) @ ''-Q'' @ show_nat (quarter_of dl d)"
| "current_key dl Yearly d = dl_format dl ''%Y'' d"

definition last_day_of_month :: "'d DateLib \<Rightarrow> int \<Rightarrow> nat \<Rightarrow> 'd outcome" where
  "last_day_of_month dl year month =
     (let (next_year, next_month) = (if month = 12 then (year + 1, 1) else (year, month + 1))
      in bind_outcome (unwrap (dl_ymd dl next_year next_month 1)) (\<lambda>d. unwrap (dl_plus dl d (- 1))))"

text \<open>The first day of a month and the last day of another.\<close>

definition month_span :: "'d DateLib \<Rightarrow> int \<Rightarrow> nat \<Rightarrow> nat \<Rightarrow> ('d \<times> 'd) outcome" where
  "month_span dl year start_month end_month =
     bind_outcome (unwrap (dl_ymd dl year start_month 1)) (\<lambda>s.
     bind_outcome (last_day_of_month dl year end_month) (\<lambda>e. Done (s, e)))"

fun period_bounds :: "'d DateLib \<Rightarrow> PeriodKind \<Rightarrow> 'd \<Rightarrow> ('d \<times> 'd) outcome" where
  "period_bounds dl Daily d = Done (d, d)"
| "period_bounds dl Weekly d =
     bind_outcome (unwrap (dl_plus dl d (- int (dl_weekday dl d)))) (\<lambda>s.
     bind_outcome (unwrap (dl_plus dl s 6)) (\<lambda>e. Done (s, e)))"
| "period_bounds dl Monthly d = month_span dl (dl_year dl d) (dl_month dl d) (dl_month dl d)"
| "period_bounds dl Quarterly d =
     (let start_month = (dl_month dl d - 1) div 3 * 3 + 1
      in month_span dl (dl_year dl d) start_month (start_month + 2))"
| "period_bounds dl Yearly d =
     bind_outcome (unwrap (dl_ymd dl (dl_year dl d) 1 1)) (\<lambda>s.
     bind_outcome (unwrap (dl_ymd dl (dl_year dl d) 12 31)) (\<lambda>e. Done (s, e)))"

definition parse_iso_week_start :: "'d DateLib \<Rightarrow> string \<Rightarrow> 'd option" where
  "parse_iso_week_start dl key =
     (case split_once ''-W'' key of
        None \<Rightarrow> None
      | Some (year, week) \<Rightarrow>
          (case (parse_i32 year, parse_u32 week) of
             (Some y, Some w) \<Rightarrow> dl_isoywd dl y w
           | _ \<Rightarrow> None))"

text \<open>The first month of a quarter in \<open>u32\<close> arithmetic: it wraps, or panics where overflow checks are on.\<close>

definition quarter_month :: "bool \<Rightarrow> nat \<Rightarrow> nat outcome" where
  "quarter_month checks q =
     (if q * 3 + 1 < 2 ^ 32 then Done (q * 3 + 1)
      else if checks then Panicked
      else Done ((q * 3 + 1) mod 2 ^ 32))"

fun key_date :: "'d DateLib \<Rightarrow> PeriodKind \<Rightarrow> string \<Rightarrow> 'd option outcome" where
  "key_date dl Daily key = Done (dl_parse dl key)"
| "key_date dl Weekly key = Done (parse_iso_week_start dl key)"
| "key_date dl Monthly key =
     Done (case split_once ''-'' key of
        None \<Rightarrow> None
      | Some (year, month) \<Rightarrow>
          (case (parse_i32 year, parse_u32 month) of
             (Some y, Some m) \<Rightarrow> dl_ymd dl y m 1
           | _ \<Rightarrow> None))"
| "key_date dl Quarterly key =
     (case split_once ''-Q'' key of
        None \<Rightarrow> Done None
      | Some (year, quarter) \<Rightarrow>
          (case parse_u32 quarter of
             Some (Suc q) \<Rightarrow>
               bind_outcome (quarter_month (dl_checks dl) q) (\<lambda>month.
                 Done (case parse_i32 year of Some y \<Rightarrow> dl_ymd dl y month 1 | None \<Rightarrow> None))
           | _ \<Rightarrow> Done None))"
| "key_date dl Yearly key = Done (case parse_i32 key of Some y \<Rightarrow> dl_ymd dl y 1 1 | None \<Rightarrow> None)"

definition bounds_for_key :: "'d DateLib \<Rightarrow> PeriodKind \<Rightarrow> string \<Rightarrow> ('d \<times> 'd) option outcome" where
  "bounds_for_key dl kind key =
     bind_outcome (key_date dl kind key) (\<lambda>date.
       case date of None \<Rightarrow> Done None | Some d \<Rightarrow> bind_outcome (period_bounds dl kind d) (\<lambda>b. Done (Some b)))"

section \<open>Configuration\<close>

record PeriodKindConfig =
  pk_folder :: string
  pk_template :: "string option"
  pk_filename :: string
  pk_generate_at :: "string option"
  pk_timezone :: "string option"
  pk_catch_up :: bool

record DailyConfig =
  dc_folder :: string
  dc_template :: string
  dc_filename :: string
  dc_generate_at :: "string option"
  dc_timezone :: "string option"
  dc_catch_up :: bool

record PeriodicConfig =
  pc_daily :: "PeriodKindConfig option"
  pc_weekly :: "PeriodKindConfig option"
  pc_monthly :: "PeriodKindConfig option"
  pc_quarterly :: "PeriodKindConfig option"
  pc_yearly :: "PeriodKindConfig option"

definition default_daily_template :: string where
  "default_daily_template = ''daily-note''"

fun default_filename_for :: "PeriodKind \<Rightarrow> string" where
  "default_filename_for Daily = ''{{ date }}''"
| "default_filename_for Weekly = ''Week {{ week }}''"
| "default_filename_for Monthly = ''{{ month }}''"
| "default_filename_for Quarterly = ''{{ quarter }}''"
| "default_filename_for Yearly = ''{{ year }}''"

definition normalize_kind_config :: "PeriodKind \<Rightarrow> PeriodKindConfig \<Rightarrow> PeriodKindConfig" where
  "normalize_kind_config kind config =
     (let config = (if trim (pk_filename config) = [] then config\<lparr>pk_filename := default_filename_for kind\<rparr> else config)
      in if kind = Daily \<and> pk_template config = None then config\<lparr>pk_template := Some default_daily_template\<rparr> else config)"

definition kind_config_for :: "PeriodKind \<Rightarrow> PeriodKindConfig" where
  "kind_config_for kind = normalize_kind_config kind
     \<lparr>pk_folder = [], pk_template = None, pk_filename = [], pk_generate_at = None, pk_timezone = None, pk_catch_up = False\<rparr>"

definition from_daily_compat :: "DailyConfig \<Rightarrow> PeriodKindConfig" where
  "from_daily_compat daily = normalize_kind_config Daily
     \<lparr>pk_folder = dc_folder daily, pk_template = Some (dc_template daily), pk_filename = dc_filename daily,
      pk_generate_at = dc_generate_at daily, pk_timezone = dc_timezone daily, pk_catch_up = dc_catch_up daily\<rparr>"

definition daily_from_periodic :: "PeriodKindConfig \<Rightarrow> DailyConfig" where
  "daily_from_periodic config =
     \<lparr>dc_folder = pk_folder config, dc_template = (case pk_template config of Some t \<Rightarrow> t | None \<Rightarrow> default_daily_template),
      dc_filename = pk_filename config, dc_generate_at = pk_generate_at config, dc_timezone = pk_timezone config,
      dc_catch_up = pk_catch_up config\<rparr>"

fun kind_config :: "PeriodicConfig \<Rightarrow> PeriodKind \<Rightarrow> PeriodKindConfig option" where
  "kind_config c Daily = pc_daily c"
| "kind_config c Weekly = pc_weekly c"
| "kind_config c Monthly = pc_monthly c"
| "kind_config c Quarterly = pc_quarterly c"
| "kind_config c Yearly = pc_yearly c"

definition normalize_periodic :: "PeriodicConfig \<Rightarrow> PeriodicConfig" where
  "normalize_periodic c =
     \<lparr>pc_daily = map_option (normalize_kind_config Daily) (pc_daily c),
      pc_weekly = map_option (normalize_kind_config Weekly) (pc_weekly c),
      pc_monthly = map_option (normalize_kind_config Monthly) (pc_monthly c),
      pc_quarterly = map_option (normalize_kind_config Quarterly) (pc_quarterly c),
      pc_yearly = map_option (normalize_kind_config Yearly) (pc_yearly c)\<rparr>"

definition effective_daily_periodic :: "PeriodicConfig \<Rightarrow> DailyConfig \<Rightarrow> PeriodicConfig" where
  "effective_daily_periodic periodic daily =
     (if pc_daily periodic \<noteq> None then periodic else periodic\<lparr>pc_daily := Some (from_daily_compat daily)\<rparr>)"

section \<open>Recognizing a periodic note\<close>

definition normalize_folder :: "string \<Rightarrow> string" where
  "normalize_folder folder = trim_end_char CHR ''/'' folder"

definition strip_suffix :: "string \<Rightarrow> string \<Rightarrow> string option" where
  "strip_suffix q s = (if suffix q s then Some (take (length s - length q) s) else None)"

definition split_parent_and_stem :: "string \<Rightarrow> (string \<times> string) option" where
  "split_parent_and_stem path =
     (let (parent, file_name) = (case rsplit_once CHR ''/'' path of Some pf \<Rightarrow> pf | None \<Rightarrow> ([], path))
      in map_option (\<lambda>stem. (parent, stem)) (strip_suffix ''.md'' file_name))"

lemma split_once_shorter: "split_once p s = Some (a, b) \<Longrightarrow> p \<noteq> [] \<Longrightarrow> length b < length s"
proof -
  assume a: "split_once p s = Some (a, b)" "p \<noteq> []"
  then obtain i where i: "find_str p s = Some i" "b = drop (i + length p) s" by (auto simp: split_once_def)
  have "s \<noteq> []" using i(1) a(2) by auto
  with a(2) show ?thesis by (simp add: i(2))
qed

text \<open>The text around the first variable of a name; variables in front of it stay in the prefix.\<close>

function split_token :: "string \<Rightarrow> string \<Rightarrow> string \<Rightarrow> (string \<times> string) option" where
  "split_token token acc rest =
     (case split_once ''{{'' rest of
        None \<Rightarrow> None
      | Some (before, after) \<Rightarrow>
          (case split_once ''}}'' after of
             None \<Rightarrow> None
           | Some (variable, tail) \<Rightarrow>
               if trim variable = token then Some (acc @ before, tail)
               else split_token token (acc @ before @ ''{{'' @ variable @ ''}}'') tail))"
  by pat_completeness auto
termination
  by (relation "measure (\<lambda>(token, acc, rest). length rest)") (auto dest!: split_once_shorter)

declare split_token.simps [simp del]

definition split_template_around_token :: "string \<Rightarrow> string \<Rightarrow> (string \<times> string) option" where
  "split_template_around_token tmpl token = split_token token [] tmpl"

fun kind_token :: "PeriodKind \<Rightarrow> string" where
  "kind_token Daily = ''date''"
| "kind_token Weekly = ''week''"
| "kind_token Monthly = ''month''"
| "kind_token Quarterly = ''quarter''"
| "kind_token Yearly = ''year''"

definition extract_key_from_filename_template :: "string \<Rightarrow> PeriodKind \<Rightarrow> string \<Rightarrow> string option outcome" where
  "extract_key_from_filename_template tmpl kind stem =
     (case split_template_around_token tmpl (kind_token kind) of
        None \<Rightarrow> Done None
      | Some (p, q) \<Rightarrow>
          if \<not> prefix p stem \<or> \<not> suffix q stem then Done None
          else bind_outcome (str_slice stem (length p) (length stem - length q))
            (\<lambda>key. Done (if key = [] then None else Some key)))"

definition extract_period_key :: "'d DateLib \<Rightarrow> PeriodKindConfig \<Rightarrow> PeriodKind \<Rightarrow> string \<Rightarrow> string option outcome" where
  "extract_period_key dl config kind stem =
     bind_outcome (extract_key_from_filename_template (pk_filename config) kind stem) (\<lambda>found.
       let key = (case found of Some k \<Rightarrow> k | None \<Rightarrow> stem)
       in bind_outcome (bounds_for_key dl kind key) (\<lambda>b. Done (map_option (\<lambda>_. key) b)))"

record 'd PeriodicNoteMatch =
  pm_kind :: PeriodKind
  pm_key :: string
  pm_start :: 'd
  pm_end :: 'd

fun match_kinds ::
  "'d DateLib \<Rightarrow> PeriodicConfig \<Rightarrow> string \<Rightarrow> string \<Rightarrow> PeriodKind list \<Rightarrow> 'd PeriodicNoteMatch option outcome" where
  "match_kinds dl c parent stem [] = Done None"
| "match_kinds dl c parent stem (kind # kinds) =
     (case kind_config c kind of
        None \<Rightarrow> match_kinds dl c parent stem kinds
      | Some config \<Rightarrow>
          if normalize_folder parent \<noteq> normalize_folder (pk_folder config) then match_kinds dl c parent stem kinds
          else bind_outcome (extract_period_key dl config kind stem) (\<lambda>key.
            case key of
              None \<Rightarrow> Done None
            | Some key \<Rightarrow>
                bind_outcome (bounds_for_key dl kind key) (\<lambda>b.
                  Done (map_option (\<lambda>(s, e). \<lparr>pm_kind = kind, pm_key = key, pm_start = s, pm_end = e\<rparr>) b))))"

definition match_note_path :: "'d DateLib \<Rightarrow> PeriodicConfig \<Rightarrow> string \<Rightarrow> 'd PeriodicNoteMatch option outcome" where
  "match_note_path dl c path =
     (case split_parent_and_stem path of
        None \<Rightarrow> Done None
      | Some (parent, stem) \<Rightarrow> match_kinds dl c parent stem period_kinds)"

section \<open>Reading a rendered name back\<close>

lemma utf8_text_slice:
  assumes "utf8_text a" "utf8_text b" "utf8_text c"
  shows "str_slice (a @ b @ c) (length a) (length (a @ b)) = Done b"
proof -
  from assms(1) obtain xs where xs: "list_all utf8_char xs" "a = concat xs" by (rule utf8_text_obtain)
  from assms(2) obtain ys where ys: "list_all utf8_char ys" "b = concat ys" by (rule utf8_text_obtain)
  from assms(3) obtain zs where zs: "list_all utf8_char zs" "c = concat zs" by (rule utf8_text_obtain)
  show ?thesis using str_slice_chars [of xs ys zs] xs ys zs by simp
qed

text \<open>A text in front of a two-character delimiter that does not start earlier.\<close>

definition ends_before :: "char \<Rightarrow> string \<Rightarrow> bool" where
  "ends_before c p \<longleftrightarrow> find_str [c, c] (p @ [c]) = None"

lemma find_delim: "ends_before c p \<Longrightarrow> find_str [c, c] (p @ c # c # r) = Some (length p)"
proof (induction p)
  case (Cons x p)
  from Cons.prems have n: "\<not> prefix [c, c] ((x # p) @ [c])" and e: "ends_before c p"
    by (auto simp: ends_before_def split: if_splits)
  from n have "\<not> prefix [c, c] ((x # p) @ c # c # r)" by (cases p) auto
  with Cons.IH [OF e] show ?case by simp
qed (simp add: ends_before_def)

lemma split_delim: "ends_before c p \<Longrightarrow> split_once [c, c] (p @ c # c # r) = Some (p, r)"
  by (simp add: split_once_def find_delim)

definition name_pattern :: "string \<Rightarrow> string \<Rightarrow> string \<Rightarrow> string" where
  "name_pattern p v q = p @ ''{{'' @ v @ ''}}'' @ q"

lemma split_pattern:
  assumes "ends_before CHR ''{'' p" "ends_before CHR ''}'' v" "trim v = token"
  shows "split_template_around_token (name_pattern p v q) token = Some (p, q)"
proof -
  have "split_once ''{{'' (name_pattern p v q) = Some (p, v @ ''}}'' @ q)"
    using split_delim [OF assms(1)] by (simp add: name_pattern_def)
  moreover have "split_once ''}}'' (v @ ''}}'' @ q) = Some (v, q)" using split_delim [OF assms(2)] by simp
  ultimately show ?thesis using assms(3) by (simp add: split_template_around_token_def split_token.simps)
qed

lemma extract_rendered:
  assumes "ends_before CHR ''{'' p" "ends_before CHR ''}'' v" "trim v = kind_token kind"
    and "utf8_text p" "utf8_text key" "utf8_text q" "key \<noteq> []"
  shows "extract_key_from_filename_template (name_pattern p v q) kind (p @ key @ q) = Done (Some key)"
proof -
  have "str_slice (p @ key @ q) (length p) (length (p @ key @ q) - length q) = Done key"
    using utf8_text_slice [OF assms(4-6)] by simp
  then show ?thesis
    using split_pattern [OF assms(1-3)] assms(7)
    by (simp add: extract_key_from_filename_template_def suffix_def)
qed

text \<open>A text cut at a byte where both parts' texts are well formed is cut at a character.\<close>

lemma utf8_text_ne: "utf8_text q \<Longrightarrow> q \<noteq> [] \<Longrightarrow> \<not> is_cont (hd q)"
  by (elim utf8_text_obtain) (use hd_concat_chars in blast)

lemma boundary_after:
  assumes "utf8_text a" "utf8_text (a @ b)"
  shows "is_char_boundary (a @ b) (length a)"
proof (rule ccontr)
  assume "\<not> ?thesis"
  then have b: "a \<noteq> []" "b \<noteq> []" "is_cont (hd b)" by (auto simp: boundary_split)
  from assms(1) obtain xs where xs: "list_all utf8_char xs" "a = concat xs" by (rule utf8_text_obtain)
  with b(1) obtain ys ch where ys: "xs = ys @ [ch]" by (cases xs rule: rev_cases) auto
  with xs have ch: "utf8_char ch" by simp
  then obtain c ct where cct: "ch = c # ct" by (cases ch) (auto simp: utf8_char_def)
  have conts: "list_all is_cont ct" "\<not> is_cont c" using ch by (auto simp: cct utf8_char_def)
  have "utf8_chars (a @ b) = utf8_chars (concat ys) @ utf8_chars (c # ct @ b)"
    using utf8_chars_append [of "c # ct @ b" "concat ys"] conts by (simp add: xs ys cct)
  moreover have "hd (utf8_chars (c # ct @ b)) = c # ct @ takeWhile is_cont b"
    using conts by (simp add: list_all_iff takeWhile_append2)
  ultimately have "utf8_char (c # ct @ takeWhile is_cont b)"
    using assms(2) by (simp add: utf8_text_def)
  with ch have "takeWhile is_cont b = []" by (auto simp: cct utf8_char_def Let_def split: if_splits)
  with b show False by (cases b) auto
qed

text \<open>The extraction panics exactly when prefix and suffix of the name overlap in the stem.\<close>

lemma extract_panics_iff:
  assumes "ends_before CHR ''{'' p" "ends_before CHR ''}'' v" "trim v = kind_token kind"
    and "utf8_text p" "utf8_text q" "utf8_text stem"
  shows "extract_key_from_filename_template (name_pattern p v q) kind stem = Panicked \<longleftrightarrow>
    prefix p stem \<and> suffix q stem \<and> length stem < length p + length q"
proof (cases "prefix p stem \<and> suffix q stem")
  case True
  then obtain r s where r: "stem = p @ r" and s: "stem = s @ q" by (metis prefixE suffixE)
  have "is_char_boundary stem (length p)" using boundary_after [of p r] assms(4,6) r by simp
  moreover have "is_char_boundary stem (length stem - length q)"
  proof (cases "q = []")
    case False
    with utf8_text_ne [OF assms(5)] show ?thesis by (simp add: s boundary_split)
  qed (simp add: is_char_boundary_def)
  ultimately show ?thesis
    using True split_pattern [OF assms(1-3)] suffix_length_le [of q stem]
    by (auto simp: extract_key_from_filename_template_def str_slice_def)
next
  case False
  with split_pattern [OF assms(1-3)] show ?thesis by (auto simp: extract_key_from_filename_template_def)
qed

section \<open>Matching a path\<close>

lemma strip_suffix_app [simp]: "strip_suffix q (s @ q) = Some s"
  by (simp add: strip_suffix_def suffix_def)

definition note_path_in :: "string \<Rightarrow> string \<Rightarrow> string" where
  "note_path_in folder name = (if folder = [] then name @ ''.md'' else folder @ ''/'' @ name @ ''.md'')"

lemma split_note_path:
  "CHR ''/'' \<notin> set name \<Longrightarrow> split_parent_and_stem (note_path_in folder name) = Some (folder, name)"
  using rsplit_once_app [of "CHR ''/''" "name @ ''.md''" folder] strip_suffix_app [of "''.md''" name]
  by (auto simp: split_parent_and_stem_def note_path_in_def rsplit_once_def [of _ "name @ _"] simp del: strip_suffix_app)

text \<open>The first configured kind with the folder of the note decides, also when the note is none of its own.\<close>

definition deciding_kind :: "PeriodicConfig \<Rightarrow> string \<Rightarrow> PeriodKind option" where
  "deciding_kind c folder = find (\<lambda>kind. case kind_config c kind of
      Some config \<Rightarrow> normalize_folder folder = normalize_folder (pk_folder config) | None \<Rightarrow> False) period_kinds"

lemma match_kinds_found:
  assumes "find (\<lambda>kind. case kind_config c kind of
      Some config \<Rightarrow> normalize_folder folder = normalize_folder (pk_folder config) | None \<Rightarrow> False) kinds = Some kind"
    and "kind_config c kind = Some config"
  shows "match_kinds dl c folder stem kinds =
    bind_outcome (extract_period_key dl config kind stem) (\<lambda>key.
      case key of
        None \<Rightarrow> Done None
      | Some key \<Rightarrow>
          bind_outcome (bounds_for_key dl kind key) (\<lambda>b.
            Done (map_option (\<lambda>(s, e). \<lparr>pm_kind = kind, pm_key = key, pm_start = s, pm_end = e\<rparr>) b)))"
  using assms(1)
proof (induction kinds)
  case (Cons k ks)
  show ?case
  proof (cases "case kind_config c k of
      Some config \<Rightarrow> normalize_folder folder = normalize_folder (pk_folder config) | None \<Rightarrow> False")
    case True
    with Cons.prems have "k = kind" by simp
    with True assms(2) show ?thesis by simp
  next
    case False
    with Cons.prems Cons.IH show ?thesis by (auto split: option.splits)
  qed
qed simp

lemma match_rendered_name:
  assumes kind: "deciding_kind c (pk_folder config) = Some kind" "kind_config c kind = Some config"
    and pattern: "pk_filename config = name_pattern p v q" "ends_before CHR ''{'' p" "ends_before CHR ''}'' v" "trim v = kind_token kind"
    and texts: "utf8_text p" "utf8_text key" "utf8_text q" "key \<noteq> []" "CHR ''/'' \<notin> set (p @ key @ q)"
    and bounds: "bounds_for_key dl kind key = Done (Some (s, e))"
  shows "match_note_path dl c (note_path_in (pk_folder config) (p @ key @ q)) =
    Done (Some \<lparr>pm_kind = kind, pm_key = key, pm_start = s, pm_end = e\<rparr>)"
proof -
  have "extract_period_key dl config kind (p @ key @ q) = Done (Some key)"
    using extract_rendered [OF pattern(2-4) texts(1-4)] bounds by (simp add: extract_period_key_def pattern(1))
  then show ?thesis
    using match_kinds_found [OF kind(1) [unfolded deciding_kind_def] kind(2), of dl "p @ key @ q"] bounds texts(5)
    by (simp add: match_note_path_def split_note_path)
qed

lemma shared_folder_hides:
  assumes "deciding_kind c folder = Some kind" "kind_config c kind = Some config" "CHR ''/'' \<notin> set stem"
    and "extract_period_key dl config kind stem = Done None"
  shows "match_note_path dl c (note_path_in folder stem) = Done None"
  using match_kinds_found [OF assms(1) [unfolded deciding_kind_def] assms(2), of dl stem] assms(3,4)
  by (simp add: match_note_path_def split_note_path)

end
