(* ===== verification/Templates.thy ===== *)
theory Templates
  imports NoteDocs Utf8 "HOL-Library.AList"
begin

text \<open>
  Note templates (\<open>notesmith-templates/src/lib.rs\<close>): finding a template in the vault, its prompts, the context
  it is rendered in and the rendered note.  The renderer (\<open>minijinja\<close>), YAML, SQLite, the local clock, the
  listing of a directory and the run of a hook process are fields of \<open>TemplateLib\<close>.
\<close>

section \<open>Specifications\<close>

record PromptSpec =
  ps_name :: string
  ps_type :: string
  ps_required :: bool
  ps_default :: "string option"
  ps_field :: "string option"

definition default_text_type :: string where
  "default_text_type = ''text''"

definition suggestion_field :: "PromptSpec \<Rightarrow> string" where
  "suggestion_field spec = (case ps_field spec of Some f \<Rightarrow> f | None \<Rightarrow> ps_name spec)"

record TemplateMetadata =
  tm_name :: string
  tm_description :: "string option"
  tm_output_path :: "string option"
  tm_prompts :: "PromptSpec list"
  tm_queries :: "(string \<times> string) list"
  tm_hook :: "string option"

type_synonym JsonContext = "string \<rightharpoonup> json"

type_synonym prompt_values = "(string \<times> string) list"

record TemplateMeta =
  te_spec :: TemplateMetadata
  te_path :: fpath

record RenderedTemplate =
  rt_path :: string
  rt_content :: string

datatype TemplateError =
    TemplateNotFound string
  | MissingPrompts "string list"
  | RenderFailed string
  | InvalidFormat fpath string
  | TemplateIo string

fun template_error_text :: "TemplateError \<Rightarrow> string" where
  "template_error_text (TemplateNotFound name) = ''template not found: '' @ name"
| "template_error_text (MissingPrompts prompts) = ''missing required prompts: '' @ join_str '', '' prompts"
| "template_error_text (RenderFailed m) = ''render error: '' @ m"
| "template_error_text (InvalidFormat path reason) =
     ''invalid template format in /'' @ join_str ''/'' path @ '': '' @ reason"
| "template_error_text (TemplateIo e) = ''io error: '' @ e"

section \<open>Environment\<close>

datatype sql_value = SqlNull | SqlInt int | SqlReal f64 | SqlText string | SqlBlob string

text \<open>A prepared statement: whether it only reads, and its rows with their columns, if all can be read.\<close>

record SqlStatement =
  sq_readonly :: bool
  sq_rows :: "(string \<times> sql_value) list list option"

type_synonym sql_db = "string \<Rightarrow> SqlStatement option"

text \<open>What the renderer knows besides the context: the database of \<open>query\<close> and the prompts.\<close>

record TemplateEnv =
  en_db :: "string option"
  en_prompts :: prompt_values

datatype HookRun = SpawnFailed | WaitFailed | HookTimedOut | HookExited string

record LocalNow =
  ln_format :: "string \<Rightarrow> string"
  ln_rfc3339 :: string
  ln_month :: nat
  ln_date :: "int \<Rightarrow> string"

record TemplateLib =
  tl_io :: IoFaults
  tl_dir :: "FileTree \<Rightarrow> fpath \<Rightarrow> string + (string + fpath) list"
  tl_yaml :: "string \<Rightarrow> string + yaml"
  tl_spec :: "yaml \<Rightarrow> string + TemplateMetadata"
  tl_now :: LocalNow
  tl_render :: "TemplateEnv \<Rightarrow> string \<Rightarrow> JsonContext \<Rightarrow> string + string"
  tl_open :: "string \<Rightarrow> sql_db option"
  tl_hook :: "fpath \<Rightarrow> JsonContext \<Rightarrow> HookRun"
  tl_json :: "string \<Rightarrow> JsonContext option"
  tl_yl :: YamlLib
  tl_stamp :: "string \<Rightarrow> string"
  tl_hash :: "string \<Rightarrow> string"
  tl_tag :: string

record TemplateEngine =
  tg_root :: string
  tg_db :: "string option"

section \<open>Finding templates\<close>

definition template_dirs :: "TemplateEngine \<Rightarrow> FileTree \<Rightarrow> fpath list" where
  "template_dirs e t =
     filter (os_exists t) [at (tg_root e) ''Assets/templates'', at (tg_root e) ''.notesmith/templates'']"

definition is_template_file :: "fpath \<Rightarrow> bool" where
  "is_template_file p \<longleftrightarrow> p \<noteq> [] \<and> snd (name_split (last p)) \<in> {Some ''j2'', Some ''md''}"

definition yaml_get :: "yaml \<Rightarrow> string \<Rightarrow> yaml option" where
  "yaml_get v key = (case v of YMap m \<Rightarrow> map_of m (YString key) | _ \<Rightarrow> None)"

definition parse_template_file :: "TemplateLib \<Rightarrow> fpath \<Rightarrow> FileTree \<Rightarrow> TemplateError + TemplateMetadata \<times> string" where
  "parse_template_file lib p t =
     (case os_read (tl_io lib) p t of
        Inl e \<Rightarrow> Inl (TemplateIo (io_text e))
      | Inr content \<Rightarrow>
          if \<not> prefix ''---'' content then Inl (InvalidFormat p ''missing opening ---'')
          else (case extract_frontmatter content of
              (None, _) \<Rightarrow> Inl (InvalidFormat p ''missing closing ---'')
            | (Some front, body) \<Rightarrow>
                (case tl_yaml lib front of
                   Inl e \<Rightarrow> Inl (InvalidFormat p (''YAML parse error: '' @ e))
                 | Inr y \<Rightarrow>
                     (case tl_spec lib (case yaml_get y ''notesmith'' of Some v \<Rightarrow> v | None \<Rightarrow> y) of
                        Inl e \<Rightarrow> Inl (InvalidFormat p (''invalid TemplateMetadata: '' @ e))
                      | Inr spec \<Rightarrow> Inr (spec, body)))))"

fun list_entries ::
  "TemplateLib \<Rightarrow> FileTree \<Rightarrow> (string + fpath) list \<Rightarrow> (string \<times> TemplateMeta) list \<Rightarrow>
     TemplateError + (string \<times> TemplateMeta) list" where
  "list_entries lib t [] acc = Inr acc"
| "list_entries lib t (Inl e # entries) acc = Inl (TemplateIo e)"
| "list_entries lib t (Inr p # entries) acc =
     (if \<not> is_template_file p then list_entries lib t entries acc
      else case parse_template_file lib p t of
          Inr (spec, _) \<Rightarrow> list_entries lib t entries (AList.update (tm_name spec) \<lparr>te_spec = spec, te_path = p\<rparr> acc)
        | Inl _ \<Rightarrow> list_entries lib t entries acc)"

fun list_dirs ::
  "TemplateLib \<Rightarrow> FileTree \<Rightarrow> fpath list \<Rightarrow> (string \<times> TemplateMeta) list \<Rightarrow> TemplateError + (string \<times> TemplateMeta) list" where
  "list_dirs lib t [] acc = Inr acc"
| "list_dirs lib t (d # ds) acc =
     (case tl_dir lib t d of
        Inl e \<Rightarrow> Inl (TemplateIo e)
      | Inr entries \<Rightarrow>
          (case list_entries lib t entries acc of Inl e \<Rightarrow> Inl e | Inr acc \<Rightarrow> list_dirs lib t ds acc))"

definition list_templates :: "TemplateLib \<Rightarrow> TemplateEngine \<Rightarrow> FileTree \<Rightarrow> TemplateError + TemplateMeta list" where
  "list_templates lib e t =
     (case list_dirs lib t (template_dirs e t) [] of
        Inl err \<Rightarrow> Inl err | Inr found \<Rightarrow> Inr (map snd (sort_key fst found)))"

section \<open>Prompts and context\<close>

definition merge_prompt_values :: "PromptSpec list \<Rightarrow> prompt_values \<Rightarrow> prompt_values" where
  "merge_prompt_values specs prompts =
     fold (\<lambda>spec merged.
       if map_of merged (ps_name spec) \<noteq> None then merged
       else case ps_default spec of Some d \<Rightarrow> AList.update (ps_name spec) d merged | None \<Rightarrow> merged) specs prompts"

definition missing_prompts :: "PromptSpec list \<Rightarrow> prompt_values \<Rightarrow> string list" where
  "missing_prompts specs prompts =
     map ps_name (filter (\<lambda>p. ps_required p \<and> map_of prompts (ps_name p) = None) specs)"

definition validate_required_prompts :: "PromptSpec list \<Rightarrow> prompt_values \<Rightarrow> TemplateError + unit" where
  "validate_required_prompts specs prompts =
     (let missing = missing_prompts specs prompts in if missing = [] then Inr () else Inl (MissingPrompts missing))"

definition static_context :: "LocalNow \<Rightarrow> JsonContext" where
  "static_context now = map_of
     [(''date'', JString (ln_format now ''%Y-%m-%d'')),
      (''time'', JString (ln_format now ''%H:%M'')),
      (''datetime'', JString (ln_rfc3339 now)),
      (''day_name'', JString (ln_format now ''%A'')),
      (''week'', JString (ln_format now ''%G-W%V'')),
      (''month'', JString (ln_format now ''%Y-%m'')),
      (''quarter'', JString (ln_format now ''%Y'' @ ''-Q'' @ show_nat ((ln_month now - 1) div 3 + 1))),
      (''year'', JString (ln_format now ''%Y'')),
      (''today'', JString (ln_format now ''%Y-%m-%d'')),
      (''tomorrow'', JString (ln_date now 1)),
      (''yesterday'', JString (ln_date now (- 1))),
      (''now'', JString (ln_format now ''%Y-%m-%d %H:%M:%S''))]"

definition extend_prompt_context :: "prompt_values \<Rightarrow> JsonContext \<Rightarrow> JsonContext" where
  "extend_prompt_context prompts context =
     (context ++ (\<lambda>k. map_option JString (map_of prompts k)))
       (''prompt'' \<mapsto> JObject (sort_key fst (map (\<lambda>(k, v). (k, JString v)) prompts)))"

definition is_finite_f64 :: "f64 \<Rightarrow> bool" where
  "is_finite_f64 b \<longleftrightarrow> unat (take_bit 11 (drop_bit 52 b)) \<noteq> 2047"

fun sql_json :: "sql_value \<Rightarrow> json" where
  "sql_json SqlNull = JNull"
| "sql_json (SqlInt n) = JNumber (if 0 \<le> n then PosInt (nat n) else NegInt n)"
| "sql_json (SqlReal f) = (if is_finite_f64 f then JNumber (JFloat f) else JNull)"
| "sql_json (SqlText s) = JString s"
| "sql_json (SqlBlob _) = JNull"

definition row_object :: "(string \<times> sql_value) list \<Rightarrow> json" where
  "row_object cols = JObject (sort_key fst (fold (\<lambda>(name, v). AList.update name (sql_json v)) cols []))"

definition execute_readonly_query :: "sql_db \<Rightarrow> string \<Rightarrow> json list option" where
  "execute_readonly_query db sql =
     (if \<not> list_ex (\<lambda>w. prefix w (trim_start sql)) [''SELECT'', ''select'', ''WITH'', ''with''] then None
      else case db sql of
          None \<Rightarrow> None
        | Some stmt \<Rightarrow> if \<not> sq_readonly stmt then None else map_option (map row_object) (sq_rows stmt))"

definition query_db :: "TemplateLib \<Rightarrow> string \<Rightarrow> string \<Rightarrow> json" where
  "query_db lib db_path sql =
     JArray (case tl_open lib db_path of
        None \<Rightarrow> []
      | Some db \<Rightarrow> (case execute_readonly_query db sql of Some rows \<Rightarrow> rows | None \<Rightarrow> []))"

definition execute_context_queries :: "sql_db \<Rightarrow> (string \<times> string) list \<Rightarrow> JsonContext" where
  "execute_context_queries db queries =
     map_of (map (\<lambda>(name, sql). (name, JArray (case execute_readonly_query db sql of Some rows \<Rightarrow> rows | None \<Rightarrow> []))) queries)"

definition empty_query_results :: "(string \<times> string) list \<Rightarrow> JsonContext" where
  "empty_query_results queries = map_of (map (\<lambda>(name, _). (name, JArray [])) queries)"

definition extend_sql_context :: "TemplateLib \<Rightarrow> (string \<times> string) list \<Rightarrow> string option \<Rightarrow> JsonContext \<Rightarrow> JsonContext" where
  "extend_sql_context lib queries db_path context =
     (if queries = [] then context
      else context ++
        (case db_path of
           None \<Rightarrow> empty_query_results queries
         | Some path \<Rightarrow>
             (case tl_open lib path of
                None \<Rightarrow> empty_query_results queries
              | Some db \<Rightarrow> execute_context_queries db queries)))"

definition run_pre_render_hook :: "TemplateLib \<Rightarrow> string \<Rightarrow> string \<Rightarrow> JsonContext \<Rightarrow> FileTree \<Rightarrow> JsonContext" where
  "run_pre_render_hook lib root script context t =
     (if \<not> os_exists t (at root script) then Map.empty
      else case tl_hook lib (at root script) context of
          HookExited out \<Rightarrow> (case tl_json lib out of Some c \<Rightarrow> c | None \<Rightarrow> Map.empty)
        | _ \<Rightarrow> Map.empty)"

definition set_filename_context :: "string \<Rightarrow> JsonContext \<Rightarrow> JsonContext" where
  "set_filename_context path context =
     context(''filename'' \<mapsto> JString (case file_name path of Some n \<Rightarrow> n | None \<Rightarrow> []))"

definition vault_name_of :: "string \<Rightarrow> string" where
  "vault_name_of root = (case file_name root of Some n \<Rightarrow> n | None \<Rightarrow> root)"

definition base_context :: "TemplateLib \<Rightarrow> TemplateEngine \<Rightarrow> prompt_values \<Rightarrow> JsonContext" where
  "base_context lib e prompts =
     extend_prompt_context prompts
       ((static_context (tl_now lib))(''vault'' \<mapsto> JString (vault_name_of (tg_root e)), ''filename'' \<mapsto> JString []))"

section \<open>Rendering\<close>

definition render_string :: "TemplateLib \<Rightarrow> TemplateEnv \<Rightarrow> string \<Rightarrow> JsonContext \<Rightarrow> TemplateError + string" where
  "render_string lib env tmpl context =
     (case tl_render lib env tmpl context of Inl e \<Rightarrow> Inl (RenderFailed e) | Inr s \<Rightarrow> Inr s)"

definition render_text :: "TemplateLib \<Rightarrow> TemplateEngine \<Rightarrow> string \<Rightarrow> prompt_values \<Rightarrow> TemplateError + string" where
  "render_text lib e tmpl prompts =
     render_string lib \<lparr>en_db = tg_db e, en_prompts = prompts\<rparr> tmpl (base_context lib e prompts)"

definition render_context :: "TemplateLib \<Rightarrow> TemplateEngine \<Rightarrow> TemplateMetadata \<Rightarrow> prompt_values \<Rightarrow> FileTree \<Rightarrow> JsonContext" where
  "render_context lib e spec merged t =
     (let context = extend_sql_context lib (tm_queries spec) (tg_db e) (base_context lib e merged)
      in case tm_hook spec of
          Some script \<Rightarrow> context ++ run_pre_render_hook lib (tg_root e) script context t
        | None \<Rightarrow> context)"

definition output_path_for ::
  "TemplateLib \<Rightarrow> TemplateEnv \<Rightarrow> TemplateMeta \<Rightarrow> TemplateMetadata \<Rightarrow> string option \<Rightarrow> JsonContext \<Rightarrow> TemplateError + string" where
  "output_path_for lib env meta spec override context =
     (case override of
        Some path \<Rightarrow> Inr path
      | None \<Rightarrow>
          (case tm_output_path spec of
             None \<Rightarrow> Inl (InvalidFormat (te_path meta) ''missing output_path'')
           | Some output_path \<Rightarrow>
               (case render_string lib env output_path context of
                  Inl err \<Rightarrow> Inl err
                | Inr initial \<Rightarrow> render_string lib env output_path (set_filename_context initial context))))"

definition render_with_output_path ::
  "TemplateLib \<Rightarrow> TemplateEngine \<Rightarrow> string \<Rightarrow> prompt_values \<Rightarrow> string option \<Rightarrow> FileTree \<Rightarrow> TemplateError + RenderedTemplate" where
  "render_with_output_path lib e name prompts override t =
     (case list_templates lib e t of
        Inl err \<Rightarrow> Inl err
      | Inr templates \<Rightarrow>
          (case find (\<lambda>m. tm_name (te_spec m) = name) templates of
             None \<Rightarrow> Inl (TemplateNotFound name)
           | Some meta \<Rightarrow>
               (case parse_template_file lib (te_path meta) t of
                  Inl err \<Rightarrow> Inl err
                | Inr (spec, body) \<Rightarrow>
                    (let merged = merge_prompt_values (tm_prompts spec) prompts
                     in case validate_required_prompts (tm_prompts spec) merged of
                         Inl err \<Rightarrow> Inl err
                       | Inr _ \<Rightarrow>
                           (let env = \<lparr>en_db = tg_db e, en_prompts = merged\<rparr>;
                                context = render_context lib e spec merged t
                            in case output_path_for lib env meta spec override context of
                                Inl err \<Rightarrow> Inl err
                              | Inr path \<Rightarrow>
                                  (case render_string lib env body (set_filename_context path context) of
                                     Inl err \<Rightarrow> Inl err
                                   | Inr content \<Rightarrow> Inr \<lparr>rt_path = path, rt_content = content\<rparr>))))))"

definition render_named :: "TemplateLib \<Rightarrow> TemplateEngine \<Rightarrow> string \<Rightarrow> prompt_values \<Rightarrow> FileTree \<Rightarrow> TemplateError + RenderedTemplate" where
  "render_named lib e name prompts t = render_with_output_path lib e name prompts None t"

definition render_to_path ::
  "TemplateLib \<Rightarrow> TemplateEngine \<Rightarrow> string \<Rightarrow> prompt_values \<Rightarrow> string \<Rightarrow> FileTree \<Rightarrow> TemplateError + RenderedTemplate" where
  "render_to_path lib e name prompts path t = render_with_output_path lib e name prompts (Some path) t"

definition saved_text :: "TemplateLib \<Rightarrow> string \<Rightarrow> string" where
  "saved_text lib content = apply_save_pipeline (yl_from (tl_yl lib)) (yl_to (tl_yl lib)) (tl_stamp lib content) content"

definition instantiate_template ::
  "TemplateLib \<Rightarrow> TemplateEngine \<Rightarrow> string \<Rightarrow> prompt_values \<Rightarrow> FileTree \<Rightarrow> (TemplateError + RenderedTemplate) \<times> FileTree" where
  "instantiate_template lib e name prompts t =
     (case render_named lib e name prompts t of
        Inl err \<Rightarrow> (Inl err, t)
      | Inr rendered \<Rightarrow>
          (case engine_write (tl_io lib) (tl_hash lib) (tl_tag lib) (tg_root e) (rt_path rendered) None
              (saved_text lib (rt_content rendered)) t of
             (Inl err, t1) \<Rightarrow> (Inl (RenderFailed (notesmith_error_text err)), t1)
           | (Inr _, t1) \<Rightarrow> (Inr rendered, t1)))"

section \<open>Filters\<close>

text \<open>\<open>alnum\<close> is \<open>char::is_alphanumeric\<close>, \<open>upper\<close> is \<open>char::to_uppercase\<close>.\<close>

definition slug_char :: "(string \<Rightarrow> bool) \<Rightarrow> string \<Rightarrow> string" where
  "slug_char alnum c = (if alnum c then map ascii_lower c else ''-'')"

definition slug :: "(string \<Rightarrow> bool) \<Rightarrow> string \<Rightarrow> string" where
  "slug alnum s =
     join_str ''-'' (filter (\<lambda>p. p \<noteq> []) (split_char CHR ''-'' (concat (map (slug_char alnum) (utf8_chars s)))))"

definition title_word :: "(string \<Rightarrow> string) \<Rightarrow> string \<Rightarrow> string" where
  "title_word upper w = (case utf8_chars w of [] \<Rightarrow> [] | c # cs \<Rightarrow> upper c @ concat cs)"

definition title_case :: "(string \<Rightarrow> string) \<Rightarrow> string \<Rightarrow> string" where
  "title_case upper s = join_str '' '' (map (title_word upper) (split_whitespace s))"

definition as_wikilink :: "string \<Rightarrow> string" where
  "as_wikilink v = ''[['' @ v @ '']]''"

section \<open>Prompts\<close>

definition merge_prompt :: "PromptSpec \<Rightarrow> prompt_values \<Rightarrow> prompt_values" where
  "merge_prompt spec merged =
     (if map_of merged (ps_name spec) \<noteq> None then merged
      else case ps_default spec of Some d \<Rightarrow> AList.update (ps_name spec) d merged | None \<Rightarrow> merged)"

lemma merge_prompt_lookup:
  "map_of (merge_prompt spec prompts) k =
     (if map_of prompts k = None \<and> ps_name spec = k then ps_default spec else map_of prompts k)"
  by (auto simp: merge_prompt_def update_conv' split: option.splits)

lemma merge_prompts_lookup:
  "map_of (merge_prompt_values specs prompts) k =
     (case map_of prompts k of
        Some v \<Rightarrow> Some v
      | None \<Rightarrow> (case find (\<lambda>s. ps_name s = k \<and> ps_default s \<noteq> None) specs of Some s \<Rightarrow> ps_default s | None \<Rightarrow> None))"
proof (induction specs arbitrary: prompts)
  case (Cons spec specs)
  have "map_of (merge_prompt_values (spec # specs) prompts) k =
      map_of (merge_prompt_values specs (merge_prompt spec prompts)) k"
    by (simp add: merge_prompt_values_def merge_prompt_def)
  also have "\<dots> = (case map_of (merge_prompt spec prompts) k of
        Some v \<Rightarrow> Some v
      | None \<Rightarrow> (case find (\<lambda>s. ps_name s = k \<and> ps_default s \<noteq> None) specs of Some s \<Rightarrow> ps_default s | None \<Rightarrow> None))"
    by (rule Cons.IH)
  finally show ?case
    by (cases "map_of prompts k"; cases "ps_default spec") (simp_all add: merge_prompt_lookup)
qed (simp add: merge_prompt_values_def split: option.splits)

text \<open>A prompt is missing exactly when it is required and neither given nor defaulted by a prompt of its name.\<close>

lemma missing_after_merge:
  "k \<in> set (missing_prompts specs (merge_prompt_values specs prompts)) \<longleftrightarrow>
     (\<exists>s \<in> set specs. ps_name s = k \<and> ps_required s) \<and> map_of prompts k = None \<and>
     (\<forall>s \<in> set specs. ps_name s = k \<longrightarrow> ps_default s = None)"
proof -
  have n: "(case find (\<lambda>s. ps_name s = k \<and> ps_default s \<noteq> None) specs of Some s \<Rightarrow> ps_default s | None \<Rightarrow> None) = None \<longleftrightarrow>
      (\<forall>s \<in> set specs. ps_name s = k \<longrightarrow> ps_default s = None)"
  proof (cases "find (\<lambda>s. ps_name s = k \<and> ps_default s \<noteq> None) specs")
    case None
    have "ps_default s = None" if "s \<in> set specs" "ps_name s = k" for s
      using None [unfolded find_None_iff] that by blast
    with None show ?thesis by (simp del: not_None_eq)
  next
    case (Some s)
    from find_in [OF this] Some show ?thesis by auto
  qed
  have "map_of (merge_prompt_values specs prompts) k = None \<longleftrightarrow>
      map_of prompts k = None \<and> (\<forall>s \<in> set specs. ps_name s = k \<longrightarrow> ps_default s = None)"
    unfolding merge_prompts_lookup by (cases "map_of prompts k") (simp_all add: n del: not_None_eq)
  then show ?thesis by (auto simp: missing_prompts_def)
qed

section \<open>What a rendering comes from\<close>

definition lib_render ::
  "TemplateLib \<Rightarrow> TemplateEngine \<Rightarrow> TemplateMetadata \<Rightarrow> prompt_values \<Rightarrow> string \<Rightarrow> string \<Rightarrow> FileTree \<Rightarrow> TemplateError + string" where
  "lib_render lib e spec prompts body path t =
     (let merged = merge_prompt_values (tm_prompts spec) prompts
      in render_string lib \<lparr>en_db = tg_db e, en_prompts = merged\<rparr> body
        (set_filename_context path (render_context lib e spec merged t)))"

text \<open>A listed template stands under the name of its specification.\<close>

definition listed_ok :: "TemplateLib \<Rightarrow> FileTree \<Rightarrow> (string \<times> TemplateMeta) list \<Rightarrow> bool" where
  "listed_ok lib t found \<longleftrightarrow>
     (\<forall>n m. (n, m) \<in> set found \<longrightarrow>
        n = tm_name (te_spec m) \<and> (\<exists>body. parse_template_file lib (te_path m) t = Inr (te_spec m, body)))"

lemma listed_ok_update:
  assumes "listed_ok lib t acc" "parse_template_file lib p t = Inr (spec, body)"
  shows "listed_ok lib t (AList.update (tm_name spec) \<lparr>te_spec = spec, te_path = p\<rparr> acc)"
proof -
  have "set (AList.update k v al) \<subseteq> insert (k, v) (set al)" for k :: string and v :: TemplateMeta and al
    by (induction al) auto
  then show ?thesis using assms unfolding listed_ok_def by fastforce
qed

lemma list_entries_ok:
  "list_entries lib t entries acc = Inr found \<Longrightarrow> listed_ok lib t acc \<Longrightarrow> listed_ok lib t found"
proof (induction entries arbitrary: acc)
  case (Cons x entries)
  show ?case
  proof (cases x)
    case (Inl e)
    with Cons.prems show ?thesis by simp
  next
    case (Inr p)
    show ?thesis
    proof (cases "is_template_file p \<and> \<not> isl (parse_template_file lib p t)")
      case True
      then obtain spec body where sb: "parse_template_file lib p t = Inr (spec, body)"
        by (cases "parse_template_file lib p t") auto
      with True Inr Cons.prems(1) have
        "list_entries lib t entries (AList.update (tm_name spec) \<lparr>te_spec = spec, te_path = p\<rparr> acc) = Inr found"
        by simp
      from Cons.IH [OF this listed_ok_update [OF Cons.prems(2) sb]] show ?thesis .
    next
      case False
      with Inr Cons.prems(1) have "list_entries lib t entries acc = Inr found"
        by (cases "parse_template_file lib p t") (auto split: if_splits)
      from Cons.IH [OF this Cons.prems(2)] show ?thesis .
    qed
  qed
qed simp

lemma list_dirs_ok: "list_dirs lib t ds acc = Inr found \<Longrightarrow> listed_ok lib t acc \<Longrightarrow> listed_ok lib t found"
proof (induction ds arbitrary: acc)
  case (Cons d ds)
  then obtain entries acc' where "list_entries lib t entries acc = Inr acc'" "list_dirs lib t ds acc' = Inr found"
    by (auto split: sum.splits)
  with Cons.IH [of acc'] list_entries_ok [of lib t entries acc acc'] Cons.prems(2) show ?case by blast
qed simp

lemma list_templates_ok:
  assumes "list_templates lib e t = Inr ms" "m \<in> set ms"
  shows "\<exists>body. parse_template_file lib (te_path m) t = Inr (te_spec m, body)"
proof -
  from assms(1) obtain found where f: "list_dirs lib t (template_dirs e t) [] = Inr found"
    "ms = map snd (sort_key fst found)"
    by (auto simp: list_templates_def split: sum.splits)
  have "listed_ok lib t found" by (rule list_dirs_ok [OF f(1)]) (simp add: listed_ok_def)
  moreover from assms(2) obtain n where "(n, m) \<in> set found" by (auto simp: f(2))
  ultimately show ?thesis unfolding listed_ok_def by blast
qed

text \<open>
  A rendering that succeeds comes from a template of the name asked for, every required prompt has a value, and
  its text is the body rendered where the file name is the one of the path.
\<close>

lemma render_result:
  assumes "render_with_output_path lib e name prompts override t = Inr r"
  shows "\<exists>p spec body.
    parse_template_file lib p t = Inr (spec, body) \<and> tm_name spec = name \<and>
    missing_prompts (tm_prompts spec) (merge_prompt_values (tm_prompts spec) prompts) = [] \<and>
    (case override of Some path \<Rightarrow> rt_path r = path | None \<Rightarrow> tm_output_path spec \<noteq> None) \<and>
    lib_render lib e spec prompts body (rt_path r) t = Inr (rt_content r)"
proof -
  obtain ms where ms: "list_templates lib e t = Inr ms" using assms
    by (cases "list_templates lib e t") (simp_all add: render_with_output_path_def)
  obtain meta where meta: "find (\<lambda>m. tm_name (te_spec m) = name) ms = Some meta" using assms
    by (cases "find (\<lambda>m. tm_name (te_spec m) = name) ms") (simp_all add: render_with_output_path_def ms)
  from find_in [OF meta] have m: "meta \<in> set ms" "tm_name (te_spec meta) = name" by auto
  from list_templates_ok [OF ms m(1)] obtain body where b: "parse_template_file lib (te_path meta) t = Inr (te_spec meta, body)" ..
  let ?spec = "te_spec meta" and ?merged = "merge_prompt_values (tm_prompts (te_spec meta)) prompts"
  have none: "missing_prompts (tm_prompts ?spec) ?merged = []" using assms
    by (cases "missing_prompts (tm_prompts ?spec) ?merged = []")
       (simp_all add: render_with_output_path_def ms meta b validate_required_prompts_def Let_def)
  let ?env = "\<lparr>en_db = tg_db e, en_prompts = ?merged\<rparr>" and ?ctx = "render_context lib e ?spec ?merged t"
  have run: "(case output_path_for lib ?env meta ?spec override ?ctx of
      Inl err \<Rightarrow> Inl err
    | Inr path \<Rightarrow> (case render_string lib ?env body (set_filename_context path ?ctx) of
          Inl err \<Rightarrow> Inl err | Inr content \<Rightarrow> Inr \<lparr>rt_path = path, rt_content = content\<rparr>)) = Inr r"
    using assms by (simp add: render_with_output_path_def ms meta b validate_required_prompts_def none Let_def)
  then obtain path where path: "output_path_for lib ?env meta ?spec override ?ctx = Inr path"
    by (auto split: sum.splits)
  with run obtain content where content: "render_string lib ?env body (set_filename_context path ?ctx) = Inr content"
    by (auto split: sum.splits)
  from run path content have r: "r = \<lparr>rt_path = path, rt_content = content\<rparr>" by simp
  have "case override of Some p \<Rightarrow> path = p | None \<Rightarrow> tm_output_path ?spec \<noteq> None"
    using path by (auto simp: output_path_for_def split: option.splits)
  then have "case override of Some p \<Rightarrow> rt_path r = p | None \<Rightarrow> tm_output_path ?spec \<noteq> None"
    by (cases override) (simp_all add: r)
  moreover have "lib_render lib e ?spec prompts body (rt_path r) t = Inr (rt_content r)"
    using content by (simp add: r lib_render_def Let_def)
  ultimately show ?thesis using b m(2) none by blast
qed

end
