(* ===== verification/PeriodicNotes.thy ===== *)
theory PeriodicNotes
  imports Periodic Templates
begin

text \<open>
  Where a periodic note lives and how it is created (\<open>notesmith-ops/src/periodic.rs\<close>), and the daily notes of
  the scheduler (\<open>notesmith-http/src/scheduler.rs\<close>: the note of a day and the catch-up of the last thirty days;
  its timers are the runtime's).
\<close>

record 'd ResolvedPeriodicNote =
  rn_kind :: PeriodKind
  rn_key :: string
  rn_start :: 'd
  rn_end :: 'd
  rn_path :: string

record 'd EnsurePeriodicResult =
  er_note :: "'d ResolvedPeriodicNote"
  er_created :: "string option"

definition periodic_template_context :: "'d DateLib \<Rightarrow> PeriodKind \<Rightarrow> 'd \<Rightarrow> prompt_values outcome" where
  "periodic_template_context dl kind d =
     bind_outcome (period_bounds dl kind d) (\<lambda>(s, e). Done
       [(''today'', dl_format dl ''%Y-%m-%d'' d),
        (''date'', dl_format dl ''%Y-%m-%d'' d),
        (''week'', current_key dl Weekly d),
        (''month'', current_key dl Monthly d),
        (''quarter'', current_key dl Quarterly d),
        (''year'', current_key dl Yearly d),
        (''day_name'', dl_format dl ''%A'' d),
        (''period_kind'', kind_str kind),
        (''period_key'', current_key dl kind d),
        (''period_start'', dl_show dl s),
        (''period_end'', dl_show dl e)])"

definition not_configured :: "PeriodKind \<Rightarrow> string" where
  "not_configured kind = ''periodic '' @ kind_str kind @ '' is not configured''"

definition resolve_periodic_note ::
  "'d DateLib \<Rightarrow> TemplateLib \<Rightarrow> TemplateEngine \<Rightarrow> PeriodicConfig \<Rightarrow> PeriodKind \<Rightarrow> 'd \<Rightarrow>
     (string + 'd ResolvedPeriodicNote) outcome" where
  "resolve_periodic_note dl lib te periodic kind d =
     (case kind_config periodic kind of
        None \<Rightarrow> Done (Inl (not_configured kind))
      | Some config \<Rightarrow>
          bind_outcome (periodic_template_context dl kind d) (\<lambda>prompts.
            case render_text lib te (pk_filename config) prompts of
              Inl _ \<Rightarrow> Done (Inl (''failed to render '' @ kind_str kind @ '' filename''))
            | Inr rendered_name \<Rightarrow>
                bind_outcome (period_bounds dl kind d) (\<lambda>(s, e). Done (Inr
                  \<lparr>rn_kind = kind, rn_key = current_key dl kind d, rn_start = s, rn_end = e,
                   rn_path = (if pk_folder config = [] then rendered_name @ ''.md''
                              else pk_folder config @ ''/'' @ rendered_name @ ''.md'')\<rparr>))))"

definition periodic_content ::
  "TemplateLib \<Rightarrow> TemplateEngine \<Rightarrow> PeriodKindConfig \<Rightarrow> PeriodKind \<Rightarrow> prompt_values \<Rightarrow> string \<Rightarrow> FileTree \<Rightarrow> string + string" where
  "periodic_content lib te config kind prompts path t =
     (case pk_template config of
        Some template_name \<Rightarrow>
          if trim template_name = [] then Inr []
          else (case render_to_path lib te template_name prompts path t of
              Inl _ \<Rightarrow> Inl (''failed to render '' @ kind_str kind @ '' template '' @ template_name)
            | Inr r \<Rightarrow> Inr (rt_content r))
      | None \<Rightarrow> Inr [])"

definition ensure_periodic_note ::
  "'d DateLib \<Rightarrow> TemplateLib \<Rightarrow> TemplateEngine \<Rightarrow> string \<Rightarrow> PeriodicConfig \<Rightarrow> PeriodKind \<Rightarrow> 'd \<Rightarrow> FileTree \<Rightarrow>
     ((string + 'd EnsurePeriodicResult) \<times> FileTree) outcome" where
  "ensure_periodic_note dl lib te root periodic kind d t =
     bind_outcome (resolve_periodic_note dl lib te periodic kind d) (\<lambda>resolved.
       case resolved of
         Inl e \<Rightarrow> Done (Inl e, t)
       | Inr note' \<Rightarrow>
           (case engine_read (tl_io lib) root (rn_path note') t of
              Inr _ \<Rightarrow> Done (Inr \<lparr>er_note = note', er_created = None\<rparr>, t)
            | Inl (NoteNotFound _) \<Rightarrow>
                (case kind_config periodic kind of
                   None \<Rightarrow> Done (Inl (not_configured kind), t)
                 | Some config \<Rightarrow>
                     bind_outcome (periodic_template_context dl kind d) (\<lambda>prompts.
                       case periodic_content lib te config kind prompts (rn_path note') t of
                         Inl e \<Rightarrow> Done (Inl e, t)
                       | Inr content \<Rightarrow>
                           (case engine_write (tl_io lib) (tl_hash lib) (tl_tag lib) root (rn_path note') None
                               (saved_text lib content) t of
                              (Inl e, t1) \<Rightarrow> Done (Inl (notesmith_error_text e), t1)
                            | (Inr _, t1) \<Rightarrow>
                                Done (Inr \<lparr>er_note = note', er_created = Some (rn_path note')\<rparr>, t1))))
            | Inl e \<Rightarrow> Done (Inl (notesmith_error_text e), t)))"

section \<open>The scheduler's notes\<close>

definition ensure_daily_note ::
  "'d DateLib \<Rightarrow> TemplateLib \<Rightarrow> TemplateEngine \<Rightarrow> string \<Rightarrow> PeriodicConfig \<Rightarrow> DailyConfig \<Rightarrow> 'd \<Rightarrow> FileTree \<Rightarrow>
     ((string + string option) \<times> FileTree) outcome" where
  "ensure_daily_note dl lib te root periodic daily d t =
     bind_outcome (ensure_periodic_note dl lib te root (effective_daily_periodic periodic daily) Daily d t) (\<lambda>(r, t1).
       Done (case r of Inl e \<Rightarrow> Inl e | Inr x \<Rightarrow> Inr (er_created x), t1))"

fun catch_up_days ::
  "'d DateLib \<Rightarrow> TemplateLib \<Rightarrow> TemplateEngine \<Rightarrow> string \<Rightarrow> PeriodicConfig \<Rightarrow> DailyConfig \<Rightarrow> 'd \<Rightarrow> nat list \<Rightarrow> string list \<Rightarrow>
     FileTree \<Rightarrow> ((string + string list) \<times> FileTree) outcome" where
  "catch_up_days dl lib te root periodic daily today [] created t = Done (Inr created, t)"
| "catch_up_days dl lib te root periodic daily today (days_ago # days) created t =
     bind_outcome (unwrap (dl_plus dl today (- int days_ago))) (\<lambda>d.
     bind_outcome (ensure_daily_note dl lib te root periodic daily d t) (\<lambda>(r, t1).
       case r of
         Inl e \<Rightarrow> Done (Inl e, t1)
       | Inr made \<Rightarrow>
           catch_up_days dl lib te root periodic daily today days
             (created @ (case made of Some path \<Rightarrow> [path] | None \<Rightarrow> [])) t1))"

definition catch_up_daily_notes ::
  "'d DateLib \<Rightarrow> TemplateLib \<Rightarrow> TemplateEngine \<Rightarrow> string \<Rightarrow> PeriodicConfig \<Rightarrow> DailyConfig \<Rightarrow> 'd \<Rightarrow> FileTree \<Rightarrow>
     ((string + string list) \<times> FileTree) outcome" where
  "catch_up_daily_notes dl lib te root periodic daily today t =
     catch_up_days dl lib te root periodic daily today (rev [0..<30]) [] t"

section \<open>Creating never overwrites\<close>

lemma engine_read_missing: "engine_read io root path t = Inl (NoteNotFound p) \<Longrightarrow> ft_files t (at root path) = None"
  by (auto simp: engine_read_def os_read_def note_io_error_def split: option.splits if_splits IoError.splits)

text \<open>What a run of \<open>ensure_periodic_note\<close> that got as far as a result did.\<close>

lemma ensure_cases:
  assumes "ensure_periodic_note dl lib te root periodic kind d t = Done (r, t')"
  obtains "t' = t" "\<forall>x. r = Inr x \<longrightarrow> er_created x = None \<and> resolve_periodic_note dl lib te periodic kind d = Done (Inr (er_note x)) \<and>
      (\<exists>c. engine_read (tl_io lib) root (rn_path (er_note x)) t = Inr c)"
    | n content w where "resolve_periodic_note dl lib te periodic kind d = Done (Inr n)"
      "ft_files t (at root (rn_path n)) = None"
      "engine_write (tl_io lib) (tl_hash lib) (tl_tag lib) root (rn_path n) None (saved_text lib content) t = (w, t')"
      "(\<exists>e. w = Inl e \<and> r = Inl (notesmith_error_text e)) \<or>
       (\<exists>x. w = Inr x \<and> r = Inr \<lparr>er_note = n, er_created = Some (rn_path n)\<rparr>)"
proof -
  obtain resolved where res: "resolve_periodic_note dl lib te periodic kind d = Done resolved"
    using assms by (auto simp: ensure_periodic_note_def bind_outcome_Done)
  show thesis
  proof (cases resolved)
    case (Inl e)
    with assms res show thesis by (intro that(1)) (auto simp: ensure_periodic_note_def)
  next
    case (Inr n)
    note res = res [unfolded Inr]
    show thesis
    proof (cases "engine_read (tl_io lib) root (rn_path n) t")
      case (Inr c)
      with assms res show thesis by (intro that(1)) (auto simp: ensure_periodic_note_def)
    next
      case (Inl e)
      show thesis
      proof (cases "\<exists>p. e = NoteNotFound p")
        case False
        with assms res Inl show thesis
          by (intro that(1); cases e) (auto simp: ensure_periodic_note_def)
      next
        case True
        then obtain p where e: "e = NoteNotFound p" ..
        obtain config where config: "kind_config periodic kind = Some config"
          using res by (cases "kind_config periodic kind") (auto simp: resolve_periodic_note_def)
        obtain prompts where prompts: "periodic_template_context dl kind d = Done prompts"
          using res by (cases "periodic_template_context dl kind d") (auto simp: resolve_periodic_note_def config)
        show thesis
        proof (cases "periodic_content lib te config kind prompts (rn_path n) t")
          case (Inl err)
          with assms res \<open>engine_read _ _ _ _ = Inl e\<close> e config prompts show thesis
            by (intro that(1)) (auto simp: ensure_periodic_note_def)
        next
          case (Inr content)
          obtain w t1 where w: "engine_write (tl_io lib) (tl_hash lib) (tl_tag lib) root (rn_path n) None
              (saved_text lib content) t = (w, t1)" by fastforce
          have run: "Done (r, t') = (case (w, t1) of (Inl e, t1) \<Rightarrow> Done (Inl (notesmith_error_text e), t1)
            | (Inr _, t1) \<Rightarrow> Done (Inr \<lparr>er_note = n, er_created = Some (rn_path n)\<rparr>, t1))"
            using assms res \<open>engine_read _ _ _ _ = Inl e\<close> e config prompts Inr w by (simp add: ensure_periodic_note_def)
          have missing: "ft_files t (at root (rn_path n)) = None"
            using engine_read_missing \<open>engine_read _ _ _ _ = Inl e\<close> e by blast
          from run have t1: "t1 = t'" by (cases w) simp_all
          have "(\<exists>e. w = Inl e \<and> r = Inl (notesmith_error_text e)) \<or>
              (\<exists>x. w = Inr x \<and> r = Inr \<lparr>er_note = n, er_created = Some (rn_path n)\<rparr>)"
            using run by (cases w) simp_all
          then show thesis by (rule that(2) [OF res missing w [unfolded t1]])
        qed
      qed
    qed
  qed
qed

lemma ensure_creates_only:
  assumes "ensure_periodic_note dl lib te root periodic kind d t = Done (r, t')"
    and "plain_path k" "ft_files t' k \<noteq> ft_files t k"
  shows "\<exists>x path. r = Inr x \<and> er_created x = Some path \<and> k = at root path \<and> ft_files t k = None"
  using assms(1)
proof (cases rule: ensure_cases)
  case 1
  with assms(3) show ?thesis by simp
next
  case (2 n content w)
  with engine_write_result(2) [OF 2(3) assms(2)] assms(3) have "k = at root (rn_path n)" "\<exists>h. w = Inr (Written h)" by metis+
  with 2(2,4) show ?thesis by auto
qed

text \<open>A note that was ensured is there: ensuring it again finds it and changes nothing.\<close>

lemma ensure_again:
  assumes "ensure_periodic_note dl lib te root periodic kind d t = Done (Inr x, t')"
    and "io_read (tl_io lib) (at root (rn_path (er_note x))) = None"
  shows "ensure_periodic_note dl lib te root periodic kind d t' = Done (Inr \<lparr>er_note = er_note x, er_created = None\<rparr>, t')"
  using assms(1)
proof (cases rule: ensure_cases)
  case 1
  then show ?thesis by (auto simp: ensure_periodic_note_def)
next
  case (2 n content w)
  from 2(4) obtain v where w: "w = Inr v" and x: "x = \<lparr>er_note = n, er_created = Some (rn_path n)\<rparr>" by auto
  have "\<exists>h. v = Written h" using 2(3) unfolding engine_write_def replace_file_def w
    by (auto simp: Let_def split: prod.splits sum.splits)
  with engine_write_result(1) [OF 2(3)] w have "ft_files t' (at root (rn_path n)) = Some (saved_text lib content)" by auto
  with assms(2) have "engine_read (tl_io lib) root (rn_path n) t' = Inr (saved_text lib content)"
    by (simp add: engine_read_def os_read_def x)
  with 2(1) show ?thesis by (simp add: ensure_periodic_note_def x)
qed

section \<open>Catching up\<close>

lemma daily_creates_only:
  assumes "ensure_daily_note dl lib te root periodic daily d t = Done (r, t')"
    and "plain_path k" "ft_files t' k \<noteq> ft_files t k"
  shows "\<exists>path. r = Inr (Some path) \<and> k = at root path \<and> ft_files t k = None"
proof -
  from assms(1) obtain r0 where e: "ensure_periodic_note dl lib te root (effective_daily_periodic periodic daily) Daily d t = Done (r0, t')"
    "r = (case r0 of Inl e \<Rightarrow> Inl e | Inr x \<Rightarrow> Inr (er_created x))"
    by (auto simp: ensure_daily_note_def bind_outcome_Done)
  from ensure_creates_only [OF e(1) assms(2,3)] e(2) show ?thesis by auto
qed

lemma catch_up_keeps_created:
  "catch_up_days dl lib te root periodic daily today days created t = Done (Inr made, t') \<Longrightarrow> set created \<subseteq> set made"
proof (induction days arbitrary: created t)
  case (Cons n days)
  from Cons.prems obtain d r t1 where
    "ensure_daily_note dl lib te root periodic daily d t = Done (r, t1)"
    and run: "(case r of Inl e \<Rightarrow> Done (Inl e, t1) | Inr m \<Rightarrow> catch_up_days dl lib te root periodic daily today days
             (created @ (case m of Some path \<Rightarrow> [path] | None \<Rightarrow> [])) t1) = Done (Inr made, t')"
    by (auto simp: bind_outcome_Done)
  then obtain m where m: "r = Inr m" by (cases r) auto
  with run have "catch_up_days dl lib te root periodic daily today days
      (created @ (case m of Some path \<Rightarrow> [path] | None \<Rightarrow> [])) t1 = Done (Inr made, t')" by simp
  from Cons.IH [OF this] show ?case by auto
qed simp

lemma catch_up_creates_only:
  assumes "catch_up_days dl lib te root periodic daily today days created t = Done (r, t')"
    and "plain_path k" "ft_files t k = Some c"
  shows "ft_files t' k = Some c"
  using assms(1,3)
proof (induction days arbitrary: created t)
  case (Cons n days)
  from Cons.prems(1) obtain d r1 t1 where
    e: "ensure_daily_note dl lib te root periodic daily d t = Done (r1, t1)"
    and run: "(case r1 of Inl e \<Rightarrow> Done (Inl e, t1) | Inr m \<Rightarrow> catch_up_days dl lib te root periodic daily today days
             (created @ (case m of Some path \<Rightarrow> [path] | None \<Rightarrow> [])) t1) = Done (r, t')"
    by (auto simp: bind_outcome_Done)
  have t1: "ft_files t1 k = Some c" using daily_creates_only [OF e assms(2)] Cons.prems(2) by fastforce
  show ?case
  proof (cases r1)
    case (Inl err)
    with run t1 show ?thesis by simp
  next
    case (Inr m)
    with run have "catch_up_days dl lib te root periodic daily today days
        (created @ (case m of Some path \<Rightarrow> [path] | None \<Rightarrow> [])) t1 = Done (r, t')" by simp
    from Cons.IH [OF this t1] show ?thesis .
  qed
qed simp

section \<open>A created note is recognized\<close>




















section \<open>Properties\<close>


text \<open>C38: Ensuring a periodic note creates at most the note at its path, only when there is none, and never changes
  another note; ensuring it again finds it and changes nothing.\<close>

theorem ensure_creates_once:
  assumes "ensure_periodic_note dl lib te root periodic kind d t = Done (Inr x, t')"
    and "io_read (tl_io lib) (at root (rn_path (er_note x))) = None"
  shows "(\<forall>k. plain_path k \<and> ft_files t' k \<noteq> ft_files t k \<longrightarrow>
        k = at root (rn_path (er_note x)) \<and> er_created x = Some (rn_path (er_note x)) \<and> ft_files t k = None) \<and>
     ensure_periodic_note dl lib te root periodic kind d t' = Done (Inr \<lparr>er_note = er_note x, er_created = None\<rparr>, t')"
proof -
  have path: "er_created x = Some p \<Longrightarrow> p = rn_path (er_note x)" for p
    using assms(1) by (cases rule: ensure_cases) auto
  show ?thesis
    using ensure_again [OF assms] ensure_creates_only [OF assms(1)] path by fastforce
qed

section \<open>Witnesses\<close>

text \<open>A calendar of the first days of the months of one year, and a renderer of a single variable.\<close>

definition demo_dates :: "nat DateLib" where
  "demo_dates = \<lparr>dl_ymd = (\<lambda>y m d. if m = 0 \<or> 12 < m then None else Some m), dl_isoywd = (\<lambda>y w. Some 5), dl_parse = (\<lambda>s. Some 5),
     dl_year = (\<lambda>d. 2026), dl_month = (\<lambda>d. d), dl_weekday = (\<lambda>d. 0), dl_plus = (\<lambda>d i. Some d),
     dl_format = (\<lambda>f d. if f = ''%Y-%m-%d'' then ''2026-05-01'' else if f = ''%G-W%V'' then ''2026-W18''
        else if f = ''%Y-%m'' then ''2026-05'' else ''2026''),
     dl_show = (\<lambda>d. ''2026-05-01''), dl_checks = False\<rparr>"

definition demo_render :: "TemplateEnv \<Rightarrow> string \<Rightarrow> JsonContext \<Rightarrow> string + string" where
  "demo_render env tmpl ctx =
     (case split_once ''{{'' tmpl of
        None \<Rightarrow> Inr tmpl
      | Some (p, r) \<Rightarrow>
          (case split_once ''}}'' r of
             None \<Rightarrow> Inl ''syntax error''
           | Some (v, q) \<Rightarrow> (case ctx (trim v) of Some (JString s) \<Rightarrow> Inr (p @ s @ q) | _ \<Rightarrow> Inl ''undefined value'')))"

definition demo_templates :: TemplateLib where
  "demo_templates = \<lparr>tl_io = no_faults, tl_dir = (\<lambda>t p. Inr []), tl_yaml = (\<lambda>s. Inl ''yaml''), tl_spec = (\<lambda>y. Inl ''spec''),
     tl_now = \<lparr>ln_format = (\<lambda>f. f), ln_rfc3339 = [], ln_month = 5, ln_date = (\<lambda>i. [])\<rparr>, tl_render = demo_render,
     tl_open = (\<lambda>p. None), tl_hook = (\<lambda>p c. SpawnFailed), tl_json = (\<lambda>s. None),
     tl_yl = \<lparr>yl_from = (\<lambda>s. None), yl_to = (\<lambda>y. None), yl_json = (\<lambda>j. Inl []), yl_error = (\<lambda>s. [])\<rparr>,
     tl_stamp = (\<lambda>c. ''t''), tl_hash = id, tl_tag = ''1''\<rparr>"

definition demo_periodic :: PeriodicConfig where
  "demo_periodic = \<lparr>pc_daily = None,
     pc_weekly = Some \<lparr>pk_folder = ''Weeks'', pk_template = None, pk_filename = ''Week {{ week }}'', pk_generate_at = None,
       pk_timezone = None, pk_catch_up = False\<rparr>,
     pc_monthly = None, pc_quarterly = None, pc_yearly = None\<rparr>"

definition demo_engine :: TemplateEngine where
  "demo_engine = \<lparr>tg_root = ''/v'', tg_db = None\<rparr>"



definition demo_resolved :: "nat ResolvedPeriodicNote" where
  "demo_resolved = \<lparr>rn_kind = Weekly, rn_key = ''2026-W18'', rn_start = 5, rn_end = 5, rn_path = ''Weeks/Week 2026-W18.md''\<rparr>"


lemma ensure_creates_once_witness:
  "\<exists>t' x. ensure_periodic_note demo_dates demo_templates demo_engine ''/v'' demo_periodic Weekly 5 demo_tree = Done (Inr x, t') \<and>
     ft_files t' [''v'', ''Weeks'', ''Week 2026-W18.md''] \<noteq> None \<and>
     ensure_periodic_note demo_dates demo_templates demo_engine ''/v'' demo_periodic Weekly 5 t' =
       Done (Inr \<lparr>er_note = er_note x, er_created = None\<rparr>, t')"
proof -
  let ?run = "ensure_periodic_note demo_dates demo_templates demo_engine ''/v'' demo_periodic Weekly 5 demo_tree"
  have "(case ?run of Done (r, t') \<Rightarrow> r = Inr \<lparr>er_note = demo_resolved, er_created = Some ''Weeks/Week 2026-W18.md''\<rparr> \<and>
      ft_files t' [''v'', ''Weeks'', ''Week 2026-W18.md''] \<noteq> None | Panicked \<Rightarrow> False)"
    by code_simp
  then obtain r t' where run: "?run = Done (r, t')" "r = Inr \<lparr>er_note = demo_resolved, er_created = Some ''Weeks/Week 2026-W18.md''\<rparr>"
    and f: "ft_files t' [''v'', ''Weeks'', ''Week 2026-W18.md''] \<noteq> None"
    by (cases ?run) (auto split: prod.splits)
  have "io_read (tl_io demo_templates) p = None" for p by (simp add: demo_templates_def no_faults_def)
  from ensure_creates_once [OF run(1) [unfolded run(2)] this] have
    "ensure_periodic_note demo_dates demo_templates demo_engine ''/v'' demo_periodic Weekly 5 t' =
      Done (Inr \<lparr>er_note = demo_resolved, er_created = None\<rparr>, t')" by simp
  with run f show ?thesis by (intro exI [of _ t'] exI [of _ "\<lparr>er_note = demo_resolved, er_created = Some ''Weeks/Week 2026-W18.md''\<rparr>"]) simp
qed

end
