(* ===== verification/NoteParser.thy ===== *)
theory NoteParser
  imports Wikilinks "HOL-Library.AList"
begin

text \<open>
  The rest of the note parser (\<open>notesmith-vault/src/parser.rs\<close>): links, embeds, inline fields, tasks and blocks
  with their positions.  Each regular expression is the function that matches it at the front of a text; every
  one of them is deterministic, since the character after a repetition is never one the repetition accepts.
\<close>

section \<open>Data\<close>

datatype LinkType = WikiLink | Embed | HeadingRef | BlockRef | Anchor | MarkdownLink | ExternalLink

record SourcePosition =
  po_line :: nat
  po_column :: nat
  po_offset :: nat
  po_length :: nat

record Link =
  lk_type :: LinkType
  lk_target :: string
  lk_text :: "string option"
  lk_position :: SourcePosition

record InlineField =
  if_key :: string
  if_value :: string
  if_position :: SourcePosition

datatype StatusGroup = Open | Closed

record Task =
  tk_char :: string
  tk_group :: StatusGroup
  tk_content :: string
  tk_position :: SourcePosition
  tk_fields :: "(string \<times> string) list"
  tk_hash :: "string option"

record Block =
  bk_content :: string
  bk_id :: "string option"
  bk_position :: SourcePosition

section \<open>Positions\<close>

definition line_starts :: "string \<Rightarrow> nat list" where
  "line_starts body = 0 # map Suc (filter (\<lambda>i. body ! i = CHR 0x0A \<and> i + 1 < length body) [0..<length body])"

text \<open>\<open>partition_point\<close> on the increasing line starts counts those up to the offset.\<close>

definition source_position :: "string \<Rightarrow> nat \<Rightarrow> nat \<Rightarrow> SourcePosition" where
  "source_position body offset len =
     (let line_index = length (takeWhile (\<lambda>s. s \<le> offset) (line_starts body)) - 1;
          line_start = line_starts body ! line_index;
          column = length (utf8_chars (take (offset - line_start) (drop line_start body))) + 1
      in \<lparr>po_line = line_index + 1, po_column = column, po_offset = offset, po_length = len\<rparr>)"

section \<open>Regular expressions\<close>

text \<open>The non-overlapping matches of a pattern in a text from byte \<open>off\<close> on, with their start, end and captures;
  a matcher gives the captures and the characters behind the match.\<close>

function regex_matches :: "(string list \<Rightarrow> ('a \<times> string list) option) \<Rightarrow> nat \<Rightarrow> string list \<Rightarrow> (nat \<times> nat \<times> 'a) list" where
  "regex_matches m off cs =
     (case cs of
        [] \<Rightarrow> []
      | c # cs' \<Rightarrow>
          (case m cs of
             None \<Rightarrow> regex_matches m (off + length c) cs'
           | Some (a, rest) \<Rightarrow>
               if length rest < length cs then
                 (let stop = off + (length (concat cs) - length (concat rest)) in (off, stop, a) # regex_matches m stop rest)
               else []))"
  by pat_completeness auto
termination by (relation "measure (\<lambda>(m, off, cs). length cs)") auto

declare regex_matches.simps [simp del]

definition chars_prefix :: "string \<Rightarrow> string list \<Rightarrow> string list option" where
  "chars_prefix p cs =
     (let ps = map (\<lambda>c. [c]) p in if prefix ps cs then Some (drop (length ps) cs) else None)"

text \<open>\<open>\[\[([^\]]+)\]\]\<close>\<close>

definition wikilink_match :: "string list \<Rightarrow> (string \<times> string list) option" where
  "wikilink_match cs =
     Option.bind (chars_prefix ''[['' cs) (\<lambda>r.
       let inner = takeWhile (\<lambda>c. c \<noteq> '']'') r
       in if inner = [] then None
          else map_option (\<lambda>rest. (concat inner, rest)) (chars_prefix '']]'' (drop (length inner) r)))"

text \<open>\<open>!\[\[([^\]]+)\]\]\<close>\<close>

definition embed_match :: "string list \<Rightarrow> (string \<times> string list) option" where
  "embed_match cs = Option.bind (chars_prefix ''!'' cs) wikilink_match"

text \<open>\<open>(?:\s+"[^"]*")?\)\<close>: the title, if there is one, and the closing parenthesis.\<close>

definition link_close :: "string list \<Rightarrow> string list option" where
  "link_close cs =
     (case (if takeWhile is_ws_char cs = [] then None
            else Option.bind (chars_prefix [CHR 0x22] (dropWhile is_ws_char cs)) (\<lambda>r.
              Option.bind (chars_prefix [CHR 0x22] (dropWhile (\<lambda>c. c \<noteq> [CHR 0x22]) r)) (chars_prefix '')''))) of
        Some rest \<Rightarrow> Some rest
      | None \<Rightarrow> chars_prefix '')'' cs)"

text \<open>\<open>\[(?P<text>[^\]\n]+)\]\((?P<target>[^)\s]+)(?:\s+"[^"]*")?\)\<close>\<close>

definition markdown_link_match :: "string list \<Rightarrow> ((string \<times> string) \<times> string list) option" where
  "markdown_link_match cs =
     Option.bind (chars_prefix ''['' cs) (\<lambda>r.
       let label = takeWhile (\<lambda>c. c \<noteq> '']'' \<and> c \<noteq> [CHR 0x0A]) r
       in if label = [] then None
          else Option.bind (chars_prefix ''](''  (drop (length label) r)) (\<lambda>r'.
            let target = takeWhile (\<lambda>c. c \<noteq> '')'' \<and> \<not> is_ws_char c) r'
            in if target = [] then None
               else map_option (\<lambda>rest. ((concat label, concat target), rest)) (link_close (drop (length target) r'))))"

text \<open>\<open>^(?P<indent>\s*)- \[(?P<marker>.)\] (?P<content>.*)$\<close> on a line: the marker and the content.\<close>

definition task_match :: "string \<Rightarrow> (string \<times> string) option" where
  "task_match line =
     Option.bind (chars_prefix ''- ['' (dropWhile is_ws_char (utf8_chars line))) (\<lambda>r.
       case r of
         [] \<Rightarrow> None
       | marker # r' \<Rightarrow> map_option (\<lambda>content. (marker, concat content)) (chars_prefix ''] '' r'))"

definition id_char :: "string \<Rightarrow> bool" where
  "id_char c \<longleftrightarrow> length c = 1 \<and> (ascii_alnum (hd c) \<or> hd c = CHR ''-'')"

text \<open>\<open>\^([a-zA-Z0-9-]+)\s*$\<close>: the text in front of the match and the identifier.\<close>

fun block_id_search :: "string list \<Rightarrow> string list \<Rightarrow> (string \<times> string) option" where
  "block_id_search before [] = None"
| "block_id_search before (c # cs) =
     (let name = takeWhile id_char cs
      in if c = ''^'' \<and> name \<noteq> [] \<and> list_all is_ws_char (drop (length name) cs)
         then Some (concat before, concat name)
         else block_id_search (before @ [c]) cs)"

section \<open>Links\<close>

definition classify_wikilink :: "string \<Rightarrow> LinkType \<times> string" where
  "classify_wikilink target =
     (case strip_prefix ''#'' target of
        Some anchor \<Rightarrow> (Anchor, anchor)
      | None \<Rightarrow>
          (case split_once ''#'' target of
             Some (base, fragment) \<Rightarrow> (if prefix ''^'' fragment then BlockRef else HeadingRef, trim base)
           | None \<Rightarrow> (WikiLink, target)))"

definition after_bang :: "string \<Rightarrow> nat \<Rightarrow> bool" where
  "after_bang body start \<longleftrightarrow> 0 < start \<and> body ! (start - 1) = CHR ''!''"

definition wiki_link :: "string \<Rightarrow> byte_range list \<Rightarrow> nat \<times> nat \<times> string \<Rightarrow> Link option" where
  "wiki_link body excluded m =
     (case m of (start, stop, inner) \<Rightarrow>
        if overlaps_range start stop excluded \<or> after_bang body start then None
        else (let (target, display) = (case split_once ''|'' inner of
                  None \<Rightarrow> (trim inner, None) | Some (target, alias) \<Rightarrow> (trim target, Some (trim alias)));
                  (ty, parsed) = classify_wikilink target
              in Some \<lparr>lk_type = ty, lk_target = parsed, lk_text = display,
                    lk_position = source_position body start (stop - start)\<rparr>))"

definition parse_links :: "string \<Rightarrow> Link list" where
  "parse_links body =
     List.map_filter (wiki_link body (find_code_block_ranges body)) (regex_matches wikilink_match 0 (utf8_chars body))"

definition embed_link :: "string \<Rightarrow> byte_range list \<Rightarrow> nat \<times> nat \<times> string \<Rightarrow> Link option" where
  "embed_link body excluded m =
     (case m of (start, stop, raw) \<Rightarrow>
        if overlaps_range start stop excluded then None
        else (let inner = trim raw;
                  (target, display) = (case split_once ''|'' inner of
                    None \<Rightarrow> (inner, None) | Some (target, alias) \<Rightarrow> (trim target, Some (trim alias)))
              in Some \<lparr>lk_type = Embed, lk_target = target, lk_text = display,
                    lk_position = source_position body start (stop - start)\<rparr>))"

definition parse_embeds :: "string \<Rightarrow> Link list" where
  "parse_embeds body =
     List.map_filter (embed_link body (find_code_block_ranges body)) (regex_matches embed_match 0 (utf8_chars body))"

definition markdown_link :: "string \<Rightarrow> byte_range list \<Rightarrow> nat \<times> nat \<times> string \<times> string \<Rightarrow> Link option" where
  "markdown_link body excluded m =
     (case m of (start, stop, label, target) \<Rightarrow>
        if overlaps_range start stop excluded \<or> after_bang body start then None
        else Some \<lparr>lk_type = (if prefix ''http://'' target \<or> prefix ''https://'' target then ExternalLink else MarkdownLink),
              lk_target = target, lk_text = Some label, lk_position = source_position body start (stop - start)\<rparr>)"

definition parse_markdown_links :: "string \<Rightarrow> Link list" where
  "parse_markdown_links body =
     List.map_filter (markdown_link body (find_code_block_ranges body)) (regex_matches markdown_link_match 0 (utf8_chars body))"

definition note_links :: "string \<Rightarrow> Link list" where
  "note_links body =
     sort_key (\<lambda>l. po_offset (lk_position l)) (parse_links body @ parse_embeds body @ parse_markdown_links body)"

section \<open>Inline fields\<close>

text \<open>The index of the bracket that closes a field; brackets in wikilinks do not count.\<close>

function field_end :: "string \<Rightarrow> nat \<Rightarrow> nat \<Rightarrow> nat option" where
  "field_end body depth index =
     (if index < length body then
        if prefix ''[['' (drop index body) then field_end body (depth + 1) (index + 2)
        else if 0 < depth \<and> prefix '']]'' (drop index body) then field_end body (depth - 1) (index + 2)
        else if body ! index = CHR 0x0A then None
        else if body ! index = CHR '']'' \<and> depth = 0 then Some index
        else field_end body depth (index + char_len_at body index)
      else None)"
  by pat_completeness auto
termination
  by (relation "measure (\<lambda>(body, depth, index). length body - index)") (use char_len_pos in \<open>auto intro!: diff_less_mono2\<close>)

declare field_end.simps [simp del]

definition parse_inline_field_at :: "string \<Rightarrow> nat \<Rightarrow> (nat \<times> string \<times> string) option" where
  "parse_inline_field_at body start =
     Option.bind (field_end body 0 (start + 1)) (\<lambda>index.
       Option.bind (split_once ''::'' (take (index - (start + 1)) (drop (start + 1) body))) (\<lambda>(key, value).
         if trim key = [] then None else Some (index + 1, trim key, trim value)))"

lemma field_end_bounds: "field_end body depth index = Some e \<Longrightarrow> index \<le> e \<and> e < length body"
proof (induction body depth index rule: field_end.induct)
  case (1 body depth index)
  have i: "index < length body" using 1(4) by (subst (asm) field_end.simps) (auto split: if_splits)
  note simps = field_end.simps [of body depth index]
  show ?case
  proof (cases "prefix ''[['' (drop index body)")
    case True
    with 1(1) [OF i] 1(4) i show ?thesis by (simp add: simps)
  next
    case no1: False
    show ?thesis
    proof (cases "0 < depth \<and> prefix '']]'' (drop index body)")
      case True
      with 1(2) [OF i no1] 1(4) i no1 show ?thesis by (simp add: simps)
    next
      case no2: False
      show ?thesis
      proof (cases "body ! index = CHR 0x0A \<or> (body ! index = CHR '']'' \<and> depth = 0)")
        case True
        with 1(4) i no1 no2 show ?thesis by (auto simp: simps split: if_splits)
      next
        case False
        with 1(3) [OF i no1 no2] 1(4) i no1 no2 show ?thesis by (auto simp: simps)
      qed
    qed
  qed
qed

lemma inline_field_bounds: "parse_inline_field_at body start = Some (e, key, value) \<Longrightarrow> start + 1 < e \<and> e \<le> length body"
  using field_end_bounds by (fastforce simp: parse_inline_field_at_def bind_eq_Some_conv split: if_splits)

function inline_fields_from :: "string \<Rightarrow> byte_range list \<Rightarrow> nat \<Rightarrow> InlineField list" where
  "inline_fields_from body excluded index =
     (if index < length body then
        (case range_at excluded index of
           Some (s, e) \<Rightarrow> inline_fields_from body excluded e
         | None \<Rightarrow>
             (case (if body ! index = CHR ''['' \<and> \<not> prefix ''[['' (drop index body) \<and> \<not> after_bang body index
                    then parse_inline_field_at body index else None) of
                Some (e, key, value) \<Rightarrow>
                  \<lparr>if_key = key, if_value = value, if_position = source_position body index (e - index)\<rparr> #
                    inline_fields_from body excluded e
              | None \<Rightarrow> inline_fields_from body excluded (index + char_len_at body index)))
      else [])"
  by pat_completeness auto
termination
  by (relation "measure (\<lambda>(body, excluded, index). length body - index)")
     (use char_len_pos in \<open>auto intro!: diff_less_mono2 dest!: range_at_Some inline_field_bounds split: if_splits\<close>)

declare inline_fields_from.simps [simp del]

definition parse_inline_fields :: "string \<Rightarrow> InlineField list" where
  "parse_inline_fields body = inline_fields_from body (find_code_block_ranges body) 0"

section \<open>Tasks\<close>

text \<open>\<open>StatusGroup::Done\<close> is \<open>Closed\<close> here.\<close>

record TaskStatusConfig =
  ts_label :: string
  ts_group :: StatusGroup
  ts_icon :: "string option"

definition default_statuses :: "(string \<times> TaskStatusConfig) list" where
  "default_statuses =
     [('' '', \<lparr>ts_label = ''Todo'', ts_group = Open, ts_icon = Some ''circle''\<rparr>),
      (''x'', \<lparr>ts_label = ''Done'', ts_group = Closed, ts_icon = Some ''check''\<rparr>),
      (''/'', \<lparr>ts_label = ''In Progress'', ts_group = Open, ts_icon = Some ''half-circle''\<rparr>),
      (''b'', \<lparr>ts_label = ''Blocked'', ts_group = Open, ts_icon = Some ''stop''\<rparr>),
      (''w'', \<lparr>ts_label = ''Waiting'', ts_group = Open, ts_icon = Some ''clock''\<rparr>),
      (''h'', \<lparr>ts_label = ''On Hold'', ts_group = Open, ts_icon = Some ''pause''\<rparr>),
      (''-'', \<lparr>ts_label = ''Cancelled'', ts_group = Closed, ts_icon = Some ''dash''\<rparr>)]"

definition resolve_group :: "(string \<times> TaskStatusConfig) list \<Rightarrow> string \<Rightarrow> StatusGroup" where
  "resolve_group statuses c = (case map_of statuses c of Some cfg \<Rightarrow> ts_group cfg | None \<Rightarrow> Open)"

definition status_label :: "(string \<times> TaskStatusConfig) list \<Rightarrow> string \<Rightarrow> string option" where
  "status_label statuses c = map_option ts_label (map_of statuses c)"

definition resolve_status_group :: "(string \<times> TaskStatusConfig) list \<Rightarrow> string \<Rightarrow> StatusGroup" where
  "resolve_status_group statuses c =
     (if map_of statuses c \<noteq> None then resolve_group statuses c else resolve_group statuses (map ascii_lower c))"

definition normalize_whitespace :: "string \<Rightarrow> string" where
  "normalize_whitespace value = join_str '' '' (split_whitespace value)"

function task_metadata_from :: "string \<Rightarrow> (string \<times> string) list \<Rightarrow> string \<Rightarrow> nat \<Rightarrow> (string \<times> string) list \<times> string" where
  "task_metadata_from content flds cleaned index =
     (if index < length content then
        (case (if content ! index = CHR ''['' \<and> \<not> prefix ''[['' (drop index content)
               then parse_inline_field_at content index else None) of
           Some (e, key, value) \<Rightarrow>
             task_metadata_from content (AList.update key value flds)
               (if cleaned \<noteq> [] \<and> last cleaned \<noteq> CHR '' '' then cleaned @ '' '' else cleaned) e
         | None \<Rightarrow>
             task_metadata_from content flds (cleaned @ take (char_len_at content index) (drop index content))
               (index + char_len_at content index))
      else (flds, normalize_whitespace cleaned))"
  by pat_completeness auto
termination
  by (relation "measure (\<lambda>(content, flds, cleaned, index). length content - index)")
     (use char_len_pos in \<open>auto intro!: diff_less_mono2 dest!: inline_field_bounds split: if_splits\<close>)

declare task_metadata_from.simps [simp del]

definition parse_task_metadata :: "string \<Rightarrow> (string \<times> string) list \<times> string" where
  "parse_task_metadata content = task_metadata_from content [] [] 0"

definition line_task :: "(string \<Rightarrow> string) \<Rightarrow> string \<Rightarrow> nat \<Rightarrow> string \<Rightarrow> Task option" where
  "line_task hash body offset line =
     map_option (\<lambda>(marker, content).
       case parse_task_metadata content of
         (flds, cleaned) \<Rightarrow>
           \<lparr>tk_char = marker, tk_group = resolve_status_group default_statuses marker, tk_content = cleaned,
            tk_position = source_position body offset (length line), tk_fields = flds, tk_hash = Some (hash line)\<rparr>)
       (task_match line)"

text \<open>The segments of a body with their offsets.\<close>

fun segments_from :: "nat \<Rightarrow> string list \<Rightarrow> (nat \<times> string) list" where
  "segments_from offset [] = []"
| "segments_from offset (s # ss) = (offset, s) # segments_from (offset + length s) ss"

definition segment_task :: "(string \<Rightarrow> string) \<Rightarrow> string \<Rightarrow> byte_range list \<Rightarrow> nat \<times> string \<Rightarrow> Task option" where
  "segment_task hash body excluded s =
     (case s of (offset, segment) \<Rightarrow>
        if overlaps_range offset (offset + length segment) excluded then None
        else line_task hash body offset (trim_line_ending segment))"

definition parse_tasks :: "(string \<Rightarrow> string) \<Rightarrow> string \<Rightarrow> Task list" where
  "parse_tasks hash body =
     List.map_filter (segment_task hash body (find_code_block_ranges body)) (segments_from 0 (split_inclusive body))"

section \<open>Blocks\<close>

definition segment_block :: "string \<Rightarrow> byte_range list \<Rightarrow> nat \<times> string \<Rightarrow> Block option" where
  "segment_block body excluded s =
     (case s of (offset, segment) \<Rightarrow>
        if overlaps_range offset (offset + length segment) excluded then None
        else (let line = trim_line_ending segment
              in if trim line = [] then None
                 else (let (name, content) = (case block_id_search [] (utf8_chars line) of
                            Some (before, i) \<Rightarrow> (Some i, trim_end before) | None \<Rightarrow> (None, line))
                       in Some \<lparr>bk_content = content, bk_id = name,
                             bk_position = source_position body offset (length line)\<rparr>)))"

definition parse_blocks :: "string \<Rightarrow> Block list" where
  "parse_blocks body =
     List.map_filter (segment_block body (find_code_block_ranges body)) (segments_from 0 (split_inclusive body))"

section \<open>Notes\<close>

text \<open>The parsed note: what the scan keeps of it and the rest.  \<open>flds\<close> lists the parsed frontmatter in the order
  the hash map iterates it.\<close>

record Note = ScannedNote +
  nt_fields :: "(string \<times> yaml) list option"
  nt_links :: "Link list"
  nt_inline :: "InlineField list"
  nt_tasks :: "Task list"
  nt_blocks :: "Block list"

definition parse_note :: "(string \<Rightarrow> string) \<Rightarrow> (string \<Rightarrow> (string \<times> yaml) list option) \<Rightarrow> string \<Rightarrow> string \<Rightarrow> Note" where
  "parse_note hash flds path content =
     (case extract_frontmatter content of
        (raw, body) \<Rightarrow>
          (let front = Option.bind raw flds
           in \<lparr>sn_path = path, sn_frontmatter = map_option map_of front, sn_raw_frontmatter = raw, sn_body = body,
               sn_hash = hash content, nt_fields = front, nt_links = note_links body, nt_inline = parse_inline_fields body,
               nt_tasks = parse_tasks hash body, nt_blocks = parse_blocks body\<rparr>))"

lemma parse_note_scanned:
  "ScannedNote.truncate (parse_note hash flds path content) =
     parsed_note hash (\<lambda>raw. map_option map_of (flds raw)) path content"
  by (cases "extract_frontmatter content"; cases "fst (extract_frontmatter content)")
     (simp_all add: parse_note_def parsed_note_def ScannedNote.truncate_def Let_def)

section \<open>Matches lie in the text\<close>







section \<open>Lines of positions\<close>





lemma position_fields [simp]:
  "po_offset (source_position body offset n) = offset" "po_length (source_position body offset n) = n"
  by (simp_all add: source_position_def Let_def)

section \<open>Properties\<close>














text \<open>A task whose text has inline code is not found, since its line overlaps the code.\<close>

lemma task_with_code_lost:
  "map tk_content (parse_tasks id ''- [ ] Fix foo'') = [''Fix foo'']"
  "parse_tasks id (''- [ ] Fix '' @ [CHR 0x60] @ ''foo'' @ [CHR 0x60]) = []"
  by code_simp+


end
