(* ===== verification/CacheIndex.thy ===== *)
theory CacheIndex
  imports NoteParser Periodic
begin

text \<open>
  The cache of a vault (\<open>notesmith-index\<close>): the rows of a note with the keys of their tables (\<open>indexer.rs\<close>,
  \<open>schema.rs\<close>) and the statements that write and remove them with their transactions (\<open>indexer.rs\<close>, \<open>cache.rs\<close>).
  The tables of SQLite are one list of rows; a statement that the database refuses is a fault, an arbitrary function of
  the statement and the state, which also says whether SQLite rolled the open transaction back on its own (as it may
  when the disk is full or a write fails).
\<close>

section \<open>Rows\<close>

record NoteRow =
  nr_vault :: string
  nr_path :: string
  nr_title :: string
  nr_created :: "string option"
  nr_updated :: "string option"
  nr_words :: nat
  nr_mtime :: int
  nr_hash :: string
  nr_excerpt :: string

record FieldRow =
  fr_vault :: string
  fr_path :: string
  fr_key :: string
  fr_value :: string
  fr_type :: string
  fr_source :: string

record FieldValueRow = FieldRow +
  fr_ordinal :: nat

record TagRow =
  tr_vault :: string
  tr_path :: string
  tr_tag :: string

record LinkRow =
  lr_vault :: string
  lr_source_path :: string
  lr_target :: "string option"
  lr_raw :: string
  lr_text :: "string option"
  lr_kind :: string
  lr_line :: "nat option"
  lr_source :: string

record TaskRow =
  kr_vault :: string
  kr_id :: int
  kr_path :: string
  kr_line :: nat
  kr_text :: string
  kr_char :: string
  kr_group :: string
  kr_hash :: "string option"
  kr_raw :: string

record TaskFieldRow =
  xr_vault :: string
  xr_task :: int
  xr_key :: string
  xr_value :: string

record PeriodicRow =
  pr_vault :: string
  pr_path :: string
  pr_kind :: string
  pr_key :: string
  pr_start :: string
  pr_end :: string

datatype row =
    Note_row NoteRow
  | Field_row FieldRow
  | Value_row FieldValueRow
  | Tag_row TagRow
  | Link_row LinkRow
  | Task_row TaskRow
  | Task_field_row TaskFieldRow
  | Periodic_row PeriodicRow

datatype cache_table = Task_fields | Tasks | Fields | Field_values | Tags | Links | Periodic_notes | Notes

fun row_table :: "row \<Rightarrow> cache_table" where
  "row_table (Note_row _) = Notes"
| "row_table (Field_row _) = Fields"
| "row_table (Value_row _) = Field_values"
| "row_table (Tag_row _) = Tags"
| "row_table (Link_row _) = Links"
| "row_table (Task_row _) = Tasks"
| "row_table (Task_field_row _) = Task_fields"
| "row_table (Periodic_row _) = Periodic_notes"

fun row_vault :: "row \<Rightarrow> string" where
  "row_vault (Note_row r) = nr_vault r"
| "row_vault (Field_row r) = fr_vault r"
| "row_vault (Value_row r) = fr_vault r"
| "row_vault (Tag_row r) = tr_vault r"
| "row_vault (Link_row r) = lr_vault r"
| "row_vault (Task_row r) = kr_vault r"
| "row_vault (Task_field_row r) = xr_vault r"
| "row_vault (Periodic_row r) = pr_vault r"

text \<open>The column that names the note of a row; the rows of \<open>task_fields\<close> name their task instead.\<close>

fun row_note :: "row \<Rightarrow> string option" where
  "row_note (Note_row r) = Some (nr_path r)"
| "row_note (Field_row r) = Some (fr_path r)"
| "row_note (Value_row r) = Some (fr_path r)"
| "row_note (Tag_row r) = Some (tr_path r)"
| "row_note (Link_row r) = Some (lr_source_path r)"
| "row_note (Task_row r) = Some (kr_path r)"
| "row_note (Task_field_row r) = None"
| "row_note (Periodic_row r) = Some (pr_path r)"

text \<open>The primary keys of the schema; \<open>fields\<close>, \<open>field_values\<close> and \<open>links\<close> have none.\<close>

fun same_key :: "row \<Rightarrow> row \<Rightarrow> bool" where
  "same_key (Note_row r) (Note_row s) \<longleftrightarrow> nr_vault r = nr_vault s \<and> nr_path r = nr_path s"
| "same_key (Tag_row r) (Tag_row s) \<longleftrightarrow> tr_vault r = tr_vault s \<and> tr_path r = tr_path s \<and> tr_tag r = tr_tag s"
| "same_key (Task_row r) (Task_row s) \<longleftrightarrow> kr_vault r = kr_vault s \<and> kr_id r = kr_id s"
| "same_key (Task_field_row r) (Task_field_row s) \<longleftrightarrow> xr_vault r = xr_vault s \<and> xr_task r = xr_task s \<and> xr_key r = xr_key s"
| "same_key (Periodic_row r) (Periodic_row s) \<longleftrightarrow> pr_vault r = pr_vault s \<and> pr_path r = pr_path s"
| "same_key _ _ \<longleftrightarrow> False"

section \<open>Values\<close>

text \<open>What the sources leave to libraries: \<open>number\<close> and \<open>to_yaml\<close> print YAML, \<open>blake3\<close> is the little-endian number
  of the first eight bytes of the hash, and the calendar.\<close>

record 'd IndexLib =
  il_number :: "json_num \<Rightarrow> string"
  il_yaml :: yaml_writer
  il_blake3 :: "string \<Rightarrow> nat"
  il_dates :: "'d DateLib"

definition yaml_value_to_string :: "'d IndexLib \<Rightarrow> yaml \<Rightarrow> string" where
  "yaml_value_to_string il v =
     (case v of
        YString s \<Rightarrow> s
      | YBool b \<Rightarrow> (if b then ''true'' else ''false'')
      | YNumber n \<Rightarrow> il_number il n
      | YNull \<Rightarrow> []
      | _ \<Rightarrow> trim (case il_yaml il v of Some s \<Rightarrow> s | None \<Rightarrow> []))"

text \<open>A date of ten ASCII characters; the length is in bytes, the positions count characters.\<close>

definition looks_like_date :: "string \<Rightarrow> bool" where
  "looks_like_date value \<longleftrightarrow>
     length value = 10 \<and> value ! 4 = CHR ''-'' \<and> value ! 7 = CHR ''-'' \<and>
     list_all (\<lambda>(i, c). if i = 4 \<or> i = 7 then c = ''-'' else length c = 1 \<and> is_digit (hd c)) (enumerate 0 (utf8_chars value))"

text \<open>The texts \<open>f64::from_str\<close> accepts.\<close>

definition digits_of :: "string \<Rightarrow> string" where
  "digits_of s = takeWhile is_digit s"

definition exponent_ok :: "string \<Rightarrow> bool" where
  "exponent_ok s \<longleftrightarrow>
     s = [] \<or> (hd s \<in> {CHR ''e'', CHR ''E''} \<and>
       (let t = tl s; d = (if t \<noteq> [] \<and> hd t \<in> {CHR ''+'', CHR ''-''} then tl t else t) in d \<noteq> [] \<and> list_all is_digit d))"

definition parses_f64 :: "string \<Rightarrow> bool" where
  "parses_f64 value \<longleftrightarrow>
     (let s = (if value \<noteq> [] \<and> hd value \<in> {CHR ''+'', CHR ''-''} then tl value else value);
          whole = digits_of s; r = drop (length whole) s;
          point = (r \<noteq> [] \<and> hd r = CHR ''.'');
          frac = (if point then digits_of (tl r) else []);
          r' = (if point then drop (Suc (length frac)) r else r)
      in eq_ignore_ascii_case s ''inf'' \<or> eq_ignore_ascii_case s ''infinity'' \<or> eq_ignore_ascii_case s ''nan'' \<or>
         ((whole \<noteq> [] \<or> frac \<noteq> []) \<and> exponent_ok r'))"

definition scalar_value_type :: "string \<Rightarrow> string" where
  "scalar_value_type value =
     (if looks_like_date value then ''date''
      else if parses_f64 value then ''number''
      else if value = ''true'' \<or> value = ''false'' then ''boolean''
      else if prefix ''[['' value \<and> suffix '']]'' value then ''link''
      else ''string'')"

definition yaml_value_type :: "yaml \<Rightarrow> string" where
  "yaml_value_type v =
     (case v of
        YSeq _ \<Rightarrow> ''list''
      | YBool _ \<Rightarrow> ''boolean''
      | YNumber _ \<Rightarrow> ''number''
      | YString s \<Rightarrow> scalar_value_type s
      | _ \<Rightarrow> ''string'')"

section \<open>Tags and frontmatter links\<close>

definition find_code_like_ranges :: "string \<Rightarrow> byte_range list" where
  "find_code_like_ranges body =
     (let fences = fence_ranges 0 None (split_inclusive body)
      in merge_ranges (sort_key fst (fences @ inline_ranges body fences None 0)))"

definition tag_char :: "string \<Rightarrow> bool" where
  "tag_char c \<longleftrightarrow> length c = 1 \<and> (ascii_alnum (hd c) \<or> hd c \<in> {CHR ''/'', CHR ''_'', CHR ''-''})"

definition tag_letter :: "string \<Rightarrow> bool" where
  "tag_letter c \<longleftrightarrow> length c = 1 \<and> ascii_alnum (hd c) \<and> \<not> is_digit (hd c)"

text \<open>\<open>#(?P<tag>[A-Za-z][A-Za-z0-9/_-]*)\<close>\<close>

definition hash_tag :: "string list \<Rightarrow> (string list \<times> string list) option" where
  "hash_tag cs =
     (case cs of
        h # t # rest \<Rightarrow>
          if h = ''#'' \<and> tag_letter t then Some (t # takeWhile tag_char rest, dropWhile tag_char rest) else None
      | _ \<Rightarrow> None)"

text \<open>The matches of \<open>(?m)(^|[\s(])#(?P<tag>...)\<close> from byte \<open>off\<close> on; \<open>bol\<close> is whether a line starts here.\<close>

function tag_matches :: "nat \<Rightarrow> bool \<Rightarrow> string list \<Rightarrow> (nat \<times> nat \<times> string) list" where
  "tag_matches off bol [] = []"
| "tag_matches off bol (c # cs) =
     (case (if bol then hash_tag (c # cs) else None) of
        Some (tag, rest) \<Rightarrow>
          (let stop = off + 1 + length (concat tag)
           in (off, stop, concat tag) # (if length rest < length (c # cs) then tag_matches stop False rest else []))
      | None \<Rightarrow>
          (case (if is_ws_char c \<or> c = ''('' then hash_tag cs else None) of
             Some (tag, rest) \<Rightarrow>
               (let stop = off + length c + 1 + length (concat tag)
                in (off, stop, concat tag) # (if length rest < length (c # cs) then tag_matches stop False rest else []))
           | None \<Rightarrow> tag_matches (off + length c) (c = [CHR 0x0A]) cs))"
  by pat_completeness auto
termination by (relation "measure (\<lambda>(off, bol, cs). length cs)") auto

definition extract_inline_tags :: "string \<Rightarrow> string list" where
  "extract_inline_tags body =
     (let excluded = find_code_like_ranges body
      in map (\<lambda>(_, _, tag). tag)
           (filter (\<lambda>(start, stop, _). \<not> overlaps_range start stop excluded) (tag_matches 0 True (utf8_chars body))))"

definition wikilink_reference :: "string \<Rightarrow> (string \<times> string option) option" where
  "wikilink_reference raw =
     (let inner = trim raw;
          (target_part, alias) = (case split_once ''|'' inner of Some (t, a) \<Rightarrow> (t, Some (trim a)) | None \<Rightarrow> (inner, None));
          target = trim (case split_once ''#'' target_part of Some (base, _) \<Rightarrow> base | None \<Rightarrow> target_part)
      in if target = [] then None else Some (target, alias))"

fun collect_wikilink_targets :: "yaml \<Rightarrow> (string \<times> string option) list" where
  "collect_wikilink_targets (YString s) =
     List.map_filter (\<lambda>(_, _, raw). wikilink_reference raw) (regex_matches wikilink_match 0 (utf8_chars s))"
| "collect_wikilink_targets (YSeq items) = concat (map collect_wikilink_targets items)"
| "collect_wikilink_targets (YMap m) = concat (map (\<lambda>(_, v). collect_wikilink_targets v) m)"
| "collect_wikilink_targets _ = []"

section \<open>The rows of a note\<close>

definition or_default :: "'a \<Rightarrow> 'a option \<Rightarrow> 'a" where
  "or_default d x = (case x of Some v \<Rightarrow> v | None \<Rightarrow> d)"

record NoteMetadata =
  me_type :: string
  me_title :: string
  me_created :: "string option"
  me_updated :: "string option"

definition extract_note_metadata :: "'d IndexLib \<Rightarrow> Note \<Rightarrow> NoteMetadata" where
  "extract_note_metadata il n =
     (let fm = sn_frontmatter n;
          str = (\<lambda>key. Option.bind fm (\<lambda>f. fm_str f key));
          string_of = (\<lambda>key. Option.bind fm (\<lambda>f. fm_string (il_yaml il) (il_number il) f key))
      in \<lparr>me_type = or_default ''note'' (or_else (str ''type'') (str ''kind'')),
          me_title = (case str ''title'' of
              Some title \<Rightarrow> if trim title \<noteq> [] then title else or_default ''Untitled'' (file_stem (sn_path n))
            | None \<Rightarrow> or_default ''Untitled'' (file_stem (sn_path n))),
          me_created = string_of ''created'', me_updated = string_of ''updated''\<rparr>)"

definition note_row :: "'d IndexLib \<Rightarrow> string \<Rightarrow> Note \<Rightarrow> NoteRow" where
  "note_row il vault n =
     (let meta = extract_note_metadata il n
      in \<lparr>nr_vault = vault, nr_path = sn_path n, nr_title = me_title meta, nr_created = me_created meta,
          nr_updated = me_updated meta, nr_words = length (split_whitespace (sn_body n)), nr_mtime = 0, nr_hash = sn_hash n,
          nr_excerpt = concat (take 500 (utf8_chars (sn_body n)))\<rparr>)"

definition field_row :: "string \<Rightarrow> Note \<Rightarrow> string \<Rightarrow> string \<Rightarrow> string \<Rightarrow> string \<Rightarrow> FieldRow" where
  "field_row vault n key value ty source =
     \<lparr>fr_vault = vault, fr_path = sn_path n, fr_key = key, fr_value = value, fr_type = ty, fr_source = source\<rparr>"

definition value_row :: "string \<Rightarrow> Note \<Rightarrow> string \<Rightarrow> nat \<Rightarrow> string \<Rightarrow> string \<Rightarrow> string \<Rightarrow> FieldValueRow" where
  "value_row vault n key ordinal value ty source =
     \<lparr>fr_vault = vault, fr_path = sn_path n, fr_key = key, fr_value = value, fr_type = ty, fr_source = source,
      fr_ordinal = ordinal\<rparr>"

datatype sql_stmt =
    Begin
  | Commit
  | Rollback
  | Savepoint nat
  | Release nat
  | Rollback_to nat
  | Insert row
  | Insert_or_replace row
  | Insert_or_ignore row
  | Delete_task_fields string string
  | Delete_note_rows cache_table string string
  | Delete_vault_rows cache_table string

definition field_value_statements :: "'d IndexLib \<Rightarrow> string \<Rightarrow> Note \<Rightarrow> string \<Rightarrow> yaml \<Rightarrow> sql_stmt list" where
  "field_value_statements il vault n key value =
     (case value of
        YSeq items \<Rightarrow>
          map (\<lambda>(ordinal, item). Insert (Value_row (value_row vault n key ordinal (yaml_value_to_string il item)
            (yaml_value_type item) ''frontmatter''))) (enumerate 0 items)
      | other \<Rightarrow>
          [Insert (Value_row (value_row vault n key 0 (yaml_value_to_string il other) (yaml_value_type other) ''frontmatter''))])"

definition frontmatter_field_statements :: "'d IndexLib \<Rightarrow> string \<Rightarrow> Note \<Rightarrow> sql_stmt list" where
  "frontmatter_field_statements il vault n =
     (case nt_fields n of
        None \<Rightarrow> []
      | Some flds \<Rightarrow> concat (map (\<lambda>(key, value).
          Insert (Field_row (field_row vault n key (yaml_value_to_string il value) (yaml_value_type value) ''frontmatter'')) #
          field_value_statements il vault n key value) flds))"

definition inline_field_statements :: "string \<Rightarrow> Note \<Rightarrow> sql_stmt list" where
  "inline_field_statements vault n =
     concat (map (\<lambda>f.
       [Insert (Field_row (field_row vault n (if_key f) (if_value f) (scalar_value_type (if_value f)) ''inline'')),
        Insert (Value_row (value_row vault n (if_key f) 0 (if_value f) (scalar_value_type (if_value f)) ''inline''))]) (nt_inline n))"

text \<open>The tags are collected in a hash set; its order is that of \<open>remdups\<close> here.\<close>

definition tag_statements :: "string \<Rightarrow> Note \<Rightarrow> sql_stmt list" where
  "tag_statements vault n =
     map (\<lambda>tag. Insert_or_ignore (Tag_row \<lparr>tr_vault = vault, tr_path = sn_path n, tr_tag = tag\<rparr>))
       (remdups ((case sn_frontmatter n of Some fm \<Rightarrow> fm_tags fm | None \<Rightarrow> []) @ extract_inline_tags (sn_body n)))"

fun link_kind :: "LinkType \<Rightarrow> string" where
  "link_kind WikiLink = ''wikilink''"
| "link_kind Embed = ''embed''"
| "link_kind HeadingRef = ''heading_ref''"
| "link_kind BlockRef = ''block_ref''"
| "link_kind Anchor = ''anchor''"
| "link_kind MarkdownLink = ''markdown_link''"
| "link_kind ExternalLink = ''external_link''"

definition names_note :: "LinkType \<Rightarrow> bool" where
  "names_note ty \<longleftrightarrow> ty \<in> {WikiLink, Embed, HeadingRef, BlockRef}"

definition link_statements :: "string \<Rightarrow> Note \<Rightarrow> sql_stmt list" where
  "link_statements vault n =
     map (\<lambda>l. Insert (Link_row \<lparr>lr_vault = vault, lr_source_path = sn_path n,
         lr_target = (if names_note (lk_type l) then Some (lk_target l) else None), lr_raw = lk_target l, lr_text = lk_text l,
         lr_kind = link_kind (lk_type l), lr_line = Some (po_line (lk_position l)), lr_source = ''body''\<rparr>)) (nt_links n)"

definition frontmatter_link_statements :: "string \<Rightarrow> Note \<Rightarrow> sql_stmt list" where
  "frontmatter_link_statements vault n =
     (case nt_fields n of
        None \<Rightarrow> []
      | Some flds \<Rightarrow>
          map (\<lambda>(target, alias). Insert (Link_row \<lparr>lr_vault = vault, lr_source_path = sn_path n, lr_target = Some target,
             lr_raw = target, lr_text = alias, lr_kind = ''wikilink'', lr_line = None, lr_source = ''frontmatter''\<rparr>))
           (concat (map (\<lambda>(_, v). collect_wikilink_targets v) flds)))"

definition task_id :: "'d IndexLib \<Rightarrow> string \<Rightarrow> Task \<Rightarrow> int" where
  "task_id il path t =
     int (il_blake3 il (path @ '':'' @ show_nat (po_line (tk_position t)) @ '':'' @
       (case tk_hash t of Some h \<Rightarrow> h | None \<Rightarrow> tk_content t))) mod 2 ^ 63"

definition status_group_name :: "Task \<Rightarrow> string" where
  "status_group_name t = (if tk_group t = Open then ''open'' else ''done'')"

definition render_raw_task :: "Task \<Rightarrow> string" where
  "render_raw_task t =
     ''- ['' @ tk_char t @ ''] '' @ tk_content t @
     concat (map (\<lambda>(key, value). '' ['' @ key @ '':: '' @ value @ '']'') (sort_key fst (tk_fields t)))"

definition task_row :: "'d IndexLib \<Rightarrow> string \<Rightarrow> Note \<Rightarrow> Task \<Rightarrow> TaskRow" where
  "task_row il vault n t =
     \<lparr>kr_vault = vault, kr_id = task_id il (sn_path n) t, kr_path = sn_path n, kr_line = po_line (tk_position t),
      kr_text = tk_content t, kr_char = tk_char t, kr_group = status_group_name t, kr_hash = tk_hash t,
      kr_raw = render_raw_task t\<rparr>"

definition task_block :: "'d IndexLib \<Rightarrow> string \<Rightarrow> Note \<Rightarrow> Task \<Rightarrow> sql_stmt list" where
  "task_block il vault n t =
     Insert_or_replace (Task_row (task_row il vault n t)) #
     map (\<lambda>(key, value). Insert_or_replace (Task_field_row
       \<lparr>xr_vault = vault, xr_task = task_id il (sn_path n) t, xr_key = key, xr_value = value\<rparr>)) (tk_fields t)"

definition task_statements :: "'d IndexLib \<Rightarrow> string \<Rightarrow> Note \<Rightarrow> sql_stmt list" where
  "task_statements il vault n = concat (map (task_block il vault n) (nt_tasks n))"

record PeriodicNoteRecord =
  pn_kind :: string
  pn_key :: string
  pn_start :: string
  pn_end :: string

fun periodic_by_stem :: "'d DateLib \<Rightarrow> string \<Rightarrow> string \<Rightarrow> PeriodKind list \<Rightarrow> PeriodicNoteRecord option outcome" where
  "periodic_by_stem dl note_type stem [] = Done None"
| "periodic_by_stem dl note_type stem (kind # kinds) =
     bind_outcome (bounds_for_key dl kind stem) (\<lambda>b.
       if note_type = kind_str kind \<or> b \<noteq> None
       then Done (map_option (\<lambda>(s, e). \<lparr>pn_kind = kind_str kind, pn_key = stem, pn_start = dl_show dl s, pn_end = dl_show dl e\<rparr>) b)
       else periodic_by_stem dl note_type stem kinds)"

definition extract_periodic_note ::
  "'d DateLib \<Rightarrow> string \<Rightarrow> string \<Rightarrow> PeriodicConfig option \<Rightarrow> PeriodicNoteRecord option outcome" where
  "extract_periodic_note dl path note_type config =
     bind_outcome (case config of Some c \<Rightarrow> match_note_path dl c path | None \<Rightarrow> Done None) (\<lambda>found.
       case found of
         Some m \<Rightarrow> Done (Some \<lparr>pn_kind = kind_str (pm_kind m), pn_key = pm_key m, pn_start = dl_show dl (pm_start m),
             pn_end = dl_show dl (pm_end m)\<rparr>)
       | None \<Rightarrow>
           (case strip_suffix ''.md'' (last (split_char CHR ''/'' path)) of
              None \<Rightarrow> Done None
            | Some stem \<Rightarrow> periodic_by_stem dl note_type stem period_kinds))"

definition periodic_statements :: "string \<Rightarrow> Note \<Rightarrow> PeriodicNoteRecord option \<Rightarrow> sql_stmt list" where
  "periodic_statements vault n periodic =
     (case periodic of
        None \<Rightarrow> []
      | Some p \<Rightarrow> [Insert_or_replace (Periodic_row \<lparr>pr_vault = vault, pr_path = sn_path n, pr_kind = pn_kind p, pr_key = pn_key p,
            pr_start = pn_start p, pr_end = pn_end p\<rparr>)])"

definition note_statements :: "'d IndexLib \<Rightarrow> string \<Rightarrow> Note \<Rightarrow> sql_stmt list" where
  "note_statements il vault n =
     Insert_or_replace (Note_row (note_row il vault n)) #
     frontmatter_field_statements il vault n @ inline_field_statements vault n @ tag_statements vault n @
     link_statements vault n @ frontmatter_link_statements vault n @ task_statements il vault n"

section \<open>The database\<close>

text \<open>The rows a connection sees, the rows at the start of an open transaction and those at its savepoints.\<close>

record CacheDb =
  db_rows :: "row list"
  db_base :: "row list option"
  db_points :: "(nat \<times> row list) list"

definition empty_db :: CacheDb where
  "empty_db = \<lparr>db_rows = [], db_base = None, db_points = []\<rparr>"

definition task_ids :: "string \<Rightarrow> string \<Rightarrow> row list \<Rightarrow> int set" where
  "task_ids vault path rows =
     set (List.map_filter (\<lambda>r. case r of
        Task_row k \<Rightarrow> if kr_vault k = vault \<and> kr_path k = path then Some (kr_id k) else None | _ \<Rightarrow> None) rows)"

fun row_effect :: "sql_stmt \<Rightarrow> row list \<Rightarrow> row list" where
  "row_effect (Insert r) rows = rows @ [r]"
| "row_effect (Insert_or_replace r) rows = filter (\<lambda>s. \<not> same_key r s) rows @ [r]"
| "row_effect (Insert_or_ignore r) rows = (if list_ex (same_key r) rows then rows else rows @ [r])"
| "row_effect (Delete_task_fields vault path) rows =
     (let ids = task_ids vault path rows
      in filter (\<lambda>r. case r of Task_field_row x \<Rightarrow> \<not> (xr_vault x = vault \<and> xr_task x \<in> ids) | _ \<Rightarrow> True) rows)"
| "row_effect (Delete_note_rows tb vault path) rows =
     filter (\<lambda>r. \<not> (row_table r = tb \<and> row_vault r = vault \<and> row_note r = Some path)) rows"
| "row_effect (Delete_vault_rows tb vault) rows = filter (\<lambda>r. \<not> (row_table r = tb \<and> row_vault r = vault)) rows"
| "row_effect _ rows = rows"

type_synonym sql_faults = "sql_stmt \<Rightarrow> CacheDb \<Rightarrow> (string \<times> bool) option"

definition roll_back :: "CacheDb \<Rightarrow> CacheDb" where
  "roll_back db =
     (case db_base db of
        None \<Rightarrow> db
      | Some rows \<Rightarrow> db\<lparr>db_rows := rows, db_base := None, db_points := []\<rparr>)"

definition release_points :: "nat \<Rightarrow> (nat \<times> row list) list \<Rightarrow> (nat \<times> row list) list" where
  "release_points i points = tl (dropWhile (\<lambda>p. fst p \<noteq> i) points)"

definition db_exec :: "sql_faults \<Rightarrow> sql_stmt \<Rightarrow> CacheDb \<Rightarrow> (string + unit) \<times> CacheDb" where
  "db_exec fault stmt db =
     (case fault stmt db of
        Some (e, aborted) \<Rightarrow> (Inl e, if aborted then roll_back db else db)
      | None \<Rightarrow>
          (case stmt of
             Begin \<Rightarrow>
               (case db_base db of
                  Some _ \<Rightarrow> (Inl ''cannot start a transaction within a transaction'', db)
                | None \<Rightarrow> (Inr (), db\<lparr>db_base := Some (db_rows db), db_points := []\<rparr>))
           | Commit \<Rightarrow>
               (case db_base db of
                  None \<Rightarrow> (Inl ''cannot commit - no transaction is active'', db)
                | Some _ \<Rightarrow> (Inr (), db\<lparr>db_base := None, db_points := []\<rparr>))
           | Rollback \<Rightarrow>
               (case db_base db of
                  None \<Rightarrow> (Inl ''cannot rollback - no transaction is active'', db)
                | Some _ \<Rightarrow> (Inr (), roll_back db))
           | Savepoint i \<Rightarrow> (Inr (), db\<lparr>db_points := (i, db_rows db) # db_points db\<rparr>)
           | Release i \<Rightarrow>
               (case map_of (db_points db) i of
                  None \<Rightarrow> (Inl ''no such savepoint'', db)
                | Some _ \<Rightarrow> (Inr (), db\<lparr>db_points := release_points i (db_points db)\<rparr>))
           | Rollback_to i \<Rightarrow>
               (case map_of (db_points db) i of
                  None \<Rightarrow> (Inl ''no such savepoint'', db)
                | Some rows \<Rightarrow> (Inr (), db\<lparr>db_rows := rows, db_points := dropWhile (\<lambda>p. fst p \<noteq> i) (db_points db)\<rparr>))
           | _ \<Rightarrow> (Inr (), db\<lparr>db_rows := row_effect stmt (db_rows db)\<rparr>)))"

fun exec_all :: "sql_faults \<Rightarrow> sql_stmt list \<Rightarrow> CacheDb \<Rightarrow> (string + unit) \<times> CacheDb" where
  "exec_all fault [] db = (Inr (), db)"
| "exec_all fault (stmt # stmts) db =
     (case db_exec fault stmt db of
        (Inl e, db1) \<Rightarrow> (Inl e, db1)
      | (Inr _, db1) \<Rightarrow> exec_all fault stmts db1)"

section \<open>The indexer\<close>

definition remove_statements :: "string \<Rightarrow> string \<Rightarrow> sql_stmt list" where
  "remove_statements vault path =
     Delete_task_fields vault path #
     map (\<lambda>tb. Delete_note_rows tb vault path) [Tasks, Fields, Field_values, Tags, Links, Periodic_notes, Notes]"

definition clear_statements :: "string \<Rightarrow> sql_stmt list" where
  "clear_statements vault =
     map (\<lambda>tb. Delete_vault_rows tb vault) [Task_fields, Tasks, Fields, Field_values, Tags, Links, Periodic_notes, Notes]"

definition index_note_inner ::
  "'d IndexLib \<Rightarrow> PeriodicConfig option \<Rightarrow> sql_faults \<Rightarrow> string \<Rightarrow> Note \<Rightarrow> CacheDb \<Rightarrow> ((string + unit) \<times> CacheDb) outcome" where
  "index_note_inner il config fault vault n db =
     (case exec_all fault (note_statements il vault n) db of
        (Inl e, db1) \<Rightarrow> Done (Inl e, db1)
      | (Inr _, db1) \<Rightarrow>
          bind_outcome (extract_periodic_note (il_dates il) (sn_path n) (me_type (extract_note_metadata il n)) config)
            (\<lambda>p. Done (exec_all fault (periodic_statements vault n p) db1)))"

text \<open>The end of a transaction: a failed commit is reported as it is, a failed rollback is ignored.\<close>

definition end_transaction :: "sql_faults \<Rightarrow> (string + unit) \<times> CacheDb \<Rightarrow> (string + unit) \<times> CacheDb" where
  "end_transaction fault res =
     (case res of
        (Inr _, db) \<Rightarrow> db_exec fault Commit db
      | (Inl e, db) \<Rightarrow> (Inl e, snd (db_exec fault Rollback db)))"

definition index_note ::
  "'d IndexLib \<Rightarrow> PeriodicConfig option \<Rightarrow> sql_faults \<Rightarrow> string \<Rightarrow> Note \<Rightarrow> CacheDb \<Rightarrow> ((string + unit) \<times> CacheDb) outcome" where
  "index_note il config fault vault n db =
     (case db_exec fault Begin db of
        (Inl e, db1) \<Rightarrow> Done (Inl e, db1)
      | (Inr _, db1) \<Rightarrow>
          bind_outcome
            (case exec_all fault (remove_statements vault (sn_path n)) db1 of
               (Inl e, db2) \<Rightarrow> Done (Inl e, db2)
             | (Inr _, db2) \<Rightarrow> index_note_inner il config fault vault n db2)
            (\<lambda>res. Done (end_transaction fault res)))"

fun index_notes ::
  "'d IndexLib \<Rightarrow> PeriodicConfig option \<Rightarrow> sql_faults \<Rightarrow> string \<Rightarrow> nat \<Rightarrow> Note list \<Rightarrow> CacheDb \<Rightarrow> ((string + unit) \<times> CacheDb) outcome" where
  "index_notes il config fault vault i [] db = Done (Inr (), db)"
| "index_notes il config fault vault i (n # ns) db =
     (case db_exec fault (Savepoint i) db of
        (Inl e, db1) \<Rightarrow> Done (Inl e, db1)
      | (Inr _, db1) \<Rightarrow>
          bind_outcome (index_note_inner il config fault vault n db1) (\<lambda>(r, db2).
            case exec_all fault (if isl r then [Rollback_to i, Release i] else [Release i]) db2 of
              (Inl e, db3) \<Rightarrow> Done (Inl e, db3)
            | (Inr _, db3) \<Rightarrow> index_notes il config fault vault (Suc i) ns db3))"

definition index_all ::
  "'d IndexLib \<Rightarrow> PeriodicConfig option \<Rightarrow> sql_faults \<Rightarrow> string \<Rightarrow> Note list \<Rightarrow> CacheDb \<Rightarrow> ((string + unit) \<times> CacheDb) outcome" where
  "index_all il config fault vault ns db =
     (case db_exec fault Begin db of
        (Inl e, db1) \<Rightarrow> Done (Inl e, db1)
      | (Inr _, db1) \<Rightarrow>
          bind_outcome
            (case exec_all fault (clear_statements vault) db1 of
               (Inl e, db2) \<Rightarrow> Done (Inl e, db2)
             | (Inr _, db2) \<Rightarrow> index_notes il config fault vault 0 ns db2)
            (\<lambda>res. Done (end_transaction fault res)))"

definition cache_remove_note :: "sql_faults \<Rightarrow> string \<Rightarrow> string \<Rightarrow> CacheDb \<Rightarrow> (string + unit) \<times> CacheDb" where
  "cache_remove_note fault vault path db = exec_all fault (remove_statements vault path) db"

end
