(* ===== verification/CacheSafety.thy ===== *)
theory CacheSafety
  imports CacheIndex
begin

text \<open>
  What the cache keeps whatever the database refuses: no row without the note or the task it belongs to, and the rows
  of an operation all or none.
\<close>

section \<open>Owners\<close>

definition has_note :: "string \<Rightarrow> string \<Rightarrow> row list \<Rightarrow> bool" where
  "has_note vault path rows \<longleftrightarrow>
     list_ex (\<lambda>r. row_table r = Notes \<and> row_vault r = vault \<and> row_note r = Some path) rows"

fun is_task :: "string \<Rightarrow> int \<Rightarrow> row \<Rightarrow> bool" where
  "is_task vault i (Task_row k) \<longleftrightarrow> kr_vault k = vault \<and> kr_id k = i"
| "is_task vault i _ \<longleftrightarrow> False"

definition has_task :: "string \<Rightarrow> int \<Rightarrow> row list \<Rightarrow> bool" where
  "has_task vault i rows \<longleftrightarrow> list_ex (is_task vault i) rows"

fun has_owner :: "row list \<Rightarrow> row \<Rightarrow> bool" where
  "has_owner rows (Task_field_row x) \<longleftrightarrow> has_task (xr_vault x) (xr_task x) rows"
| "has_owner rows r \<longleftrightarrow> has_note (row_vault r) (the (row_note r)) rows"

definition no_orphans :: "row list \<Rightarrow> bool" where
  "no_orphans rows \<longleftrightarrow> list_all (has_owner rows) rows"

lemma has_note_iff: "has_note v p rows \<longleftrightarrow> (\<exists>r \<in> set rows. row_table r = Notes \<and> row_vault r = v \<and> row_note r = Some p)"
  by (simp add: has_note_def list_ex_iff)

lemma has_task_iff: "has_task v i rows \<longleftrightarrow> (\<exists>r \<in> set rows. is_task v i r)"
  by (simp add: has_task_def list_ex_iff)

lemma no_orphans_iff: "no_orphans rows \<longleftrightarrow> (\<forall>r \<in> set rows. has_owner rows r)"
  by (simp add: no_orphans_def list_all_iff)

lemma is_task_row: "is_task v i r \<Longrightarrow> \<exists>k. r = Task_row k \<and> kr_vault k = v \<and> kr_id k = i"
  by (cases r) auto

lemma owner_mono:
  assumes "has_owner rows r"
    and "\<And>v p. has_note v p rows \<Longrightarrow> has_note v p rows'" and "\<And>v i. has_task v i rows \<Longrightarrow> has_task v i rows'"
  shows "has_owner rows' r"
  using assms by (cases r) auto

section \<open>Insertions\<close>

fun inserted :: "sql_stmt \<Rightarrow> row option" where
  "inserted (Insert r) = Some r"
| "inserted (Insert_or_replace r) = Some r"
| "inserted (Insert_or_ignore r) = Some r"
| "inserted _ = None"

lemma same_key_task: "same_key r s \<Longrightarrow> is_task v i s \<Longrightarrow> is_task v i r"
  by (cases s; cases r) auto

lemma same_key_note:
  "same_key r s \<Longrightarrow> row_table s = Notes \<Longrightarrow> row_vault s = v \<Longrightarrow> row_note s = Some p \<Longrightarrow>
   row_table r = Notes \<and> row_vault r = v \<and> row_note r = Some p"
  by (cases s; cases r) auto

lemma inserted_cases:
  assumes "inserted s = Some r"
  shows "row_effect s rows = rows @ [r] \<or> row_effect s rows = filter (\<lambda>s. \<not> same_key r s) rows @ [r] \<or>
    row_effect s rows = rows"
  using assms by (cases s) auto

lemma insert_keeps_note:
  assumes "inserted s = Some r" "has_note v p rows"
  shows "has_note v p (row_effect s rows)"
proof -
  obtain n where n: "n \<in> set rows" "row_table n = Notes" "row_vault n = v" "row_note n = Some p"
    using assms(2) by (auto simp: has_note_iff)
  from inserted_cases [OF assms(1), of rows] show ?thesis
    by (elim disjE) (use n same_key_note [of r n v p] in \<open>auto simp: has_note_iff\<close>)
qed

lemma insert_keeps_task:
  assumes "inserted s = Some r" "has_task v i rows"
  shows "has_task v i (row_effect s rows)"
proof -
  obtain k where k: "k \<in> set rows" "is_task v i k"
    using assms(2) by (auto simp: has_task_iff)
  from inserted_cases [OF assms(1), of rows] show ?thesis
    by (elim disjE) (use k same_key_task [of r k v i] in \<open>auto simp: has_task_iff\<close>)
qed

lemma insert_keeps_owners:
  assumes "inserted s = Some r" "no_orphans rows" "has_owner (row_effect s rows) r"
  shows "no_orphans (row_effect s rows)"
proof -
  have old: "has_owner (row_effect s rows) r'" if "r' \<in> set rows" for r'
    by (rule owner_mono [of rows]) (use assms(2) that insert_keeps_note insert_keeps_task assms(1) in \<open>auto simp: no_orphans_iff\<close>)
  have "set (row_effect s rows) \<subseteq> insert r (set rows)"
    using inserted_cases [OF assms(1), of rows] by auto
  with old assms(3) show ?thesis by (auto simp: no_orphans_iff)
qed

section \<open>The states a list of statements goes through\<close>

fun through :: "(row list \<Rightarrow> bool) \<Rightarrow> sql_stmt list \<Rightarrow> row list \<Rightarrow> bool" where
  "through P [] rows \<longleftrightarrow> P rows"
| "through P (s # ss) rows \<longleftrightarrow> P rows \<and> through P ss (row_effect s rows)"

abbreviation effects :: "sql_stmt list \<Rightarrow> row list \<Rightarrow> row list" where
  "effects ss rows \<equiv> fold row_effect ss rows"

lemma through_append: "through P (a @ b) rows \<longleftrightarrow> through P a rows \<and> through P b (effects a rows)"
  by (induction a arbitrary: rows) (auto, (cases b; auto)+)

lemma through_start: "through P ss rows \<Longrightarrow> P rows"
  by (cases ss) auto

lemma through_end: "through P ss rows \<Longrightarrow> P (effects ss rows)"
  by (induction ss arbitrary: rows) auto

lemma through_take: "through P ss rows \<Longrightarrow> P (effects (take k ss) rows)"
  by (induction ss arbitrary: rows k) (auto simp: take_Cons' through_start)

lemma through_mono: "through P ss rows \<Longrightarrow> (\<And>rows. P rows \<Longrightarrow> Q rows) \<Longrightarrow> through Q ss rows"
  by (induction ss arbitrary: rows) auto

lemma through_invariant:
  assumes "\<And>s rows. s \<in> set ss \<Longrightarrow> P rows \<Longrightarrow> P (row_effect s rows)" "P rows"
  shows "through P ss rows"
  using assms by (induction ss arbitrary: rows) auto

lemma through_concat:
  assumes "\<And>ss rows. ss \<in> set sss \<Longrightarrow> P rows \<Longrightarrow> through P ss rows" "P rows"
  shows "through P (concat sss) rows"
  using assms by (induction sss arbitrary: rows) (auto simp: through_append through_end)

lemma through_Cons2: "P rows \<Longrightarrow> through P ss (row_effect s rows) \<Longrightarrow> through P (s # ss) rows"
  by simp

section \<open>Indexing a note\<close>

abbreviation indexed_state :: "string \<Rightarrow> string \<Rightarrow> row list \<Rightarrow> bool" where
  "indexed_state v p rows \<equiv> no_orphans rows \<and> has_note v p rows"

definition of_note :: "string \<Rightarrow> string \<Rightarrow> sql_stmt \<Rightarrow> bool" where
  "of_note v p s \<longleftrightarrow> (case inserted s of Some r \<Rightarrow> row_vault r = v \<and> row_note r = Some p | None \<Rightarrow> False)"

lemma of_note_keeps:
  assumes "of_note v p s" "indexed_state v p rows"
  shows "indexed_state v p (row_effect s rows)"
proof -
  obtain r where r: "inserted s = Some r" "row_vault r = v" "row_note r = Some p"
    using assms(1) by (auto simp: of_note_def split: option.splits)
  from assms(2) have n: "has_note v p (row_effect s rows)" using insert_keeps_note [OF r(1)] by blast
  moreover have "has_owner (row_effect s rows) r" using n r(2,3) by (cases r) auto
  ultimately show ?thesis using insert_keeps_owners [OF r(1)] assms(2) by blast
qed

lemma of_note_field_values: "s \<in> set (field_value_statements il v n key val) \<Longrightarrow> of_note v (sn_path n) s"
  by (cases val) (auto simp: of_note_def field_value_statements_def value_row_def)

lemma of_note_field_statements:
  "s \<in> set (frontmatter_field_statements il v n) \<Longrightarrow> of_note v (sn_path n) s"
  using of_note_field_values
  by (cases "nt_fields n") (auto simp: frontmatter_field_statements_def of_note_def field_row_def)

lemma of_note_inline_statements:
  "s \<in> set (inline_field_statements v n) \<Longrightarrow> of_note v (sn_path n) s"
  by (auto simp: inline_field_statements_def of_note_def field_row_def value_row_def)

lemma of_note_tag_statements: "s \<in> set (tag_statements v n) \<Longrightarrow> of_note v (sn_path n) s"
  by (auto simp: tag_statements_def of_note_def)

lemma of_note_link_statements:
  "s \<in> set (link_statements v n) \<Longrightarrow> of_note v (sn_path n) s"
  "s \<in> set (frontmatter_link_statements v n) \<Longrightarrow> of_note v (sn_path n) s"
  by (auto simp: link_statements_def frontmatter_link_statements_def of_note_def split: option.splits)

lemma of_note_periodic_statements: "s \<in> set (periodic_statements v n p) \<Longrightarrow> of_note v (sn_path n) s"
  by (auto simp: periodic_statements_def of_note_def split: option.splits)

lemmas of_note_statements = of_note_field_statements of_note_inline_statements of_note_tag_statements
  of_note_link_statements of_note_periodic_statements

lemma task_block_keeps:
  assumes "indexed_state v (sn_path n) rows"
  shows "through (indexed_state v (sn_path n)) (task_block il v n t) rows"
proof -
  let ?p = "sn_path n" and ?i = "task_id il (sn_path n) t"
  let ?row = "Task_row (task_row il v n t)"
  have "of_note v ?p (Insert_or_replace ?row)" by (simp add: of_note_def task_row_def)
  from of_note_keeps [OF this assms]
  have start: "indexed_state v ?p (row_effect (Insert_or_replace ?row) rows) \<and>
      has_task v ?i (row_effect (Insert_or_replace ?row) rows)"
    by (auto simp: has_task_iff task_row_def)
  have step: "indexed_state v ?p (row_effect s rows') \<and> has_task v ?i (row_effect s rows')"
    if s: "s \<in> set (map (\<lambda>(key, value). Insert_or_replace (Task_field_row
       \<lparr>xr_vault = v, xr_task = ?i, xr_key = key, xr_value = value\<rparr>)) (tk_fields t))"
      and I: "indexed_state v ?p rows' \<and> has_task v ?i rows'" for s rows'
  proof -
    from s obtain r where r: "inserted s = Some (Task_field_row r)" "xr_vault r = v" "xr_task r = ?i" by auto
    have k: "has_task v ?i (row_effect s rows')" using insert_keeps_task [OF r(1)] I by blast
    with r insert_keeps_owners [OF r(1)] I insert_keeps_note [OF r(1)] show ?thesis by auto
  qed
  have "through (\<lambda>rows. indexed_state v ?p rows \<and> has_task v ?i rows) (tl (task_block il v n t))
      (row_effect (Insert_or_replace ?row) rows)"
    unfolding task_block_def list.sel by (rule through_invariant) (use step start in blast)+
  then show ?thesis
    using assms unfolding task_block_def list.sel by (auto elim: through_mono)
qed

lemma note_statements_keep:
  assumes "no_orphans rows"
  shows "through no_orphans (note_statements il v n) rows \<and>
    has_note v (sn_path n) (effects (note_statements il v n) rows)"
proof -
  let ?I = "indexed_state v (sn_path n)" and ?row = "Note_row (note_row il v n)"
  have own: "has_note v (sn_path n) (row_effect (Insert_or_replace ?row) rows)"
    by (simp add: has_note_iff note_row_def Let_def)
  have start: "?I (row_effect (Insert_or_replace ?row) rows)"
    using insert_keeps_owners [of "Insert_or_replace ?row", OF _ assms] own by (simp add: note_row_def Let_def)
  have rest: "?I (row_effect s rows')" if "s \<in> set (frontmatter_field_statements il v n @ inline_field_statements v n @
      tag_statements v n @ link_statements v n @ frontmatter_link_statements v n)" "?I rows'" for s rows'
    using that of_note_keeps of_note_statements by (metis Un_iff set_append)
  have flat: "through ?I (frontmatter_field_statements il v n @ inline_field_statements v n @
      tag_statements v n @ link_statements v n @ frontmatter_link_statements v n)
      (row_effect (Insert_or_replace ?row) rows)"
    by (rule through_invariant) (use rest start in blast)+
  have "through ?I ((frontmatter_field_statements il v n @ inline_field_statements v n @
      tag_statements v n @ link_statements v n @ frontmatter_link_statements v n) @ task_statements il v n)
      (row_effect (Insert_or_replace ?row) rows)"
    unfolding task_statements_def
  proof (rule through_append [THEN iffD2], rule conjI [OF flat], rule through_concat)
    fix ss rows' assume "ss \<in> set (map (task_block il v n) (nt_tasks n))" "?I rows'"
    then show "through ?I ss rows'" using task_block_keeps by fastforce
  qed (rule through_end [OF flat])
  then have "through ?I (tl (note_statements il v n)) (row_effect (Insert_or_replace ?row) rows)"
    by (simp add: note_statements_def)
  from through_mono [OF this, of no_orphans] through_end [OF this] show ?thesis
    using assms by (simp add: note_statements_def)
qed

lemma periodic_statements_keep:
  assumes "indexed_state v (sn_path n) rows"
  shows "through no_orphans (periodic_statements v n p) rows"
proof -
  have "through (indexed_state v (sn_path n)) (periodic_statements v n p) rows"
    by (rule through_invariant) (use assms of_note_keeps of_note_periodic_statements in blast)+
  then show ?thesis by (auto elim: through_mono)
qed

section \<open>Removing rows\<close>

lemma no_orphans_filter:
  assumes "no_orphans rows" "\<And>r. r \<in> set rows \<Longrightarrow> keep r \<Longrightarrow> has_owner rows r \<Longrightarrow> has_owner (filter keep rows) r"
  shows "no_orphans (filter keep rows)"
  using assms by (auto simp: no_orphans_iff)

lemma no_orphans_drop_leaves:
  assumes "no_orphans rows" "\<And>r. r \<in> set rows \<Longrightarrow> \<not> keep r \<Longrightarrow> row_table r \<noteq> Notes \<and> row_table r \<noteq> Tasks"
  shows "no_orphans (filter keep rows)"
proof (rule no_orphans_filter [OF assms(1)])
  fix r assume "has_owner rows r"
  then show "has_owner (filter keep rows) r"
  proof (rule owner_mono)
    fix v i assume "has_task v i rows"
    then obtain s where s: "s \<in> set rows" "is_task v i s" by (auto simp: has_task_iff)
    then have "keep s" using assms(2) [of s] by (cases "keep s") (auto dest!: is_task_row)
    with s show "has_task v i (filter keep rows)" by (auto simp: has_task_iff)
  qed (use assms(2) in \<open>auto simp: has_note_iff\<close>)
qed

lemma task_ids_iff:
  "i \<in> task_ids v p rows \<longleftrightarrow> (\<exists>k. Task_row k \<in> set rows \<and> kr_vault k = v \<and> kr_path k = p \<and> kr_id k = i)"
proof -
  have own: "(case r of Task_row k \<Rightarrow> if kr_vault k = v \<and> kr_path k = p then Some (kr_id k) else None | _ \<Rightarrow> None) = Some i \<longleftrightarrow>
      (\<exists>k. r = Task_row k \<and> kr_vault k = v \<and> kr_path k = p \<and> kr_id k = i)" for r
    by (cases r) auto
  have "i \<in> task_ids v p rows \<longleftrightarrow> (\<exists>r \<in> set rows. (case r of
      Task_row k \<Rightarrow> if kr_vault k = v \<and> kr_path k = p then Some (kr_id k) else None | _ \<Rightarrow> None) = Some i)"
    by (auto simp: task_ids_def List.map_filter_def image_iff Bex_def)
  also have "\<dots> \<longleftrightarrow> (\<exists>k. Task_row k \<in> set rows \<and> kr_vault k = v \<and> kr_path k = p \<and> kr_id k = i)"
    unfolding own Bex_def by blast
  finally show ?thesis .
qed

definition cleared :: "cache_table set \<Rightarrow> string \<Rightarrow> string \<Rightarrow> row list \<Rightarrow> bool" where
  "cleared D v p rows \<longleftrightarrow>
     (\<forall>r \<in> set rows. row_vault r = v \<and> row_note r = Some p \<longrightarrow> row_table r \<notin> D) \<and>
     (\<forall>x. Task_field_row x \<in> set rows \<and> xr_vault x = v \<longrightarrow> xr_task x \<notin> task_ids v p rows)"

lemma cleared_task_fields:
  assumes "no_orphans rows"
  shows "no_orphans (row_effect (Delete_task_fields v p) rows) \<and> cleared {} v p (row_effect (Delete_task_fields v p) rows)"
proof
  show "no_orphans (row_effect (Delete_task_fields v p) rows)"
    unfolding row_effect.simps Let_def by (rule no_orphans_drop_leaves [OF assms]) (auto split: row.splits)
qed (auto simp: cleared_def Let_def task_ids_iff split: row.splits)

definition note_tables :: "cache_table set" where
  "note_tables = {Tasks, Fields, Field_values, Tags, Links, Periodic_notes}"

lemma row_tables: "row_table r = Notes \<or> row_table r = Task_fields \<or> row_table r \<in> note_tables"
  by (cases r) (auto simp: note_tables_def)

lemma task_field_table: "row_table r = Task_fields \<Longrightarrow> \<exists>x. r = Task_field_row x"
  by (cases r) auto

lemma task_table: "row_table r = Tasks \<Longrightarrow> \<exists>k. r = Task_row k"
  by (cases r) auto

lemma no_orphans_delete:
  assumes "no_orphans rows"
    and tasks: "\<And>x k. Task_field_row x \<in> set rows \<Longrightarrow> keep (Task_field_row x) \<Longrightarrow> Task_row k \<in> set rows \<Longrightarrow>
      kr_vault k = xr_vault x \<Longrightarrow> kr_id k = xr_task x \<Longrightarrow> keep (Task_row k)"
    and owners: "\<And>r n. r \<in> set rows \<Longrightarrow> keep r \<Longrightarrow> n \<in> set rows \<Longrightarrow> row_table n = Notes \<Longrightarrow>
      row_vault n = row_vault r \<Longrightarrow> row_note n = row_note r \<Longrightarrow> row_note r \<noteq> None \<Longrightarrow> keep n"
  shows "no_orphans (filter keep rows)"
proof (rule no_orphans_filter [OF assms(1)])
  fix r assume r: "r \<in> set rows" "keep r" "has_owner rows r"
  show "has_owner (filter keep rows) r"
  proof (cases "row_note r")
    case None
    then obtain x where x: "r = Task_field_row x" by (cases r) auto
    with r obtain k where "k \<in> set rows" "is_task (xr_vault x) (xr_task x) k" by (auto simp: has_task_iff)
    with tasks [of x] r x show ?thesis by (auto simp: has_task_iff dest!: is_task_row)
  next
    case (Some p)
    with r(3) have "has_note (row_vault r) p rows" by (cases r) auto
    then obtain n where "n \<in> set rows" "row_table n = Notes" "row_vault n = row_vault r" "row_note n = Some p"
      by (auto simp: has_note_iff)
    with owners [of r n] r(1,2) Some have "has_note (row_vault r) p (filter keep rows)" by (auto simp: has_note_iff)
    with Some show ?thesis by (cases r) auto
  qed
qed

lemma cleared_note_rows:
  assumes "no_orphans rows" "cleared D v p rows" "tb = Notes \<Longrightarrow> note_tables \<subseteq> D"
  shows "no_orphans (row_effect (Delete_note_rows tb v p) rows) \<and>
    cleared (insert tb D) v p (row_effect (Delete_note_rows tb v p) rows)"
proof
  show "no_orphans (row_effect (Delete_note_rows tb v p) rows)"
    unfolding row_effect.simps
  proof (rule no_orphans_delete [OF assms(1)])
    fix x k assume "Task_field_row x \<in> set rows" "Task_row k \<in> set rows" "kr_vault k = xr_vault x" "kr_id k = xr_task x"
    with assms(2) show "\<not> (row_table (Task_row k) = tb \<and> row_vault (Task_row k) = v \<and> row_note (Task_row k) = Some p)"
      by (auto simp: cleared_def task_ids_iff)
  next
    fix r n
    assume r: "r \<in> set rows" "\<not> (row_table r = tb \<and> row_vault r = v \<and> row_note r = Some p)" "row_table n = Notes"
      "row_vault n = row_vault r" "row_note n = row_note r" "row_note r \<noteq> None"
    show "\<not> (row_table n = tb \<and> row_vault n = v \<and> row_note n = Some p)"
    proof
      assume n: "row_table n = tb \<and> row_vault n = v \<and> row_note n = Some p"
      with r have "row_table r \<noteq> Notes" "row_vault r = v" "row_note r = Some p" "tb = Notes" by auto
      moreover have "row_table r \<noteq> Task_fields" using r(6) by (auto dest!: task_field_table)
      ultimately show False using assms(2,3) r(1) row_tables [of r] by (auto simp: cleared_def)
    qed
  qed
  show "cleared (insert tb D) v p (row_effect (Delete_note_rows tb v p) rows)"
    using assms(2) by (auto simp: cleared_def task_ids_iff)
qed

lemma remove_statements_keep:
  assumes "no_orphans rows"
  shows "through no_orphans (remove_statements v p) rows"
proof -
  note 0 = cleared_task_fields [OF assms, of v p]
  note step = cleared_note_rows [where v = v and p = p, OF conjunct1 conjunct2]
  note 1 = step [OF 0 0, of Tasks]
  note 2 = step [OF 1 1, of Fields]
  note 3 = step [OF 2 2, of Field_values]
  note 4 = step [OF 3 3, of Tags]
  note 5 = step [OF 4 4, of Links]
  note 6 = step [OF 5 5, of Periodic_notes]
  note 7 = step [OF 6 6, of Notes]
  show ?thesis
    using assms 0 1 2 3 4 5 6 7 by (simp add: remove_statements_def note_tables_def del: row_effect.simps)
qed

definition vault_cleared :: "cache_table set \<Rightarrow> string \<Rightarrow> row list \<Rightarrow> bool" where
  "vault_cleared D v rows \<longleftrightarrow> (\<forall>r \<in> set rows. row_vault r = v \<longrightarrow> row_table r \<notin> D)"

lemma cleared_vault_rows:
  assumes "no_orphans rows" "vault_cleared D v rows"
    and "tb = Tasks \<Longrightarrow> Task_fields \<in> D" "tb = Notes \<Longrightarrow> note_tables \<subseteq> D"
  shows "no_orphans (row_effect (Delete_vault_rows tb v) rows) \<and>
    vault_cleared (insert tb D) v (row_effect (Delete_vault_rows tb v) rows)"
proof
  show "no_orphans (row_effect (Delete_vault_rows tb v) rows)"
    unfolding row_effect.simps
  proof (rule no_orphans_delete [OF assms(1)])
    fix x and k :: TaskRow assume "Task_field_row x \<in> set rows" "kr_vault k = xr_vault x"
    with assms(2,3) show "\<not> (row_table (Task_row k) = tb \<and> row_vault (Task_row k) = v)"
      by (force simp: vault_cleared_def)
  next
    fix r n
    assume r: "r \<in> set rows" "\<not> (row_table r = tb \<and> row_vault r = v)" "row_table n = Notes"
      "row_vault n = row_vault r" "row_note r \<noteq> None"
    show "\<not> (row_table n = tb \<and> row_vault n = v)"
    proof
      assume n: "row_table n = tb \<and> row_vault n = v"
      with r have "row_table r \<noteq> Notes" "row_vault r = v" "tb = Notes" by auto
      moreover have "row_table r \<noteq> Task_fields" using r(5) by (auto dest!: task_field_table)
      ultimately show False using assms(2,4) r(1) row_tables [of r] by (auto simp: vault_cleared_def)
    qed
  qed
  show "vault_cleared (insert tb D) v (row_effect (Delete_vault_rows tb v) rows)"
    using assms(2) by (auto simp: vault_cleared_def)
qed

lemma clear_statements_keep:
  assumes "no_orphans rows"
  shows "through no_orphans (clear_statements v) rows"
proof -
  note step = cleared_vault_rows [where v = v, OF conjunct1 conjunct2]
  have start: "no_orphans rows \<and> vault_cleared {} v rows" using assms by (simp add: vault_cleared_def)
  note 0 = step [OF start start, of Task_fields]
  note 1 = step [OF 0 0, of Tasks]
  note 2 = step [OF 1 1, of Fields]
  note 3 = step [OF 2 2, of Field_values]
  note 4 = step [OF 3 3, of Tags]
  note 5 = step [OF 4 4, of Links]
  note 6 = step [OF 5 5, of Periodic_notes]
  note 7 = step [OF 6 6, of Notes]
  show ?thesis
    using assms 0 1 2 3 4 5 6 7 by (simp add: clear_statements_def note_tables_def del: row_effect.simps)
qed

section \<open>Executions\<close>

fun row_stmt :: "sql_stmt \<Rightarrow> bool" where
  "row_stmt Begin \<longleftrightarrow> False"
| "row_stmt Commit \<longleftrightarrow> False"
| "row_stmt Rollback \<longleftrightarrow> False"
| "row_stmt (Savepoint _) \<longleftrightarrow> False"
| "row_stmt (Release _) \<longleftrightarrow> False"
| "row_stmt (Rollback_to _) \<longleftrightarrow> False"
| "row_stmt _ \<longleftrightarrow> True"

lemma db_exec_row:
  "row_stmt s \<Longrightarrow> db_exec fault s db =
     (case fault s db of
        Some (e, aborted) \<Rightarrow> (Inl e, if aborted then roll_back db else db)
      | None \<Rightarrow> (Inr (), db\<lparr>db_rows := row_effect s (db_rows db)\<rparr>))"
  by (cases s) (simp_all add: db_exec_def split: option.splits)

text \<open>The state after the first rows of a list of statements, kept or rolled back.\<close>

definition ran :: "sql_stmt list \<Rightarrow> nat \<Rightarrow> CacheDb \<Rightarrow> CacheDb" where
  "ran ss k db = db\<lparr>db_rows := effects (take k ss) (db_rows db)\<rparr>"

lemma ran_simps [simp]:
  "db_rows (ran ss k db) = effects (take k ss) (db_rows db)"
  "db_base (ran ss k db) = db_base db"
  "db_points (ran ss k db) = db_points db"
  by (simp_all add: ran_def)

lemma exec_rows:
  assumes "list_all row_stmt ss" "exec_all fault ss db = (r, db')"
  shows "(\<not> isl r \<and> db' = ran ss (length ss) db) \<or>
    (isl r \<and> (\<exists>k. db' = ran ss k db \<or> db' = roll_back (ran ss k db)))"
  using assms
proof (induction ss arbitrary: db)
  case Nil
  then show ?case by (auto simp: ran_def)
next
  case (Cons s ss)
  show ?case
  proof (cases "fault s db")
    case None
    let ?db = "db\<lparr>db_rows := row_effect s (db_rows db)\<rparr>"
    have ran: "ran ss k ?db = ran (s # ss) (Suc k) db" for k by (simp add: ran_def)
    from Cons.prems None have "list_all row_stmt ss" "exec_all fault ss ?db = (r, db')"
      by (simp_all add: db_exec_row)
    from Cons.IH [OF this, unfolded ran] show ?thesis by auto
  next
    case (Some f)
    have "ran (s # ss) 0 db = db" by (simp add: ran_def)
    moreover from Some Cons.prems have "isl r" "db' = db \<or> db' = roll_back db"
      by (cases f; auto simp: db_exec_row split: if_splits)+
    ultimately show ?thesis by metis
  qed
qed

lemma row_stmt_inserted: "inserted s = Some r \<Longrightarrow> row_stmt s"
  by (cases s) auto

lemma row_stmt_of_note: "of_note v p s \<Longrightarrow> row_stmt s"
  by (auto simp: of_note_def row_stmt_inserted split: option.splits)

lemma row_stmt_note_statements: "list_all row_stmt (note_statements il v n)"
proof -
  have "row_stmt s" if "s \<in> set (task_block il v n t)" for s t
    using that by (auto simp: task_block_def)
  then show ?thesis
    by (auto simp: note_statements_def list_all_iff task_statements_def
        dest: of_note_statements [THEN row_stmt_of_note])
qed

lemma row_stmt_periodic_statements: "list_all row_stmt (periodic_statements v n p)"
  by (auto simp: list_all_iff dest: of_note_statements [THEN row_stmt_of_note])

lemma row_stmt_removals: "list_all row_stmt (remove_statements v p)" "list_all row_stmt (clear_statements v)"
  by (simp_all add: remove_statements_def clear_statements_def)

text \<open>A property of the rows a connection sees, of those of its transaction and of those of its savepoints.\<close>

definition db_holds :: "(row list \<Rightarrow> bool) \<Rightarrow> CacheDb \<Rightarrow> bool" where
  "db_holds P db \<longleftrightarrow> P (db_rows db) \<and> (case db_base db of Some rows \<Rightarrow> P rows | None \<Rightarrow> True) \<and> list_all (\<lambda>(_, rows). P rows) (db_points db)"

lemma db_holds_rows: "db_holds P db \<Longrightarrow> P (db_rows db)"
  by (simp add: db_holds_def)

lemma db_holds_roll_back: "db_holds P db \<Longrightarrow> db_holds P (roll_back db)"
  by (auto simp: db_holds_def roll_back_def split: option.splits)

lemma db_holds_ran: "db_holds P db \<Longrightarrow> through P ss (db_rows db) \<Longrightarrow> db_holds P (ran ss k db)"
  by (simp add: db_holds_def through_take)

lemma exec_rows_hold:
  assumes "db_holds P db" "list_all row_stmt ss" "through P ss (db_rows db)" "exec_all fault ss db = (r, db')"
  shows "db_holds P db'"
  using exec_rows [OF assms(2,4)] db_holds_ran [OF assms(1,3)] by (auto intro: db_holds_roll_back)

lemma exec_rows_done:
  assumes "list_all row_stmt ss" "exec_all fault ss db = (Inr u, db')"
  shows "db' = db\<lparr>db_rows := effects ss (db_rows db)\<rparr>"
  using exec_rows [OF assms] by (simp add: ran_def)

lemma points_hold: "list_all (\<lambda>(_, rows). P rows) points \<Longrightarrow> map_of points i = Some rows \<Longrightarrow> P rows"
  by (auto simp: list_all_iff dest: map_of_SomeD)

lemma drop_points_hold: "list_all Q points \<Longrightarrow> list_all Q (dropWhile R points)"
  "list_all Q points \<Longrightarrow> list_all Q (tl (dropWhile R points))"
  by (induction points) auto

lemma exec_transaction_holds:
  assumes "db_holds P db" "\<not> row_stmt s" "db_exec fault s db = (r, db')"
  shows "db_holds P db'"
proof (cases "fault s db")
  case None
  with assms show ?thesis
    by (cases s) (auto simp: db_exec_def db_holds_def roll_back_def release_points_def split: option.splits
        dest: points_hold intro: drop_points_hold)
next
  case (Some f)
  with assms show ?thesis by (cases f) (auto simp: db_exec_def db_holds_roll_back split: if_splits)
qed

section \<open>What every operation keeps\<close>

text \<open>A property of the rows that the statements of a vault keep, whenever they stop.\<close>

locale row_invariant =
  fixes il :: "'d IndexLib" and v :: string and P :: "row list \<Rightarrow> bool"
  assumes remove_keeps: "P rows \<Longrightarrow> through P (remove_statements v p) rows"
    and clear_keeps: "P rows \<Longrightarrow> through P (clear_statements v) rows"
    and note_keeps: "P rows \<Longrightarrow> through P (note_statements il v n @ periodic_statements v n q) rows"
begin

lemma inner_keeps:
  assumes "db_holds P db" "index_note_inner il config fault v n db = Done (r, db')"
  shows "db_holds P db'"
proof -
  let ?notes = "note_statements il v n"
  have through: "through P ?notes (db_rows db)" "through P (periodic_statements v n q) (effects ?notes (db_rows db))" for q
    using note_keeps [OF db_holds_rows [OF assms(1)]] by (simp_all add: through_append)
  obtain r1 db1 where 1: "exec_all fault ?notes db = (r1, db1)" by fastforce
  note holds1 = exec_rows_hold [OF assms(1) row_stmt_note_statements through(1) 1]
  show ?thesis
  proof (cases r1)
    case (Inl e)
    with 1 assms(2) holds1 show ?thesis by (simp add: index_note_inner_def)
  next
    case (Inr u)
    with 1 assms(2) obtain q where "exec_all fault (periodic_statements v n q) db1 = (r, db')"
      by (cases "extract_periodic_note (il_dates il) (sn_path n) (me_type (extract_note_metadata il n)) config") (auto simp: index_note_inner_def)
    from exec_rows_hold [OF holds1 row_stmt_periodic_statements _ this]
    show ?thesis using exec_rows_done [OF row_stmt_note_statements 1 [unfolded Inr]] through(2) by simp
  qed
qed

lemma points_keep:
  assumes "db_holds P db" "exec_all fault ss db = (r, db')" "list_all (\<lambda>s. \<not> row_stmt s) ss"
  shows "db_holds P db'"
  using assms
  by (induction ss arbitrary: db) (auto split: sum.splits prod.splits dest: exec_transaction_holds)

lemma notes_keep:
  assumes "db_holds P db" "index_notes il config fault v i ns db = Done (r, db')"
  shows "db_holds P db'"
  using assms
proof (induction ns arbitrary: i db)
  case (Cons n ns)
  obtain r1 db1 where 1: "db_exec fault (Savepoint i) db = (r1, db1)" by fastforce
  with exec_transaction_holds [OF Cons.prems(1)] have h1: "db_holds P db1" by force
  show ?case
  proof (cases r1)
    case (Inr u)
    with 1 Cons.prems(2) obtain r2 db2 where 2: "index_note_inner il config fault v n db1 = Done (r2, db2)"
      by (auto simp: bind_outcome_Done)
    let ?fin = "if isl r2 then [Rollback_to i, Release i] else [Release i]"
    obtain r3 db3 where 3: "exec_all fault ?fin db2 = (r3, db3)" by fastforce
    have h3: "db_holds P db3" using points_keep [OF inner_keeps [OF h1 2] 3] by simp
    with 1 2 3 Inr Cons.prems(2) Cons.IH [of db3 "Suc i"] show ?thesis by (auto split: sum.splits)
  qed (use 1 h1 Cons.prems(2) in simp)
qed simp

lemma end_keeps: "db_holds P db \<Longrightarrow> db_holds P (snd (end_transaction fault (r, db)))"
  using exec_transaction_holds [where s = Commit and P = P, OF _ _ surjective_pairing]
    exec_transaction_holds [where s = Rollback and P = P, OF _ _ surjective_pairing]
  by (cases r) (simp_all add: end_transaction_def)

lemma index_note_keeps:
  assumes "db_holds P db" "index_note il config fault v n db = Done (r, db')"
  shows "db_holds P db'"
proof -
  obtain r1 db1 where 1: "db_exec fault Begin db = (r1, db1)" by fastforce
  with exec_transaction_holds [OF assms(1)] have h1: "db_holds P db1" by force
  show ?thesis
  proof (cases r1)
    case (Inr u)
    obtain r2 db2 where 2: "exec_all fault (remove_statements v (sn_path n)) db1 = (r2, db2)" by fastforce
    from exec_rows_hold [OF h1 row_stmt_removals(1) remove_keeps [OF db_holds_rows [OF h1]] 2]
    have h2: "db_holds P db2" .
    show ?thesis
      using 1 2 Inr assms(2) end_keeps [OF h2, of fault r2] end_keeps [OF inner_keeps [OF h2]]
      by (auto simp: index_note_def bind_outcome_Done split: sum.splits) (metis snd_conv)+
  qed (use 1 h1 assms(2) in \<open>simp add: index_note_def\<close>)
qed

lemma index_all_keeps:
  assumes "db_holds P db" "index_all il config fault v ns db = Done (r, db')"
  shows "db_holds P db'"
proof -
  obtain r1 db1 where 1: "db_exec fault Begin db = (r1, db1)" by fastforce
  with exec_transaction_holds [OF assms(1)] have h1: "db_holds P db1" by force
  show ?thesis
  proof (cases r1)
    case (Inr u)
    obtain r2 db2 where 2: "exec_all fault (clear_statements v) db1 = (r2, db2)" by fastforce
    from exec_rows_hold [OF h1 row_stmt_removals(2) clear_keeps [OF db_holds_rows [OF h1]] 2]
    have h2: "db_holds P db2" .
    show ?thesis
      using 1 2 Inr assms(2) end_keeps [OF h2, of fault r2] end_keeps [OF notes_keep [OF h2]]
      by (auto simp: index_all_def bind_outcome_Done split: sum.splits) (metis snd_conv)+
  qed (use 1 h1 assms(2) in \<open>simp add: index_all_def\<close>)
qed

lemma remove_note_keeps:
  assumes "db_holds P db" "cache_remove_note fault v p db = (r, db')"
  shows "db_holds P db'"
  using exec_rows_hold [OF assms(1) row_stmt_removals(1) remove_keeps [OF db_holds_rows [OF assms(1)]]] assms(2)
  by (simp add: cache_remove_note_def)

end

interpretation owned: row_invariant il v no_orphans for il v
proof
  fix rows n q assume "no_orphans rows"
  from note_statements_keep [OF this, of il v n]
  show "through no_orphans (note_statements il v n @ periodic_statements v n q) rows"
    by (auto simp: through_append through_end intro: periodic_statements_keep)
qed (simp_all add: remove_statements_keep clear_statements_keep)

lemma same_key_vault: "same_key r s \<Longrightarrow> row_vault r = row_vault s"
  by (cases s; cases r) auto

abbreviation foreign_rows :: "string \<Rightarrow> row list \<Rightarrow> row list" where
  "foreign_rows v rows \<equiv> filter (\<lambda>r. row_vault r \<noteq> v) rows"

text \<open>The statements that touch the rows of one vault only.\<close>

fun stmt_vault :: "sql_stmt \<Rightarrow> string option" where
  "stmt_vault (Insert r) = Some (row_vault r)"
| "stmt_vault (Insert_or_replace r) = Some (row_vault r)"
| "stmt_vault (Insert_or_ignore r) = Some (row_vault r)"
| "stmt_vault (Delete_task_fields v p) = Some v"
| "stmt_vault (Delete_note_rows tb v p) = Some v"
| "stmt_vault (Delete_vault_rows tb v) = Some v"
| "stmt_vault _ = None"

lemma filter_imp_filter: "(\<And>r. r \<in> set rows \<Longrightarrow> P r \<Longrightarrow> Q r) \<Longrightarrow> filter P (filter Q rows) = filter P rows"
  by (induction rows) auto

lemma foreign_effect: "stmt_vault s = Some v \<Longrightarrow> foreign_rows v (row_effect s rows) = foreign_rows v rows"
proof (cases s)
  case (Insert_or_replace r)
  moreover assume "stmt_vault s = Some v"
  moreover have "\<not> same_key r r'" if "row_vault r' \<noteq> row_vault r" for r' using that same_key_vault by metis
  ultimately show ?thesis by (auto simp del: filter_filter intro: filter_imp_filter)
next
  case (Delete_task_fields w p)
  moreover assume "stmt_vault s = Some v"
  ultimately show ?thesis
    by (auto simp: Let_def simp del: filter_filter intro!: filter_imp_filter split: row.splits)
qed (auto simp del: filter_filter intro: filter_imp_filter)

lemma foreign_statements:
  assumes "list_all (\<lambda>s. stmt_vault s = Some v) ss" "foreign_rows v rows = others"
  shows "through (\<lambda>rows. foreign_rows v rows = others) ss rows"
  by (rule through_invariant) (use assms foreign_effect in \<open>auto simp: list_all_iff\<close>)

lemma of_note_vault: "of_note v p s \<Longrightarrow> stmt_vault s = Some v"
  by (cases s) (auto simp: of_note_def)

lemma stmt_vault_note: "list_all (\<lambda>s. stmt_vault s = Some v) (note_statements il v n @ periodic_statements v n q)"
proof -
  have "stmt_vault s = Some v" if "s \<in> set (task_block il v n t)" for s t
    using that by (auto simp: task_block_def task_row_def)
  then show ?thesis
    by (auto simp: note_statements_def list_all_iff task_statements_def note_row_def Let_def
        dest: of_note_statements [THEN of_note_vault])
qed

interpretation foreign: row_invariant il v "\<lambda>rows. foreign_rows v rows = others" for il v others
proof
  fix rows n q p assume "foreign_rows v rows = others"
  note keeps = foreign_statements [OF _ this]
  show "through (\<lambda>rows. foreign_rows v rows = others) (note_statements il v n @ periodic_statements v n q) rows"
    by (rule keeps [OF stmt_vault_note])
  show "through (\<lambda>rows. foreign_rows v rows = others) (remove_statements v p) rows"
    "through (\<lambda>rows. foreign_rows v rows = others) (clear_statements v) rows"
    by (rule keeps; simp add: remove_statements_def clear_statements_def)+
qed

section \<open>Transactions\<close>















text \<open>A transaction that a failed commit left open makes every later indexing fail.\<close>

lemma open_transaction_blocks:
  assumes "db_base db = Some base" "\<And>db. fault Begin db = None"
  shows "index_note il config fault v n db = Done (Inl ''cannot start a transaction within a transaction'', db)"
    and "index_all il config fault v ns db = Done (Inl ''cannot start a transaction within a transaction'', db)"
  using assms by (simp_all add: index_note_def index_all_def db_exec_def)

lemma commit_failure_stays_open:
  assumes "db_base db = Some base" "fault Commit db = Some (e, False)"
  shows "end_transaction fault (Inr (), db) = (Inl e, db)"
  using assms by (simp add: end_transaction_def db_exec_def)

section \<open>The cache over time\<close>

text \<open>The operations of \<open>VaultCache\<close> on a vault and, in the last rule, the end of the process or the closing of the
  connection, which drops what was not committed.\<close>

inductive cache_step :: "'d IndexLib \<Rightarrow> string \<Rightarrow> CacheDb \<Rightarrow> CacheDb \<Rightarrow> bool" for il v db db' where
  Updated: "index_note il config fault v n db = Done (r, db') \<Longrightarrow> cache_step il v db db'"
| Rebuilt: "index_all il config fault v ns db = Done (r, db') \<Longrightarrow> cache_step il v db db'"
| Removed: "cache_remove_note fault v p db = (r, db') \<Longrightarrow> cache_step il v db db'"
| Reopened: "db' = roll_back db \<Longrightarrow> cache_step il v db db'"

inductive_cases cache_stepE: "cache_step il v db db'"

inductive cache_reachable :: "'d IndexLib \<Rightarrow> CacheDb \<Rightarrow> bool" for il where
  Start: "cache_reachable il empty_db"
| Step: "cache_reachable il db \<Longrightarrow> cache_step il v db db' \<Longrightarrow> cache_reachable il db'"

context row_invariant
begin

lemma step_keeps:
  assumes "cache_step il v db db'" "db_holds P db"
  shows "db_holds P db'"
  using assms(1)
  by (elim cache_stepE) (use assms(2) index_note_keeps index_all_keeps remove_note_keeps db_holds_roll_back in blast)+

end

section \<open>Properties\<close>

text \<open>C6: Whatever sequence of updates, rebuilds, removals and restarts a cache goes through, and whichever of their
  statements the database refuses, every row it holds belongs to a note row of the same vault, and every task field to
  a task row.\<close>

theorem cache_has_no_orphans:
  assumes "cache_reachable il db"
  shows "no_orphans (db_rows db)"
proof -
  from assms have "db_holds no_orphans db"
  proof induction
    case Start
    then show ?case by (simp add: empty_db_def db_holds_def no_orphans_def)
  next
    case (Step db v db')
    then show ?case using owned.step_keeps by blast
  qed
  then show ?thesis by (rule db_holds_rows)
qed

text \<open>An operation on one vault leaves the rows of every other vault of the cache as they were.\<close>

lemma other_vaults_kept:
  assumes "cache_step il v db db'" "db_base db = None" "db_points db = []"
  shows "filter (\<lambda>r. row_vault r \<noteq> v) (db_rows db') = filter (\<lambda>r. row_vault r \<noteq> v) (db_rows db)"
proof -
  have "db_holds (\<lambda>rows. foreign_rows v rows = foreign_rows v (db_rows db)) db"
    using assms(2,3) by (simp add: db_holds_def)
  from db_holds_rows [OF foreign.step_keeps [OF assms(1) this]] show ?thesis .
qed


section \<open>Witnesses\<close>

text \<open>A note with a tag and a task with a field, and the cache that holds it.\<close>

definition demo_index :: "nat IndexLib" where
  "demo_index = \<lparr>il_number = (\<lambda>n. ''1''), il_yaml = (\<lambda>y. None), il_blake3 = length,
     il_dates = \<lparr>dl_ymd = (\<lambda>y m d. None), dl_isoywd = (\<lambda>y w. None), dl_parse = (\<lambda>s. None), dl_year = (\<lambda>d. 2026),
       dl_month = (\<lambda>d. d), dl_weekday = (\<lambda>d. 0), dl_plus = (\<lambda>d i. Some d), dl_format = (\<lambda>f d. f), dl_show = (\<lambda>d. []),
       dl_checks = False\<rparr>\<rparr>"

definition demo_note :: Note where
  "demo_note =
     \<lparr>sn_path = ''a.md'', sn_frontmatter = None, sn_raw_frontmatter = None, sn_body = ''#t'', sn_hash = ''h'',
      nt_fields = None, nt_links = [], nt_inline = [],
      nt_tasks = [\<lparr>tk_char = '' '', tk_group = Open, tk_content = ''x'',
        tk_position = \<lparr>po_line = 1, po_column = 1, po_offset = 0, po_length = 7\<rparr>, tk_fields = [(''due'', ''d'')], tk_hash = None\<rparr>],
      nt_blocks = []\<rparr>"

definition demo_db :: CacheDb where
  "demo_db =
     \<lparr>db_rows =
        [Note_row \<lparr>nr_vault = ''v'', nr_path = ''a.md'', nr_title = ''a'', nr_created = None, nr_updated = None, nr_words = 1,
           nr_mtime = 0, nr_hash = ''h'', nr_excerpt = ''#t''\<rparr>,
         Tag_row \<lparr>tr_vault = ''v'', tr_path = ''a.md'', tr_tag = ''t''\<rparr>,
         Task_row \<lparr>kr_vault = ''v'', kr_id = 8, kr_path = ''a.md'', kr_line = 1, kr_text = ''x'', kr_char = '' '',
           kr_group = ''open'', kr_hash = None, kr_raw = ''- [ ] x [due:: d]''\<rparr>,
         Task_field_row \<lparr>xr_vault = ''v'', xr_task = 8, xr_key = ''due'', xr_value = ''d''\<rparr>],
      db_base = None, db_points = []\<rparr>"

definition refuse_tags :: sql_faults where
  "refuse_tags s db =
     (case s of Delete_note_rows tb v p \<Rightarrow> if tb = Tags then Some (''disk I/O error'', False) else None | _ \<Rightarrow> None)"

lemma demo_indexed: "index_note demo_index None (\<lambda>s db. None) ''v'' demo_note empty_db = Done (Inr (), demo_db)"
  by code_simp

lemma demo_db_state: "map row_table (db_rows demo_db) = [Notes, Tags, Tasks, Task_fields]" "db_base demo_db = None"
  "db_points demo_db = []"
  by code_simp+

lemma cache_has_no_orphans_witness:
  "\<exists>db. cache_remove_note refuse_tags ''v'' ''a.md'' demo_db = (Inl ''disk I/O error'', db) \<and>
     map row_table (db_rows db) = [Notes, Tags] \<and> no_orphans (db_rows db)"
proof -
  let ?run = "cache_remove_note refuse_tags ''v'' ''a.md'' demo_db"
  have "fst ?run = Inl ''disk I/O error''" "map row_table (db_rows (snd ?run)) = [Notes, Tags]" by code_simp+
  moreover obtain r db where run: "?run = (r, db)" by fastforce
  moreover have "cache_reachable demo_index db"
    using Step [OF Step [OF Start Updated [OF demo_indexed]] Removed [OF run]] .
  ultimately show ?thesis using cache_has_no_orphans [of demo_index db] by auto
qed

lemma other_vaults_kept_witness:
  "\<exists>db. cache_remove_note refuse_tags ''w'' ''a.md'' demo_db = (Inl ''disk I/O error'', db) \<and>
     filter (\<lambda>r. row_vault r \<noteq> ''w'') (db_rows db) = filter (\<lambda>r. row_vault r \<noteq> ''w'') (db_rows demo_db)"
proof -
  let ?run = "cache_remove_note refuse_tags ''w'' ''a.md'' demo_db"
  have "fst ?run = Inl ''disk I/O error''" by code_simp
  moreover obtain r db where run: "?run = (r, db)" by fastforce
  ultimately show ?thesis
    using other_vaults_kept [OF Removed [OF run, of demo_index] demo_db_state(2,3)] by auto
qed


end
