(* ===== verification/CacheRebuild.thy ===== *)
theory CacheRebuild
  imports CacheSafety
begin

text \<open>
  Updating or removing one note leaves the cache as a rebuild of the whole vault does: the rows of a note are appended
  as one block that no other note touches, unless the hashes of two tasks collide.
\<close>

section \<open>The rows of one note\<close>

definition periodic_of :: "'d IndexLib \<Rightarrow> PeriodicConfig option \<Rightarrow> Note \<Rightarrow> PeriodicNoteRecord option outcome" where
  "periodic_of il config n =
     extract_periodic_note (il_dates il) (sn_path n) (me_type (extract_note_metadata il n)) config"

fun outcome_value :: "'a option outcome \<Rightarrow> 'a option" where
  "outcome_value (Done x) = x"
| "outcome_value Panicked = None"

definition inserts :: "'d IndexLib \<Rightarrow> PeriodicConfig option \<Rightarrow> string \<Rightarrow> Note \<Rightarrow> sql_stmt list" where
  "inserts il config v n =
     note_statements il v n @ periodic_statements v n (outcome_value (periodic_of il config n))"

definition note_rows :: "'d IndexLib \<Rightarrow> PeriodicConfig option \<Rightarrow> string \<Rightarrow> Note \<Rightarrow> row list" where
  "note_rows il config v n = effects (inserts il config v n) []"

definition note_task_ids :: "'d IndexLib \<Rightarrow> Note \<Rightarrow> int set" where
  "note_task_ids il n = task_id il (sn_path n) ` set (nt_tasks n)"

fun row_task :: "row \<Rightarrow> int option" where
  "row_task (Task_row k) = Some (kr_id k)"
| "row_task (Task_field_row x) = Some (xr_task x)"
| "row_task _ = None"

text \<open>The rows that a note of the vault may have.\<close>

definition own_row :: "'d IndexLib \<Rightarrow> string \<Rightarrow> Note \<Rightarrow> row \<Rightarrow> bool" where
  "own_row il v n r \<longleftrightarrow> row_vault r = v \<and> (row_note r = None \<or> row_note r = Some (sn_path n)) \<and>
     (case row_task r of Some i \<Rightarrow> i \<in> note_task_ids il n | None \<Rightarrow> True)"

text \<open>Rows that share no key with those of a note.\<close>

definition apart :: "'d IndexLib \<Rightarrow> string \<Rightarrow> Note \<Rightarrow> row list \<Rightarrow> bool" where
  "apart il v n rows \<longleftrightarrow>
     (\<forall>r \<in> set rows. row_vault r = v \<longrightarrow> row_note r \<noteq> Some (sn_path n) \<and> (\<forall>i \<in> note_task_ids il n. row_task r \<noteq> Some i))"

lemma apart_append [simp]: "apart il v n (a @ b) \<longleftrightarrow> apart il v n a \<and> apart il v n b"
  by (auto simp: apart_def)

lemma own_row_of_note:
  assumes "of_note v (sn_path n) s" "inserted s = Some r" "row_table r \<noteq> Tasks"
  shows "own_row il v n r"
  using assms by (cases r) (auto simp: of_note_def own_row_def)

lemma not_task_statements:
  "s \<in> set (frontmatter_field_statements il v n) \<Longrightarrow> inserted s = Some r \<Longrightarrow> row_table r \<noteq> Tasks"
  "s \<in> set (inline_field_statements v n) \<Longrightarrow> inserted s = Some r \<Longrightarrow> row_table r \<noteq> Tasks"
  "s \<in> set (tag_statements v n) \<Longrightarrow> inserted s = Some r \<Longrightarrow> row_table r \<noteq> Tasks"
  "s \<in> set (link_statements v n) \<Longrightarrow> inserted s = Some r \<Longrightarrow> row_table r \<noteq> Tasks"
  "s \<in> set (frontmatter_link_statements v n) \<Longrightarrow> inserted s = Some r \<Longrightarrow> row_table r \<noteq> Tasks"
  "s \<in> set (periodic_statements v n p) \<Longrightarrow> inserted s = Some r \<Longrightarrow> row_table r \<noteq> Tasks"
proof -
  have vals: "s \<in> set (field_value_statements il v n key val) \<Longrightarrow> inserted s = Some r \<Longrightarrow> row_table r \<noteq> Tasks" for key val
    by (cases val) (auto simp: field_value_statements_def)
  show "s \<in> set (frontmatter_field_statements il v n) \<Longrightarrow> inserted s = Some r \<Longrightarrow> row_table r \<noteq> Tasks"
    by (cases "nt_fields n") (auto simp: frontmatter_field_statements_def dest: vals)
qed (auto simp: inline_field_statements_def tag_statements_def link_statements_def frontmatter_link_statements_def
    periodic_statements_def split: option.splits)

lemma inserts_own:
  assumes "s \<in> set (inserts il config v n)"
  shows "\<exists>r. inserted s = Some r \<and> own_row il v n r"
proof -
  have flat: ?thesis if "of_note v (sn_path n) s" "\<And>r. inserted s = Some r \<Longrightarrow> row_table r \<noteq> Tasks"
    using that own_row_of_note [of v n s] by (auto simp: of_note_def split: option.splits)
  from assms consider "s = Insert_or_replace (Note_row (note_row il v n))"
    | "s \<in> set (frontmatter_field_statements il v n)" | "s \<in> set (inline_field_statements v n)"
    | "s \<in> set (tag_statements v n)" | "s \<in> set (link_statements v n)" | "s \<in> set (frontmatter_link_statements v n)"
    | t where "t \<in> set (nt_tasks n)" "s \<in> set (task_block il v n t)"
    | p where "s \<in> set (periodic_statements v n p)"
    by (auto simp: inserts_def note_statements_def task_statements_def)
  then show ?thesis
  proof cases
    case 1
    then show ?thesis by (simp add: own_row_def note_row_def Let_def)
  next
    case (7 t)
    then show ?thesis by (auto simp: task_block_def own_row_def task_row_def note_task_ids_def)
  qed (auto intro!: flat dest: not_task_statements of_note_statements)
qed

section \<open>A block of rows\<close>

lemma own_key:
  assumes "own_row il v n r" "apart il v n rows" "s \<in> set rows"
  shows "\<not> same_key r s"
  using assms by (cases r; cases s) (fastforce simp: own_row_def apart_def)+

lemma insert_frame:
  assumes "inserted s = Some r" "own_row il v n r" "apart il v n rows"
  shows "row_effect s (rows @ xs) = rows @ row_effect s xs"
proof -
  have "filter (\<lambda>s. \<not> same_key r s) rows = rows" using own_key [OF assms(2,3)] by (simp add: filter_id_conv)
  moreover have "\<not> list_ex (same_key r) rows" using own_key [OF assms(2,3)] by (simp add: list_ex_iff)
  ultimately show ?thesis using assms(1) by (cases s) auto
qed

lemma effects_frame:
  assumes "\<And>s. s \<in> set ss \<Longrightarrow> \<exists>r. inserted s = Some r \<and> own_row il v n r" "apart il v n rows"
  shows "effects ss (rows @ xs) = rows @ effects ss xs"
  using assms(1)
proof (induction ss arbitrary: xs)
  case (Cons s ss)
  then obtain r where "inserted s = Some r" "own_row il v n r" by auto
  with insert_frame [OF this assms(2)] Cons show ?case by simp
qed simp

lemma inserts_frame: "apart il v n rows \<Longrightarrow> effects (inserts il config v n) rows = rows @ note_rows il config v n"
  using effects_frame [OF inserts_own, where rows = rows and xs = "[]"] by (simp add: note_rows_def)

lemma effects_own:
  assumes "\<And>s. s \<in> set ss \<Longrightarrow> \<exists>r. inserted s = Some r \<and> Q r" "\<And>r. r \<in> set rows \<Longrightarrow> Q r"
  shows "r \<in> set (effects ss rows) \<Longrightarrow> Q r"
  using assms
proof (induction ss arbitrary: rows)
  case (Cons s ss)
  obtain q where q: "inserted s = Some q" "Q q" using Cons.prems(2) by auto
  have "Q x" if "x \<in> set (row_effect s rows)" for x
    using inserted_cases [OF q(1), of rows] that q(2) Cons.prems(3) by auto
  with Cons show ?case by auto
qed simp

lemma note_rows_own: "r \<in> set (note_rows il config v n) \<Longrightarrow> own_row il v n r"
  using effects_own [where Q = "own_row il v n" and rows = "[]", OF inserts_own] by (simp add: note_rows_def)

lemma note_rows_closed: "no_orphans (note_rows il config v n)"
proof -
  have "no_orphans []" by (simp add: no_orphans_def)
  from through_end [OF owned.note_keeps [OF this]] show ?thesis by (simp add: note_rows_def inserts_def)
qed

lemma note_rows_apart:
  assumes "sn_path m \<noteq> sn_path n" "note_task_ids il m \<inter> note_task_ids il n = {}"
  shows "apart il v n (note_rows il config v m)"
  using note_rows_own [of _ il config v m] assms by (fastforce simp: apart_def own_row_def)

section \<open>Removing a block\<close>

lemma no_orphans_tasks:
  "no_orphans rows \<Longrightarrow> Task_field_row x \<in> set rows \<Longrightarrow>
   \<exists>k. Task_row k \<in> set rows \<and> kr_vault k = xr_vault x \<and> kr_id k = xr_task x"
  by (force simp: no_orphans_iff has_task_iff dest!: is_task_row)

fun removed :: "string \<Rightarrow> string \<Rightarrow> int set \<Rightarrow> row \<Rightarrow> bool" where
  "removed v p ids (Task_field_row x) \<longleftrightarrow> xr_vault x = v \<and> xr_task x \<in> ids"
| "removed v p ids r \<longleftrightarrow> row_vault r = v \<and> row_note r = Some p"

lemma removed_note: "row_note r \<noteq> None \<Longrightarrow> removed v p ids r \<longleftrightarrow> row_vault r = v \<and> row_note r = Some p"
  by (cases r) auto

lemma row_note_None: "row_note r = None \<Longrightarrow> \<exists>x. r = Task_field_row x"
  by (cases r) auto

lemma remove_effect:
  "effects (remove_statements v p) rows = filter (\<lambda>r. \<not> removed v p (task_ids v p rows) r) rows"
proof -
  define ids where "ids = task_ids v p rows"
  define stays where "stays tb r \<longleftrightarrow> \<not> (row_table r = tb \<and> row_vault r = v \<and> row_note r = Some p)" for tb r
  define field_stays where "field_stays r \<longleftrightarrow> (case r of Task_field_row x \<Rightarrow> \<not> (xr_vault x = v \<and> xr_task x \<in> ids) | _ \<Rightarrow> True)" for r
  have "field_stays r \<and> stays Tasks r \<and> stays Fields r \<and> stays Field_values r \<and> stays Tags r \<and> stays Links r \<and>
      stays Periodic_notes r \<and> stays Notes r \<longleftrightarrow> \<not> removed v p ids r" for r
    by (cases r) (auto simp: stays_def field_stays_def)
  then have "filter (\<lambda>r. field_stays r \<and> stays Tasks r \<and> stays Fields r \<and> stays Field_values r \<and> stays Tags r \<and>
      stays Links r \<and> stays Periodic_notes r \<and> stays Notes r) rows = filter (\<lambda>r. \<not> removed v p ids r) rows"
    by simp
  moreover have "row_effect (Delete_note_rows tb v p) = filter (stays tb)" for tb
    by (rule ext) (auto simp: stays_def intro: filter_cong)
  moreover have "row_effect (Delete_task_fields v p) rows = filter field_stays rows"
    unfolding row_effect.simps Let_def by (rule filter_cong) (simp_all add: field_stays_def ids_def split: row.split)
  ultimately show ?thesis
    by (simp add: remove_statements_def ids_def conj_ac del: row_effect.simps)
qed

lemma apartD:
  assumes "apart il v n rows"
  shows "r \<in> set rows \<Longrightarrow> row_vault r = v \<Longrightarrow> row_note r \<noteq> Some (sn_path n)"
    and "Task_row k \<in> set rows \<Longrightarrow> kr_vault k = v \<Longrightarrow> kr_path k \<noteq> sn_path n"
    and "Task_field_row x \<in> set rows \<Longrightarrow> xr_vault x = v \<Longrightarrow> xr_task x \<notin> note_task_ids il n"
proof -
  note a = assms [unfolded apart_def, rule_format]
  show "r \<in> set rows \<Longrightarrow> row_vault r = v \<Longrightarrow> row_note r \<noteq> Some (sn_path n)" using a by blast
  show "Task_row k \<in> set rows \<Longrightarrow> kr_vault k = v \<Longrightarrow> kr_path k \<noteq> sn_path n" using a [of "Task_row k"] by simp
  show "Task_field_row x \<in> set rows \<Longrightarrow> xr_vault x = v \<Longrightarrow> xr_task x \<notin> note_task_ids il n"
    using a [of "Task_field_row x"] by auto
qed

lemma task_ids_block:
  assumes "apart il v n a" "apart il v n b"
  shows "task_ids v (sn_path n) (a @ note_rows il config v n @ b) = task_ids v (sn_path n) (note_rows il config v n)"
proof (rule set_eqI)
  fix i
  have "Task_row k \<notin> set a \<and> Task_row k \<notin> set b" if "kr_vault k = v" "kr_path k = sn_path n" for k
    using apartD(2) [OF assms(1), of k] apartD(2) [OF assms(2), of k] that by blast
  then show "i \<in> task_ids v (sn_path n) (a @ note_rows il config v n @ b) \<longleftrightarrow>
      i \<in> task_ids v (sn_path n) (note_rows il config v n)"
    unfolding task_ids_iff set_append Un_iff by blast
qed

lemma task_ids_own: "task_ids v (sn_path n) (note_rows il config v n) \<subseteq> note_task_ids il n"
proof
  fix i assume "i \<in> task_ids v (sn_path n) (note_rows il config v n)"
  then obtain k where "Task_row k \<in> set (note_rows il config v n)" "kr_id k = i" unfolding task_ids_iff by blast
  with note_rows_own [OF this(1)] show "i \<in> note_task_ids il n" by (simp add: own_row_def)
qed

lemma kept_apart:
  assumes "apart il v n rows" "ids \<subseteq> note_task_ids il n"
  shows "filter (\<lambda>r. \<not> removed v (sn_path n) ids r) rows = rows"
proof -
  have "\<not> removed v (sn_path n) ids r" if r: "r \<in> set rows" for r
  proof (cases "row_note r")
    case None
    then obtain x where x: "r = Task_field_row x" using row_note_None by blast
    show ?thesis using apartD(3) [OF assms(1), of x] r assms(2) by (auto simp: x)
  next
    case (Some p)
    with apartD(1) [OF assms(1) r] show ?thesis by (auto simp: removed_note)
  qed
  then show ?thesis by (simp add: filter_id_conv)
qed

lemma dropped_block:
  assumes "ids = task_ids v (sn_path n) (note_rows il config v n)"
  shows "filter (\<lambda>r. \<not> removed v (sn_path n) ids r) (note_rows il config v n) = []"
proof -
  have "removed v (sn_path n) ids r" if r: "r \<in> set (note_rows il config v n)" for r
  proof (cases "row_note r")
    case None
    then obtain x where x: "r = Task_field_row x" using row_note_None by blast
    from no_orphans_tasks [OF note_rows_closed r [unfolded x]] obtain k
      where k: "Task_row k \<in> set (note_rows il config v n)" "kr_vault k = xr_vault x" "kr_id k = xr_task x" by blast
    from note_rows_own [OF k(1)] have "kr_path k = sn_path n" "kr_vault k = v" by (simp_all add: own_row_def)
    with k assms have "xr_vault x = v" "xr_task x \<in> ids" by (auto simp: task_ids_iff)
    then show ?thesis by (simp add: x)
  next
    case (Some p)
    with note_rows_own [OF r] show ?thesis by (simp add: removed_note own_row_def)
  qed
  then show ?thesis by (simp add: filter_empty_conv)
qed

lemma remove_block:
  assumes "apart il v n a" "apart il v n b"
  shows "effects (remove_statements v (sn_path n)) (a @ note_rows il config v n @ b) = a @ b"
  unfolding remove_effect task_ids_block [OF assms] filter_append
  by (simp add: kept_apart [OF assms(1) task_ids_own] kept_apart [OF assms(2) task_ids_own] dropped_block)

lemma remove_nothing:
  assumes "\<And>r. r \<in> set rows \<Longrightarrow> row_vault r = v \<Longrightarrow> row_note r \<noteq> Some p"
  shows "effects (remove_statements v p) rows = rows"
proof -
  have "task_ids v p rows = {}" using assms [of "Task_row _"] by (fastforce simp: task_ids_iff)
  moreover have "\<not> removed v p {} r" if "r \<in> set rows" for r using assms [OF that] by (cases r) auto
  ultimately show ?thesis by (simp add: remove_effect filter_id_conv)
qed

lemma clear_effect: "effects (clear_statements v) rows = foreign_rows v rows"
proof -
  have "row_table r \<in> {Task_fields, Tasks, Fields, Field_values, Tags, Links, Periodic_notes, Notes}" for r
    by (cases r) auto
  then show ?thesis by (simp add: clear_statements_def) (rule filter_cong [OF refl], auto)
qed

lemma foreign_apart: "apart il v n (foreign_rows v rows)"
  by (simp add: apart_def)

section \<open>Operations that nothing refuses\<close>

definition accepting :: "sql_faults \<Rightarrow> bool" where
  "accepting fault \<longleftrightarrow> (\<forall>s db. fault s db = None)"

lemma exec_accepted:
  assumes "accepting fault" "list_all row_stmt ss"
  shows "exec_all fault ss db = (Inr (), db\<lparr>db_rows := effects ss (db_rows db)\<rparr>)"
  using assms(2)
proof (induction ss arbitrary: db)
  case (Cons s ss)
  then have "row_stmt s" by simp
  from db_exec_row [OF this, of fault db] assms(1)
  have "db_exec fault s db = (Inr (), db\<lparr>db_rows := row_effect s (db_rows db)\<rparr>)" by (simp add: accepting_def)
  with Cons show ?case by simp
qed simp

definition periodic_ok :: "'d IndexLib \<Rightarrow> PeriodicConfig option \<Rightarrow> Note \<Rightarrow> bool" where
  "periodic_ok il config n \<longleftrightarrow> periodic_of il config n \<noteq> Panicked"

lemma inner_accepted:
  assumes "accepting fault" "periodic_ok il config n" "apart il v n (db_rows db)"
  shows "index_note_inner il config fault v n db =
    Done (Inr (), db\<lparr>db_rows := db_rows db @ note_rows il config v n\<rparr>)"
proof -
  from assms(2) obtain q where q: "periodic_of il config n = Done q" by (cases "periodic_of il config n") (auto simp: periodic_ok_def)
  have "effects (periodic_statements v n q) (effects (note_statements il v n) (db_rows db)) = db_rows db @ note_rows il config v n"
    using inserts_frame [OF assms(3), of config] q by (simp add: inserts_def)
  with q show ?thesis
    using exec_accepted [OF assms(1) row_stmt_note_statements, of il v n db]
      exec_accepted [OF assms(1) row_stmt_periodic_statements]
    by (simp add: index_note_inner_def periodic_of_def)
qed

lemma index_note_accepted:
  assumes "accepting fault" "periodic_ok il config n" "db_base db = None"
    and "effects (remove_statements v (sn_path n)) (db_rows db) = rows" "apart il v n rows"
  shows "index_note il config fault v n db =
    Done (Inr (), \<lparr>db_rows = rows @ note_rows il config v n, db_base = None, db_points = []\<rparr>)"
proof -
  let ?db = "db\<lparr>db_base := Some (db_rows db), db_points := []\<rparr>"
  have "exec_all fault (remove_statements v (sn_path n)) ?db = (Inr (), ?db\<lparr>db_rows := rows\<rparr>)"
    using exec_accepted [OF assms(1) row_stmt_removals(1), of v "sn_path n" ?db] assms(4) by simp
  moreover have "apart il v n (db_rows (?db\<lparr>db_rows := rows\<rparr>))" using assms(5) by simp
  note inner_accepted [OF assms(1,2) this]
  ultimately show ?thesis
    using assms(1,3) by (simp add: index_note_def db_exec_def accepting_def end_transaction_def)
qed

lemma index_notes_accepted:
  assumes "accepting fault" "\<And>n. n \<in> set ns \<Longrightarrow> periodic_ok il config n"
    and "\<And>n. n \<in> set ns \<Longrightarrow> apart il v n (db_rows db)"
    and "distinct (map sn_path ns)"
    and "\<And>m n. m \<in> set ns \<Longrightarrow> n \<in> set ns \<Longrightarrow> sn_path m \<noteq> sn_path n \<Longrightarrow> note_task_ids il m \<inter> note_task_ids il n = {}"
  shows "index_notes il config fault v i ns db =
    Done (Inr (), db\<lparr>db_rows := db_rows db @ concat (map (note_rows il config v) ns)\<rparr>)"
  using assms(2-5)
proof (induction ns arbitrary: i db)
  case (Cons n ns)
  let ?db = "db\<lparr>db_points := (i, db_rows db) # db_points db\<rparr>"
  let ?db' = "db\<lparr>db_rows := db_rows db @ note_rows il config v n\<rparr>"
  have "db_exec fault (Savepoint i) db = (Inr (), ?db)" using assms(1) by (simp add: db_exec_def accepting_def)
  moreover have "index_note_inner il config fault v n ?db =
      Done (Inr (), ?db\<lparr>db_rows := db_rows ?db @ note_rows il config v n\<rparr>)"
    by (rule inner_accepted [OF assms(1)]) (simp_all add: Cons.prems)
  moreover have "exec_all fault [Release i] (?db\<lparr>db_rows := db_rows ?db @ note_rows il config v n\<rparr>) = (Inr (), ?db')"
    using assms(1) by (simp add: db_exec_def accepting_def release_points_def)
  moreover have "index_notes il config fault v (Suc i) ns ?db' =
      Done (Inr (), ?db'\<lparr>db_rows := db_rows ?db' @ concat (map (note_rows il config v) ns)\<rparr>)"
  proof (rule Cons.IH)
    fix m assume m: "m \<in> set ns"
    then have "sn_path n \<noteq> sn_path m" using Cons.prems(3) by auto
    moreover from this Cons.prems(4) m have "note_task_ids il n \<inter> note_task_ids il m = {}" by simp
    ultimately show "apart il v m (db_rows ?db')" using note_rows_apart Cons.prems(2) m by simp
  qed (use Cons.prems in auto)
  ultimately show ?case by simp
qed simp

lemma index_all_accepted:
  assumes "accepting fault" "db_base db = None" "\<And>n. n \<in> set ns \<Longrightarrow> periodic_ok il config n"
    and "distinct (map sn_path ns)"
    and "\<And>m n. m \<in> set ns \<Longrightarrow> n \<in> set ns \<Longrightarrow> sn_path m \<noteq> sn_path n \<Longrightarrow> note_task_ids il m \<inter> note_task_ids il n = {}"
  shows "index_all il config fault v ns db =
    Done (Inr (), \<lparr>db_rows = foreign_rows v (db_rows db) @ concat (map (note_rows il config v) ns), db_base = None, db_points = []\<rparr>)"
proof -
  let ?db = "db\<lparr>db_base := Some (db_rows db), db_points := []\<rparr>"
  let ?db' = "?db\<lparr>db_rows := foreign_rows v (db_rows db)\<rparr>"
  have "exec_all fault (clear_statements v) ?db = (Inr (), ?db')"
    using exec_accepted [OF assms(1) row_stmt_removals(2), of v ?db] clear_effect by simp
  moreover have "index_notes il config fault v 0 ns ?db' =
      Done (Inr (), ?db'\<lparr>db_rows := db_rows ?db' @ concat (map (note_rows il config v) ns)\<rparr>)"
    by (rule index_notes_accepted [OF assms(1,3) _ assms(4,5)]) (simp_all add: foreign_apart)
  ultimately show ?thesis
    using assms(1,2) by (simp add: index_all_def db_exec_def accepting_def end_transaction_def)
qed

section \<open>Updates and rebuilds\<close>

text \<open>Notes that a rebuild can index side by side: no two of one path, no hash collision between tasks of different
  notes, and none whose name makes the recognition of periods panic.\<close>

definition indexable :: "'d IndexLib \<Rightarrow> PeriodicConfig option \<Rightarrow> Note list \<Rightarrow> bool" where
  "indexable il config ns \<longleftrightarrow>
     distinct (map sn_path ns) \<and> list_all (periodic_ok il config) ns \<and>
     list_all (\<lambda>m. list_all (\<lambda>n. sn_path m = sn_path n \<or> note_task_ids il m \<inter> note_task_ids il n = {}) ns) ns"

definition drop_note :: "string \<Rightarrow> Note list \<Rightarrow> Note list" where
  "drop_note p ns = filter (\<lambda>n. sn_path n \<noteq> p) ns"

definition replace_note :: "Note \<Rightarrow> Note list \<Rightarrow> Note list" where
  "replace_note n ns = drop_note (sn_path n) ns @ [n]"

lemma index_all_indexable:
  assumes "accepting fault" "db_base db = None" "indexable il config ns"
  shows "index_all il config fault v ns db =
    Done (Inr (), \<lparr>db_rows = foreign_rows v (db_rows db) @ concat (map (note_rows il config v) ns), db_base = None, db_points = []\<rparr>)"
  by (rule index_all_accepted [OF assms(1,2)]) (use assms(3) in \<open>auto simp: indexable_def list_all_iff\<close>)

lemma indexable_apart:
  assumes "indexable il config (a @ m # b)"
  shows "apart il v m (concat (map (note_rows il config v) a))" "apart il v m (concat (map (note_rows il config v) b))"
proof -
  have "apart il v m (concat (map (note_rows il config v) ns))" if ns: "set ns \<subseteq> set a \<union> set b" for ns
    using ns
  proof (induction ns)
    case (Cons n ns)
    then have "n \<in> set a \<union> set b" by simp
    moreover have "sn_path m \<notin> sn_path ` (set a \<union> set b)" using assms unfolding indexable_def by simp blast
    ultimately have other: "sn_path n \<noteq> sn_path m" by (metis imageI)
    moreover have "sn_path n = sn_path m \<or> note_task_ids il n \<inter> note_task_ids il m = {}"
      using assms \<open>n \<in> set a \<union> set b\<close> by (auto simp: indexable_def list_all_iff)
    ultimately have "note_task_ids il n \<inter> note_task_ids il m = {}" by blast
    note other this
    with note_rows_apart Cons show ?case by simp
  qed (simp add: apart_def)
  from this [of a] this [of b] show "apart il v m (concat (map (note_rows il config v) a))"
    "apart il v m (concat (map (note_rows il config v) b))" by simp_all
qed

lemma remove_from_all:
  assumes "indexable il config ns"
  shows "effects (remove_statements v p) (foreign_rows v rows @ concat (map (note_rows il config v) ns)) =
    foreign_rows v rows @ concat (map (note_rows il config v) (drop_note p ns))"
proof (cases "p \<in> sn_path ` set ns")
  case True
  then obtain m a b where m: "sn_path m = p" "ns = a @ m # b" by (metis imageE split_list)
  with assms have "p \<notin> sn_path ` set a" "p \<notin> sn_path ` set b" by (auto simp: indexable_def)
  then have "drop_note p a = a" "drop_note p b = b" by (auto simp: drop_note_def filter_id_conv image_iff)
  then have "drop_note p ns = a @ b" using m(1) by (simp add: drop_note_def m(2))
  moreover note m' = indexable_apart [OF assms [unfolded m(2)]]
  have "effects (remove_statements v (sn_path m)) ((foreign_rows v rows @ concat (map (note_rows il config v) a)) @
      note_rows il config v m @ concat (map (note_rows il config v) b)) =
      (foreign_rows v rows @ concat (map (note_rows il config v) a)) @ concat (map (note_rows il config v) b)"
    by (rule remove_block) (simp_all add: foreign_apart m')
  ultimately show ?thesis by (simp add: m)
next
  case False
  then have "drop_note p ns = ns" by (auto simp: drop_note_def filter_id_conv)
  moreover have "row_note r \<noteq> Some p"
    if r: "r \<in> set (foreign_rows v rows @ concat (map (note_rows il config v) ns))" "row_vault r = v" for r
  proof -
    from r obtain n where "n \<in> set ns" "r \<in> set (note_rows il config v n)" by auto
    with note_rows_own [OF this(2)] False show ?thesis by (auto simp: own_row_def)
  qed
  ultimately show ?thesis using remove_nothing [of "foreign_rows v rows @ concat (map (note_rows il config v) ns)" v p] by simp
qed

section \<open>Properties\<close>

text \<open>C8: Updating one note in a rebuilt cache leaves exactly the cache that a rebuild with the new version of the note
  would leave, when the database accepts the statements; removing the note leaves the cache of a rebuild without it.\<close>

theorem update_equals_rebuild:
  assumes "accepting fault" "db_base db = None" "indexable il config ns" "indexable il config (replace_note n ns)"
  shows "\<exists>db1 db2 db3. index_all il config fault v ns db = Done (Inr (), db1) \<and>
    index_note il config fault v n db1 = Done (Inr (), db2) \<and>
    index_all il config fault v (replace_note n ns) db = Done (Inr (), db2) \<and>
    cache_remove_note fault v (sn_path n) db1 = (Inr (), db3) \<and>
    index_all il config fault v (drop_note (sn_path n) ns) db = Done (Inr (), db3)"
proof -
  let ?R = "\<lambda>ns. foreign_rows v (db_rows db) @ concat (map (note_rows il config v) ns)"
  let ?db = "\<lambda>ns. \<lparr>db_rows = ?R ns, db_base = None, db_points = []\<rparr>"
  have dropped: "indexable il config (drop_note (sn_path n) ns)"
    using assms(4) by (auto simp: indexable_def replace_note_def list_all_iff)
  have ok: "periodic_ok il config n" using assms(4) by (simp add: indexable_def replace_note_def)
  have apart: "apart il v n (?R (drop_note (sn_path n) ns))"
    using indexable_apart(1) [of il config "drop_note (sn_path n) ns" n "[]"] assms(4) by (simp add: replace_note_def foreign_apart)
  have "index_note il config fault v n (?db ns) = Done (Inr (), ?db (replace_note n ns))"
    using index_note_accepted [OF assms(1) ok _ _ apart, of "?db ns"] remove_from_all [OF assms(3)]
    by (simp add: replace_note_def)
  moreover have "cache_remove_note fault v (sn_path n) (?db ns) = (Inr (), ?db (drop_note (sn_path n) ns))"
    using exec_accepted [OF assms(1) row_stmt_removals(1)] remove_from_all [OF assms(3)]
    by (simp add: cache_remove_note_def)
  ultimately show ?thesis
    using index_all_indexable [OF assms(1,2)] assms(3,4) dropped by blast
qed

section \<open>Witnesses\<close>

text \<open>Two versions of one note and a second note.\<close>

lemma update_equals_rebuild_witness:
  "\<exists>db1 db2 db3.
     index_all demo_index None (\<lambda>s db. None) ''v'' [demo_note, demo_note\<lparr>sn_path := ''bb.md''\<rparr>] empty_db = Done (Inr (), db1) \<and>
     index_note demo_index None (\<lambda>s db. None) ''v'' (demo_note\<lparr>nt_tasks := []\<rparr>) db1 = Done (Inr (), db2) \<and>
     index_all demo_index None (\<lambda>s db. None) ''v''
       (replace_note (demo_note\<lparr>nt_tasks := []\<rparr>) [demo_note, demo_note\<lparr>sn_path := ''bb.md''\<rparr>]) empty_db = Done (Inr (), db2) \<and>
     cache_remove_note (\<lambda>s db. None) ''v'' ''a.md'' db1 = (Inr (), db3)"
proof -
  let ?ns = "[demo_note, demo_note\<lparr>sn_path := ''bb.md''\<rparr>]"
  have a: "accepting (\<lambda>s db. None)" by (simp add: accepting_def)
  have b: "db_base empty_db = None" by (simp add: empty_db_def)
  have c: "indexable demo_index None ?ns" by code_simp
  have d: "indexable demo_index None (replace_note (demo_note\<lparr>nt_tasks := []\<rparr>) ?ns)" by code_simp
  have "sn_path (demo_note\<lparr>nt_tasks := []\<rparr>) = ''a.md''" by (simp add: demo_note_def)
  with update_equals_rebuild [OF a b c d, of "''v''"] show ?thesis by fastforce
qed

end
