(* ===== verification/SearchIndex.thy ===== *)
theory SearchIndex
  imports CacheIndex
begin

text \<open>
  The full-text index of a vault (\<open>notesmith-index/src/search.rs\<close>): the documents that a commit stored and those the
  reader has loaded.  What tantivy refuses is a parameter; queries and their scores are not modelled.
\<close>

section \<open>Documents\<close>

record SearchDoc =
  sd_vault :: string
  sd_path :: string
  sd_title :: string
  sd_body :: string
  sd_type :: string

record SearchIndex =
  sx_docs :: "SearchDoc list"
  sx_seen :: "SearchDoc list"

definition document_for :: "'d IndexLib \<Rightarrow> string \<Rightarrow> Note \<Rightarrow> SearchDoc" where
  "document_for il vault n =
     (let meta = extract_note_metadata il n
      in \<lparr>sd_vault = vault, sd_path = sn_path n, sd_title = me_title meta, sd_body = sn_body n, sd_type = me_type meta\<rparr>)"

section \<open>Writing\<close>

datatype search_call = Search_writer | Search_add SearchDoc | Search_commit | Search_reload

type_synonym search_faults = "search_call \<Rightarrow> string option"

fun add_documents :: "search_faults \<Rightarrow> SearchDoc list \<Rightarrow> string + unit" where
  "add_documents fault [] = Inr ()"
| "add_documents fault (d # ds) = (case fault (Search_add d) of Some e \<Rightarrow> Inl e | None \<Rightarrow> add_documents fault ds)"

text \<open>A writer that is dropped before its commit changes nothing; after the commit the reader may still fail to load it.\<close>

definition write_documents ::
  "search_faults \<Rightarrow> (SearchDoc \<Rightarrow> bool) \<Rightarrow> SearchDoc list \<Rightarrow> SearchIndex \<Rightarrow> (string + unit) \<times> SearchIndex" where
  "write_documents fault keep docs ix =
     (case fault Search_writer of
        Some e \<Rightarrow> (Inl e, ix)
      | None \<Rightarrow>
          (case add_documents fault docs of
             Inl e \<Rightarrow> (Inl e, ix)
           | Inr _ \<Rightarrow>
               (case fault Search_commit of
                  Some e \<Rightarrow> (Inl e, ix)
                | None \<Rightarrow>
                    (let stored = filter keep (sx_docs ix) @ docs
                     in case fault Search_reload of
                          Some e \<Rightarrow> (Inl e, ix\<lparr>sx_docs := stored\<rparr>)
                        | None \<Rightarrow> (Inr (), \<lparr>sx_docs = stored, sx_seen = stored\<rparr>)))))"

definition search_reindex ::
  "'d IndexLib \<Rightarrow> search_faults \<Rightarrow> string \<Rightarrow> Note list \<Rightarrow> SearchIndex \<Rightarrow> (string + unit) \<times> SearchIndex" where
  "search_reindex il fault vault ns ix =
     write_documents fault (\<lambda>d. sd_vault d \<noteq> vault) (map (document_for il vault) ns) ix"

text \<open>A note is found by its path alone, in any vault of the index.\<close>

definition search_update_note ::
  "'d IndexLib \<Rightarrow> search_faults \<Rightarrow> string \<Rightarrow> Note \<Rightarrow> SearchIndex \<Rightarrow> (string + unit) \<times> SearchIndex" where
  "search_update_note il fault vault n ix =
     write_documents fault (\<lambda>d. sd_path d \<noteq> sn_path n) [document_for il vault n] ix"

definition search_remove_note :: "search_faults \<Rightarrow> string \<Rightarrow> SearchIndex \<Rightarrow> (string + unit) \<times> SearchIndex" where
  "search_remove_note fault path ix = write_documents fault (\<lambda>d. sd_path d \<noteq> path) [] ix"

lemma add_documents_accepted: "(\<And>c. fault c = None) \<Longrightarrow> add_documents fault docs = Inr ()"
  by (induction docs) auto

lemma write_documents_accepted:
  assumes "\<And>c. fault c = None"
  shows "write_documents fault keep docs ix = (Inr (), \<lparr>sx_docs = filter keep (sx_docs ix) @ docs, sx_seen = filter keep (sx_docs ix) @ docs\<rparr>)"
  using assms by (simp add: write_documents_def add_documents_accepted Let_def)

end
