(* ===== verification/ParseWarnings.thy ===== *)
theory ParseWarnings
  imports NoteParser
begin

text \<open>
  The warnings of a vault about notes whose frontmatter does not parse (\<open>notesmith-http/src/parse_warnings.rs\<close>): one
  per path, the oldest first, at most a hundred.
\<close>

definition MAX_PARSE_WARNINGS :: nat where
  "MAX_PARSE_WARNINGS = 100"

record NoteWarning =
  nw_path :: string
  nw_stage :: string
  nw_reason :: string
  nw_occurred_at :: string

record ParseWarnings =
  pw_warnings :: "NoteWarning list"
  pw_truncated :: bool

definition no_warnings :: ParseWarnings where
  "no_warnings = \<lparr>pw_warnings = [], pw_truncated = False\<rparr>"

definition push_warning :: "NoteWarning \<Rightarrow> ParseWarnings \<Rightarrow> ParseWarnings" where
  "push_warning warning pw =
     (let ws = pw_warnings pw @ [warning]
      in if MAX_PARSE_WARNINGS < length ws
         then \<lparr>pw_warnings = drop (length ws - MAX_PARSE_WARNINGS) ws, pw_truncated = True\<rparr>
         else pw\<lparr>pw_warnings := ws\<rparr>)"

text \<open>The first warning of the path is replaced in place.\<close>

fun replace_warning :: "NoteWarning \<Rightarrow> NoteWarning list \<Rightarrow> NoteWarning list" where
  "replace_warning warning [] = []"
| "replace_warning warning (w # ws) =
     (if nw_path w = nw_path warning then warning # ws else w # replace_warning warning ws)"

definition record_warning :: "NoteWarning \<Rightarrow> ParseWarnings \<Rightarrow> ParseWarnings" where
  "record_warning warning pw =
     (if list_ex (\<lambda>w. nw_path w = nw_path warning) (pw_warnings pw)
      then pw\<lparr>pw_warnings := replace_warning warning (pw_warnings pw)\<rparr>
      else push_warning warning pw)"

definition clear_path :: "string \<Rightarrow> ParseWarnings \<Rightarrow> ParseWarnings" where
  "clear_path path pw = pw\<lparr>pw_warnings := filter (\<lambda>w. nw_path w \<noteq> path) (pw_warnings pw)\<rparr>"

definition replace_all :: "NoteWarning list \<Rightarrow> ParseWarnings \<Rightarrow> ParseWarnings" where
  "replace_all ws pw = fold push_warning ws no_warnings"

text \<open>\<open>yaml_error\<close> is the error of parsing the frontmatter, if there is one.\<close>

definition note_parse_warning :: "(string \<Rightarrow> string option) \<Rightarrow> string \<Rightarrow> Note \<Rightarrow> NoteWarning option" where
  "note_parse_warning yaml_error now n =
     (case sn_raw_frontmatter n of
        None \<Rightarrow> None
      | Some raw \<Rightarrow>
          if sn_frontmatter n \<noteq> None then None
          else Some \<lparr>nw_path = sn_path n, nw_stage = ''frontmatter'',
                 nw_reason = (case yaml_error raw of Some e \<Rightarrow> e | None \<Rightarrow> ''malformed frontmatter''),
                 nw_occurred_at = now\<rparr>)"

definition update_for_note :: "(string \<Rightarrow> string option) \<Rightarrow> string \<Rightarrow> Note \<Rightarrow> ParseWarnings \<Rightarrow> ParseWarnings" where
  "update_for_note yaml_error now n pw =
     (case note_parse_warning yaml_error now n of
        Some warning \<Rightarrow> record_warning warning pw
      | None \<Rightarrow> clear_path (sn_path n) pw)"

record ParseWarningsSnapshot =
  ps_count :: nat
  ps_truncated :: bool
  ps_warnings :: "NoteWarning list"

definition snapshot :: "ParseWarnings \<Rightarrow> ParseWarningsSnapshot" where
  "snapshot pw = \<lparr>ps_count = length (pw_warnings pw), ps_truncated = pw_truncated pw, ps_warnings = pw_warnings pw\<rparr>"

section \<open>The bound\<close>

datatype warning_op =
    Record_warning NoteWarning
  | Clear_path string
  | Replace_all "NoteWarning list"

fun warning_step :: "warning_op \<Rightarrow> ParseWarnings \<Rightarrow> ParseWarnings" where
  "warning_step (Record_warning w) pw = record_warning w pw"
| "warning_step (Clear_path path) pw = clear_path path pw"
| "warning_step (Replace_all ws) pw = replace_all ws pw"

abbreviation warning_paths :: "ParseWarnings \<Rightarrow> string list" where
  "warning_paths pw \<equiv> map nw_path (pw_warnings pw)"

definition warnings_bounded :: "ParseWarnings \<Rightarrow> bool" where
  "warnings_bounded pw \<longleftrightarrow> length (pw_warnings pw) \<le> MAX_PARSE_WARNINGS"

lemma push_warning_list:
  "pw_warnings (push_warning w pw) = drop (length (pw_warnings pw @ [w]) - MAX_PARSE_WARNINGS) (pw_warnings pw @ [w])"
  by (simp add: push_warning_def Let_def del: drop_append)

lemma push_bounded_warnings: "warnings_bounded (push_warning w pw)"
  unfolding warnings_bounded_def push_warning_list length_drop by arith

lemma replace_warning_paths: "map nw_path (replace_warning w ws) = map nw_path ws"
  by (induction ws) auto

lemma replace_warning_length: "length (replace_warning w ws) = length ws"
  by (induction ws) auto

interpretation parse_warnings: op_machine warning_step warnings_bounded
proof
  fix pw x assume bounded: "warnings_bounded pw"
  have "warnings_bounded (fold push_warning ws no_warnings)" for ws
    by (cases ws rule: rev_cases) (auto simp: push_bounded_warnings, simp add: warnings_bounded_def no_warnings_def)
  with bounded show "warnings_bounded (warning_step x pw)"
    by (cases x) (auto simp: record_warning_def clear_path_def replace_all_def warnings_bounded_def [of "_\<lparr>pw_warnings := _\<rparr>"]
        replace_warning_length push_bounded_warnings warnings_bounded_def [of pw]
        intro: le_trans [OF length_filter_le])
qed

text \<open>The warnings stay one per path, when those of a rescan are.\<close>

lemma push_warning_paths:
  assumes "distinct (warning_paths pw)" "nw_path w \<notin> set (warning_paths pw)"
  shows "distinct (warning_paths (push_warning w pw))"
proof -
  have "distinct (map nw_path (pw_warnings pw @ [w]))" using assms by simp
  then show ?thesis unfolding push_warning_list drop_map [symmetric] by (rule distinct_drop)
qed

lemma record_warning_paths: "distinct (warning_paths pw) \<Longrightarrow> distinct (warning_paths (record_warning w pw))"
  by (simp add: record_warning_def replace_warning_paths list_ex_iff) (metis imageE push_warning_paths set_map)

lemma clear_path_paths: "distinct (warning_paths pw) \<Longrightarrow> distinct (warning_paths (clear_path p pw))"
  by (simp add: clear_path_def distinct_map_filter)

lemma clear_path_clears: "p \<notin> set (warning_paths (clear_path p pw))"
  by (auto simp: clear_path_def)

end
