(* ===== verification/Watcher.thy ===== *)
theory Watcher
  imports CacheRebuild SearchIndex ParseWarnings Scan Events
begin

text \<open>
  The file watcher of a vault (\<open>notesmith-http/src/watcher.rs\<close>): the events of a debounce window become one action
  per path, the actions update the cache, the index and the warnings, and a periodic check compares the number of
  notes with the disk.  The notifications, the timers and the choice of the health at the start are the runtime's.
\<close>

section \<open>Health\<close>

datatype WatcherHealth = Healthy | Degraded | Polling

fun health_str :: "WatcherHealth \<Rightarrow> string" where
  "health_str Healthy = ''healthy''"
| "health_str Degraded = ''degraded''"
| "health_str Polling = ''polling''"

fun health_u8 :: "WatcherHealth \<Rightarrow> 8 word" where
  "health_u8 Healthy = 0"
| "health_u8 Degraded = 1"
| "health_u8 Polling = 2"

definition health_from_u8 :: "8 word \<Rightarrow> WatcherHealth" where
  "health_from_u8 v = (if v = 1 then Degraded else if v = 2 then Polling else Healthy)"

record WatcherState =
  ws_health :: "8 word"
  ws_message :: "string option"

definition watcher_state_new :: WatcherState where
  "watcher_state_new = \<lparr>ws_health = health_u8 Healthy, ws_message = None\<rparr>"

definition watcher_health :: "WatcherState \<Rightarrow> WatcherHealth" where
  "watcher_health ws = health_from_u8 (ws_health ws)"

definition set_health :: "WatcherHealth \<Rightarrow> string option \<Rightarrow> WatcherState \<Rightarrow> WatcherState" where
  "set_health h message ws = \<lparr>ws_health = health_u8 h, ws_message = message\<rparr>"

lemma health_roundtrip: "health_from_u8 (health_u8 h) = h"
  by (cases h) (simp_all add: health_from_u8_def)

section \<open>Events\<close>

datatype ChangeAction = Upsert | Delete

datatype ConfigKey = Sidebar_key | Vault_key

datatype WatchTarget = Note_target | Config_target ConfigKey

fun config_key_str :: "ConfigKey \<Rightarrow> string" where
  "config_key_str Sidebar_key = ''sidebar''"
| "config_key_str Vault_key = ''vault''"

fun config_relative_path :: "ConfigKey \<Rightarrow> string" where
  "config_relative_path Sidebar_key = ''.notesmith/sidebar.yaml''"
| "config_relative_path Vault_key = ''.notesmith/vault.toml''"

definition classify_path :: "fpath \<Rightarrow> fpath \<Rightarrow> WatchTarget option" where
  "classify_path root p =
     (if \<not> prefix root p then None
      else let relative = drop (length root) p
           in if prefix [''.notesmith''] relative
              then (let after = tl relative
                    in if after = [''sidebar.yaml''] then Some (Config_target Sidebar_key)
                       else if after = [''vault.toml''] then Some (Config_target Vault_key)
                       else None)
              else if is_markdown_file p True then Some Note_target
              else None)"

text \<open>The kinds of \<open>notify\<close>: \<open>Other_kind\<close> stands for \<open>Any\<close>, \<open>Access\<close> and \<open>Other\<close>.\<close>

datatype EventKind = Create_kind | Modify_kind | Remove_kind | Other_kind

fun classify_event :: "EventKind \<Rightarrow> ChangeAction option" where
  "classify_event Create_kind = Some Upsert"
| "classify_event Modify_kind = Some Upsert"
| "classify_event Remove_kind = Some Delete"
| "classify_event Other_kind = None"

type_synonym pending = "(fpath \<times> ChangeAction \<times> WatchTarget) list"

definition record_path :: "fpath \<Rightarrow> ChangeAction \<Rightarrow> fpath \<Rightarrow> pending \<Rightarrow> pending" where
  "record_path root action p pending =
     (if prefix root p
      then (case classify_path root p of Some target \<Rightarrow> AList.update p (action, target) pending | None \<Rightarrow> pending)
      else pending)"

definition record_event :: "fpath \<Rightarrow> string + EventKind \<times> fpath list \<Rightarrow> pending \<Rightarrow> pending" where
  "record_event root event pending =
     (case event of
        Inl _ \<Rightarrow> pending
      | Inr (kind, paths) \<Rightarrow>
          (case classify_event kind of
             None \<Rightarrow> pending
           | Some action \<Rightarrow> fold (record_path root action) paths pending))"

section \<open>Changes\<close>

text \<open>What the watcher keeps of a vault; \<open>wd_periodic\<close> is the part of the configuration the cache uses.\<close>

record Watched =
  wd_cache :: CacheDb
  wd_index :: SearchIndex
  wd_warnings :: ParseWarnings
  wd_periodic :: PeriodicConfig
  wd_events :: EventBuffer

text \<open>The file system, the database and the index with their failures, the parsers, the clock and the reading of the
  configuration with its migration.\<close>

record 'd WatchLib =
  wl_index :: "'d IndexLib"
  wl_io :: IoFaults
  wl_sql :: sql_faults
  wl_search :: search_faults
  wl_hash :: "string \<Rightarrow> string"
  wl_fields :: "string \<Rightarrow> (string \<times> yaml) list option"
  wl_yaml_error :: "string \<Rightarrow> string option"
  wl_now :: string
  wl_sidebar :: "string \<Rightarrow> string + unit"
  wl_config :: "FileTree \<Rightarrow> string + PeriodicConfig"
  wl_query_fails :: bool

definition watch_emit :: "VaultEvent \<Rightarrow> Watched \<Rightarrow> Watched" where
  "watch_emit e w = w\<lparr>wd_events := snd (emit e (wd_events w))\<rparr>"

definition remove_watched :: "'d WatchLib \<Rightarrow> string \<Rightarrow> string \<Rightarrow> Watched \<Rightarrow> (string + unit) \<times> Watched" where
  "remove_watched lib vault path w =
     (case cache_remove_note (wl_sql lib) vault path (wd_cache w) of
        (Inl e, db) \<Rightarrow> (Inl e, w\<lparr>wd_cache := db\<rparr>)
      | (Inr _, db) \<Rightarrow>
          (case search_remove_note (wl_search lib) path (wd_index w) of
             (Inl e, ix) \<Rightarrow> (Inl e, w\<lparr>wd_cache := db, wd_index := ix\<rparr>)
           | (Inr _, ix) \<Rightarrow>
               (Inr (), watch_emit (event_new (wl_now lib) vault NoteDeleted path)
                  (w\<lparr>wd_cache := db, wd_index := ix, wd_warnings := clear_path path (wd_warnings w)\<rparr>))))"

definition update_watched :: "'d WatchLib \<Rightarrow> string \<Rightarrow> Note \<Rightarrow> Watched \<Rightarrow> ((string + unit) \<times> Watched) outcome" where
  "update_watched lib vault n w =
     bind_outcome (index_note (wl_index lib) (Some (wd_periodic w)) (wl_sql lib) vault n (wd_cache w)) (\<lambda>(r, db). Done (
       case r of
         Inl e \<Rightarrow> (Inl e, w\<lparr>wd_cache := db\<rparr>)
       | Inr _ \<Rightarrow>
           (case search_update_note (wl_index lib) (wl_search lib) vault n (wd_index w) of
              (Inl e, ix) \<Rightarrow> (Inl e, w\<lparr>wd_cache := db, wd_index := ix\<rparr>)
            | (Inr _, ix) \<Rightarrow>
                (Inr (), watch_emit (with_hash (event_new (wl_now lib) vault NoteUpdated (sn_path n)) (sn_hash n))
                   (w\<lparr>wd_cache := db, wd_index := ix,
                      wd_warnings := update_for_note (wl_yaml_error lib) (wl_now lib) n (wd_warnings w)\<rparr>)))))"

definition read_watched :: "'d WatchLib \<Rightarrow> string \<Rightarrow> string \<Rightarrow> FileTree \<Rightarrow> string + Note" where
  "read_watched lib root path t =
     (case engine_read (wl_io lib) root path t of
        Inl e \<Rightarrow> Inl (notesmith_error_text e)
      | Inr content \<Rightarrow> Inr (parse_note (wl_hash lib) (wl_fields lib) path content))"

definition handle_note_change ::
  "'d WatchLib \<Rightarrow> string \<Rightarrow> string \<Rightarrow> fpath \<Rightarrow> string \<Rightarrow> ChangeAction \<Rightarrow> FileTree \<Rightarrow> Watched \<Rightarrow> ((string + unit) \<times> Watched) outcome" where
  "handle_note_change lib vault root p path action t w =
     (if action = Delete \<or> \<not> os_exists t p then Done (remove_watched lib vault path w)
      else (case read_watched lib root path t of
              Inl e \<Rightarrow> Done (Inl e, w)
            | Inr n \<Rightarrow> update_watched lib vault n w))"

definition load_sidebar :: "'d WatchLib \<Rightarrow> fpath \<Rightarrow> FileTree \<Rightarrow> string + unit" where
  "load_sidebar lib root t =
     (case os_read (wl_io lib) (root @ [''.notesmith'', ''sidebar.yaml'']) t of
        Inr raw \<Rightarrow> wl_sidebar lib raw
      | Inl IoNotFound \<Rightarrow> Inr ()
      | Inl (IoOther e) \<Rightarrow> Inl e)"

definition config_detail :: "'d WatchLib \<Rightarrow> string \<Rightarrow> ConfigKey \<Rightarrow> EventType \<Rightarrow> string \<Rightarrow> string option \<Rightarrow> VaultEvent" where
  "config_detail lib vault key ty status err =
     config_event (wl_now lib) vault ty (config_relative_path key)
       \<lparr>cd_key = config_key_str key, cd_status = status, cd_error = err\<rparr>"

definition handle_config_change ::
  "'d WatchLib \<Rightarrow> string \<Rightarrow> fpath \<Rightarrow> ConfigKey \<Rightarrow> ChangeAction \<Rightarrow> FileTree \<Rightarrow> Watched \<Rightarrow> Watched" where
  "handle_config_change lib vault root key action t w =
     (case action of
        Delete \<Rightarrow> watch_emit (config_detail lib vault key ConfigRemoved ''removed'' None) w
      | Upsert \<Rightarrow>
          (case key of
             Sidebar_key \<Rightarrow>
               (case load_sidebar lib root t of
                  Inr _ \<Rightarrow> watch_emit (config_detail lib vault key ConfigChanged ''changed'' None) w
                | Inl e \<Rightarrow> watch_emit (config_detail lib vault key ConfigError ''error'' (Some e)) w)
           | Vault_key \<Rightarrow>
               (case wl_config lib t of
                  Inr periodic \<Rightarrow>
                    watch_emit (config_detail lib vault key ConfigChanged ''changed'' None) (w\<lparr>wd_periodic := periodic\<rparr>)
                | Inl e \<Rightarrow> watch_emit (config_detail lib vault key ConfigError ''error'' (Some e)) w)))"

text \<open>The first error ends the batch.\<close>

fun process_changes ::
  "'d WatchLib \<Rightarrow> string \<Rightarrow> string \<Rightarrow> pending \<Rightarrow> FileTree \<Rightarrow> Watched \<Rightarrow> ((string + unit) \<times> Watched) outcome" where
  "process_changes lib vault root [] t w = Done (Inr (), w)"
| "process_changes lib vault root ((p, action, target) # changes) t w =
     (case relative_vault_path (at root []) p of
        None \<Rightarrow> Done (Inl ''failed to compute relative path'', w)
      | Some path \<Rightarrow>
          (case target of
             Note_target \<Rightarrow>
               bind_outcome (handle_note_change lib vault root p path action t w) (\<lambda>(r, w').
                 case r of Inl e \<Rightarrow> Done (Inl e, w') | Inr _ \<Rightarrow> process_changes lib vault root changes t w')
           | Config_target key \<Rightarrow>
               process_changes lib vault root changes t (handle_config_change lib vault (at root []) key action t w)))"

text \<open>A vault that is gone is left alone.\<close>

definition process_pending ::
  "'d WatchLib \<Rightarrow> string \<Rightarrow> string \<Rightarrow> pending \<Rightarrow> FileTree \<Rightarrow> Watched option \<Rightarrow> ((string + unit) \<times> Watched option) outcome" where
  "process_pending lib vault root changes t w =
     (case w of
        None \<Rightarrow> Done (Inr (), None)
      | Some w \<Rightarrow> bind_outcome (process_changes lib vault root changes t w) (\<lambda>(r, w'). Done (r, Some w')))"

section \<open>The canary\<close>

text \<open>Hidden files and directories below the root are not counted; an error outside of them fails the count.\<close>

definition hidden_below :: "fpath \<Rightarrow> fpath \<Rightarrow> bool" where
  "hidden_below root p \<longleftrightarrow> list_ex (\<lambda>c. prefix ''.'' c) (drop (length root) p)"

fun count_md_files :: "fpath \<Rightarrow> walk_entry list \<Rightarrow> string + nat" where
  "count_md_files root [] = Inr 0"
| "count_md_files root (Inl e # entries) = Inl e"
| "count_md_files root (Inr (p, is_file) # entries) =
     (case count_md_files root entries of
        Inl e \<Rightarrow> Inl e
      | Inr n \<Rightarrow> Inr (if \<not> hidden_below root p \<and> is_markdown_file p is_file then Suc n else n))"

text \<open>A count that cannot be had is zero.\<close>

definition cached_note_count :: "'d WatchLib \<Rightarrow> string \<Rightarrow> CacheDb \<Rightarrow> nat" where
  "cached_note_count lib vault db =
     (if wl_query_fails lib then 0
      else length (filter (\<lambda>r. row_table r = Notes \<and> row_vault r = vault) (db_rows db)))"

text \<open>The scan with the whole of each note.\<close>

definition scanned_note :: "'d WatchLib \<Rightarrow> fpath \<Rightarrow> FileTree \<Rightarrow> walk_entry \<Rightarrow> Note option" where
  "scanned_note lib root t entry =
     (case entry of
        Inl _ \<Rightarrow> None
      | Inr (p, is_file) \<Rightarrow>
          if should_skip_entry root p \<or> \<not> is_markdown_file p is_file then None
          else (case relative_vault_path root p of
                  None \<Rightarrow> None
                | Some path \<Rightarrow>
                    (case os_read (wl_io lib) p t of
                       Inl _ \<Rightarrow> None
                     | Inr content \<Rightarrow> Some (parse_note (wl_hash lib) (wl_fields lib) path content))))"

definition scan_notes :: "'d WatchLib \<Rightarrow> fpath \<Rightarrow> walk_entry list \<Rightarrow> FileTree \<Rightarrow> Note list" where
  "scan_notes lib root entries t = sort_key sn_path (List.map_filter (scanned_note lib root t) entries)"

definition trigger_rescan ::
  "'d WatchLib \<Rightarrow> string \<Rightarrow> string \<Rightarrow> walk_entry list \<Rightarrow> FileTree \<Rightarrow> Watched \<Rightarrow> ((string + unit) \<times> Watched) outcome" where
  "trigger_rescan lib vault root entries t w =
     (let notes' = scan_notes lib (at root []) entries t
      in bind_outcome (index_all (wl_index lib) (Some (wd_periodic w)) (wl_sql lib) vault notes' (wd_cache w)) (\<lambda>(r, db). Done (
           case r of
             Inl e \<Rightarrow> (Inl e, w\<lparr>wd_cache := db\<rparr>)
           | Inr _ \<Rightarrow>
               (case search_reindex (wl_index lib) (wl_search lib) vault notes' (wd_index w) of
                  (Inl e, ix) \<Rightarrow> (Inl e, w\<lparr>wd_cache := db, wd_index := ix\<rparr>)
                | (Inr _, ix) \<Rightarrow>
                    (Inr (), w\<lparr>wd_cache := db, wd_index := ix, wd_warnings :=
                       replace_all (List.map_filter (note_parse_warning (wl_yaml_error lib) (wl_now lib)) notes')
                         (wd_warnings w)\<rparr>)))))"

definition degraded_message :: "nat \<Rightarrow> string \<Rightarrow> string option" where
  "degraded_message diff rest = Some (''Detected '' @ show_nat diff @ rest)"

definition ellipsis :: string where
  "ellipsis = [CHR 0xE2, CHR 0x80, CHR 0xA6]"

definition run_canary_check_once ::
  "'d WatchLib \<Rightarrow> string \<Rightarrow> string \<Rightarrow> walk_entry list \<Rightarrow> FileTree \<Rightarrow> WatcherState \<times> Watched \<Rightarrow>
     ((string + unit) \<times> WatcherState \<times> Watched) outcome" where
  "run_canary_check_once lib vault root entries t st =
     (case st of (ws, w) \<Rightarrow>
        (case count_md_files (at root []) entries of
           Inl e \<Rightarrow> Done (Inl e, st)
         | Inr disk_count \<Rightarrow>
             (let cached_count = cached_note_count lib vault (wd_cache w);
                  diff = (disk_count - cached_count) + (cached_count - disk_count)
              in if diff = 0 then Done (Inr (), st)
                 else (let ws1 = set_health Degraded (degraded_message diff ('' missed changes, resyncing'' @ ellipsis)) ws
                   in bind_outcome (trigger_rescan lib vault root entries t w) (\<lambda>(r, w').
                     case r of
                       Inr _ \<Rightarrow> Done (Inr (), set_health (watcher_health ws) (ws_message ws) ws1, w')
                     | Inl e \<Rightarrow>
                         Done (Inl e, set_health Degraded
                           (degraded_message diff '' missed changes; automatic refresh failed'') ws1, w'))))))"

end
