(* ===== verification/WatcherSync.thy ===== *)
theory WatcherSync
  imports Watcher
begin

text \<open>
  What the watcher achieves: after a batch of changes the cache and the index hold, for every changed path, the note
  that is on disk, and for every other path what they held before.
\<close>

section \<open>The last event of a path\<close>

fun event_action :: "fpath \<Rightarrow> fpath \<Rightarrow> string + EventKind \<times> fpath list \<Rightarrow> ChangeAction option" where
  "event_action root p (Inl e) = None"
| "event_action root p (Inr (kind, paths)) = (if p \<in> set paths then classify_event kind else None)"

lemma record_path_lookup:
  "map_of (record_path root action q pending) p =
     (if q = p then (case classify_path root p of Some target \<Rightarrow> Some (action, target) | None \<Rightarrow> map_of pending p)
      else map_of pending p)"
  by (auto simp: record_path_def update_conv' classify_path_def split: option.splits)

lemma record_paths_lookup:
  "map_of (fold (record_path root action) paths pending) p =
     (if p \<in> set paths then (case classify_path root p of Some target \<Rightarrow> Some (action, target) | None \<Rightarrow> map_of pending p)
      else map_of pending p)"
  by (induction paths arbitrary: pending) (auto simp: record_path_lookup split: option.splits)

lemma record_event_lookup:
  "map_of (record_event root event pending) p =
     (case (event_action root p event, classify_path root p) of
        (Some action, Some target) \<Rightarrow> Some (action, target)
      | _ \<Rightarrow> map_of pending p)"
  by (cases event) (auto simp: record_event_def record_paths_lookup split: option.splits prod.splits)

lemma record_events_last:
  "map_of (fold (record_event root) events pending) p =
     (case (find (\<lambda>a. a \<noteq> None) (rev (map (event_action root p) events)), classify_path root p) of
        (Some (Some action), Some target) \<Rightarrow> Some (action, target)
      | _ \<Rightarrow> map_of pending p)"
proof (induction events arbitrary: pending rule: rev_induct)
  case (snoc e es)
  show ?case
    by (simp add: record_event_lookup snoc.IH split: option.splits)
qed (simp split: option.splits)

section \<open>What cache and index hold\<close>

definition represents :: "'d WatchLib \<Rightarrow> string \<Rightarrow> Watched \<Rightarrow> Note list \<Rightarrow> bool" where
  "represents lib v w ns \<longleftrightarrow>
     db_base (wd_cache w) = None \<and>
     db_rows (wd_cache w) = filter (\<lambda>r. row_vault r \<noteq> v) (db_rows (wd_cache w)) @
       concat (map (note_rows (wl_index lib) (Some (wd_periodic w)) v) ns) \<and>
     sx_seen (wd_index w) = map (document_for (wl_index lib) v) ns \<and> sx_docs (wd_index w) = sx_seen (wd_index w)"







lemma foreign_of_notes: "foreign_rows v (concat (map (note_rows il config v) ns)) = []"
  using note_rows_own [of _ il config v] by (auto simp: filter_empty_conv own_row_def)





section \<open>A batch of changes\<close>











section \<open>Properties\<close>


section \<open>Witnesses\<close>

text \<open>A vault in which one note was deleted and another one created.\<close>

definition watch_lib :: "nat WatchLib" where
  "watch_lib =
     \<lparr>wl_index = demo_index, wl_io = no_faults, wl_sql = (\<lambda>s db. None), wl_search = (\<lambda>c. None), wl_hash = id,
      wl_fields = (\<lambda>s. None), wl_yaml_error = (\<lambda>s. None), wl_now = ''t'', wl_sidebar = (\<lambda>s. Inr ()),
      wl_config = (\<lambda>t. Inl ''none''), wl_query_fails = False\<rparr>"






definition watch_batch :: pending where
  "watch_batch = [([''v'', ''b.md''], Delete, Note_target), ([''v'', ''a.md''], Upsert, Note_target)]"

lemma watch_recorded:
  "fold (record_event [''v'']) [Inr (Create_kind, [[''v'', ''b.md''], [''v'', ''x.txt'']]), Inr (Remove_kind, [[''v'', ''b.md'']]),
     Inr (Other_kind, [[''v'', ''c.md'']]), Inr (Modify_kind, [[''v'', ''a.md'']])] [] = watch_batch"
  by code_simp


section \<open>The canary\<close>

lemma other_rows_kept:
  assumes "inserted s = Some r" "row_table r \<noteq> Notes"
  shows "filter (\<lambda>r. row_table r = Notes) (row_effect s rows) = filter (\<lambda>r. row_table r = Notes) rows"
proof -
  have "row_table r' \<noteq> Notes" if "same_key r r'" for r' using that assms(2) by (cases r; cases r') auto
  then have "filter (\<lambda>r. row_table r = Notes) (filter (\<lambda>s. \<not> same_key r s) rows) = filter (\<lambda>r. row_table r = Notes) rows"
    by (auto simp: filter_filter intro: filter_cong)
  with inserted_cases [OF assms(1), of rows] assms(2) show ?thesis by auto
qed

lemma effects_other_rows:
  assumes "\<And>s. s \<in> set ss \<Longrightarrow> \<exists>r. inserted s = Some r \<and> row_table r \<noteq> Notes"
  shows "filter (\<lambda>r. row_table r = Notes) (effects ss rows) = filter (\<lambda>r. row_table r = Notes) rows"
  using assms
proof (induction ss arbitrary: rows)
  case (Cons s ss)
  then obtain r where "inserted s = Some r" "row_table r \<noteq> Notes" by auto
  with Cons show ?case by (simp add: other_rows_kept)
qed simp

lemma one_note_row:
  "filter (\<lambda>r. row_table r = Notes) (note_rows il config v n) = [Note_row (note_row il v n)]"
proof -
  have "\<exists>r. inserted s = Some r \<and> row_table r \<noteq> Notes" if "s \<in> set (tl (inserts il config v n))" for s
  proof -
    have vals: "s \<in> set (field_value_statements il v n key val) \<Longrightarrow> \<exists>r. inserted s = Some r \<and> row_table r \<noteq> Notes" for key val
      by (cases val) (auto simp: field_value_statements_def)
    have front: "s \<in> set (frontmatter_field_statements il v n) \<Longrightarrow> \<exists>r. inserted s = Some r \<and> row_table r \<noteq> Notes"
      by (cases "nt_fields n") (auto simp: frontmatter_field_statements_def dest: vals)
    from that front show ?thesis
      by (auto simp: inserts_def note_statements_def task_statements_def task_block_def inline_field_statements_def
          tag_statements_def link_statements_def frontmatter_link_statements_def periodic_statements_def split: option.splits)
  qed
  from effects_other_rows [OF this] show ?thesis
    by (simp add: note_rows_def inserts_def note_statements_def)
qed

lemma represented_count:
  assumes "represents lib v w ns" "\<not> wl_query_fails lib"
  shows "cached_note_count lib v (wd_cache w) = length ns"
proof -
  have own: "filter (\<lambda>r. row_table r = Notes \<and> row_vault r = v) (note_rows il config v n) = [Note_row (note_row il v n)]"
    for il :: "'a IndexLib" and config n
  proof -
    have "filter (\<lambda>r. row_table r = Notes \<and> row_vault r = v) (note_rows il config v n) =
        filter (\<lambda>r. row_table r = Notes) (note_rows il config v n)"
      using note_rows_own [of _ il config v n] by (intro filter_cong) (auto simp: own_row_def)
    then show ?thesis by (simp add: one_note_row)
  qed
  have all: "length (filter (\<lambda>r. row_table r = Notes \<and> row_vault r = v)
      (concat (map (note_rows (wl_index lib) (Some (wd_periodic w)) v) ns))) = length ns"
    by (induction ns) (simp_all add: own)
  have "db_rows (wd_cache w) = filter (\<lambda>r. row_vault r \<noteq> v) (db_rows (wd_cache w)) @
      concat (map (note_rows (wl_index lib) (Some (wd_periodic w)) v) ns)"
    using assms(1) by (simp add: represents_def)
  then have "length (filter (\<lambda>r. row_table r = Notes \<and> row_vault r = v) (db_rows (wd_cache w))) =
      length (filter (\<lambda>r. row_table r = Notes \<and> row_vault r = v)
        (filter (\<lambda>r. row_vault r \<noteq> v) (db_rows (wd_cache w)) @
          concat (map (note_rows (wl_index lib) (Some (wd_periodic w)) v) ns)))"
    by (rule arg_cong)
  also have "\<dots> = length ns" using all by (simp add: filter_empty_conv cong: conj_cong)
  finally show ?thesis using assms(2) by (simp add: cached_note_count_def)
qed

lemma rescan_represents:
  assumes "accepting (wl_sql lib)" "\<And>c. wl_search lib c = None" "db_base (wd_cache w) = None"
    and "list_all (\<lambda>d. sd_vault d = v) (sx_docs (wd_index w))"
    and "indexable (wl_index lib) (Some (wd_periodic w)) (scan_notes lib (at root []) entries t)"
  shows "\<exists>w'. trigger_rescan lib v root entries t w = Done (Inr (), w') \<and>
    represents lib v w' (scan_notes lib (at root []) entries t) \<and> wd_periodic w' = wd_periodic w"
  using index_all_indexable [OF assms(1,3,5), of v] assms(4)
  by (auto simp: trigger_rescan_def search_reindex_def write_documents_accepted [OF assms(2)] represents_def
      foreign_of_notes filter_empty_conv list_all_iff Let_def)

text \<open>A check after a rescan is quiet exactly when the walk of the check counts as many notes as the scan reads.\<close>

lemma canary_settles_iff:
  assumes "represents lib v w (scan_notes lib (at root []) entries t)" "\<not> wl_query_fails lib"
  shows "n = cached_note_count lib v (wd_cache w) \<longleftrightarrow> n = length (scan_notes lib (at root []) entries t)"
  using represented_count [OF assms] by simp

text \<open>A readable note in a hidden directory is scanned but not counted: the check rescans every time.\<close>

lemma canary_never_settles:
  "count_md_files [''v''] [Inr ([''v'', ''.trash'', ''a.md''], True)] = Inr 0"
  "length (scan_notes watch_lib [''v''] [Inr ([''v'', ''.trash'', ''a.md''], True)]
     \<lparr>ft_files = [[''v'', ''.trash'', ''a.md''] \<mapsto> ''x''], ft_dirs = {}\<rparr>) = 1"
  by code_simp+

end
