(* ===== verification/Spec2Isabelle.thy ===== *)
theory Spec2Isabelle
  imports Prelude ManagedSection JobApi Permission Servers Windows UrlScheme Vault Transcribe Routing Fetch Chunker NoteRoutes MemorySafety Ingest PeriodicNotes WatcherSync
begin

text \<open>
  Verification library of notesmith, a server and desktop app for vaults of Markdown notes.  Paths of sources below
  are those under \<open>src/crates/\<close>.

  \<^bold>\<open>The program.\<close>  A vault is a directory of notes.  \<open>notesmith-vault\<close> reads, guards and writes the note files,
  splits off their frontmatter and parses their links, tasks and blocks.  \<open>notesmith-index\<close> keeps a cache of each
  vault in SQLite and a full-text index.  \<open>notesmith-http\<close> is the server: routes that change notes, a file watcher
  that brings cache and index up to date, and a runner of scheduled jobs.  \<open>notesmith-ops\<close> holds the operations on
  memory facts and periodic notes; \<open>notesmith-routing\<close> files notes by rules; \<open>notesmith-ingest\<close>,
  \<open>notesmith-transcribe\<close> and \<open>notesmith-clip\<close> bring in material from outside; \<open>notesmith-permission\<close> and
  \<open>notesmith-agent\<close> decide what agents may write; \<open>notesmith-tauri\<close> is the desktop app.  All writers go through the
  native engine, so its file tree and its guarded write are the store most theories share.

  \<^bold>\<open>Conventions.\<close>  A Rust string is its list of UTF-8 bytes, a panic is a value (\<open>outcome\<close> in StdModel), an error is
  the left side of a sum, a structure a record with the source's field names, an enumeration a datatype, a database
  table the list of its rows, a hash map a partial map, a mutable object an argument that is returned updated.  Clocks,
  calendars, hashes, YAML, JSON, HTML and PDF readers, the HTTP client and the operating system are code
  outside of the sources: they are parameters, mostly gathered in one record per component (\<open>chrono\<close>, \<open>Os\<close>,
  \<open>YamlLib\<close>, \<open>NoteLib\<close>, \<open>FactLib\<close>, \<open>RouteLib\<close>, \<open>TemplateLib\<close>, \<open>DocLib\<close>, \<open>IngestLib\<close>, \<open>IndexLib\<close>, \<open>UrlLib\<close>,
  \<open>Net\<close>), and what a theorem needs of them is a named hypothesis.  Calls of the operating system or of SQLite that
  may fail take a function that says which of them do, so a theorem "whatever fails" quantifies over all of these.

  \<^bold>\<open>Shared theories.\<close>
  \<^item> Prelude and StdModel: bytes, trimming, splitting, joining of paths, \<open>serde_json\<close> values, panics, and the locales
    of the interfaces that several components offer.  Utf8: characters, boundaries and slices of well-formed text.
  \<^item> Locales and the code that provides them.  \<open>op_machine\<close> (any list of operations keeps an invariant): \<open>servers\<close>,
    \<open>window_registry\<close>, \<open>transcription\<close>, \<open>parse_warnings\<close>.  \<open>vault_scoped\<close> extends it (operations under one vault are
    invisible to another): \<open>grant_store\<close>.  \<open>refinement\<close> (a run of requests is the replay of the successful ones on an
    abstract state): \<open>note_server\<close>.  \<open>fresh_names\<close> (the search for a free name ends with the first one):
    \<open>id_search\<close> and \<open>free_destination\<close>.  \<open>bounded_log\<close> (the newest entries are kept): \<open>event_log\<close>.  \<open>run_log\<close>
    (what the run records tell after a success is stamped): \<open>job_log\<close>.  \<open>note_engine\<close> (the guarded store of notes):
    \<open>native\<close>.  \<open>row_invariant\<close> (what the statements on a cache keep wherever they stop): \<open>owned\<close> and \<open>foreign\<close>.

  \<^bold>\<open>Jobs\<close> (\<open>notesmith-config/src/jobs.rs\<close>, \<open>notesmith-git/src/timers.rs\<close>, \<open>notesmith-http/src/jobs/\<close>,
  \<open>routes/jobs.rs\<close>, \<open>events.rs\<close>).
  \<^item> JobSchedule: configuration, durations, validation with the walk of the after-graph, fire times and due-ness
    (\<open>jobs.rs\<close>, \<open>schedule.rs\<close>).  Accepted after-lists make the graph acyclic; a time-of-day job is due exactly when
    one of the fire times of the last eight days lies after its last run and not after now.
  \<^item> JobGate: run state and same-day gate (\<open>state.rs\<close>, \<open>gate.rs\<close>), with the exact condition under which it opens.
  \<^item> JobRun: commands, environment, captured output and outcome (\<open>run.rs\<close>).
  \<^item> JobRunner: registry, scheduling pass, execution, verdicts (\<open>mod.rs\<close>): what a pass may start.
  \<^item> JobApi: triggers, supervisor and routes; the steps of runner tasks and triggers on the registry are the relation
    \<open>registry_step\<close>, and in every interleaving the registry holds exactly the executing jobs, none twice.
  \<^item> Events: ids, window and resume of the event buffer, and the two steps of a push as a relation.

  \<^bold>\<open>Notes\<close> (\<open>notesmith-vault\<close>, \<open>notesmith-http/src/routes/notes.rs\<close>, \<open>helpers.rs\<close>).
  \<^item> ManagedSection: \<open>managed_section.rs\<close>; when an update succeeds, and that it changes nothing outside of its markers.
  \<^item> Vault: \<open>frontmatter.rs\<close>, \<open>save_pipeline.rs\<close> and the engine of \<open>engine.rs\<close> on a tree of files; accepted
    guarded writes form a chain of hashes.  NoteDocs: the texts built from a mapping and a body.  Scan: the notes of
    a directory walk.
  \<^item> Wikilinks: code ranges and the rewriting of links after a rename, exact on a body and on a vault.
  \<^item> NoteParser: \<open>parser.rs\<close>; each regular expression is a function on characters; every link stands at its recorded
    position in the body.
  \<^item> NoteRoutes: the handlers that change notes; any run of requests refines an abstract store (\<open>requests_refine_store\<close>).
  \<^item> Routing: rules, planning and filing (\<open>notesmith-routing\<close>); no note is lost whatever step fails.

  \<^bold>\<open>Cache, index and watcher\<close> (\<open>notesmith-index\<close>, \<open>notesmith-http/src/watcher.rs\<close>, \<open>parse_warnings.rs\<close>).
  \<^item> CacheIndex: the rows of a note and the statements and transactions that write them (\<open>indexer.rs\<close>, \<open>cache.rs\<close>).
    CacheSafety: no orphaned rows in any reachable cache, and failed operations that leave it as it was.
    CacheRebuild: updating one note gives the cache that a rebuild gives, under a side condition on task hashes.
  \<^item> SearchIndex: committed, written and loaded documents (\<open>search.rs\<close>).  ParseWarnings: the list of warnings.
  \<^item> Watcher: classification, debouncing, handling of changes and the periodic check.  WatcherSync: after a batch cache
    and index hold what is on disk at the changed paths; when the periodic check finds nothing to do.

  \<^bold>\<open>Memory, periodic notes and templates\<close> (\<open>notesmith-ops\<close>, \<open>notesmith-core\<close>, \<open>notesmith-config/src/vault.rs\<close>,
  \<open>notesmith-templates\<close>, \<open>notesmith-http/src/scheduler.rs\<close>).
  \<^item> Facts, MemoryOps, MemorySafety: facts, the operations with their previews and rollbacks, and what they promise:
    a token writes what its preview showed, nothing outside of the folder changes, no fact is lost.
  \<^item> Periodic, Templates, PeriodicNotes: keys and bounds of periods, templates and the creation of the notes, which are
    recognized again by their paths and created once.

  \<^bold>\<open>Intake\<close>: Fetch (the guarded fetch of \<open>notesmith-clip\<close>: only public addresses, a bounded chain of redirects),
  Document and Ingest (the drop folder: which files a pass may touch, when it is steady), Chunker (chunks within their
  bounds that lose no word), Transcribe (queue, worker and rendering: attempts bounded, settled rows final).

  \<^bold>\<open>Permissions and desktop\<close>: Permission (stored grants and the policy for an agent's calls), Servers (saved servers,
  tokens and their scope), Windows (registry and placement), UrlScheme (deep links and app URLs).

  \<^bold>\<open>Termination, bounds and overflow.\<close>  Loops of the sources are structural recursions or functions with a measure
  (the rest of the text, the files left to visit); no fuel stands in for a loop.  The two searches that need not end,
  for a free server id and a free file name, are the partial function \<open>search_free\<close>, whose result \<open>None\<close> is not
  returning; it is shown to end on finite sets of taken names.  The recursion over redirects counts down the limit of
  the source, the search for a fire time the eight days of the source.  Buffers have the sizes of the source (100
  events kept for a resume, 100 parse warnings, 16 rows per transcription pass with five attempts).  Machine integers
  whose overflow the code could meet are checked: durations, quarters and dates at the ends of the calendar give
  the panic as a value; the octets of addresses are words of their width, and event ids words of 64 bits, whose theorem
  on resuming carries the bound it needs.  Counts and offsets bounded by the length of a text are natural numbers.

  \<^bold>\<open>Not modelled.\<close>  Partly modelled parts leave out: the timer tasks of git; spawning, pipes and killing of job
  processes; the handlers that only query the index or render HTML, and the renaming of folders; recall and listing of
  facts; queries, scores and snippets of the full-text index; starting a watcher, network drives and the migration
  of the configuration.  Left out are what only calls libraries, processes or the network, or holds data without
  operations: user views and field registry, the configuration files, queries with floating-point
  scores, git through libgit2, hook processes, HTML rendering, embeddings, extraction of clips, speech models and
  their store, the wiring of the HTTP server, agent sessions over pipes, the MCP server, the command line, the shell
  of the desktop app and bundled texts.  Tokio's scheduling appears only where an interleaving matters (registry,
  event buffer); elsewhere an operation is one step, as it is under the lock that the code holds.
\<close>

end
